(* ===== verification/Prelude.thy ===== *)
theory Prelude
  imports Main "HOL-Library.Char_ord" "HOL-Library.List_Lexorder"
begin

text \<open>
  Shared vocabulary of the development: Python exceptions, Python text, JSON values,
  the error and transaction combinators, and the generic facts on lists that the
  component theories use.

  A Python \<open>str\<close> is modelled by its UTF-8 bytes (type \<^typ>\<open>string\<close>). Equality,
  concatenation, prefix and substring tests and the ordering of two texts agree with
  Python's on code points. White space is Python's full Unicode set; letter, digit and
  word classes and case conversion are those of ASCII.
\<close>

section \<open>Collections of simplification rules\<close>

named_theorems store_defs \<open>definitions of the store's operations\<close>
named_theorems row_simps \<open>facts about selecting and updating table rows\<close>
named_theorems frame_simps \<open>tables an operation does not touch\<close>

section \<open>Exceptions\<close>

text \<open>The exception classes that the control plane raises and tells apart, each with the
  text that \<open>str(exc)\<close> gives.\<close>

datatype exc =
    StateError string
  | AuthorizationError string
  | PolicyError string
  | RoutingError string
  | WorkerError string
  | GitHubError string
  | GovernanceError string
  | SupervisorError string
  | SourceError string
  | ProtocolError string
  | HostConfigError string
  | HostProcessError string
  | ServiceError string
  | TimeoutError string
  | IntegrityError string
  | ValueError string
  | TypeError string
  | KeyError string
  | IndexError string
  | OverflowError string
  | RecursionError string
  | OSError string
  | AttributeError string

fun exc_text :: "exc \<Rightarrow> string" where
  "exc_text (StateError m) = m"
| "exc_text (AuthorizationError m) = m"
| "exc_text (PolicyError m) = m"
| "exc_text (RoutingError m) = m"
| "exc_text (WorkerError m) = m"
| "exc_text (GitHubError m) = m"
| "exc_text (GovernanceError m) = m"
| "exc_text (SupervisorError m) = m"
| "exc_text (SourceError m) = m"
| "exc_text (ProtocolError m) = m"
| "exc_text (HostConfigError m) = m"
| "exc_text (HostProcessError m) = m"
| "exc_text (ServiceError m) = m"
| "exc_text (TimeoutError m) = m"
| "exc_text (IntegrityError m) = m"
| "exc_text (ValueError m) = m"
| "exc_text (TypeError m) = m"
| "exc_text (KeyError m) = m"
| "exc_text (IndexError m) = m"
| "exc_text (OverflowError m) = m"
| "exc_text (RecursionError m) = m"
| "exc_text (OSError m) = m"
| "exc_text (AttributeError m) = m"

text \<open>A computation that may raise is a value of \<open>exc + 'a\<close>; \<open>bindE\<close> sequences two.\<close>

type_synonym 'a result = "exc + 'a"

definition bindE :: "'a result \<Rightarrow> ('a \<Rightarrow> 'b result) \<Rightarrow> 'b result" where
  "bindE m f = (case m of Inl e \<Rightarrow> Inl e | Inr x \<Rightarrow> f x)"

lemma bindE_Inl [simp]: "bindE (Inl e) f = Inl e"
  and bindE_Inr [simp]: "bindE (Inr x) f = f x"
  by (simp_all add: bindE_def)

lemma bindE_eq_Inr: "bindE m f = Inr y \<longleftrightarrow> (\<exists>x. m = Inr x \<and> f x = Inr y)"
  by (cases m) auto

lemma bindE_InrE:
  assumes "bindE m f = Inr y"
  obtains x where "m = Inr x" "f x = Inr y"
  using assms by (auto simp: bindE_eq_Inr)

text \<open>\<open>forE\<close> runs a check over a list and stops at the first exception.\<close>

fun forE :: "('a \<Rightarrow> unit result) \<Rightarrow> 'a list \<Rightarrow> unit result" where
  "forE f [] = Inr ()"
| "forE f (x # xs) = (case f x of Inl e \<Rightarrow> Inl e | Inr _ \<Rightarrow> forE f xs)"

lemma forE_Inr: "forE f xs = Inr () \<longleftrightarrow> (\<forall>x\<in>set xs. f x = Inr ())"
  by (induction xs) (auto split: sum.splits)

fun mapE :: "('a \<Rightarrow> 'b result) \<Rightarrow> 'a list \<Rightarrow> 'b list result" where
  "mapE f [] = Inr []"
| "mapE f (x # xs) = bindE (f x) (\<lambda>y. bindE (mapE f xs) (\<lambda>ys. Inr (y # ys)))"

lemma mapE_Inr: "mapE f xs = Inr ys \<longleftrightarrow> list_all2 (\<lambda>x y. f x = Inr y) xs ys"
  by (induction xs arbitrary: ys) (auto simp: bindE_eq_Inr list_all2_Cons1)

section \<open>Text\<close>

definition starts_with :: "string \<Rightarrow> string \<Rightarrow> bool" where
  "starts_with p s \<longleftrightarrow> take (length p) s = p"

definition ends_with :: "string \<Rightarrow> string \<Rightarrow> bool" where
  "ends_with p s \<longleftrightarrow> starts_with (rev p) (rev s)"

lemma starts_with_append [simp]: "starts_with p (p @ s)"
  by (simp add: starts_with_def)

lemma starts_with_iff: "starts_with p s \<longleftrightarrow> (\<exists>t. s = p @ t)"
proof
  assume "starts_with p s"
  then have "s = p @ drop (length p) s"
    by (metis append_take_drop_id starts_with_def)
  then show "\<exists>t. s = p @ t" ..
qed (auto simp: starts_with_def)

lemma ends_with_iff: "ends_with p s \<longleftrightarrow> (\<exists>t. s = t @ p)"
  by (metis ends_with_def rev_append rev_rev_ident starts_with_iff)

text \<open>\<open>p in s\<close> for two texts.\<close>

fun contains :: "string \<Rightarrow> string \<Rightarrow> bool" where
  "contains p [] = (p = [])"
| "contains p (c # s) = (starts_with p (c # s) \<or> contains p s)"

lemma contains_iff: "contains p s \<longleftrightarrow> (\<exists>u v. s = u @ p @ v)"
proof (induction s)
  case (Cons c s)
  show ?case
  proof
    assume "contains p (c # s)"
    then consider "starts_with p (c # s)" | "contains p s" by auto
    then show "\<exists>u v. c # s = u @ p @ v"
    proof cases
      case 1
      then show ?thesis by (metis append_Nil starts_with_iff)
    next
      case 2
      with Cons.IH show ?thesis by (metis append_Cons)
    qed
  next
    assume "\<exists>u v. c # s = u @ p @ v"
    then obtain u v where *: "c # s = u @ p @ v" by blast
    show "contains p (c # s)"
    proof (cases u)
      case Nil
      with * have "starts_with p (c # s)" by (auto simp: starts_with_iff)
      then show ?thesis by simp
    next
      case (Cons d u')
      with * have "s = u' @ p @ v" by simp
      with Cons.IH show ?thesis by auto
    qed
  qed
qed auto

text \<open>The encodings of the code points for which \<open>str.isspace\<close> holds; regular expressions'
  \<^verbatim>\<open>\s\<close> is the same set.\<close>

definition ascii_space :: "char \<Rightarrow> bool" where
  "ascii_space c \<longleftrightarrow> (let n = of_char c :: nat in (9 \<le> n \<and> n \<le> 13) \<or> (28 \<le> n \<and> n \<le> 32))"

definition wide_spaces :: "string list" where
  "wide_spaces = map (map char_of)
     ([[194, 133], [194, 160], [225, 154, 128]]
      @ map (\<lambda>b. [226, 128, b]) [128, 129, 130, 131, 132, 133, 134, 135, 136, 137, 138, 168, 169, 175]
      @ [[226, 129, 159], [227, 128, 128 :: nat]])"

definition space_len :: "string list \<Rightarrow> string \<Rightarrow> nat" where
  "space_len codes s = (case s of [] \<Rightarrow> 0
     | c # _ \<Rightarrow> if ascii_space c then 1
                else if (of_char c :: nat) < 128 then 0
                else (case find (\<lambda>e. starts_with e s) codes of None \<Rightarrow> 0 | Some e \<Rightarrow> length e))"

lemma space_len_le: "space_len codes s \<le> length s"
proof -
  have "length e \<le> length s" if "find (\<lambda>e. starts_with e s) codes = Some e" for e
    using find_Some_iff [of "\<lambda>e. starts_with e s" codes e] that by (auto simp: starts_with_iff)
  then show ?thesis
    by (auto simp: space_len_def split: list.splits option.splits)
qed

function strip_by :: "string list \<Rightarrow> string \<Rightarrow> string" where
  "strip_by codes s = (if space_len codes s = 0 then s else strip_by codes (drop (space_len codes s) s))"
  by pat_completeness auto
termination
proof (relation "measure (\<lambda>(codes, s). length s)", goal_cases)
  case (2 codes s)
  then have "s \<noteq> []" by (auto simp: space_len_def)
  with 2 show ?case by simp
qed simp

declare strip_by.simps [simp del]

definition lstrip :: "string \<Rightarrow> string" where
  "lstrip s = strip_by wide_spaces s"

definition rstrip :: "string \<Rightarrow> string" where
  "rstrip s = rev (strip_by (map rev wide_spaces) (rev s))"

definition strip :: "string \<Rightarrow> string" where
  "strip s = lstrip (rstrip s)"

lemma strip_by_Nil [simp]: "strip_by codes [] = []"
  by (simp add: strip_by.simps space_len_def)

lemma strip_Nil [simp]: "strip [] = []"
  by (simp add: strip_def lstrip_def rstrip_def)

text \<open>A text between two characters that are no spaces is not stripped.\<close>

definition dark :: "char \<Rightarrow> bool" where
  "dark c \<longleftrightarrow> \<not> ascii_space c \<and> (of_char c :: nat) < 128"

lemma strip_by_dark: "s \<noteq> [] \<Longrightarrow> dark (hd s) \<Longrightarrow> strip_by codes s = s"
  by (cases s) (simp_all add: strip_by.simps [of codes "_ # _"] space_len_def dark_def)

lemma strip_dark: "s \<noteq> [] \<Longrightarrow> dark (hd s) \<Longrightarrow> dark (last s) \<Longrightarrow> strip s = s"
  by (simp add: strip_def lstrip_def rstrip_def strip_by_dark hd_rev)

definition lower_char :: "char \<Rightarrow> char" where
  "lower_char c = (let n = of_char c :: nat in if 65 \<le> n \<and> n \<le> 90 then char_of (n + 32) else c)"

definition lower :: "string \<Rightarrow> string" where
  "lower s = map lower_char s"

definition upper_char :: "char \<Rightarrow> char" where
  "upper_char c = (let n = of_char c :: nat in if 97 \<le> n \<and> n \<le> 122 then char_of (n - 32) else c)"

definition upper :: "string \<Rightarrow> string" where
  "upper s = map upper_char s"

text \<open>\<open>s.split(sep)\<close> for a one-character separator.\<close>

fun split_on :: "char \<Rightarrow> string \<Rightarrow> string list" where
  "split_on sep [] = [[]]"
| "split_on sep (c # s) =
     (if c = sep then [] # split_on sep s
      else (case split_on sep s of [] \<Rightarrow> [[c]] | p # ps \<Rightarrow> (c # p) # ps))"

fun join :: "string \<Rightarrow> string list \<Rightarrow> string" where
  "join sep [] = []"
| "join sep [x] = x"
| "join sep (x # y # ys) = x @ sep @ join sep (y # ys)"

lemma split_on_not_Nil [simp]: "split_on sep s \<noteq> []"
  by (cases s) (auto split: list.splits)

lemma join_split_on: "join [sep] (split_on sep s) = s"
proof (induction s)
  case (Cons c s)
  then show ?case
    by (cases "split_on sep s"; cases "tl (split_on sep s)") auto
qed simp

lemma split_on_no_sep: "p \<in> set (split_on sep s) \<Longrightarrow> sep \<notin> set p"
  by (induction s arbitrary: p) (auto split: if_splits list.splits)

lemma split_on_join:
  "xs \<noteq> [] \<Longrightarrow> (\<And>x. x \<in> set xs \<Longrightarrow> sep \<notin> set x) \<Longrightarrow> split_on sep (join [sep] xs) = xs"
proof (induction "[sep]" xs rule: join.induct)
  case (2 x)
  then have "sep \<notin> set x" by simp
  then show ?case by (induction x) auto
next
  case (3 x y ys)
  have "split_on sep (x @ sep # t) = x # split_on sep t" if "sep \<notin> set x" for t
    using that by (induction x) auto
  with 3 show ?case by simp
qed simp

text \<open>The number of code points of a text: bytes that do not continue a sequence.\<close>

definition text_len :: "string \<Rightarrow> nat" where
  "text_len s = length (filter (\<lambda>c. let n = of_char c :: nat in \<not> (128 \<le> n \<and> n < 192)) s)"

definition has_control :: "string \<Rightarrow> bool" where
  "has_control s \<longleftrightarrow> list_ex (\<lambda>c. (of_char c :: nat) < 32) s"

abbreviation nl :: string where "nl \<equiv> [CHR 10]"

abbreviation em_dash :: string where "em_dash \<equiv> [CHR 226, CHR 128, CHR 148]"

section \<open>Decimal numerals\<close>

definition digit_char :: "nat \<Rightarrow> char" where
  "digit_char d = char_of (48 + d)"

fun nat_text :: "nat \<Rightarrow> string" where
  "nat_text n = (if n < 10 then [digit_char n] else nat_text (n div 10) @ [digit_char (n mod 10)])"

declare nat_text.simps [simp del]

definition int_text :: "int \<Rightarrow> string" where
  "int_text i = (if i < 0 then ''-'' @ nat_text (nat (- i)) else nat_text (nat i))"

definition is_digit :: "char \<Rightarrow> bool" where
  "is_digit c \<longleftrightarrow> (let n = of_char c :: nat in 48 \<le> n \<and> n \<le> 57)"

definition digit_value :: "char \<Rightarrow> nat" where
  "digit_value c = of_char c - 48"

fun digits_value :: "nat \<Rightarrow> string \<Rightarrow> nat" where
  "digits_value acc [] = acc"
| "digits_value acc (c # s) = digits_value (10 * acc + digit_value c) s"

lemma digit_char_less [simp]: "d < 10 \<Longrightarrow> is_digit (digit_char d)"
  and digit_value_digit_char [simp]: "d < 10 \<Longrightarrow> digit_value (digit_char d) = d"
  by (simp_all add: is_digit_def digit_char_def digit_value_def)

lemma digits_value_append: "digits_value acc (s @ [c]) = 10 * digits_value acc s + digit_value c"
  by (induction s arbitrary: acc) auto

lemma nat_text_digits: "c \<in> set (nat_text n) \<Longrightarrow> is_digit c"
proof (induction n rule: nat_text.induct)
  case (1 n)
  then show ?case by (cases "n < 10") (auto simp: nat_text.simps [of n])
qed

lemma digits_value_nat_text: "digits_value 0 (nat_text n) = n"
proof (induction n rule: nat_text.induct)
  case (1 n)
  show ?case
  proof (cases "n < 10")
    case False
    with 1 have "digits_value 0 (nat_text (n div 10)) = n div 10" by simp
    with False show ?thesis
      by (simp add: nat_text.simps [of n] digits_value_append)
  qed (simp add: nat_text.simps [of n])
qed

lemma nat_text_inject: "nat_text m = nat_text n \<longleftrightarrow> m = n"
  by (metis digits_value_nat_text)

lemma nat_text_not_Nil [simp]: "nat_text n \<noteq> []"
  by (subst nat_text.simps) simp

section \<open>Lists\<close>

lemma length_filter_le_one:
  assumes "distinct (map k xs)" and "\<And>x. P x \<Longrightarrow> k x = a"
  shows "length (filter P xs) \<le> 1"
  using assms(1)
proof (induction xs)
  case (Cons x xs)
  show ?case
  proof (cases "P x")
    case True
    have "filter P xs = []"
      using True Cons.prems assms(2) by (force simp: filter_empty_conv)
    with True show ?thesis by simp
  next
    case False
    with Cons show ?thesis by simp
  qed
qed simp

lemma find_key_Some:
  assumes "distinct (map k xs)" and "x \<in> set xs" and "k x = a"
  shows "find (\<lambda>y. k y = a) xs = Some x"
  using assms by (induction xs) auto

lemma find_SomeD: "find P xs = Some x \<Longrightarrow> x \<in> set xs \<and> P x"
  by (auto simp: find_Some_iff)

lemma sum_list_map_nonneg:
  "(\<And>x. x \<in> set xs \<Longrightarrow> 0 \<le> f x) \<Longrightarrow> (0::int) \<le> sum_list (map f xs)"
  by (induction xs) auto

lemma sum_list_filter_le:
  "(\<And>x. x \<in> set xs \<Longrightarrow> P x \<Longrightarrow> Q x) \<Longrightarrow> (\<And>x. x \<in> set xs \<Longrightarrow> (0::int) \<le> f x)
   \<Longrightarrow> sum_list (map f (filter P xs)) \<le> sum_list (map f (filter Q xs))"
  by (induction xs) (auto simp: add_increasing)

end
