(* ===== verification/Values.thy ===== *)
theory Values
  imports Prelude
begin

text \<open>
  Dynamically typed Python values as they come from \<open>json.loads\<close> and YAML, with the
  operations the control plane uses on them: truthiness, \<open>str\<close>, \<open>int\<close>, \<open>dict.get\<close>
  and the canonical \<open>json.dumps\<close>. Also the UTC clock texts of \<open>store.utcnow\<close>.
\<close>

section \<open>JSON values\<close>

text \<open>A float is kept as what the code can observe of it: its \<open>repr\<close> and its truncation
  to an integer (none for infinities and NaN). A dictionary is an association list with
  string keys, in insertion order.\<close>

datatype json =
    JNull
  | JBool bool
  | JInt int
  | JFloat string "int option"
  | JStr string
  | JList "json list"
  | JObj "(string \<times> json) list"

fun truthy :: "json \<Rightarrow> bool" where
  "truthy JNull = False"
| "truthy (JBool b) = b"
| "truthy (JInt i) = (i \<noteq> 0)"
| "truthy (JFloat r _) = (r \<noteq> ''0.0'' \<and> r \<noteq> ''-0.0'')"
| "truthy (JStr s) = (s \<noteq> [])"
| "truthy (JList xs) = (xs \<noteq> [])"
| "truthy (JObj kvs) = (kvs \<noteq> [])"

text \<open>\<open>a or b\<close>\<close>

definition py_or :: "json \<Rightarrow> json \<Rightarrow> json" where
  "py_or a b = (if truthy a then a else b)"

text \<open>\<open>d.get(k)\<close> on a dictionary; a missing key is \<open>None\<close>.\<close>

definition dget :: "(string \<times> json) list \<Rightarrow> string \<Rightarrow> json" where
  "dget d k = (case map_of d k of None \<Rightarrow> JNull | Some v \<Rightarrow> v)"

definition dkeys :: "(string \<times> json) list \<Rightarrow> string list" where
  "dkeys d = map fst d"

definition has_key :: "(string \<times> json) list \<Rightarrow> string \<Rightarrow> bool" where
  "has_key d k \<longleftrightarrow> map_of d k \<noteq> None"

lemma has_key_dkeys: "has_key d k \<longleftrightarrow> k \<in> set (dkeys d)"
  by (simp add: has_key_def dkeys_def map_of_eq_None_iff)

lemma dget_absent: "\<not> has_key d k \<Longrightarrow> dget d k = JNull"
  by (simp add: has_key_def dget_def)

text \<open>\<open>repr\<close> of a text: single quotes unless the text holds one and no double quote.\<close>

definition hex_digit :: "nat \<Rightarrow> char" where
  "hex_digit n = (if n < 10 then char_of (48 + n) else char_of (87 + n))"

definition repr_char :: "char \<Rightarrow> char \<Rightarrow> string" where
  "repr_char q c = (let n = of_char c :: nat in
     if c = q \<or> n = 92 then [CHR 92, c]
     else if n = 10 then [CHR 92, CHR ''n'']
     else if n = 13 then [CHR 92, CHR ''r'']
     else if n = 9 then [CHR 92, CHR ''t'']
     else if n < 32 \<or> n = 127 then [CHR 92, CHR ''x'', hex_digit (n div 16), hex_digit (n mod 16)]
     else [c])"

definition repr_text :: "string \<Rightarrow> string" where
  "repr_text s = (let q = (if CHR 39 \<in> set s \<and> CHR 34 \<notin> set s then CHR 34 else CHR 39)
                  in q # concat (map (repr_char q) s) @ [q])"

fun py_repr :: "json \<Rightarrow> string" where
  "py_repr JNull = ''None''"
| "py_repr (JBool b) = (if b then ''True'' else ''False'')"
| "py_repr (JInt i) = int_text i"
| "py_repr (JFloat r _) = r"
| "py_repr (JStr s) = repr_text s"
| "py_repr (JList xs) = ''['' @ join '', '' (map py_repr xs) @ '']''"
| "py_repr (JObj kvs) = ''{'' @ join '', '' (map (\<lambda>kv. repr_text (fst kv) @ '': '' @ py_repr (snd kv)) kvs) @ ''}''"

text \<open>\<open>str(v)\<close>, and the idiom \<open>str(v or "")\<close>.\<close>

fun py_str :: "json \<Rightarrow> string" where
  "py_str (JStr s) = s"
| "py_str v = py_repr v"

definition str_or_empty :: "json \<Rightarrow> string" where
  "str_or_empty v = (if truthy v then py_str v else [])"

lemma str_or_empty_JStr [simp]: "str_or_empty (JStr s) = s"
  and str_or_empty_JNull [simp]: "str_or_empty JNull = []"
  by (auto simp: str_or_empty_def)

text \<open>\<open>int(v)\<close>: texts take surrounding white space, a sign and single underscores
  between digits.\<close>

fun int_digits :: "string \<Rightarrow> bool" where
  "int_digits [] = False"
| "int_digits [c] = is_digit c"
| "int_digits (c # d # s) = (is_digit c \<and> (if d = CHR ''_'' then int_digits s else int_digits (d # s)))"

definition int_of_text :: "string \<Rightarrow> int result" where
  "int_of_text s = (let t = strip s;
       neg = starts_with ''-'' t;
       body = (if neg \<or> starts_with ''+'' t then tl t else t)
     in if int_digits body
        then Inr ((if neg then - 1 else 1) * int (digits_value 0 (filter (\<lambda>c. c \<noteq> CHR ''_'') body)))
        else Inl (ValueError (''invalid literal for int() with base 10: '' @ repr_text s)))"

fun py_int :: "json \<Rightarrow> int result" where
  "py_int (JInt i) = Inr i"
| "py_int (JBool b) = Inr (if b then 1 else 0)"
| "py_int (JFloat r (Some i)) = Inr i"
| "py_int (JFloat r None) = (if r = ''nan'' then Inl (ValueError ''cannot convert float NaN to integer'')
                            else Inl (OverflowError ''cannot convert float infinity to integer''))"
| "py_int (JStr s) = int_of_text s"
| "py_int v = Inl (TypeError ''int() argument must be a string, a bytes-like object or a real number'')"

definition int_or_zero :: "json \<Rightarrow> int result" where
  "int_or_zero v = py_int (py_or v (JInt 0))"

lemma int_of_text_nat_text: "int_of_text (nat_text n) = Inr (int n)" if "strip (nat_text n) = nat_text n"
proof -
  have d: "list_all is_digit s \<Longrightarrow> s \<noteq> [] \<Longrightarrow> int_digits s" for s
    by (induction s rule: int_digits.induct) (auto simp: is_digit_def)
  have all: "list_all is_digit (nat_text n)"
    by (auto simp: list_all_iff dest: nat_text_digits)
  obtain c cs where cs: "nat_text n = c # cs" by (cases "nat_text n") auto
  with all have "is_digit c" by simp
  then have sg: "\<not> starts_with ''-'' (nat_text n)" "\<not> starts_with ''+'' (nat_text n)"
    by (auto simp: cs starts_with_def is_digit_def)
  have "filter (\<lambda>c. c \<noteq> CHR ''_'') (nat_text n) = nat_text n"
    using all by (auto simp: filter_id_conv list_all_iff is_digit_def)
  with that sg d [OF all] show ?thesis
    by (simp add: int_of_text_def digits_value_nat_text)
qed

section \<open>Canonical JSON text\<close>

text \<open>\<open>json.dumps(v, sort_keys=True, separators=(",", ":"))\<close>. Non-ASCII code points become
  \<^verbatim>\<open>\uXXXX\<close> escapes, as a surrogate pair above the basic plane.\<close>

fun utf8_points :: "string \<Rightarrow> nat list" where
  "utf8_points [] = []"
| "utf8_points (a # s) = (let x = of_char a :: nat in
     if x < 192 then x # utf8_points s
     else (case s of
        b # s1 \<Rightarrow> (if x < 224 then ((x - 192) * 64 + (of_char b - 128)) # utf8_points s1
                  else (case s1 of
                     c # s2 \<Rightarrow> (if x < 240
                        then ((x - 224) * 4096 + (of_char b - 128) * 64 + (of_char c - 128)) # utf8_points s2
                        else (case s2 of
                           d # s3 \<Rightarrow> ((x - 240) * 262144 + (of_char b - 128) * 4096
                                     + (of_char c - 128) * 64 + (of_char d - 128)) # utf8_points s3
                         | [] \<Rightarrow> []))
                   | [] \<Rightarrow> []))
      | [] \<Rightarrow> []))"

definition hex4 :: "nat \<Rightarrow> string" where
  "hex4 n = [CHR 92, CHR ''u'', hex_digit (n div 4096 mod 16), hex_digit (n div 256 mod 16),
             hex_digit (n div 16 mod 16), hex_digit (n mod 16)]"

definition json_point :: "nat \<Rightarrow> string" where
  "json_point n =
     (if n = 34 \<or> n = 92 then [CHR 92, char_of n]
      else if n = 10 then [CHR 92, CHR ''n'']
      else if n = 13 then [CHR 92, CHR ''r'']
      else if n = 9 then [CHR 92, CHR ''t'']
      else if n = 8 then [CHR 92, CHR ''b'']
      else if n = 12 then [CHR 92, CHR ''f'']
      else if 32 \<le> n \<and> n < 127 then [char_of n]
      else if n < 65536 then hex4 n
      else hex4 (55296 + (n - 65536) div 1024) @ hex4 (56320 + (n - 65536) mod 1024))"

definition json_text :: "string \<Rightarrow> string" where
  "json_text s = [CHR 34] @ concat (map json_point (utf8_points s)) @ [CHR 34]"

fun dumps_with :: "(string \<Rightarrow> string) \<Rightarrow> json \<Rightarrow> string" where
  "dumps_with enc JNull = ''null''"
| "dumps_with enc (JBool b) = (if b then ''true'' else ''false'')"
| "dumps_with enc (JInt i) = int_text i"
| "dumps_with enc (JFloat r _) = (if r = ''nan'' then ''NaN'' else if r = ''inf'' then ''Infinity''
                         else if r = ''-inf'' then ''-Infinity'' else r)"
| "dumps_with enc (JStr s) = enc s"
| "dumps_with enc (JList xs) = ''['' @ join '','' (map (dumps_with enc) xs) @ '']''"
| "dumps_with enc (JObj kvs) = ''{'' @ join '','' (map (\<lambda>kv. enc (fst kv) @ '':'' @ snd kv)
       (sort_key fst (map (\<lambda>kv. (fst kv, dumps_with enc (snd kv))) kvs))) @ ''}''"

abbreviation dumps :: "json \<Rightarrow> string" where
  "dumps \<equiv> dumps_with json_text"

text \<open>With \<open>ensure_ascii=False\<close> only quotes, backslashes and control characters are escaped.\<close>

definition json_char_raw :: "char \<Rightarrow> string" where
  "json_char_raw c = (let n = of_char c :: nat in if n < 32 \<or> n = 34 \<or> n = 92 then json_point n else [c])"

definition json_text_raw :: "string \<Rightarrow> string" where
  "json_text_raw s = [CHR 34] @ concat (map json_char_raw s) @ [CHR 34]"

abbreviation dumps_raw :: "json \<Rightarrow> string" where
  "dumps_raw \<equiv> dumps_with json_text_raw"

text \<open>Iterating over a value: the elements of a list, the characters of a text, the keys of
  a dictionary.\<close>

fun py_iter :: "json \<Rightarrow> json list result" where
  "py_iter (JList xs) = Inr xs"
| "py_iter (JStr s) = Inr (map (\<lambda>c. JStr [c]) s)"
| "py_iter (JObj kvs) = Inr (map (\<lambda>kv. JStr (fst kv)) kvs)"
| "py_iter v = Inl (TypeError ''object is not iterable'')"

definition quoted_list :: "string list \<Rightarrow> string" where
  "quoted_list xs = join '', '' xs"

section \<open>UTC clock texts\<close>

text \<open>An instant is a number of microseconds since 0001-01-01T00:00:00Z, Python's least
  \<open>datetime\<close>. \<open>ord2ymd\<close> is the calendar computation of \<open>date.fromordinal\<close>; the text is
  \<open>isoformat()\<close> with \<^verbatim>\<open>+00:00\<close> replaced by \<^verbatim>\<open>Z\<close>, which omits the fraction when
  the microseconds are zero.\<close>

type_synonym instant = int

abbreviation second :: instant where "second \<equiv> 1000000"

definition is_leap :: "int \<Rightarrow> bool" where
  "is_leap y \<longleftrightarrow> y mod 4 = 0 \<and> (y mod 100 \<noteq> 0 \<or> y mod 400 = 0)"

definition days_in_month :: "int \<Rightarrow> int \<Rightarrow> int" where
  "days_in_month y m = (if m = 2 then (if is_leap y then 29 else 28)
                        else if m = 4 \<or> m = 6 \<or> m = 9 \<or> m = 11 then 30 else 31)"

fun month_day :: "int \<Rightarrow> int list \<Rightarrow> int \<Rightarrow> int \<times> int" where
  "month_day y [] n = (12, n + 1)"
| "month_day y (m # ms) n =
     (if ms = [] \<or> n < days_in_month y m then (m, n + 1) else month_day y ms (n - days_in_month y m))"

definition ord2ymd :: "int \<Rightarrow> int \<times> int \<times> int" where
  "ord2ymd days =
     (let n400 = days div 146097; r400 = days mod 146097;
          n100 = r400 div 36524; r100 = r400 mod 36524;
          n4 = r100 div 1461; r4 = r100 mod 1461;
          n1 = r4 div 365; r1 = r4 mod 365;
          y = n400 * 400 + 1 + n100 * 100 + n4 * 4 + n1
      in if n1 = 4 \<or> n100 = 4 then (y - 1, 12, 31)
         else (case month_day y [1, 2, 3, 4, 5, 6, 7, 8, 9, 10, 11, 12] r1 of (m, d) \<Rightarrow> (y, m, d)))"

fun pad :: "nat \<Rightarrow> int \<Rightarrow> string" where
  "pad 0 n = []"
| "pad (Suc w) n = pad w (n div 10) @ [digit_char (nat (n mod 10))]"

definition date_text :: "int \<Rightarrow> string" where
  "date_text days = (case ord2ymd days of (y, m, d) \<Rightarrow> pad 4 y @ ''-'' @ pad 2 m @ ''-'' @ pad 2 d)"

definition utc_text :: "instant \<Rightarrow> string" where
  "utc_text t =
     (let us = t mod second; secs = t div second;
          days = secs div 86400; s = secs mod 86400
      in date_text days @ ''T'' @ pad 2 (s div 3600) @ '':'' @ pad 2 (s div 60 mod 60) @ '':''
         @ pad 2 (s mod 60) @ (if us = 0 then [] else ''.'' @ pad 6 us) @ ''Z'')"

lemma length_pad [simp]: "length (pad w n) = w"
  by (induction w arbitrary: n) auto

lemma length_date_text [simp]: "length (date_text d) = 10"
  by (simp add: date_text_def split: prod.splits)

lemma length_utc_text: "length (utc_text t) = (if t mod second = 0 then 20 else 27)"
  by (simp add: utc_text_def Let_def)

end
