(* ===== verification/Pyregex.thy ===== *)
theory Pyregex
  imports Values
begin

text \<open>
  The fragment of Python's \<open>re\<close> that the control plane uses to accept or reject text:
  character classes, white space, anchors, word boundaries, sequence, alternative and
  repetition. Only the existence of a match is observed by these uses, so greediness and
  the order of alternatives play no part. \<open>matches\<close> is the meaning of an expression as a
  relation between positions; \<open>ends\<close> computes all positions where a match can end, and
  \<open>ends_iff\<close> says that it computes exactly that relation.
\<close>

datatype re =
    Eps
  | Cls "char \<Rightarrow> bool"
  | Sp
  | NSp
  | Bos
  | Bol
  | Eol
  | Wb
  | Seq re re
  | Alt re re
  | Star re

text \<open>A position in a text: the byte before it, if any, and the bytes after it.\<close>

type_synonym pos = "char option \<times> string"

definition word_char :: "char \<Rightarrow> bool" where
  "word_char c \<longleftrightarrow> (let n = of_char c :: nat in
     (48 \<le> n \<and> n \<le> 57) \<or> (65 \<le> n \<and> n \<le> 90) \<or> (97 \<le> n \<and> n \<le> 122) \<or> n = 95)"

definition at_bol :: "pos \<Rightarrow> bool" where
  "at_bol p \<longleftrightarrow> (case fst p of None \<Rightarrow> True | Some c \<Rightarrow> c = CHR 10)"

definition at_eol :: "pos \<Rightarrow> bool" where
  "at_eol p \<longleftrightarrow> (case snd p of [] \<Rightarrow> True | c # _ \<Rightarrow> c = CHR 10)"

definition at_word_boundary :: "pos \<Rightarrow> bool" where
  "at_word_boundary p \<longleftrightarrow>
     (case fst p of None \<Rightarrow> False | Some c \<Rightarrow> word_char c)
       \<noteq> (case snd p of [] \<Rightarrow> False | c # _ \<Rightarrow> word_char c)"

definition skip_bytes :: "nat \<Rightarrow> pos \<Rightarrow> pos" where
  "skip_bytes n p = (if n = 0 then p else (Some (snd p ! (n - 1)), drop n (snd p)))"

section \<open>Meaning\<close>

inductive matches :: "re \<Rightarrow> pos \<Rightarrow> pos \<Rightarrow> bool" where
  m_eps: "matches Eps p p"
| m_cls: "P c \<Longrightarrow> matches (Cls P) (b, c # s) (Some c, s)"
| m_sp: "0 < space_len wide_spaces s \<Longrightarrow>
     matches Sp (b, s) (skip_bytes (space_len wide_spaces s) (b, s))"
| m_nsp: "space_len wide_spaces (c # s) = 0 \<Longrightarrow> matches NSp (b, c # s) (Some c, s)"
| m_bos: "matches Bos (None, s) (None, s)"
| m_bol: "at_bol p \<Longrightarrow> matches Bol p p"
| m_eol: "at_eol p \<Longrightarrow> matches Eol p p"
| m_wb: "at_word_boundary p \<Longrightarrow> matches Wb p p"
| m_seq: "matches r p q \<Longrightarrow> matches r' q q' \<Longrightarrow> matches (Seq r r') p q'"
| m_alt1: "matches r p q \<Longrightarrow> matches (Alt r r') p q"
| m_alt2: "matches r' p q \<Longrightarrow> matches (Alt r r') p q"
| m_star0: "matches (Star r) p p"
| m_star1: "matches r p q \<Longrightarrow> matches (Star r) q q' \<Longrightarrow> matches (Star r) p q'"

inductive_simps matches_Eps [simp]: "matches Eps p q"
inductive_simps matches_Cls: "matches (Cls P) p q"
inductive_simps matches_Sp: "matches Sp p q"
inductive_simps matches_NSp: "matches NSp p q"
inductive_simps matches_Bos: "matches Bos p q"
inductive_simps matches_Bol: "matches Bol p q"
inductive_simps matches_Eol: "matches Eol p q"
inductive_simps matches_Wb: "matches Wb p q"
inductive_simps matches_Seq: "matches (Seq r r') p q"
inductive_simps matches_Alt: "matches (Alt r r') p q"
inductive_cases matches_StarE: "matches (Star r) p q"

section \<open>Execution\<close>

primrec star_ends :: "nat \<Rightarrow> (pos \<Rightarrow> pos list) \<Rightarrow> pos \<Rightarrow> pos list" where
  "star_ends 0 f p = [p]"
| "star_ends (Suc n) f p =
     remdups (p # concat (map (star_ends n f) (filter (\<lambda>q. length (snd q) < length (snd p)) (f p))))"

primrec ends :: "re \<Rightarrow> pos \<Rightarrow> pos list" where
  "ends Eps p = [p]"
| "ends (Cls P) p = (case snd p of [] \<Rightarrow> [] | c # s \<Rightarrow> if P c then [(Some c, s)] else [])"
| "ends Sp p = (let n = space_len wide_spaces (snd p) in if n = 0 then [] else [skip_bytes n p])"
| "ends NSp p = (case snd p of [] \<Rightarrow> []
     | c # s \<Rightarrow> if space_len wide_spaces (snd p) = 0 then [(Some c, s)] else [])"
| "ends Bos p = (if fst p = None then [p] else [])"
| "ends Bol p = (if at_bol p then [p] else [])"
| "ends Eol p = (if at_eol p then [p] else [])"
| "ends Wb p = (if at_word_boundary p then [p] else [])"
| "ends (Seq r r') p = remdups (concat (map (ends r') (ends r p)))"
| "ends (Alt r r') p = remdups (ends r p @ ends r' p)"
| "ends (Star r) p = star_ends (length (snd p)) (ends r) p"

text \<open>\<open>re.fullmatch\<close>, \<open>re.match\<close> and \<open>re.search\<close> as tests.\<close>

definition fullmatch :: "re \<Rightarrow> string \<Rightarrow> bool" where
  "fullmatch r s \<longleftrightarrow> list_ex (\<lambda>q. snd q = []) (ends r (None, s))"

definition match_prefix :: "re \<Rightarrow> string \<Rightarrow> bool" where
  "match_prefix r s \<longleftrightarrow> ends r (None, s) \<noteq> []"

fun search_from :: "re \<Rightarrow> char option \<Rightarrow> string \<Rightarrow> bool" where
  "search_from r b [] = (ends r (b, []) \<noteq> [])"
| "search_from r b (c # s) = (ends r (b, c # s) \<noteq> [] \<or> search_from r (Some c) s)"

definition search :: "re \<Rightarrow> string \<Rightarrow> bool" where
  "search r s = search_from r None s"

section \<open>Building expressions\<close>

definition chars_of :: "string \<Rightarrow> re" where
  "chars_of s = Cls (\<lambda>c. c \<in> set s)"

primrec lit :: "string \<Rightarrow> re" where
  "lit [] = Eps"
| "lit (c # s) = Seq (Cls (\<lambda>d. d = c)) (lit s)"

text \<open>A literal under \<^verbatim>\<open>(?i)\<close>, written in lower case.\<close>

primrec ilit :: "string \<Rightarrow> re" where
  "ilit [] = Eps"
| "ilit (c # s) = Seq (Cls (\<lambda>d. lower_char d = c)) (ilit s)"

definition opt :: "re \<Rightarrow> re" where "opt r = Alt r Eps"

definition plus :: "re \<Rightarrow> re" where "plus r = Seq r (Star r)"

primrec rep :: "nat \<Rightarrow> re \<Rightarrow> re" where
  "rep 0 r = Eps"
| "rep (Suc n) r = Seq r (rep n r)"

primrec rep_upto :: "nat \<Rightarrow> re \<Rightarrow> re" where
  "rep_upto 0 r = Eps"
| "rep_upto (Suc n) r = Alt Eps (Seq r (rep_upto n r))"

fun seqs :: "re list \<Rightarrow> re" where
  "seqs [] = Eps"
| "seqs [r] = r"
| "seqs (r # s # rs) = Seq r (seqs (s # rs))"

fun alts :: "re list \<Rightarrow> re" where
  "alts [] = Cls (\<lambda>_. False)"
| "alts [r] = r"
| "alts (r # s # rs) = Alt r (alts (s # rs))"

definition is_lower :: "char \<Rightarrow> bool" where
  "is_lower c \<longleftrightarrow> (let n = of_char c :: nat in 97 \<le> n \<and> n \<le> 122)"

definition is_upper :: "char \<Rightarrow> bool" where
  "is_upper c \<longleftrightarrow> (let n = of_char c :: nat in 65 \<le> n \<and> n \<le> 90)"

definition is_alnum :: "char \<Rightarrow> bool" where
  "is_alnum c \<longleftrightarrow> is_lower c \<or> is_upper c \<or> is_digit c"

definition is_kebab :: "char \<Rightarrow> bool" where
  "is_kebab c \<longleftrightarrow> is_lower c \<or> is_digit c"

definition is_hex :: "char \<Rightarrow> bool" where
  "is_hex c \<longleftrightarrow> is_digit c \<or> (let n = of_char c :: nat in 97 \<le> n \<and> n \<le> 102)"

section \<open>The engine computes the meaning\<close>

lemma matches_length: "matches r p q \<Longrightarrow> length (snd q) \<le> length (snd p)"
  by (induction rule: matches.induct) (auto simp: skip_bytes_def)

lemma matches_same_length:
  "matches r p q \<Longrightarrow> length (snd q) = length (snd p) \<Longrightarrow> q = p"
proof (induction rule: matches.induct)
  case (m_sp s b)
  then show ?case using space_len_le [of wide_spaces s] by (auto simp: skip_bytes_def)
next
  case (m_seq r p q r' q')
  then have "length (snd q) = length (snd p)" "length (snd q') = length (snd q)"
    using matches_length [of r p q] matches_length [of r' q q'] by linarith+
  with m_seq show ?case by metis
next
  case (m_star1 r p q q')
  then have "length (snd q) = length (snd p)" "length (snd q') = length (snd q)"
    using matches_length [of r p q] matches_length [of "Star r" q q'] by linarith+
  with m_star1 show ?case by metis
qed auto

lemma star_ends_Suc_iff:
  "q \<in> set (star_ends (Suc n) f p) \<longleftrightarrow>
     q = p \<or> (\<exists>p'. p' \<in> set (f p) \<and> length (snd p') < length (snd p) \<and> q \<in> set (star_ends n f p'))"
  by (simp only: star_ends.simps set_remdups set_append set_concat set_map set_filter list.set) blast

lemma star_ends_sound:
  assumes "\<And>p q. q \<in> set (f p) \<Longrightarrow> matches r p q"
  shows "q \<in> set (star_ends n f p) \<Longrightarrow> matches (Star r) p q"
proof (induction n arbitrary: p)
  case (Suc n)
  then show ?case
    unfolding star_ends_Suc_iff by (metis assms matches.m_star0 matches.m_star1)
qed (simp add: matches.m_star0)

lemma star_ends_complete:
  assumes f: "\<And>p q. matches r p q \<Longrightarrow> q \<in> set (f p)"
  shows "matches r' p q \<Longrightarrow> r' = Star r \<Longrightarrow> length (snd p) \<le> n \<Longrightarrow> q \<in> set (star_ends n f p)"
proof (induction arbitrary: n rule: matches.induct)
  case (m_star0 r'' p)
  show ?case
  proof (cases n)
    case (Suc m)
    then show ?thesis by (simp only: star_ends_Suc_iff) simp
  qed simp
next
  case (m_star1 r'' p q q')
  show ?case
  proof (cases "length (snd q) = length (snd p)")
    case True
    with m_star1.hyps(1) have "q = p" by (rule matches_same_length)
    with m_star1 show ?thesis by simp
  next
    case False
    with matches_length [OF m_star1.hyps(1)] have less: "length (snd q) < length (snd p)" by simp
    with m_star1.prems obtain m where n: "n = Suc m" by (cases n) auto
    with less m_star1.prems have "q' \<in> set (star_ends m f q)"
      using m_star1.IH(2) [of m] by auto
    moreover have "q \<in> set (f p)" using m_star1 f by auto
    ultimately show ?thesis using less unfolding n star_ends_Suc_iff by blast
  qed
qed auto

lemma ends_iff: "q \<in> set (ends r p) \<longleftrightarrow> matches r p q"
proof (induction r arbitrary: p q)
  case (Star r)
  then show ?case
    using star_ends_sound [of "ends r" r q "length (snd p)" p]
      star_ends_complete [of r "ends r" "Star r" p q "length (snd p)"] by auto
qed (cases p; auto simp: matches_Cls matches_Sp matches_NSp matches_Bos matches_Bol matches_Eol
       matches_Wb matches_Seq matches_Alt Let_def split: list.splits)+

lemma fullmatch_iff: "fullmatch r s \<longleftrightarrow> (\<exists>b. matches r (None, s) (b, []))"
  by (force simp: fullmatch_def list_ex_iff ends_iff)

lemma ends_nonempty_iff: "ends r p \<noteq> [] \<longleftrightarrow> (\<exists>q. matches r p q)"
proof -
  have "ends r p \<noteq> [] \<longleftrightarrow> (\<exists>q. q \<in> set (ends r p))" by (cases "ends r p") auto
  then show ?thesis by (simp only: ends_iff)
qed

lemma match_prefix_iff: "match_prefix r s \<longleftrightarrow> (\<exists>q. matches r (None, s) q)"
  by (simp only: match_prefix_def ends_nonempty_iff)

definition last_byte :: "char option \<Rightarrow> string \<Rightarrow> char option" where
  "last_byte b u = (if u = [] then b else Some (last u))"

lemma last_byte_Nil [simp]: "last_byte b [] = b"
  and last_byte_Cons [simp]: "last_byte b (c # u) = last_byte (Some c) u"
  by (simp_all add: last_byte_def)

lemma search_from_iff:
  "search_from r b s \<longleftrightarrow> (\<exists>u v q. s = u @ v \<and> matches r (last_byte b u, v) q)"
proof (induction s arbitrary: b)
  case Nil
  then show ?case by (simp add: ends_nonempty_iff del: split_paired_Ex)
next
  case (Cons c s)
  have "(\<exists>u v q. c # s = u @ v \<and> matches r (last_byte b u, v) q) \<longleftrightarrow>
      (\<exists>q. matches r (b, c # s) q) \<or> (\<exists>u v q. s = u @ v \<and> matches r (last_byte (Some c) u, v) q)"
    (is "?L = ?R")
  proof
    assume ?L
    then obtain u v q where *: "c # s = u @ v" "matches r (last_byte b u, v) q" by blast
    show ?R
    proof (cases u)
      case Nil
      with * show ?thesis by (metis append_Nil last_byte_Nil)
    next
      case (Cons d u')
      with * have "s = u' @ v" "matches r (last_byte (Some c) u', v) q" by auto
      then show ?thesis by blast
    qed
  next
    assume ?R
    then show ?L
    proof
      assume "\<exists>q. matches r (b, c # s) q"
      then show ?L by (metis append_Nil last_byte_Nil)
    next
      assume "\<exists>u v q. s = u @ v \<and> matches r (last_byte (Some c) u, v) q"
      then show ?L by (metis append_Cons last_byte_Cons)
    qed
  qed
  with Cons show ?case by (simp add: ends_nonempty_iff del: split_paired_Ex)
qed

section \<open>Closed forms of the common shapes\<close>

lemma matches_rep_Cls:
  "matches (rep n (Cls P)) (b, s) (b', t) \<longleftrightarrow>
     (\<exists>u. s = u @ t \<and> length u = n \<and> list_all P u \<and> b' = last_byte b u)"
proof (induction n arbitrary: b s)
  case (Suc n)
  show ?case
  proof
    assume "matches (rep (Suc n) (Cls P)) (b, s) (b', t)"
    then obtain c s' where "s = c # s'" "P c" "matches (rep n (Cls P)) (Some c, s') (b', t)"
      by (auto simp: matches_Seq matches_Cls)
    with Suc obtain u where "s' = u @ t" "length u = n" "list_all P u" "b' = last_byte (Some c) u" by auto
    with \<open>s = c # s'\<close> \<open>P c\<close>
    show "\<exists>u. s = u @ t \<and> length u = Suc n \<and> list_all P u \<and> b' = last_byte b u"
      by (intro exI [of _ "c # u"]) simp
  next
    assume "\<exists>u. s = u @ t \<and> length u = Suc n \<and> list_all P u \<and> b' = last_byte b u"
    then obtain c u where "s = c # u @ t" "length u = n" "P c" "list_all P u" "b' = last_byte (Some c) u"
      by (auto simp: length_Suc_conv)
    with Suc show "matches (rep (Suc n) (Cls P)) (b, s) (b', t)"
      by (auto simp: matches_Seq matches_Cls)
  qed
qed auto

lemma matches_rep_upto_Cls:
  "matches (rep_upto n (Cls P)) (b, s) (b', t) \<longleftrightarrow>
     (\<exists>u. s = u @ t \<and> length u \<le> n \<and> list_all P u \<and> b' = last_byte b u)"
proof (induction n arbitrary: b s)
  case (Suc n)
  show ?case
  proof
    assume "matches (rep_upto (Suc n) (Cls P)) (b, s) (b', t)"
    then consider "s = t" "b' = b"
      | c s' where "s = c # s'" "P c" "matches (rep_upto n (Cls P)) (Some c, s') (b', t)"
      by (auto simp: matches_Seq matches_Alt matches_Cls)
    then show "\<exists>u. s = u @ t \<and> length u \<le> Suc n \<and> list_all P u \<and> b' = last_byte b u"
    proof cases
      case 1
      then show ?thesis by (intro exI [of _ "[]"]) simp
    next
      case 2
      with Suc obtain u where "s' = u @ t" "length u \<le> n" "list_all P u" "b' = last_byte (Some c) u" by auto
      with 2 show ?thesis by (intro exI [of _ "c # u"]) simp
    qed
  next
    assume "\<exists>u. s = u @ t \<and> length u \<le> Suc n \<and> list_all P u \<and> b' = last_byte b u"
    then obtain u where u: "s = u @ t" "length u \<le> Suc n" "list_all P u" "b' = last_byte b u" by blast
    show "matches (rep_upto (Suc n) (Cls P)) (b, s) (b', t)"
    proof (cases u)
      case (Cons c u')
      with u Suc have "matches (rep_upto n (Cls P)) (Some c, u' @ t) (b', t)"
        by auto
      with Cons u show ?thesis by (auto simp: matches_Seq matches_Alt matches_Cls)
    qed (use u in \<open>simp add: matches_Alt\<close>)
  qed
qed auto

lemma fullmatch_rep_Cls: "fullmatch (rep n (Cls P)) s \<longleftrightarrow> length s = n \<and> list_all P s"
  by (auto simp: fullmatch_iff matches_rep_Cls)

lemma fullmatch_head_upto:
  "fullmatch (Seq (Cls P) (rep_upto n (Cls Q))) s \<longleftrightarrow>
     (\<exists>c t. s = c # t \<and> P c \<and> length t \<le> n \<and> list_all Q t)"
  by (auto simp: fullmatch_iff matches_Seq matches_Cls matches_rep_upto_Cls)

lemma matches_Star_Cls:
  "matches (Star (Cls P)) (b, s) (b', t) \<longleftrightarrow> (\<exists>u. s = u @ t \<and> list_all P u \<and> b' = last_byte b u)"
proof
  have "matches r p q \<Longrightarrow> r = Star (Cls P) \<Longrightarrow>
      \<exists>u. snd p = u @ snd q \<and> list_all P u \<and> fst q = last_byte (fst p) u" for r p q
  proof (induction rule: matches.induct)
    case (m_star1 r p q q')
    then obtain u where u: "snd q = u @ snd q'" "list_all P u" "fst q' = last_byte (fst q) u" by blast
    from m_star1 obtain c where "snd p = c # snd q" "P c" "fst q = Some c"
      by (auto simp: matches_Cls)
    with u show ?case by (intro exI [of _ "c # u"]) simp
  qed auto
  then show "matches (Star (Cls P)) (b, s) (b', t) \<Longrightarrow>
      \<exists>u. s = u @ t \<and> list_all P u \<and> b' = last_byte b u" by fastforce
next
  have "list_all P u \<Longrightarrow> matches (Star (Cls P)) (b, u @ t) (last_byte b u, t)" for u
  proof (induction u arbitrary: b)
    case (Cons c u)
    then have "matches (Star (Cls P)) (Some c, u @ t) (last_byte (Some c) u, t)" by simp
    moreover have "matches (Cls P) (b, c # u @ t) (Some c, u @ t)"
      using Cons.prems by (simp add: matches.m_cls)
    ultimately have "matches (Star (Cls P)) (b, (c # u) @ t) (last_byte (Some c) u, t)"
      by (auto intro: matches.m_star1)
    then show ?case by simp
  qed (simp add: matches.m_star0)
  then show "\<exists>u. s = u @ t \<and> list_all P u \<and> b' = last_byte b u \<Longrightarrow>
      matches (Star (Cls P)) (b, s) (b', t)" by blast
qed

lemma fullmatch_plus_Cls: "fullmatch (plus (Cls P)) s \<longleftrightarrow> s \<noteq> [] \<and> list_all P s"
  by (cases s) (auto simp: fullmatch_iff plus_def matches_Seq matches_Cls matches_Star_Cls)

lemma matches_lit: "matches (lit w) (b, s) (b', t) \<longleftrightarrow> s = w @ t \<and> b' = last_byte b w"
  by (induction w arbitrary: b s) (auto simp: matches_Seq matches_Cls)

lemma fullmatch_lit: "fullmatch (lit w) s \<longleftrightarrow> s = w"
  by (auto simp: fullmatch_iff matches_lit)

lemma search_lit: "search (lit w) s \<longleftrightarrow> contains w s"
  by (auto simp: search_def search_from_iff contains_iff matches_lit)

section \<open>Bytes a pattern cannot do without\<close>

text \<open>\<open>needs A r\<close> holds when every match of \<open>r\<close> consumes a byte of \<open>A\<close>; a text without such
  bytes then has no match.\<close>

primrec needs :: "char set \<Rightarrow> re \<Rightarrow> bool" where
  "needs A Eps = False"
| "needs A (Cls P) = (\<forall>c. P c \<longrightarrow> c \<in> A)"
| "needs A Sp = False"
| "needs A NSp = False"
| "needs A Bos = False"
| "needs A Bol = False"
| "needs A Eol = False"
| "needs A Wb = False"
| "needs A (Seq r r') = (needs A r \<or> needs A r')"
| "needs A (Alt r r') = (needs A r \<and> needs A r')"
| "needs A (Star r) = False"

lemma matches_suffix: "matches r p q \<Longrightarrow> set (snd q) \<subseteq> set (snd p)"
proof (induction rule: matches.induct)
  case (m_sp s b)
  then show ?case by (auto simp: skip_bytes_def dest: in_set_dropD)
qed auto

lemma needs_matches: "needs A r \<Longrightarrow> matches r p q \<Longrightarrow> \<exists>c\<in>A. c \<in> set (snd p)"
proof (induction r arbitrary: p q)
  case (Seq r r')
  from Seq.prems(2) obtain m where m: "matches r p m" "matches r' m q" by (auto simp: matches_Seq)
  show ?case
  proof (cases "needs A r")
    case True
    with m Seq.IH(1) show ?thesis by blast
  next
    case False
    with Seq.prems(1) have "needs A r'" by simp
    with m Seq.IH(2) have "\<exists>c\<in>A. c \<in> set (snd m)" by blast
    with matches_suffix [OF m(1)] show ?thesis by blast
  qed
qed (auto simp: matches_Cls matches_Alt)

lemma no_search:
  assumes "needs A r" and "set s \<inter> A = {}"
  shows "\<not> search r s"
proof
  assume "search r s"
  then obtain u v q where "s = u @ v" "matches r (last_byte None u, v) q"
    unfolding search_def search_from_iff by blast
  with needs_matches [OF assms(1)] have "\<exists>c\<in>A. c \<in> set s" by fastforce
  with assms(2) show False by blast
qed

lemma matches_opt: "matches (opt r) p q \<longleftrightarrow> matches r p q \<or> p = q"
  by (auto simp: opt_def matches_Alt)

end
