(* ===== verification/Policy.thy ===== *)
theory Policy
  imports Pyregex
begin

text \<open>
  \<^verbatim>\<open>control/sjg_control/policy.py\<close>: compilation of the portable organization document into
  the closed policy that every other component consults. The SHA-256 of \<open>hashlib\<close> is the
  parameter \<open>sha\<close> (a function from a text to its hexadecimal digest); every statement holds
  for any such function.
\<close>

section \<open>Canonical roles\<close>

definition CANONICAL_ROLES :: "string list" where
  "CANONICAL_ROLES = [''human-principal'', ''portfolio-orchestrator'', ''project-orchestrator'',
     ''commercial-planner'', ''software-implementer'', ''governance-reviewer'', ''policy-reviewer'']"

definition REQUIRED_EXECUTING_ROLES :: "string set" where
  "REQUIRED_EXECUTING_ROLES = {''project-orchestrator'', ''commercial-planner'',
     ''software-implementer'', ''governance-reviewer''}"

definition OPTIONAL_EXECUTING_ROLES :: "string set" where
  "OPTIONAL_EXECUTING_ROLES = {''policy-reviewer''}"

definition EXECUTING_ROLES :: "string set" where
  "EXECUTING_ROLES = REQUIRED_EXECUTING_ROLES \<union> OPTIONAL_EXECUTING_ROLES"

section \<open>Compiled policy\<close>

record repository =
  repo_alias :: string
  repo_slug :: string
  repo_default_branch :: string

record role_policy =
  rp_role :: string
  rp_worker_types :: "string set"
  rp_max_workers_per_wake :: int
  rp_max_workers_concurrent :: int
  rp_repositories :: "string set"
  rp_daily_token_budget :: int

record organization_policy =
  op_org_id :: string
  op_principal_github :: string
  op_repositories :: "(string \<times> repository) list"
  op_roles :: "(string \<times> role_policy) list"
  op_source_commit :: string
  op_control_version :: string
  op_source_tree_sha256 :: string
  op_organization_daily_token_budget :: int
  op_global_max_agents :: int
  op_policy_digest :: string
  op_protected_submission_paths :: "string list"

definition policy_role :: "organization_policy \<Rightarrow> string \<Rightarrow> role_policy result" where
  "policy_role p role = (case map_of (op_roles p) role of
     Some rp \<Rightarrow> Inr rp | None \<Rightarrow> Inl (PolicyError (''unknown executing role: '' @ role)))"

definition policy_repository :: "organization_policy \<Rightarrow> string \<Rightarrow> repository result" where
  "policy_repository p alias = (case map_of (op_repositories p) alias of
     Some r \<Rightarrow> Inr r | None \<Rightarrow> Inl (PolicyError (''unknown repository alias: '' @ alias)))"

definition role_names :: "organization_policy \<Rightarrow> string set" where
  "role_names p = fst ` set (op_roles p)"

section \<open>Shape checks\<close>

definition exact_keys :: "json \<Rightarrow> string list \<Rightarrow> string \<Rightarrow> (string \<times> json) list result" where
  "exact_keys value expected path =
     (case value of
        JObj d \<Rightarrow>
          (if set (dkeys d) \<noteq> set expected
           then (let missing = sort (remdups (filter (\<lambda>k. k \<notin> set (dkeys d)) expected));
                     extra = sort (remdups (filter (\<lambda>k. k \<notin> set expected) (dkeys d)));
                     detail = (if missing = [] then [] else [''missing '' @ quoted_list missing])
                            @ (if extra = [] then [] else [''unknown '' @ quoted_list extra])
                 in Inl (PolicyError (path @ '' has invalid fields: '' @ join ''; '' detail)))
           else Inr d)
      | _ \<Rightarrow> Inl (PolicyError (path @ '' must be a mapping'')))"

definition ROLE_ID :: re where
  "ROLE_ID = Seq (Cls is_lower) (Seq (Star (Cls is_kebab)) (Star (Seq (lit ''-'') (plus (Cls is_kebab)))))"

definition login_re :: re where
  "login_re = Seq (Cls is_alnum) (rep_upto 38 (Cls (\<lambda>c. is_alnum c \<or> c = CHR ''-'')))"

definition version_re :: re where
  "version_re = seqs [plus (Cls is_digit), lit ''.'', plus (Cls is_digit), lit ''.'', plus (Cls is_digit)]"

definition sha256_re :: re where
  "sha256_re = rep 64 (Cls is_hex)"

definition slug_char :: "char \<Rightarrow> bool" where
  "slug_char c \<longleftrightarrow> is_alnum c \<or> c = CHR ''_'' \<or> c = CHR ''.'' \<or> c = CHR ''-''"

definition slug_re :: re where
  "slug_re = seqs [plus (Cls slug_char), lit ''/'', plus (Cls slug_char)]"

definition branch_re :: re where
  "branch_re = plus (Cls (\<lambda>c. slug_char c \<or> c = CHR ''/''))"

definition compile_repository :: "(string \<times> json) list \<Rightarrow> string \<Rightarrow> repository result" where
  "compile_repository repository_data alias =
     bindE (exact_keys (dget repository_data alias) [''slug'', ''defaultBranch'']
              (''repositories.'' @ alias)) (\<lambda>raw.
     let slug = strip (str_or_empty (dget raw ''slug''));
         default_branch = strip (py_str (py_or (dget raw ''defaultBranch'') (JStr ''main'')))
     in if \<not> fullmatch slug_re slug
           \<or> list_ex (\<lambda>component. component \<in> {''.'', ''..''}) (split_on (CHR ''/'') slug)
        then Inl (PolicyError (''repositories.'' @ alias @ ''.slug must be OWNER/REPO''))
        else if \<not> fullmatch branch_re default_branch \<or> contains ''..'' default_branch
        then Inl (PolicyError (''repositories.'' @ alias @ ''.defaultBranch is invalid''))
        else Inr \<lparr>repo_alias = alias, repo_slug = slug, repo_default_branch = default_branch\<rparr>)"

section \<open>Roles\<close>

definition expected_workers :: "string \<Rightarrow> string set" where
  "expected_workers role =
     (if role = ''project-orchestrator'' then {}
      else if role = ''governance-reviewer'' then {}
      else if role = ''commercial-planner'' then {''researcher'', ''drafter''}
      else if role = ''policy-reviewer'' then {''researcher'', ''drafter''}
      else {''researcher'', ''drafter'', ''implementer''})"

definition expected_repositories :: "string \<Rightarrow> string set" where
  "expected_repositories role = (if role = ''software-implementer'' then {''org'', ''product''} else {''org''})"

definition text_set :: "json \<Rightarrow> json list \<Rightarrow> string set result" where
  "text_set v default_items =
     bindE (py_iter (py_or v (JList default_items))) (\<lambda>vs. Inr (set (map py_str vs)))"

definition compile_role :: "int \<Rightarrow> string list \<Rightarrow> json \<Rightarrow> role_policy result" where
  "compile_role org_budget seen raw_value =
     (case raw_value of JObj raw \<Rightarrow>
       bindE (exact_keys raw_value [''id'', ''repositories'', ''dailyTokenBudget'', ''workers''] ''agent'') (\<lambda>_.
       let role = strip (str_or_empty (dget raw ''id'')) in
       if role \<notin> EXECUTING_ROLES
       then Inl (PolicyError (''unknown or non-executing canonical role: '' @ repr_text role))
       else if role \<in> set seen then Inl (PolicyError (''duplicate role: '' @ role))
       else
       bindE (exact_keys (dget raw ''workers'') [''allowed'', ''maxPerWake'', ''maxConcurrent'']
                (role @ ''.workers'')) (\<lambda>workers.
       bindE (text_set (dget workers ''allowed'') []) (\<lambda>allowed.
       if \<not> allowed \<subseteq> {''researcher'', ''drafter'', ''implementer''}
       then Inl (PolicyError (role @ '': unknown worker type''))
       else
       bindE (int_or_zero (dget workers ''maxPerWake'')) (\<lambda>max_per_wake.
       bindE (int_or_zero (dget workers ''maxConcurrent'')) (\<lambda>max_concurrent.
       if min max_per_wake max_concurrent < 0 \<or> max_concurrent > max_per_wake
       then Inl (PolicyError (role @ '': invalid worker limits''))
       else if (allowed \<noteq> {}) \<noteq> (max_per_wake \<noteq> 0) \<or> (allowed \<noteq> {}) \<noteq> (max_concurrent \<noteq> 0)
       then Inl (PolicyError (role @ '': worker types and nonzero limits must be declared together''))
       else if allowed \<noteq> expected_workers role
       then Inl (PolicyError (role @ '': worker capabilities differ from the canonical role''))
       else
       bindE (text_set (dget raw ''repositories'') [JStr ''org'']) (\<lambda>repo_aliases.
       if repo_aliases \<noteq> expected_repositories role
       then Inl (PolicyError (role @ '': repository scope differs from the canonical role''))
       else
       bindE (int_or_zero (dget raw ''dailyTokenBudget'')) (\<lambda>daily_token_budget.
       if daily_token_budget \<le> 0 \<or> daily_token_budget > org_budget
       then Inl (PolicyError (role @ '': dailyTokenBudget must be positive and within the organization budget''))
       else Inr \<lparr>rp_role = role, rp_worker_types = allowed, rp_max_workers_per_wake = max_per_wake,
                 rp_max_workers_concurrent = max_concurrent, rp_repositories = repo_aliases,
                 rp_daily_token_budget = daily_token_budget\<rparr>)))))))
     | _ \<Rightarrow> Inl (PolicyError ''each agent must be a mapping''))"

fun compile_roles :: "int \<Rightarrow> (string \<times> role_policy) list \<Rightarrow> json list \<Rightarrow> (string \<times> role_policy) list result" where
  "compile_roles org_budget acc [] = Inr acc"
| "compile_roles org_budget acc (raw # raws) =
     bindE (compile_role org_budget (map fst acc) raw) (\<lambda>rp.
       compile_roles org_budget (acc @ [(rp_role rp, rp)]) raws)"

definition agent_list :: "json \<Rightarrow> json list result" where
  "agent_list v = (case v of JList xs \<Rightarrow> Inr xs | _ \<Rightarrow> Inl (PolicyError ''agents must be a list''))"

section \<open>The policy digest\<close>

definition role_digest_input :: "role_policy \<Rightarrow> json" where
  "role_digest_input v = JObj
     [(''workers'', JList (map JStr (sorted_list_of_set (rp_worker_types v)))),
      (''max_per_wake'', JInt (rp_max_workers_per_wake v)),
      (''max_concurrent'', JInt (rp_max_workers_concurrent v)),
      (''repositories'', JList (map JStr (sorted_list_of_set (rp_repositories v)))),
      (''daily_token_budget'', JInt (rp_daily_token_budget v))]"

definition repository_digest_input :: "repository \<Rightarrow> json" where
  "repository_digest_input r = JObj [(''alias'', JStr (repo_alias r)), (''slug'', JStr (repo_slug r)),
      (''default_branch'', JStr (repo_default_branch r))]"

definition digest_input :: "organization_policy \<Rightarrow> json" where
  "digest_input p = JObj
     [(''source_commit'', JStr (op_source_commit p)),
      (''org_id'', JStr (op_org_id p)),
      (''principal'', JStr (op_principal_github p)),
      (''control_version'', JStr (op_control_version p)),
      (''source_tree_sha256'', JStr (op_source_tree_sha256 p)),
      (''organization_daily_token_budget'', JInt (op_organization_daily_token_budget p)),
      (''global_max_agents'', JInt (op_global_max_agents p)),
      (''repositories'', JObj (map (\<lambda>(k, v). (k, repository_digest_input v)) (sort_key fst (op_repositories p)))),
      (''roles'', JObj (map (\<lambda>(k, v). (k, role_digest_input v)) (sort_key fst (op_roles p))))]"

definition policy_digest_of :: "(string \<Rightarrow> string) \<Rightarrow> organization_policy \<Rightarrow> string" where
  "policy_digest_of sha p = ''sha256:'' @ sha (dumps_raw (digest_input p))"

section \<open>Compilation\<close>

definition compile_policy :: "(string \<Rightarrow> string) \<Rightarrow> json \<Rightarrow> string \<Rightarrow> organization_policy result" where
  "compile_policy sha data_value source_commit =
     (case data_value of JObj data \<Rightarrow>
       bindE (exact_keys data_value [''apiVersion'', ''kind'', ''metadata'', ''authority'', ''repositories'',
                ''controlRelease'', ''budgets'', ''limits'', ''agents'', ''workflows''] ''organization'') (\<lambda>_.
       if dget data ''apiVersion'' \<noteq> JStr ''scrum-jail.dev/v1'' \<or> dget data ''kind'' \<noteq> JStr ''Organization''
       then Inl (PolicyError ''organization apiVersion or kind is unsupported'')
       else
       bindE (exact_keys (dget data ''metadata'') [''id''] ''metadata'') (\<lambda>metadata.
       bindE (exact_keys (dget data ''authority'') [''principalRole'', ''principalGitHub'', ''upstreamRole'']
                ''authority'') (\<lambda>authority.
       if dget authority ''principalRole'' \<noteq> JStr ''human-principal''
       then Inl (PolicyError ''authority.principalRole must be human-principal'')
       else if dget authority ''upstreamRole'' \<noteq> JStr ''portfolio-orchestrator''
       then Inl (PolicyError ''authority.upstreamRole must be portfolio-orchestrator'')
       else
       let org_id = strip (str_or_empty (dget metadata ''id''));
           principal = strip (str_or_empty (dget authority ''principalGitHub'')) in
       bindE (exact_keys (dget data ''controlRelease'') [''version'', ''sourceTreeSha256''] ''controlRelease'') (\<lambda>control.
       let control_version = str_or_empty (dget control ''version'');
           source_tree_sha256 = str_or_empty (dget control ''sourceTreeSha256'') in
       bindE (exact_keys (dget data ''budgets'') [''organizationDailyTokens''] ''budgets'') (\<lambda>budgets.
       bindE (int_or_zero (dget budgets ''organizationDailyTokens'')) (\<lambda>org_budget.
       bindE (exact_keys (dget data ''limits'') [''globalMaxAgents''] ''limits'') (\<lambda>limits.
       bindE (int_or_zero (dget limits ''globalMaxAgents'')) (\<lambda>global_max_agents.
       if \<not> fullmatch ROLE_ID org_id then Inl (PolicyError ''metadata.id must be lowercase kebab-case'')
       else if \<not> fullmatch login_re principal
       then Inl (PolicyError ''authority.principalGitHub is not a valid GitHub login'')
       else if \<not> fullmatch version_re control_version
       then Inl (PolicyError ''controlRelease.version must be semantic x.y.z'')
       else if \<not> fullmatch sha256_re source_tree_sha256
       then Inl (PolicyError ''controlRelease.sourceTreeSha256 must be a SHA-256 digest'')
       else if org_budget \<le> 0 then Inl (PolicyError ''budgets.organizationDailyTokens must be positive'')
       else if global_max_agents \<le> 0 then Inl (PolicyError ''limits.globalMaxAgents must be positive'')
       else
       bindE (exact_keys (dget data ''repositories'') [''org'', ''product''] ''repositories'') (\<lambda>repository_data.
       bindE (mapE (compile_repository repository_data) [''org'', ''product'']) (\<lambda>repos.
       bindE (agent_list (dget data ''agents'')) (\<lambda>raw_roles.
         bindE (compile_roles org_budget [] raw_roles) (\<lambda>roles.
         if \<not> REQUIRED_EXECUTING_ROLES \<subseteq> fst ` set roles
         then Inl (PolicyError (''missing required roles: ''
                @ quoted_list (sorted_list_of_set (REQUIRED_EXECUTING_ROLES - fst ` set roles))))
         else if global_max_agents \<noteq> int (length roles) + sum_list (map (rp_max_workers_concurrent \<circ> snd) roles)
         then Inl (PolicyError ''limits.globalMaxAgents must equal parents plus concurrent worker caps'')
         else
         bindE (exact_keys (dget data ''workflows'') [''hostedExecution''] ''workflows'') (\<lambda>workflows.
         if dget workflows ''hostedExecution'' \<noteq> JStr ''manual-only''
         then Inl (PolicyError ''workflows.hostedExecution must be manual-only'')
         else
         let p = \<lparr>op_org_id = org_id, op_principal_github = principal,
                  op_repositories = map (\<lambda>r. (repo_alias r, r)) repos, op_roles = roles,
                  op_source_commit = source_commit, op_control_version = control_version,
                  op_source_tree_sha256 = source_tree_sha256,
                  op_organization_daily_token_budget = org_budget,
                  op_global_max_agents = global_max_agents, op_policy_digest = [],
                  op_protected_submission_paths = [''.github/workflows/'', ''.github/actions/'', ''.gitmodules'']\<rparr>
         in Inr (p\<lparr>op_policy_digest := policy_digest_of sha p\<rparr>))))))))))))))
     | _ \<Rightarrow> Inl (PolicyError ''organization policy must be a mapping''))"

section \<open>What a compiled policy guarantees\<close>

definition role_ok :: "int \<Rightarrow> role_policy \<Rightarrow> bool" where
  "role_ok org_budget rp \<longleftrightarrow>
     rp_role rp \<in> EXECUTING_ROLES
     \<and> rp_worker_types rp = expected_workers (rp_role rp)
     \<and> rp_repositories rp = expected_repositories (rp_role rp)
     \<and> 0 \<le> rp_max_workers_concurrent rp \<and> rp_max_workers_concurrent rp \<le> rp_max_workers_per_wake rp
     \<and> (rp_worker_types rp = {} \<longleftrightarrow> rp_max_workers_per_wake rp = 0)
     \<and> (rp_worker_types rp = {} \<longleftrightarrow> rp_max_workers_concurrent rp = 0)
     \<and> 0 < rp_daily_token_budget rp \<and> rp_daily_token_budget rp \<le> org_budget"

definition policy_ok :: "organization_policy \<Rightarrow> bool" where
  "policy_ok p \<longleftrightarrow>
     distinct (map fst (op_roles p))
     \<and> REQUIRED_EXECUTING_ROLES \<subseteq> role_names p \<and> role_names p \<subseteq> EXECUTING_ROLES
     \<and> list_all (\<lambda>(k, rp). rp_role rp = k \<and> role_ok (op_organization_daily_token_budget p) rp) (op_roles p)
     \<and> 0 < op_organization_daily_token_budget p
     \<and> op_global_max_agents p
         = int (length (op_roles p)) + sum_list (map (rp_max_workers_concurrent \<circ> snd) (op_roles p))
     \<and> map fst (op_repositories p) = [''org'', ''product'']
     \<and> fullmatch ROLE_ID (op_org_id p) \<and> fullmatch login_re (op_principal_github p)
     \<and> fullmatch version_re (op_control_version p)
     \<and> length (op_source_tree_sha256 p) = 64 \<and> list_all is_hex (op_source_tree_sha256 p)"

lemma compile_role_ok:
  assumes "compile_role b seen raw = Inr rp"
  shows "role_ok b rp \<and> rp_role rp \<notin> set seen"
  using assms
  by (cases raw) (auto simp: compile_role_def bindE_eq_Inr Let_def role_ok_def split: if_splits)

lemma compile_roles_ok:
  assumes "compile_roles b acc raws = Inr roles"
    and "distinct (map fst acc)" and "list_all (\<lambda>(k, rp). rp_role rp = k \<and> role_ok b rp) acc"
  shows "distinct (map fst roles) \<and> list_all (\<lambda>(k, rp). rp_role rp = k \<and> role_ok b rp) roles
         \<and> length roles = length acc + length raws"
  using assms
proof (induction raws arbitrary: acc)
  case (Cons raw raws)
  then obtain rp where rp: "compile_role b (map fst acc) raw = Inr rp"
    and rest: "compile_roles b (acc @ [(rp_role rp, rp)]) raws = Inr roles"
    by (auto simp: bindE_eq_Inr)
  from compile_role_ok [OF rp] have "role_ok b rp" "rp_role rp \<notin> fst ` set acc" by simp_all
  with Cons.prems Cons.IH [OF rest] show ?case by simp
qed simp

lemma role_ok_names:
  "list_all (\<lambda>(k, rp). rp_role rp = k \<and> role_ok b rp) roles \<Longrightarrow> fst ` set roles \<subseteq> EXECUTING_ROLES"
  by (auto simp: list_all_iff role_ok_def)

lemma compile_repository_alias:
  "compile_repository d a = Inr r \<Longrightarrow> repo_alias r = a"
  by (auto simp: compile_repository_def bindE_eq_Inr Let_def split: if_splits)

lemma policy_roleD:
  assumes "policy_ok p" and "policy_role p role = Inr rp"
  shows "rp_role rp = role" and "role_ok (op_organization_daily_token_budget p) rp"
    and "role \<in> EXECUTING_ROLES"
proof -
  from assms(2) have "(role, rp) \<in> set (op_roles p)"
    by (auto simp: policy_role_def map_of_SomeD split: option.splits)
  with assms(1) show "rp_role rp = role" "role_ok (op_organization_daily_token_budget p) rp"
    by (auto simp: policy_ok_def list_all_iff)
  then show "role \<in> EXECUTING_ROLES" by (auto simp: role_ok_def)
qed

lemma compile_roles_from_empty:
  assumes "compile_roles b [] raws = Inr roles"
  shows "distinct (map fst roles)" "list_all (\<lambda>(k, rp). rp_role rp = k \<and> role_ok b rp) roles"
    "fst ` set roles \<subseteq> EXECUTING_ROLES"
  using compile_roles_ok [OF assms] role_ok_names [of b roles] by auto

lemma compile_policy_ok:
  assumes "compile_policy sha data c = Inr p"
  shows "policy_ok p \<and> op_policy_digest p = policy_digest_of sha (p\<lparr>op_policy_digest := []\<rparr>)
         \<and> op_source_commit p = c
         \<and> op_protected_submission_paths p = [''.github/workflows/'', ''.github/actions/'', ''.gitmodules'']"
proof (cases data)
  case (JObj d)
  show ?thesis
    using assms unfolding JObj compile_policy_def
    apply (clarsimp simp: bindE_eq_Inr Let_def sha256_re_def fullmatch_rep_Cls split: if_splits)
    apply (frule compile_roles_from_empty(1), frule compile_roles_from_empty(2),
           drule compile_roles_from_empty(3))
    apply (simp add: policy_ok_def role_names_def compile_repository_alias not_le)
    done
qed (use assms in \<open>simp_all add: compile_policy_def\<close>)

end
