(* ===== verification/Authz.thy ===== *)
theory Authz
  imports Policy
begin

text \<open>
  \<^verbatim>\<open>control/sjg_control/authz.py\<close>: the closed authorization matrix. \<open>validate_request\<close> and
  \<open>authorize\<close> return \<open>Inr ()\<close> where the code returns and \<open>Inl\<close> of the exception where it
  raises. Sets of operation names are HOL sets of texts; dictionaries of constants are
  association lists.
\<close>

section \<open>The closed vocabulary\<close>

definition READ_OPERATIONS :: "string set" where
  "READ_OPERATIONS = {''read.issue.get'', ''read.issue.list'', ''read.issue.children'', ''read.issue.comments'',
     ''read.pr.get'', ''read.pr.list'', ''read.pr.files'', ''read.pr.checks'',
     ''read.workflow.runs'', ''repo.status''}"

definition PM_OPERATIONS :: "string set" where
  "PM_OPERATIONS = {''pm.issue.create'', ''pm.issue.comment'', ''pm.issue.route'', ''pm.issue.move'',
     ''pm.issue.done'', ''pm.issue.drop''}"

definition PR_OPERATIONS :: "string set" where
  "PR_OPERATIONS = {''pr.create'', ''pr.update'', ''pr.comment'', ''pr.review''}"

definition REPOSITORY_OPERATIONS :: "string set" where
  "REPOSITORY_OPERATIONS = {''repo.submit''}"

definition WORKER_OPERATIONS :: "string set" where
  "WORKER_OPERATIONS = {''worker.run''}"

definition OPERATIONS :: "string set" where
  "OPERATIONS = READ_OPERATIONS \<union> PM_OPERATIONS \<union> PR_OPERATIONS \<union> REPOSITORY_OPERATIONS \<union> WORKER_OPERATIONS"

definition OPERATION_ARGUMENTS :: "(string \<times> string list) list" where
  "OPERATION_ARGUMENTS =
    [(''read.issue.get'', [''repository'', ''id'', ''issue'']),
     (''read.issue.list'', [''repository'', ''all'']),
     (''read.issue.children'', [''repository'', ''id'', ''issue'']),
     (''read.issue.comments'', [''repository'', ''id'', ''issue'']),
     (''read.pr.get'', [''repository'', ''id'', ''pr'']),
     (''read.pr.list'', [''repository'']),
     (''read.pr.files'', [''repository'', ''id'', ''pr'']),
     (''read.pr.checks'', [''repository'', ''id'', ''pr'']),
     (''read.workflow.runs'', [''repository'']),
     (''repo.status'', [''repository'']),
     (''pm.issue.create'', [''repository'', ''kind'', ''title'', ''body'', ''parent'', ''target_role'', ''also_role'']),
     (''pm.issue.comment'', [''repository'', ''id'', ''issue'', ''body'']),
     (''pm.issue.route'', [''repository'', ''id'', ''issue'', ''target_role'']),
     (''pm.issue.move'', [''repository'', ''id'', ''issue'', ''to'']),
     (''pm.issue.done'', [''repository'', ''id'', ''issue'', ''pr'', ''demo'']),
     (''pm.issue.drop'', [''repository'', ''id'', ''issue'', ''reason'']),
     (''pr.create'', [''repository'', ''topic'', ''title'', ''body'', ''draft'']),
     (''pr.update'', [''repository'', ''id'', ''pr'', ''title'', ''body'']),
     (''pr.comment'', [''repository'', ''id'', ''pr'', ''body'']),
     (''pr.review'', [''repository'', ''id'', ''pr'', ''body'', ''event'']),
     (''repo.submit'', [''repository'', ''topic'', ''branch'', ''base_oid'', ''changes'', ''message'']),
     (''worker.run'', [''repository'', ''type'', ''task'', ''readPaths'', ''writePaths''])]"

definition HUMAN_ONLY_OPERATIONS :: "string set" where
  "HUMAN_ONLY_OPERATIONS = {''objective.create'', ''objective.edit'', ''objective.close'', ''pr.merge'',
     ''pr.auto_merge'', ''workflow.dispatch'', ''deployment.execute'', ''spend.authorize'',
     ''spend.execute'', ''governance.activate'', ''repository.settings'',
     ''branch.force_update'', ''branch.delete''}"

definition ROLE_CAPABILITIES :: "string \<Rightarrow> string set" where
  "ROLE_CAPABILITIES role =
     (if role = ''project-orchestrator'' then READ_OPERATIONS \<union>
        {''pm.issue.create'', ''pm.issue.comment'', ''pm.issue.route'',
         ''pr.create'', ''pr.update'', ''pr.comment'', ''pr.review''}
      else if role = ''commercial-planner'' then READ_OPERATIONS \<union> (PM_OPERATIONS - {''pm.issue.route''}) \<union>
        {''pr.create'', ''pr.update'', ''pr.comment'', ''pr.review'', ''repo.submit'', ''worker.run''}
      else if role = ''software-implementer'' then
        READ_OPERATIONS \<union> (PM_OPERATIONS - {''pm.issue.route''}) \<union> PR_OPERATIONS \<union>
        {''repo.submit'', ''worker.run''}
      else if role = ''governance-reviewer'' then READ_OPERATIONS \<union>
        {''pm.issue.comment'', ''pm.issue.route'', ''pr.comment'', ''pr.review''}
      else if role = ''policy-reviewer'' then READ_OPERATIONS \<union> (PM_OPERATIONS - {''pm.issue.route''}) \<union>
        {''pr.create'', ''pr.update'', ''pr.comment'', ''pr.review'', ''repo.submit'', ''worker.run''}
      else {})"

definition INDEPENDENT_REVIEW_ROLES :: "string set" where
  "INDEPENDENT_REVIEW_ROLES = {''project-orchestrator'', ''commercial-planner'', ''governance-reviewer'',
     ''policy-reviewer''}"

definition TERMINAL_STAGES :: "string set" where
  "TERMINAL_STAGES = {''Done'', ''Dropped''}"

definition STAGE_ORDER :: "string \<Rightarrow> nat option" where
  "STAGE_ORDER = map_of [(''Todo'', 0), (''In Progress'', 1), (''Awaiting Merge'', 2), (''Demo'', 3),
     (''Awaiting Deploy'', 4)]"

definition HOLDING_STAGES :: "string set" where
  "HOLDING_STAGES = {''Blocked'', ''On Hold''}"

lemmas operation_sets = OPERATIONS_def READ_OPERATIONS_def PM_OPERATIONS_def PR_OPERATIONS_def
  REPOSITORY_OPERATIONS_def WORKER_OPERATIONS_def HUMAN_ONLY_OPERATIONS_def

section \<open>Text patterns\<close>

definition slug_word :: "char \<Rightarrow> bool" where
  "slug_word c \<longleftrightarrow> word_char c \<or> c = CHR ''.'' \<or> c = CHR ''-''"

definition CLOSING_RE :: re where
  "CLOSING_RE = seqs
     [Alt Bos Wb,
      alts [Seq (ilit ''close'') (opt (Alt (ilit ''s'') (ilit ''d''))),
            Seq (ilit ''fix'') (opt (Seq (ilit ''e'') (Alt (ilit ''s'') (ilit ''d'')))),
            Seq (ilit ''resolve'') (opt (Alt (ilit ''s'') (ilit ''d'')))],
      Alt (seqs [Star Sp, lit '':'', Star Sp]) (plus Sp),
      Alt (seqs [opt (seqs [plus (Cls slug_word), lit ''/'', plus (Cls slug_word)]), lit ''#'', plus (Cls is_digit)])
          (seqs [ilit ''https://github.com/'', plus (Cls slug_word), lit ''/'', plus (Cls slug_word),
                 ilit ''/issues/'', plus (Cls is_digit)])]"

definition OBJECTIVE_RE :: re where
  "OBJECTIVE_RE = seqs [Bos, Star Sp, opt (lit ''[''), ilit ''objective'', opt (lit '']''), Wb]"

definition acceptance_word :: re where
  "acceptance_word = Alt (ilit ''acceptance'')
     (seqs [ilit ''done'', opt (Alt (lit ''-'') (lit '' '')), ilit ''when''])"

definition ACCEPTANCE_RE :: re where
  "ACCEPTANCE_RE = seqs
     [Bol, Star Sp,
      Alt (seqs [opt (Seq (Alt (lit ''-'') (lit ''*'')) (Star Sp)), acceptance_word, Star Sp, lit '':''])
          (seqs [lit ''#'', rep_upto 5 (lit ''#''), Star Sp, acceptance_word, Wb]),
      Star Sp, plus NSp]"

definition BANNER_RE :: re where
  "BANNER_RE = seqs [Bol, Star Sp, lit ''**'', ilit ''human principal'', plus Sp, lit em_dash]"

definition topic_re :: re where
  "topic_re = Seq (Cls is_kebab) (rep_upto 62 (Cls (\<lambda>c. is_kebab c \<or> c = CHR ''-'')))"

section \<open>Sessions and facts\<close>

record session =
  sn_session_id :: string
  sn_wake_id :: string
  sn_org_id :: string
  sn_role :: string
  sn_policy_digest :: string
  sn_workspace_aliases :: "string set"
  sn_expires_at :: string

record facts =
  f_complete :: bool
  f_issue_kind :: "string option"
  f_parent_kind :: "string option"
  f_owner_role :: "string option"
  f_current_stage :: "string option"
  f_has_open_children :: "bool option"
  f_evidence_valid :: "bool option"
  f_pr_head_role :: "string option"
  f_pr_open :: "bool option"
  f_managed_by_monitor :: bool

text \<open>\<open>Facts()\<close>: the dataclass defaults.\<close>

definition default_facts :: facts where
  "default_facts = \<lparr>f_complete = True, f_issue_kind = None, f_parent_kind = None, f_owner_role = None,
     f_current_stage = None, f_has_open_children = None, f_evidence_valid = None,
     f_pr_head_role = None, f_pr_open = None, f_managed_by_monitor = False\<rparr>"

section \<open>Paths\<close>

text \<open>\<open>PurePosixPath\<close>: two leading slashes are kept, empty and \<^verbatim>\<open>.\<close> components are
  dropped, and a path with no component prints as \<^verbatim>\<open>.\<close>.\<close>

definition posix_root :: "string \<Rightarrow> string" where
  "posix_root raw = (if starts_with ''//'' raw \<and> \<not> starts_with ''///'' raw then ''//''
                     else if starts_with ''/'' raw then ''/'' else [])"

definition posix_names :: "string \<Rightarrow> string list" where
  "posix_names raw = filter (\<lambda>n. n \<noteq> [] \<and> n \<noteq> ''.'') (split_on (CHR ''/'') raw)"

definition posix_parts :: "string \<Rightarrow> string list" where
  "posix_parts raw = (if posix_root raw = [] then [] else [posix_root raw]) @ posix_names raw"

definition posix_str :: "string \<Rightarrow> string" where
  "posix_str raw = (if posix_root raw = [] \<and> posix_names raw = [] then ''.''
                    else posix_root raw @ join ''/'' (posix_names raw))"

definition unsafe_path :: "string \<Rightarrow> bool" where
  "unsafe_path raw \<longleftrightarrow> raw = [] \<or> posix_root raw \<noteq> [] \<or> ''..'' \<in> set (posix_parts raw) \<or> CHR 0x00 \<in> set raw
     \<or> CHR 92 \<in> set raw \<or> has_control raw \<or> posix_str raw \<noteq> raw"

section \<open>Base64\<close>

definition sextet :: "char \<Rightarrow> nat option" where
  "sextet c = (let n = of_char c :: nat in
     if 65 \<le> n \<and> n \<le> 90 then Some (n - 65)
     else if 97 \<le> n \<and> n \<le> 122 then Some (n - 71)
     else if 48 \<le> n \<and> n \<le> 57 then Some (n + 4)
     else if n = 43 then Some 62 else if n = 47 then Some 63 else None)"

text \<open>\<open>base64.b64decode(s, validate=True)\<close>; \<open>None\<close> where it raises.\<close>

fun b64decode :: "string \<Rightarrow> string option" where
  "b64decode [] = Some []"
| "b64decode (a # b # c # d # rest) =
     (case (sextet a, sextet b) of
        (Some x, Some y) \<Rightarrow>
          (if rest = [] \<and> c = CHR ''='' \<and> d = CHR ''='' then Some [char_of (x * 4 + y div 16)]
           else (case sextet c of None \<Rightarrow> None
             | Some z \<Rightarrow>
                 (if rest = [] \<and> d = CHR ''='' then Some [char_of (x * 4 + y div 16), char_of (y mod 16 * 16 + z div 4)]
                  else (case (sextet d, b64decode rest) of
                     (Some w, Some out) \<Rightarrow>
                       Some (char_of (x * 4 + y div 16) # char_of (y mod 16 * 16 + z div 4)
                             # char_of (z mod 4 * 64 + w) # out)
                   | _ \<Rightarrow> None))))
      | _ \<Rightarrow> None)"
| "b64decode _ = None"

section \<open>Argument checks\<close>

definition safe_topic :: "json \<Rightarrow> string result" where
  "safe_topic v = (let topic = str_or_empty v in
     if \<not> fullmatch topic_re topic
     then Inl (AuthorizationError ''topic must be lowercase kebab-case and at most 63 characters'')
     else Inr topic)"

definition protected_path :: "string list \<Rightarrow> string \<Rightarrow> bool" where
  "protected_path protected normalized \<longleftrightarrow>
     normalized = ''.gitmodules'' \<or> ends_with ''/action.yml'' normalized
     \<or> list_ex (\<lambda>prefix. normalized = rev (dropWhile (\<lambda>c. c = CHR ''/'') (rev prefix))
                        \<or> starts_with prefix normalized) protected"

text \<open>One change of a submission: an unhashable \<open>mode\<close> raises \<open>TypeError\<close> at the set test.\<close>

definition safe_change :: "(string \<Rightarrow> string) \<Rightarrow> string list \<Rightarrow> string set \<Rightarrow> json \<Rightarrow> string result" where
  "safe_change sha protected seen change_value =
     (case change_value of JObj change \<Rightarrow>
       (let raw = str_or_empty (dget change ''path'') in
        if unsafe_path raw then Inl (AuthorizationError (''unsafe repository path: '' @ repr_text raw))
        else let normalized = posix_str raw in
        if normalized \<in> seen then Inl (AuthorizationError (''duplicate repository path: '' @ raw))
        else if protected_path protected normalized
        then Inl (AuthorizationError (''protected repository path: '' @ raw))
        else let operation = str_or_empty (dget change ''operation'');
                 mode = (if has_key change ''mode'' then dget change ''mode'' else JStr ''100644'');
                 keys = set (dkeys change) in
        if operation \<notin> {''upsert'', ''delete''}
        then Inl (AuthorizationError ''change operation must be upsert or delete'')
        else if (case mode of JList _ \<Rightarrow> True | JObj _ \<Rightarrow> True | _ \<Rightarrow> False)
        then Inl (TypeError ''unhashable type'')
        else if mode \<notin> {JStr ''100644'', JStr ''100755''}
        then Inl (AuthorizationError ''only regular file modes are allowed'')
        else if keys \<noteq> (if operation = ''upsert''
                         then {''operation'', ''path'', ''mode'', ''sha256'', ''content_base64''}
                         else {''operation'', ''path'', ''mode''})
        then Inl (AuthorizationError ''repository change has missing or unknown fields'')
        else if operation = ''upsert'' then
          (case dget change ''content_base64'' of
             JStr encoded \<Rightarrow>
               (let digest = str_or_empty (dget change ''sha256'') in
                if text_len encoded > 2800000 \<or> \<not> fullmatch sha256_re digest
                then Inl (AuthorizationError ''repository content metadata is invalid'')
                else (case b64decode encoded of
                   None \<Rightarrow> Inl (AuthorizationError ''repository content is not valid base64'')
                 | Some decoded \<Rightarrow>
                     if length decoded > 2 * 1024 * 1024 \<or> sha decoded \<noteq> digest
                     then Inl (AuthorizationError ''repository content size or digest is invalid'')
                     else Inr normalized))
           | _ \<Rightarrow> Inl (AuthorizationError ''repository content metadata is invalid''))
        else Inr normalized)
     | _ \<Rightarrow> Inl (AuthorizationError ''each repository change must be an object''))"

fun safe_changes :: "(string \<Rightarrow> string) \<Rightarrow> string list \<Rightarrow> string set \<Rightarrow> json list \<Rightarrow> unit result" where
  "safe_changes sha protected seen [] = Inr ()"
| "safe_changes sha protected seen (c # cs) =
     bindE (safe_change sha protected seen c) (\<lambda>normalized.
       safe_changes sha protected (insert normalized seen) cs)"

definition safe_paths :: "(string \<Rightarrow> string) \<Rightarrow> json \<Rightarrow> string list \<Rightarrow> unit result" where
  "safe_paths sha paths protected =
     (case paths of
        JList cs \<Rightarrow>
          (if cs = [] then Inl (AuthorizationError ''repo.submit requires a non-empty changes list'')
           else if length cs > 200 then Inl (AuthorizationError ''repo.submit exceeds 200 changed paths'')
           else safe_changes sha protected {} cs)
      | _ \<Rightarrow> Inl (AuthorizationError ''repo.submit requires a non-empty changes list''))"

definition safe_worker_path :: "string \<Rightarrow> json \<Rightarrow> string result" where
  "safe_worker_path name v =
     (case v of
        JStr raw \<Rightarrow> (if unsafe_path raw \<or> length raw > 255
                     then Inl (AuthorizationError (''unsafe worker '' @ name @ '' path: '' @ repr_text raw))
                     else Inr raw)
      | _ \<Rightarrow> Inl (AuthorizationError (''worker '' @ name @ '' paths must be strings'')))"

definition safe_worker_paths :: "json \<Rightarrow> string \<Rightarrow> string list result" where
  "safe_worker_paths values name =
     (case values of
        JList vs \<Rightarrow>
          (if length vs > 200
           then Inl (AuthorizationError (''worker '' @ name @ '' paths must be an array of at most 200 entries''))
           else bindE (mapE (safe_worker_path name) vs) (\<lambda>result.
             if \<not> distinct result
             then Inl (AuthorizationError (''worker '' @ name @ '' paths must not contain duplicates''))
             else Inr result))
      | _ \<Rightarrow> Inl (AuthorizationError (''worker '' @ name @ '' paths must be an array of at most 200 entries'')))"

section \<open>Request validation\<close>

definition forbidden_keys :: "string list" where
  "forbidden_keys = [''role'', ''actor'', ''token'', ''repository_url'', ''command'', ''argv'', ''method'', ''url'']"

definition request_repository :: "(string \<times> json) list \<Rightarrow> string" where
  "request_repository arguments = py_str (py_or (dget arguments ''repository'') (JStr ''org''))"

definition validate_request ::
  "organization_policy \<Rightarrow> session \<Rightarrow> string \<Rightarrow> json \<Rightarrow> unit result" where
  "validate_request policy sn operation arguments_value =
     (if sn_org_id sn \<noteq> op_org_id policy \<or> sn_policy_digest sn \<noteq> op_policy_digest policy
      then Inl (AuthorizationError ''session is not bound to the active policy'')
      else if operation \<in> HUMAN_ONLY_OPERATIONS \<or> operation \<notin> OPERATIONS
      then Inl (AuthorizationError (''operation is not agent-reachable: '' @ operation))
      else if operation \<notin> ROLE_CAPABILITIES (sn_role sn)
      then Inl (AuthorizationError (sn_role sn @ '' may not perform '' @ operation))
      else (case arguments_value of
        JObj arguments \<Rightarrow>
          (let bad = sort (filter (\<lambda>k. k \<in> set (dkeys arguments)) forbidden_keys);
               known = (case map_of OPERATION_ARGUMENTS operation of Some ks \<Rightarrow> ks | None \<Rightarrow> []);
               unknown = sort (remdups (filter (\<lambda>k. k \<notin> set known) (dkeys arguments)));
               repository = request_repository arguments in
           if bad \<noteq> []
           then Inl (AuthorizationError (''caller-controlled authority fields are forbidden: '' @ quoted_list bad))
           else if unknown \<noteq> []
           then Inl (AuthorizationError (''unknown arguments for '' @ operation @ '': '' @ quoted_list unknown))
           else bindE (policy_role policy (sn_role sn)) (\<lambda>role_policy.
             if repository \<notin> sn_workspace_aliases sn \<or> repository \<notin> rp_repositories role_policy
             then Inl (AuthorizationError (''repository '' @ repr_text repository @ '' is outside this wake''))
             else if operation \<in> PM_OPERATIONS \<and> repository \<noteq> ''org''
             then Inl (AuthorizationError ''project-management operations are confined to the org repository'')
             else Inr ()))
      | _ \<Rightarrow> Inl (AuthorizationError ''arguments must be an object'')))"

section \<open>Operation rules\<close>

definition delivery_roles :: "string set" where
  "delivery_roles = {''commercial-planner'', ''software-implementer'', ''policy-reviewer''}"

definition required_parent :: "string \<Rightarrow> string option" where
  "required_parent = map_of [(''epic'', ''objective''), (''feature'', ''epic''), (''story'', ''feature'')]"

definition valid_collaborators :: "string set \<Rightarrow> json \<Rightarrow> bool" where
  "valid_collaborators allowed v =
     (case v of
        JList vs \<Rightarrow> list_all (\<lambda>x. case x of JStr _ \<Rightarrow> True | _ \<Rightarrow> False) vs \<and> distinct vs
                    \<and> list_all (\<lambda>x. py_str x \<in> allowed) vs
      | _ \<Rightarrow> False)"

definition authorize_issue_create ::
  "organization_policy \<Rightarrow> session \<Rightarrow> (string \<times> json) list \<Rightarrow> facts \<Rightarrow> unit result" where
  "authorize_issue_create policy sn arguments facts =
     (let raw_kind = str_or_empty (dget arguments ''kind'');
          kind = lower raw_kind;
          title = strip (str_or_empty (dget arguments ''title'')) in
      if raw_kind \<noteq> kind then Inl (AuthorizationError ''work-item kind must use its canonical lowercase id'')
      else if title = [] then Inl (AuthorizationError ''issue title is required'')
      else bindE (py_iter (py_or (dget arguments ''labels'') (JList []))) (\<lambda>raw_labels.
      let labels = set (map (lower \<circ> py_str) raw_labels);
          allowed_kinds = (if sn_role sn = ''project-orchestrator'' then {''epic'', ''proposal''}
                           else {''feature'', ''story'', ''proposal''});
          target = str_or_empty (dget arguments ''target_role'');
          owners = role_names policy \<inter> delivery_roles in
      if kind = ''objective'' \<or> ''objective'' \<in> labels \<or> match_prefix OBJECTIVE_RE title
      then Inl (AuthorizationError ''only the Human Principal creates objectives'')
      else if kind \<notin> allowed_kinds
      then Inl (AuthorizationError (sn_role sn @ '' may not create '' @ (if kind = [] then ''untyped'' else kind) @ '' work''))
      else if kind \<in> {''feature'', ''story''} \<and> \<not> search ACCEPTANCE_RE (str_or_empty (dget arguments ''body''))
      then Inl (AuthorizationError (kind @ '' requires acceptance or done-when evidence text''))
      else if (case required_parent kind of None \<Rightarrow> False | Some r \<Rightarrow> f_parent_kind facts \<noteq> Some r)
      then Inl (AuthorizationError (kind @ '' requires a complete ''
             @ (case required_parent kind of None \<Rightarrow> [] | Some r \<Rightarrow> r) @ '' parent''))
      else if sn_role sn = ''project-orchestrator'' \<and> kind \<noteq> ''proposal'' \<and> target \<notin> owners
      then Inl (AuthorizationError ''project-created delivery work requires a canonical delivery owner'')
      else if sn_role sn = ''project-orchestrator'' \<and> target \<noteq> [] \<and> target \<notin> owners
      then Inl (AuthorizationError ''create target is not a canonical delivery owner'')
      else if sn_role sn \<noteq> ''project-orchestrator'' \<and> target \<noteq> []
      then Inl (AuthorizationError ''only project-orchestrator may assign another role at creation'')
      else if \<not> valid_collaborators owners (py_or (dget arguments ''also_role'') (JList []))
      then Inl (AuthorizationError ''collaborators must be canonical delivery roles'')
      else Inr ()))"

definition authorize_issue_comment :: "(string \<times> json) list \<Rightarrow> unit result" where
  "authorize_issue_comment arguments =
     (let body = str_or_empty (dget arguments ''body'') in
      if strip body = [] then Inl (AuthorizationError ''comment body is required'')
      else if search BANNER_RE body
      then Inl (AuthorizationError ''agents may not forge the Human Principal banner'')
      else Inr ())"

definition authorize_issue_route ::
  "organization_policy \<Rightarrow> (string \<times> json) list \<Rightarrow> facts \<Rightarrow> unit result" where
  "authorize_issue_route policy arguments facts =
     (let target = str_or_empty (dget arguments ''target_role'');
          allowed_targets = (if f_issue_kind facts = Some ''objective'' then {''project-orchestrator''}
                             else {''commercial-planner'', ''software-implementer'', ''policy-reviewer''}) in
      if target \<notin> role_names policy \<inter> allowed_targets
      then Inl (AuthorizationError ''route target is invalid for this work kind'')
      else if f_owner_role facts \<noteq> None
      then Inl (AuthorizationError ''agent routing is triage-only and cannot replace an owner'')
      else Inr ())"

definition authorize_owner :: "session \<Rightarrow> facts \<Rightarrow> unit result" where
  "authorize_owner sn facts =
     (if f_owner_role facts \<noteq> Some (sn_role sn)
      then Inl (AuthorizationError ''only the owning role may mutate work state'')
      else if sn_role sn = ''project-orchestrator''
      then Inl (AuthorizationError ''project-orchestrator coordinates but does not move or close work'')
      else Inr ())"

definition authorize_issue_move :: "(string \<times> json) list \<Rightarrow> facts \<Rightarrow> unit result" where
  "authorize_issue_move arguments facts =
     (let target = str_or_empty (dget arguments ''to'') in
      if target \<in> TERMINAL_STAGES
      then Inl (AuthorizationError ''terminal stages require the typed done/drop operation'')
      else if target \<in> HOLDING_STAGES then Inr ()
      else if (case f_current_stage facts of None \<Rightarrow> False | Some st \<Rightarrow> st \<in> HOLDING_STAGES)
              \<and> STAGE_ORDER target \<noteq> None then Inr ()
      else (case (Option.bind (f_current_stage facts) STAGE_ORDER, STAGE_ORDER target) of
         (Some current, Some wanted) \<Rightarrow>
           (if wanted < current then Inl (AuthorizationError ''backward movement requires Human intervention'')
            else Inr ())
       | _ \<Rightarrow> Inl (AuthorizationError ''unknown current or target stage'')))"

definition authorize_issue_close :: "string \<Rightarrow> (string \<times> json) list \<Rightarrow> facts \<Rightarrow> unit result" where
  "authorize_issue_close operation arguments facts =
     (if f_issue_kind facts \<notin> {Some ''story'', Some ''feature''}
      then Inl (AuthorizationError ''agents may complete or drop only stories and features'')
      else if f_has_open_children facts \<noteq> Some False
      then Inl (AuthorizationError ''complete child enumeration did not prove zero open children'')
      else if operation = ''pm.issue.done'' \<and> f_evidence_valid facts \<noteq> Some True
      then Inl (AuthorizationError ''evidence is absent, stale, unrelated, or incomplete'')
      else if operation = ''pm.issue.drop'' \<and> strip (str_or_empty (dget arguments ''reason'')) = []
      then Inl (AuthorizationError ''drop requires a non-empty reason'')
      else Inr ())"

text \<open>An f-string field of a missing key with default \<open>''\<close>.\<close>

definition field_text :: "(string \<times> json) list \<Rightarrow> string \<Rightarrow> string" where
  "field_text d k = (if has_key d k then py_str (dget d k) else [])"

definition authorize_pr ::
  "organization_policy \<Rightarrow> session \<Rightarrow> string \<Rightarrow> (string \<times> json) list \<Rightarrow> facts \<Rightarrow> unit result" where
  "authorize_pr policy sn operation arguments facts =
     (let body = strip (str_or_empty (dget arguments ''body''));
          title = strip (str_or_empty (dget arguments ''title'')) in
      if search CLOSING_RE (field_text arguments ''title'' @ nl @ field_text arguments ''body'')
      then Inl (AuthorizationError ''PR text may not contain issue-closing keywords'')
      else bindE
        (if operation = ''pr.create'' then
           bindE (safe_topic (dget arguments ''topic'')) (\<lambda>_.
             if title = [] then Inl (AuthorizationError ''PR title is required'') else Inr ())
         else if f_pr_open facts \<noteq> Some True
                 \<or> (case f_pr_head_role facts of None \<Rightarrow> True | Some r \<Rightarrow> r \<notin> role_names policy)
         then Inl (AuthorizationError ''PR must be open and owned by a canonical agent role'')
         else if operation = ''pr.update'' \<and> f_pr_head_role facts \<noteq> Some (sn_role sn)
         then Inl (AuthorizationError ''role may update only its own open PR'')
         else if operation = ''pr.review'' \<and>
                 (sn_role sn \<notin> INDEPENDENT_REVIEW_ROLES \<or> f_pr_head_role facts = Some (sn_role sn))
         then Inl (AuthorizationError ''PR review must be independent of the authoring role'')
         else if operation = ''pr.review'' \<and>
                 py_str (py_or (dget arguments ''event'') (JStr ''COMMENT'')) \<notin> {''COMMENT'', ''REQUEST_CHANGES''}
         then Inl (AuthorizationError ''agent review may only comment or request changes'')
         else Inr ())
        (\<lambda>_. if operation \<in> {''pr.comment'', ''pr.review''} \<and> body = []
             then Inl (AuthorizationError ''PR comment or review body is required'')
             else if operation = ''pr.update'' \<and> title = [] \<and> body = []
             then Inl (AuthorizationError ''PR update requires a title or body'')
             else Inr ()))"

definition authorize_repo_submit ::
  "(string \<Rightarrow> string) \<Rightarrow> organization_policy \<Rightarrow> session \<Rightarrow> (string \<times> json) list \<Rightarrow> unit result" where
  "authorize_repo_submit sha policy sn arguments =
     bindE (safe_topic (dget arguments ''topic'')) (\<lambda>topic.
     let expected = ''agent/'' @ sn_role sn @ ''/'' @ topic;
         supplied = dget arguments ''branch'';
         message = str_or_empty (dget arguments ''message'') in
     if supplied \<noteq> JNull \<and> supplied \<noteq> JStr expected
     then Inl (AuthorizationError (''branch must be '' @ expected))
     else if \<not> fullmatch (rep 40 (Cls is_hex)) (str_or_empty (dget arguments ''base_oid''))
     then Inl (AuthorizationError ''submission base_oid must be a full commit SHA'')
     else if text_len message > 500
             \<or> list_ex (\<lambda>c. (of_char c :: nat) < 32 \<and> c \<noteq> CHR 10 \<and> c \<noteq> CHR 9) message
     then Inl (AuthorizationError ''submission message is invalid'')
     else if search CLOSING_RE message
     then Inl (AuthorizationError ''commit message may not contain issue-closing keywords'')
     else safe_paths sha (dget arguments ''changes'') (op_protected_submission_paths policy))"

definition authorize_worker_run ::
  "session \<Rightarrow> role_policy \<Rightarrow> (string \<times> json) list \<Rightarrow> unit result" where
  "authorize_worker_run sn role_policy arguments =
     (let worker_type = str_or_empty (dget arguments ''type'') in
      if worker_type \<notin> rp_worker_types role_policy
      then Inl (AuthorizationError (''worker type '' @ repr_text worker_type @ '' is not allowed for '' @ sn_role sn))
      else if (case dget arguments ''task'' of JStr task \<Rightarrow> strip task = [] \<or> length task > 32768 | _ \<Rightarrow> True)
      then Inl (AuthorizationError ''worker task must be non-empty and at most 32 KiB'')
      else bindE (safe_worker_paths (dget arguments ''readPaths'') ''read'') (\<lambda>read_paths.
      bindE (safe_worker_paths (dget arguments ''writePaths'') ''write'') (\<lambda>write_paths.
      if worker_type \<noteq> ''implementer'' \<and> write_paths \<noteq> []
      then Inl (AuthorizationError (worker_type @ '' is a read-only worker''))
      else if worker_type = ''implementer'' \<and> write_paths = []
      then Inl (AuthorizationError ''implementer worker requires declared write paths'')
      else if \<not> set write_paths \<subseteq> set read_paths
      then Inl (AuthorizationError ''worker write paths must also be declared read paths'')
      else if list_ex (has_key arguments) [''model'', ''provider'', ''role'', ''tools'', ''socket'']
      then Inl (AuthorizationError ''worker model, provider, role, tools, and authority are server-selected'')
      else Inr ())))"

definition authorize ::
  "(string \<Rightarrow> string) \<Rightarrow> organization_policy \<Rightarrow> session \<Rightarrow> string \<Rightarrow> json \<Rightarrow> facts option \<Rightarrow> unit result" where
  "authorize sha policy sn operation arguments_value given_facts =
     bindE (validate_request policy sn operation arguments_value) (\<lambda>_.
     bindE (policy_role policy (sn_role sn)) (\<lambda>role_policy.
     let arguments = (case arguments_value of JObj d \<Rightarrow> d | _ \<Rightarrow> []);
         facts = (case given_facts of Some f \<Rightarrow> f | None \<Rightarrow> default_facts\<lparr>f_complete := False\<rparr>) in
     if operation \<in> READ_OPERATIONS then Inr ()
     else if (starts_with ''pm.'' operation \<or> starts_with ''pr.'' operation) \<and> \<not> f_complete facts
     then Inl (AuthorizationError ''authoritative GitHub facts are incomplete'')
     else if operation = ''pm.issue.create'' then authorize_issue_create policy sn arguments facts
     else if operation = ''pm.issue.comment'' then authorize_issue_comment arguments
     else if operation = ''pm.issue.route'' then authorize_issue_route policy arguments facts
     else bindE (if operation \<in> {''pm.issue.move'', ''pm.issue.done'', ''pm.issue.drop''}
                 then authorize_owner sn facts else Inr ()) (\<lambda>_.
     if operation = ''pm.issue.move'' then authorize_issue_move arguments facts
     else if operation \<in> {''pm.issue.done'', ''pm.issue.drop''}
     then authorize_issue_close operation arguments facts
     else if starts_with ''pr.'' operation then authorize_pr policy sn operation arguments facts
     else if operation = ''repo.submit'' then authorize_repo_submit sha policy sn arguments
     else if operation = ''worker.run'' then authorize_worker_run sn role_policy arguments
     else Inl (AuthorizationError (''unhandled operation: '' @ operation)))))"

section \<open>Safe paths\<close>

lemma safe_path_components:
  assumes "\<not> unsafe_path raw" and "raw \<noteq> ''.''"
  shows "split_on (CHR ''/'') raw = posix_names raw"
proof -
  from assms have root: "posix_root raw = []" and str: "posix_str raw = raw"
    by (auto simp: unsafe_path_def)
  with assms(2) have ne: "posix_names raw \<noteq> []" and j: "join ''/'' (posix_names raw) = raw"
    by (auto simp: posix_str_def split: if_splits)
  have "\<And>n. n \<in> set (posix_names raw) \<Longrightarrow> CHR ''/'' \<notin> set n"
    by (auto simp: posix_names_def dest: split_on_no_sep)
  from split_on_join [OF ne this] j show ?thesis by simp
qed

definition components_ok :: "string \<Rightarrow> bool" where
  "components_ok raw \<longleftrightarrow> (\<forall>n\<in>set (split_on (CHR ''/'') raw). n \<notin> {[], ''.'', ''..''})"

lemma safe_path_iff:
  "\<not> unsafe_path raw \<longleftrightarrow>
     (raw = ''.'' \<or> components_ok raw) \<and> CHR 92 \<notin> set raw \<and> \<not> has_control raw"
proof (cases "raw = ''.''")
  case True
  then show ?thesis
    by (simp add: unsafe_path_def posix_root_def posix_parts_def posix_str_def posix_names_def
        starts_with_def has_control_def)
next
  case False
  show ?thesis
  proof
    assume safe: "\<not> unsafe_path raw"
    have "set (split_on (CHR ''/'') raw) = set (posix_names raw)"
      by (simp add: safe_path_components [OF safe False])
    moreover have "''..'' \<notin> set (posix_names raw)"
      using safe by (simp add: unsafe_path_def posix_parts_def)
    moreover have "[] \<notin> set (posix_names raw)" "''.'' \<notin> set (posix_names raw)"
      by (simp_all add: posix_names_def)
    ultimately have "components_ok raw" by (auto simp: components_ok_def)
    with safe show "(raw = ''.'' \<or> components_ok raw) \<and> CHR 92 \<notin> set raw \<and> \<not> has_control raw"
      by (simp add: unsafe_path_def)
  next
    assume r: "(raw = ''.'' \<or> components_ok raw) \<and> CHR 92 \<notin> set raw \<and> \<not> has_control raw"
    with False have ok: "components_ok raw" by simp
    have names: "posix_names raw = split_on (CHR ''/'') raw"
      using ok unfolding posix_names_def components_ok_def by (intro filter_True) blast
    have empty: "[] \<notin> set (split_on (CHR ''/'') raw)"
      using ok unfolding components_ok_def by blast
    then have ne: "raw \<noteq> []" by (cases raw) simp_all
    have "\<not> starts_with ''/'' raw"
    proof
      assume "starts_with ''/'' raw"
      then obtain t where "raw = CHR ''/'' # t" by (auto simp: starts_with_iff)
      then have "[] \<in> set (split_on (CHR ''/'') raw)" by simp
      with empty show False ..
    qed
    moreover from this have "\<not> starts_with ''//'' raw" by (auto simp: starts_with_iff)
    ultimately have root: "posix_root raw = []" by (simp add: posix_root_def)
    have "CHR 0x00 \<notin> set raw"
      using r by (auto simp: has_control_def list_ex_iff)
    moreover have "''..'' \<notin> set (split_on (CHR ''/'') raw)"
      using ok unfolding components_ok_def by blast
    ultimately show "\<not> unsafe_path raw"
      using r root names ne by (simp add: unsafe_path_def posix_parts_def posix_str_def join_split_on)
  qed
qed


section \<open>What an accepted request satisfies\<close>

definition request_permitted ::
  "organization_policy \<Rightarrow> session \<Rightarrow> string \<Rightarrow> (string \<times> json) list \<Rightarrow> bool" where
  "request_permitted policy sn operation arguments \<longleftrightarrow>
     sn_org_id sn = op_org_id policy \<and> sn_policy_digest sn = op_policy_digest policy
     \<and> operation \<in> ROLE_CAPABILITIES (sn_role sn)
     \<and> set (dkeys arguments) \<subseteq> set (the (map_of OPERATION_ARGUMENTS operation))
     \<and> (\<exists>rp. map_of (op_roles policy) (sn_role sn) = Some rp \<and> request_repository arguments \<in> rp_repositories rp)
     \<and> request_repository arguments \<in> sn_workspace_aliases sn
     \<and> (operation \<in> PM_OPERATIONS \<longrightarrow> request_repository arguments = ''org'')"

lemma ROLE_CAPABILITIES_subset: "ROLE_CAPABILITIES role \<subseteq> OPERATIONS"
  by (auto simp: ROLE_CAPABILITIES_def OPERATIONS_def PR_OPERATIONS_def PM_OPERATIONS_def
      REPOSITORY_OPERATIONS_def WORKER_OPERATIONS_def)

lemma human_only_not_operations: "HUMAN_ONLY_OPERATIONS \<inter> OPERATIONS = {}"
  by (auto simp: operation_sets)

lemma operation_arguments_known:
  "operation \<in> OPERATIONS \<Longrightarrow> \<exists>ks. map_of OPERATION_ARGUMENTS operation = Some ks
     \<and> set forbidden_keys \<inter> set ks = {}"
  by (auto simp: operation_sets OPERATION_ARGUMENTS_def forbidden_keys_def)

lemma sort_filter_Nil: "sort (remdups (filter P xs)) = [] \<longleftrightarrow> (\<forall>x\<in>set xs. \<not> P x)"
  by (metis filter_False filter_empty_conv length_0_conv length_sort remdups_eq_nil_iff)

lemma sort_filter_Nil2: "sort (filter P xs) = [] \<longleftrightarrow> (\<forall>x\<in>set xs. \<not> P x)"
  by (metis filter_False filter_empty_conv length_0_conv length_sort)

lemma validate_request_iff:
  "validate_request policy sn operation (JObj arguments) = Inr () \<longleftrightarrow>
     request_permitted policy sn operation arguments"
proof (cases "operation \<in> ROLE_CAPABILITIES (sn_role sn)")
  case True
  then have op: "operation \<in> OPERATIONS" using ROLE_CAPABILITIES_subset by blast
  then have "operation \<notin> HUMAN_ONLY_OPERATIONS" using human_only_not_operations by blast
  moreover obtain ks where "map_of OPERATION_ARGUMENTS operation = Some ks"
    and "set forbidden_keys \<inter> set ks = {}"
    using operation_arguments_known [OF op] by blast
  ultimately show ?thesis using True op
    by (auto simp: validate_request_def request_permitted_def Let_def sort_filter_Nil sort_filter_Nil2
        policy_role_def bindE_eq_Inr subset_iff split: if_splits option.splits)
qed (auto simp: validate_request_def request_permitted_def split: if_splits)


lemma validate_request_object:
  "validate_request policy sn operation v = Inr () \<Longrightarrow> \<exists>arguments. v = JObj arguments"
  by (cases v) (auto simp: validate_request_def split: if_splits)

lemma safe_change_ok:
  assumes "safe_change sha protected seen c = Inr n"
  obtains d where "c = JObj d" "n = str_or_empty (dget d ''path'')" "\<not> unsafe_path n" "n \<notin> seen"
    "\<not> protected_path protected n"
    "str_or_empty (dget d ''operation'') = ''upsert'' \<Longrightarrow>
       \<exists>encoded decoded. dget d ''content_base64'' = JStr encoded \<and> b64decode encoded = Some decoded
         \<and> length decoded \<le> 2 * 1024 * 1024 \<and> sha decoded = str_or_empty (dget d ''sha256'')"
proof (cases c)
  case (JObj d)
  let ?raw = "str_or_empty (dget d ''path'')"
  from assms JObj have "\<not> unsafe_path ?raw" "n = posix_str ?raw" "n \<notin> seen" "\<not> protected_path protected n"
    by (auto simp: safe_change_def Let_def split: if_splits json.splits option.splits)
  moreover from this have "n = ?raw" by (simp add: unsafe_path_def)
  moreover have "\<exists>encoded decoded. dget d ''content_base64'' = JStr encoded \<and> b64decode encoded = Some decoded
         \<and> length decoded \<le> 2 * 1024 * 1024 \<and> sha decoded = str_or_empty (dget d ''sha256'')"
    if "str_or_empty (dget d ''operation'') = ''upsert''"
    using assms JObj that by (auto simp: safe_change_def Let_def split: if_splits json.splits option.splits)
  ultimately show thesis using that JObj by metis
qed (use assms in \<open>simp_all add: safe_change_def\<close>)

definition change_path :: "json \<Rightarrow> string" where
  "change_path c = (case c of JObj d \<Rightarrow> str_or_empty (dget d ''path'') | _ \<Rightarrow> [])"

lemma safe_changes_ok:
  "safe_changes sha protected seen cs = Inr () \<Longrightarrow>
     distinct (map change_path cs) \<and> seen \<inter> change_path ` set cs = {}
     \<and> (\<forall>c\<in>set cs. \<not> unsafe_path (change_path c) \<and> \<not> protected_path protected (change_path c))"
proof (induction cs arbitrary: seen)
  case (Cons c cs)
  then obtain n where n: "safe_change sha protected seen c = Inr n"
    and rest: "safe_changes sha protected (insert n seen) cs = Inr ()" by (auto simp: bindE_eq_Inr)
  from n have "change_path c = n" "\<not> unsafe_path n" "n \<notin> seen" "\<not> protected_path protected n"
    by (auto elim!: safe_change_ok simp: change_path_def)
  with Cons.IH [OF rest] show ?case by auto
qed simp

lemma authorize_validated:
  assumes "authorize sha policy sn operation v f = Inr ()"
  obtains arguments where "v = JObj arguments" "request_permitted policy sn operation arguments"
proof -
  from assms have "validate_request policy sn operation v = Inr ()"
    by (auto simp: authorize_def bindE_eq_Inr)
  then show thesis using that validate_request_object validate_request_iff by metis
qed

lemmas authorize_simps = authorize_def bindE_eq_Inr Let_def starts_with_def READ_OPERATIONS_def

lemma authorize_complete_facts:
  assumes "authorize sha policy sn operation v f = Inr ()"
    and "operation \<in> PM_OPERATIONS \<union> PR_OPERATIONS"
  shows "\<exists>facts. f = Some facts \<and> f_complete facts"
proof -
  have "operation \<notin> READ_OPERATIONS" "starts_with ''pm.'' operation \<or> starts_with ''pr.'' operation"
    using assms(2) by (auto simp: PM_OPERATIONS_def PR_OPERATIONS_def READ_OPERATIONS_def starts_with_def)
  with assms(1) have "f_complete (case f of Some f \<Rightarrow> f | None \<Rightarrow> default_facts\<lparr>f_complete := False\<rparr>)"
    unfolding authorize_def Let_def bindE_eq_Inr by (auto split: if_split_asm)
  then show ?thesis by (cases f) (simp_all add: default_facts_def)
qed

lemma authorize_move:
  assumes "authorize sha policy sn ''pm.issue.move'' (JObj a) (Some facts) = Inr ()"
  shows "authorize_owner sn facts = Inr ()" "authorize_issue_move a facts = Inr ()"
  using assms by (auto simp: authorize_simps split: if_splits)

lemma authorize_close:
  assumes "authorize sha policy sn operation (JObj a) (Some facts) = Inr ()"
    and "operation \<in> {''pm.issue.done'', ''pm.issue.drop''}"
  shows "authorize_owner sn facts = Inr ()" "authorize_issue_close operation a facts = Inr ()"
  using assms by (auto simp: authorize_simps split: if_splits)

lemma authorize_pull_request:
  assumes "authorize sha policy sn operation (JObj a) (Some facts) = Inr ()"
    and "operation \<in> PR_OPERATIONS"
  shows "authorize_pr policy sn operation a facts = Inr ()"
  using assms by (auto simp: authorize_simps PR_OPERATIONS_def split: if_splits)

lemma authorize_submit:
  assumes "authorize sha policy sn ''repo.submit'' (JObj a) f = Inr ()"
  shows "authorize_repo_submit sha policy sn a = Inr ()"
  using assms by (auto simp: authorize_simps split: if_splits)

lemma authorize_worker:
  assumes "authorize sha policy sn ''worker.run'' (JObj a) f = Inr ()"
  shows "\<exists>rp. policy_role policy (sn_role sn) = Inr rp \<and> authorize_worker_run sn rp a = Inr ()"
  using assms by (auto simp: authorize_simps split: if_splits)

lemma safe_topic_iff:
  "safe_topic v = Inr t \<longleftrightarrow>
     t = str_or_empty v \<and> (\<exists>c u. t = c # u \<and> is_kebab c \<and> length u \<le> 62
        \<and> list_all (\<lambda>d. is_kebab d \<or> d = CHR ''-'') u)"
  by (auto simp: safe_topic_def topic_re_def fullmatch_head_upto Let_def split: if_splits)

end
