(* ===== verification/Authz_Rules.thy ===== *)
theory Authz_Rules
  imports Authz
begin

text \<open>
  What \<^verbatim>\<open>control/sjg_control/authz.py\<close> guarantees: the lemmas on closing keywords in free
  text, an example organization used for concrete instances, and the properties of
  \<open>validate_request\<close> and \<open>authorize\<close>.
\<close>

section \<open>Example data\<close>

definition example_role :: "string \<Rightarrow> role_policy" where
  "example_role r = \<lparr>rp_role = r, rp_worker_types = expected_workers r,
     rp_max_workers_per_wake = (if expected_workers r = {} then 0 else 4),
     rp_max_workers_concurrent = (if expected_workers r = {} then 0 else 2),
     rp_repositories = expected_repositories r, rp_daily_token_budget = 1000\<rparr>"

definition example_policy :: organization_policy where
  "example_policy = \<lparr>op_org_id = ''example-org'', op_principal_github = ''octocat'',
     op_repositories = [(''org'', \<lparr>repo_alias = ''org'', repo_slug = ''octocat/org'', repo_default_branch = ''main''\<rparr>),
                        (''product'', \<lparr>repo_alias = ''product'', repo_slug = ''octocat/product'', repo_default_branch = ''main''\<rparr>)],
     op_roles = map (\<lambda>r. (r, example_role r)) [''project-orchestrator'', ''commercial-planner'',
        ''software-implementer'', ''governance-reviewer''],
     op_source_commit = ''c0ffee'', op_control_version = ''1.0.0'', op_source_tree_sha256 = replicate 64 (CHR ''a''),
     op_organization_daily_token_budget = 5000, op_global_max_agents = 8, op_policy_digest = ''sha256:d'',
     op_protected_submission_paths = [''.github/workflows/'', ''.github/actions/'', ''.gitmodules'']\<rparr>"

definition example_session :: "string \<Rightarrow> session" where
  "example_session r = \<lparr>sn_session_id = ''s-'' @ r, sn_wake_id = ''w-'' @ r, sn_org_id = ''example-org'', sn_role = r,
     sn_policy_digest = ''sha256:d'', sn_workspace_aliases = expected_repositories r,
     sn_expires_at = ''2026-01-01T01:00:00Z''\<rparr>"

definition submit_arguments :: "(string \<times> json) list" where
  "submit_arguments = [(''repository'', JStr ''product''), (''topic'', JStr ''fix-1''),
     (''base_oid'', JStr (replicate 40 (CHR ''b''))),
     (''changes'', JList [JObj [(''operation'', JStr ''upsert''), (''path'', JStr ''src/a.py''), (''mode'', JStr ''100644''),
        (''sha256'', JStr (replicate 64 (CHR ''0''))), (''content_base64'', JStr ''aGk='')]])]"

definition closing_words :: "string list" where
  "closing_words = [''close'', ''closes'', ''closed'', ''fix'', ''fixes'', ''fixed'', ''resolve'', ''resolves'', ''resolved'']"

definition closing_verb :: re where
  "closing_verb = alts [Seq (ilit ''close'') (opt (Alt (ilit ''s'') (ilit ''d''))),
            Seq (ilit ''fix'') (opt (Seq (ilit ''e'') (Alt (ilit ''s'') (ilit ''d'')))),
            Seq (ilit ''resolve'') (opt (Alt (ilit ''s'') (ilit ''d'')))]"

section \<open>Closing keywords\<close>

lemma CLOSING_RE_needs: "needs {CHR ''#'', CHR ''/''} CLOSING_RE"
  by (simp add: CLOSING_RE_def plus_def opt_def)

text \<open>A closing keyword followed by a blank and an issue number is found wherever it stands
  after a character that is not part of a word.\<close>

lemma matches_plus_digits:
  "ds \<noteq> [] \<Longrightarrow> list_all is_digit ds \<Longrightarrow> matches (plus (Cls is_digit)) (b, ds @ t) (last_byte b ds, t)"
  by (cases ds) (auto simp: plus_def matches_Seq matches_Cls matches_Star_Cls)

lemma closing_verb_matches:
  "lower w \<in> set closing_words \<Longrightarrow> matches closing_verb (b, w @ t) (last_byte b w, t)"
  by (auto simp: closing_words_def lower_def map_eq_Cons_conv closing_verb_def matches_Seq matches_Cls
      matches_Alt matches_opt)

lemma lower_char_word: "is_lower (lower_char c) \<Longrightarrow> word_char c"
  by (auto simp: lower_char_def word_char_def is_lower_def Let_def split: if_splits)

lemma closing_word_start:
  assumes "lower w \<in> set closing_words"
  obtains c x where "w = c # x" "word_char c"
proof -
  from assms have "\<exists>c x. w = c # x \<and> is_lower (lower_char c)"
    by (auto simp: closing_words_def lower_def map_eq_Cons_conv is_lower_def)
  then show thesis using that lower_char_word by blast
qed

lemma closing_reference_found:
  assumes "lower w \<in> set closing_words" and "ds \<noteq> []" and "list_all is_digit ds"
    and "u = [] \<or> \<not> word_char (last u)"
  shows "search CLOSING_RE (u @ w @ '' #'' @ ds @ v)"
proof -
  let ?b = "last_byte None u" and ?s = "w @ '' #'' @ ds @ v"
  obtain c x where w: "w = c # x" "word_char c" using closing_word_start [OF assms(1)] .
  have "matches (Alt Bos Wb) (?b, ?s) (?b, ?s)"
  proof (cases "u = []")
    case True
    then show ?thesis by (simp add: matches_Alt matches_Bos)
  next
    case False
    with w assms(4) have "at_word_boundary (?b, ?s)"
      by (simp add: at_word_boundary_def last_byte_def)
    then show ?thesis by (simp add: matches_Alt matches_Wb)
  qed
  moreover have "matches closing_verb (?b, ?s) (last_byte ?b w, '' #'' @ ds @ v)"
    using closing_verb_matches [OF assms(1), of ?b "'' #'' @ ds @ v"] by simp
  moreover have "matches (plus Sp) (last_byte ?b w, '' #'' @ ds @ v) (Some (CHR '' ''), ''#'' @ ds @ v)"
    by (auto simp: plus_def matches_Seq matches_Sp space_len_def ascii_space_def skip_bytes_def
        intro!: exI [of _ "Some (CHR '' '')"] exI [of _ "''#'' @ ds @ v"] matches.m_star0)
  moreover have "matches (seqs [opt (seqs [plus (Cls slug_word), lit ''/'', plus (Cls slug_word)]), lit ''#'',
      plus (Cls is_digit)]) (Some (CHR '' ''), ''#'' @ ds @ v) (last_byte (Some (CHR ''#'')) ds, v)"
    using matches_plus_digits [OF assms(2,3), of "Some (CHR ''#'')" v]
    by (auto simp: matches_Seq matches_opt matches_Cls)
  ultimately have "\<exists>q. matches CLOSING_RE (?b, ?s) q"
    unfolding CLOSING_RE_def closing_verb_def [symmetric] seqs.simps matches_Seq matches_Alt by metis
  then show ?thesis unfolding search_def search_from_iff by blast
qed

lemma closing_after:
  assumes "lower w \<in> set closing_words" and "ds \<noteq> []" and "list_all is_digit ds"
    and "u = [] \<or> \<not> word_char (last u)"
  shows "search CLOSING_RE (x @ nl @ u @ w @ '' #'' @ ds @ v)"
proof -
  have "x @ nl @ u = [] \<or> \<not> word_char (last (x @ nl @ u))"
    using assms(4) by (cases "u = []") (simp_all add: word_char_def is_alnum_def)
  from closing_reference_found [OF assms(1-3) this] show ?thesis by simp
qed

section \<open>Worker paths\<close>

lemma safe_worker_paths_ok:
  assumes "safe_worker_paths v name = Inr ps"
  shows "v = JList (map JStr ps)" "distinct ps" "\<forall>p\<in>set ps. \<not> unsafe_path p \<and> length p \<le> 255"
proof -
  from assms obtain vs where v: "v = JList vs" and a: "list_all2 (\<lambda>x y. safe_worker_path name x = Inr y) vs ps"
    and "distinct ps"
    by (auto simp: safe_worker_paths_def bindE_eq_Inr mapE_Inr split: json.splits if_splits)
  from a have "vs = map JStr ps \<and> (\<forall>p\<in>set ps. \<not> unsafe_path p \<and> length p \<le> 255)"
    by (induction rule: list_all2_induct) (auto simp: safe_worker_path_def split: json.splits if_splits)
  with v \<open>distinct ps\<close> show "v = JList (map JStr ps)" "distinct ps"
    "\<forall>p\<in>set ps. \<not> unsafe_path p \<and> length p \<le> 255" by simp_all
qed

section \<open>Properties\<close>

text \<open>C4: an operation reserved for the Human Principal, and every operation name outside the
  closed vocabulary, is refused by \<open>authorize\<close> whatever the role, arguments and facts.\<close>

theorem human_only_refused:
  assumes "operation \<in> HUMAN_ONLY_OPERATIONS \<or> operation \<notin> OPERATIONS"
  shows "\<exists>m. authorize sha policy sn operation v f = Inl (AuthorizationError m)"
  using assms by (simp add: authorize_def validate_request_def)

theorem human_only_refused_witness:
  "\<exists>m. authorize (\<lambda>s. s) example_policy (example_session ''software-implementer'') ''pr.merge''
     (JObj [(''id'', JInt 3)]) (Some default_facts) = Inl (AuthorizationError m)"
  by (rule human_only_refused) (simp add: HUMAN_ONLY_OPERATIONS_def)

text \<open>C5: \<open>validate_request\<close> accepts exactly the requests that the matrix permits: the session is
  bound to the active policy, the role has the capability, no argument is outside the
  operation's schema, the repository is one of the wake and of the role, and work-item
  operations stay in the org repository.\<close>

theorem validate_request_exact:
  "validate_request policy sn operation v = Inr () \<longleftrightarrow>
     (\<exists>arguments. v = JObj arguments \<and> request_permitted policy sn operation arguments)"
  using validate_request_object validate_request_iff by metis

text \<open>C6: a work-item or pull-request mutation is authorized only on complete authoritative facts.\<close>

theorem mutation_needs_complete_facts:
  assumes "authorize sha policy sn operation v f = Inr ()"
    and "operation \<in> PM_OPERATIONS \<union> PR_OPERATIONS"
  shows "\<exists>facts. f = Some facts \<and> f_complete facts"
  using assms by (rule authorize_complete_facts)

theorem mutation_needs_complete_facts_witness:
  "\<exists>facts. Some default_facts = Some facts \<and> f_complete facts"
proof (rule mutation_needs_complete_facts [where operation = "''pm.issue.route''"])
  show "authorize (\<lambda>s. s) example_policy (example_session ''governance-reviewer'') ''pm.issue.route''
     (JObj [(''id'', JInt 3), (''target_role'', JStr ''commercial-planner'')]) (Some default_facts) = Inr ()"
    by code_simp
qed (simp add: PM_OPERATIONS_def)

text \<open>C7: an authorized move is made by the owning role, never by the orchestrator, never into a
  terminal stage, and never backwards: outside the holding stages the target stands at or after
  the current stage in the order.\<close>

theorem move_is_forward:
  assumes "authorize sha policy sn ''pm.issue.move'' (JObj a) (Some facts) = Inr ()"
  shows "f_owner_role facts = Some (sn_role sn) \<and> sn_role sn \<noteq> ''project-orchestrator''
    \<and> str_or_empty (dget a ''to'') \<notin> TERMINAL_STAGES
    \<and> (str_or_empty (dget a ''to'') \<in> HOLDING_STAGES
       \<or> (\<exists>st target. f_current_stage facts = Some st \<and> STAGE_ORDER (str_or_empty (dget a ''to'')) = Some target
            \<and> (st \<in> HOLDING_STAGES \<or> (\<exists>current. STAGE_ORDER st = Some current \<and> current \<le> target))))"
  using authorize_move [OF assms]
  by (auto simp: authorize_owner_def authorize_issue_move_def Let_def
      split: if_splits option.splits bind_splits)

theorem move_is_forward_witness:
  "''Demo'' \<notin> TERMINAL_STAGES \<and> authorize (\<lambda>s. s) example_policy (example_session ''commercial-planner'') ''pm.issue.move''
     (JObj [(''id'', JInt 7), (''to'', JStr ''Demo'')])
     (Some (default_facts\<lparr>f_owner_role := Some ''commercial-planner'', f_current_stage := Some ''In Progress''\<rparr>)) = Inr ()"
proof -
  have ok: "authorize (\<lambda>s. s) example_policy (example_session ''commercial-planner'') ''pm.issue.move''
     (JObj [(''id'', JInt 7), (''to'', JStr ''Demo'')])
     (Some (default_facts\<lparr>f_owner_role := Some ''commercial-planner'', f_current_stage := Some ''In Progress''\<rparr>)) = Inr ()"
    by code_simp
  from move_is_forward [OF ok] ok show ?thesis by (simp add: dget_def str_or_empty_def py_or_def)
qed

text \<open>C8: an item is completed or dropped only by its owner, only if it is a story or a feature,
  only after a complete enumeration proved that it has no open children, and only with valid
  evidence (done) or a non-blank reason (drop).\<close>

theorem close_is_evidenced:
  assumes "authorize sha policy sn operation (JObj a) (Some facts) = Inr ()"
    and "operation \<in> {''pm.issue.done'', ''pm.issue.drop''}"
  shows "f_owner_role facts = Some (sn_role sn) \<and> f_issue_kind facts \<in> {Some ''story'', Some ''feature''}
    \<and> f_has_open_children facts = Some False \<and> f_complete facts
    \<and> (if operation = ''pm.issue.done'' then f_evidence_valid facts = Some True
       else strip (str_or_empty (dget a ''reason'')) \<noteq> [])"
proof -
  have "operation \<in> PM_OPERATIONS \<union> PR_OPERATIONS"
    using assms(2) unfolding PM_OPERATIONS_def by blast
  with authorize_complete_facts [OF assms(1)] have "f_complete facts" by blast
  with authorize_close [OF assms] assms(2) show ?thesis
    by (auto simp: authorize_owner_def authorize_issue_close_def split: if_splits)
qed

theorem close_is_evidenced_witness:
  "strip (str_or_empty (dget [(''id'', JInt 7), (''reason'', JStr ''obsolete'')] ''reason'')) \<noteq> []"
proof -
  let ?p = example_policy and ?s = "example_session ''commercial-planner''" and ?op = "''pm.issue.drop''"
    and ?a = "[(''id'', JInt 7), (''reason'', JStr ''obsolete'')]"
  have "validate_request ?p ?s ?op (JObj ?a) = Inr ()" by code_simp
  moreover have "policy_role ?p (sn_role ?s) = Inr (example_role ''commercial-planner'')" by code_simp
  moreover have "strip (str_or_empty (dget ?a ''reason'')) = ''obsolete''" by code_simp
  ultimately have "authorize (\<lambda>s. s) ?p ?s ?op (JObj ?a)
     (Some (default_facts\<lparr>f_owner_role := Some ''commercial-planner'', f_issue_kind := Some ''story'',
        f_has_open_children := Some False\<rparr>)) = Inr ()"
    by (simp add: authorize_simps authorize_owner_def authorize_issue_close_def example_session_def default_facts_def)
  from close_is_evidenced [OF this] show ?thesis by simp
qed

text \<open>C9: an authorized review is independent of the author: the pull request is open, belongs to
  a role of the policy other than the reviewer's, the reviewer has a reviewing role, and the
  event is a comment or a request for changes, never an approval.\<close>

theorem review_is_independent:
  assumes "authorize sha policy sn ''pr.review'' (JObj a) (Some facts) = Inr ()"
  shows "sn_role sn \<in> INDEPENDENT_REVIEW_ROLES \<and> f_pr_open facts = Some True
    \<and> (\<exists>author \<in> role_names policy. f_pr_head_role facts = Some author \<and> author \<noteq> sn_role sn)
    \<and> py_str (py_or (dget a ''event'') (JStr ''COMMENT'')) \<in> {''COMMENT'', ''REQUEST_CHANGES''}
    \<and> strip (str_or_empty (dget a ''body'')) \<noteq> []"
  using authorize_pull_request [OF assms]
  by (auto simp: authorize_pr_def PR_OPERATIONS_def Let_def bindE_eq_Inr split: if_splits option.splits)

lemma authorize_pr_review_example:
  "authorize (\<lambda>s. s) example_policy (example_session ''governance-reviewer'') ''pr.review''
     (JObj [(''id'', JInt 7), (''body'', JStr ''Please fix the tests''), (''event'', JStr ''REQUEST_CHANGES'')])
     (Some (default_facts\<lparr>f_pr_open := Some True, f_pr_head_role := Some ''software-implementer''\<rparr>)) = Inr ()"
  (is "authorize ?sha ?p ?s ?op (JObj ?a) (Some ?f) = _")
proof -
  have v: "validate_request ?p ?s ?op (JObj ?a) = Inr ()" by code_simp
  have r: "policy_role ?p (sn_role ?s) = Inr (example_role ''governance-reviewer'')" by code_simp
  have "field_text ?a ''title'' @ nl @ field_text ?a ''body'' = nl @ ''Please fix the tests''" by code_simp
  then have c: "\<not> search CLOSING_RE (field_text ?a ''title'' @ nl @ field_text ?a ''body'')"
    using no_search [OF CLOSING_RE_needs, of "nl @ ''Please fix the tests''"] by simp
  have b: "strip (str_or_empty (dget ?a ''body'')) = ''Please fix the tests''" by code_simp
  have e: "py_str (py_or (dget ?a ''event'') (JStr ''COMMENT'')) = ''REQUEST_CHANGES''" by code_simp
  have n: "''software-implementer'' \<in> role_names ?p" by code_simp
  have "authorize_pr ?p ?s ?op ?a ?f = Inr ()"
    using c b e n by (simp add: authorize_pr_def example_session_def INDEPENDENT_REVIEW_ROLES_def default_facts_def)
  with v r show ?thesis by (simp add: authorize_simps default_facts_def)
qed

theorem review_is_independent_witness:
  "sn_role (example_session ''governance-reviewer'') \<in> INDEPENDENT_REVIEW_ROLES"
  using review_is_independent [OF authorize_pr_review_example] by simp

text \<open>pull-request text never closes issues by itself: a request whose body holds one of the
  closing verbs in any letter case, at the start of a word, followed by a blank and an issue
  number, is refused.\<close>

theorem closing_keyword_refused:
  assumes "operation \<in> PR_OPERATIONS" and "field_text a ''body'' = u @ w @ '' #'' @ ds @ t"
    and "lower w \<in> set closing_words" and "ds \<noteq> []" and "list_all is_digit ds"
    and "u = [] \<or> \<not> word_char (last u)"
  shows "authorize sha policy sn operation (JObj a) f \<noteq> Inr ()"
proof
  assume ok: "authorize sha policy sn operation (JObj a) f = Inr ()"
  with assms(1) obtain facts where "f = Some facts" using authorize_complete_facts by blast
  with ok assms(1) have "authorize_pr policy sn operation a facts = Inr ()"
    using authorize_pull_request by blast
  then have "\<not> search CLOSING_RE (field_text a ''title'' @ nl @ field_text a ''body'')"
    by (auto simp: authorize_pr_def Let_def split: if_splits)
  with closing_after [OF assms(3-6)] assms(2) show False by simp
qed

theorem closing_keyword_refused_witness:
  "authorize (\<lambda>s. s) example_policy (example_session ''software-implementer'') ''pr.create''
     (JObj [(''topic'', JStr ''fix-1''), (''title'', JStr ''t''), (''body'', JStr ''This Closes #12'')]) (Some default_facts) \<noteq> Inr ()"
  by (rule closing_keyword_refused [where u = "''This ''" and w = "''Closes''" and ds = "''12''" and t = "[]"])
    (simp_all add: PR_OPERATIONS_def field_text_def has_key_def dget_def closing_words_def lower_def
      is_digit_def word_char_def is_alnum_def, code_simp)

text \<open>C10: an authorized submission is confined: its branch, when supplied, is
  \<^verbatim>\<open>agent/<role>/<topic>\<close> of the caller's own role with a kebab-case topic of at most 63
  characters, it changes between 1 and 200 paths, and the paths are pairwise distinct, relative,
  without \<^verbatim>\<open>..\<close>, backslash or control character, and none is protected by the policy.\<close>

theorem submission_is_confined:
  assumes "authorize sha policy sn ''repo.submit'' (JObj a) f = Inr ()"
  shows "\<exists>topic changes. dget a ''changes'' = JList changes
    \<and> (dget a ''branch'' = JNull \<or> dget a ''branch'' = JStr (''agent/'' @ sn_role sn @ ''/'' @ topic))
    \<and> 1 \<le> length topic \<and> length topic \<le> 63 \<and> list_all (\<lambda>c. is_kebab c \<or> c = CHR ''-'') topic
    \<and> 1 \<le> length changes \<and> length changes \<le> 200 \<and> distinct (map change_path changes)
    \<and> (\<forall>c\<in>set changes. \<not> unsafe_path (change_path c)
          \<and> \<not> protected_path (op_protected_submission_paths policy) (change_path c))"
proof -
  from authorize_submit [OF assms] obtain topic where t: "safe_topic (dget a ''topic'') = Inr topic"
    and b: "dget a ''branch'' = JNull \<or> dget a ''branch'' = JStr (''agent/'' @ sn_role sn @ ''/'' @ topic)"
    and p: "safe_paths sha (dget a ''changes'') (op_protected_submission_paths policy) = Inr ()"
    by (auto simp: authorize_repo_submit_def bindE_eq_Inr Let_def split: if_splits)
  from t have "1 \<le> length topic \<and> length topic \<le> 63 \<and> list_all (\<lambda>c. is_kebab c \<or> c = CHR ''-'') topic"
    by (auto simp: safe_topic_iff)
  moreover from p obtain changes where c: "dget a ''changes'' = JList changes"
    and "changes \<noteq> []" "length changes \<le> 200"
    and s: "safe_changes sha (op_protected_submission_paths policy) {} changes = Inr ()"
    by (auto simp: safe_paths_def split: json.splits if_splits)
  ultimately show ?thesis using safe_changes_ok [OF s] b
    by (intro exI [of _ topic] exI [of _ changes]) (simp add: Suc_le_eq)
qed

lemma authorize_submit_example:
  "authorize (\<lambda>_. replicate 64 (CHR ''0'')) example_policy (example_session ''software-implementer'')
     ''repo.submit'' (JObj submit_arguments) None = Inr ()"
  (is "authorize ?sha ?p ?s ?op (JObj ?a) None = _")
proof -
  have v: "validate_request ?p ?s ?op (JObj ?a) = Inr ()" by code_simp
  have r: "policy_role ?p (sn_role ?s) = Inr (example_role ''software-implementer'')" by code_simp
  have "dget ?a ''topic'' = JStr ''fix-1''" by code_simp
  then have t: "safe_topic (dget ?a ''topic'') = Inr ''fix-1''"
    by (simp add: safe_topic_iff str_or_empty_def py_or_def is_kebab_def is_lower_def is_digit_def)
  have br: "dget ?a ''branch'' = JNull" by code_simp
  have "str_or_empty (dget ?a ''base_oid'') = replicate 40 (CHR ''b'')" by code_simp
  moreover have "list_all is_hex (replicate 40 (CHR ''b''))" by code_simp
  ultimately have o: "fullmatch (rep 40 (Cls is_hex)) (str_or_empty (dget ?a ''base_oid''))"
    by (simp add: fullmatch_rep_Cls)
  have m: "str_or_empty (dget ?a ''message'') = []" by code_simp
  have c: "\<not> search CLOSING_RE []" using no_search [OF CLOSING_RE_needs, of "[]"] by simp
  have ch: "dget ?a ''changes'' = JList [JObj [(''operation'', JStr ''upsert''), (''path'', JStr ''src/a.py''),
      (''mode'', JStr ''100644''), (''sha256'', JStr (replicate 64 (CHR ''0''))), (''content_base64'', JStr ''aGk='')]]"
    by code_simp
  let ?d = "[(''operation'', JStr ''upsert''), (''path'', JStr ''src/a.py''),
      (''mode'', JStr ''100644''), (''sha256'', JStr (replicate 64 (CHR ''0''))), (''content_base64'', JStr ''aGk='')]"
  have d: "str_or_empty (dget ?d ''path'') = ''src/a.py''" "\<not> unsafe_path ''src/a.py''"
    "posix_str ''src/a.py'' = ''src/a.py''" "\<not> protected_path (op_protected_submission_paths ?p) ''src/a.py''"
    "str_or_empty (dget ?d ''operation'') = ''upsert''" "has_key ?d ''mode''" "dget ?d ''mode'' = JStr ''100644''"
    "dget ?d ''content_base64'' = JStr ''aGk=''" "str_or_empty (dget ?d ''sha256'') = replicate 64 (CHR ''0'')"
    "text_len ''aGk='' = 4" "b64decode ''aGk='' = Some ''hi''"
    "dkeys ?d = [''operation'', ''path'', ''mode'', ''sha256'', ''content_base64'']"
    "list_all is_hex (replicate 64 (CHR ''0''))"
    by code_simp+
  have "safe_change ?sha (op_protected_submission_paths ?p) {} (JObj ?d) = Inr ''src/a.py''"
    unfolding safe_change_def json.case Let_def d sha256_re_def by (simp add: fullmatch_rep_Cls d)
  then have p: "safe_paths ?sha (dget ?a ''changes'') (op_protected_submission_paths ?p) = Inr ()"
    unfolding ch by (simp add: safe_paths_def)
  have "authorize_repo_submit ?sha ?p ?s ?a = Inr ()"
    by (simp add: authorize_repo_submit_def t br o m c p text_len_def)
  with v r show ?thesis by (simp add: authorize_simps)
qed

theorem submission_is_confined_witness:
  "\<exists>changes. dget submit_arguments ''changes'' = JList changes \<and> distinct (map change_path changes)"
  using submission_is_confined [OF authorize_submit_example] by blast

text \<open>C11: an authorized worker run stays in its scope: the worker type belongs to the role, the
  task is non-blank and at most 32 KiB, read and write paths are duplicate-free safe paths, write
  paths are also read paths, and exactly the \<^verbatim>\<open>implementer\<close> worker may write.\<close>

theorem worker_run_is_scoped:
  assumes "authorize sha policy sn ''worker.run'' (JObj a) f = Inr ()"
  shows "\<exists>rp task reads writes. policy_role policy (sn_role sn) = Inr rp
    \<and> str_or_empty (dget a ''type'') \<in> rp_worker_types rp
    \<and> dget a ''task'' = JStr task \<and> strip task \<noteq> [] \<and> length task \<le> 32768
    \<and> dget a ''readPaths'' = JList (map JStr reads) \<and> dget a ''writePaths'' = JList (map JStr writes)
    \<and> distinct reads \<and> distinct writes \<and> set writes \<subseteq> set reads
    \<and> (\<forall>p\<in>set reads. \<not> unsafe_path p \<and> length p \<le> 255)
    \<and> (writes \<noteq> [] \<longleftrightarrow> str_or_empty (dget a ''type'') = ''implementer'')"
proof -
  from authorize_worker [OF assms] obtain rp where rp: "policy_role policy (sn_role sn) = Inr rp"
    and w: "authorize_worker_run sn rp a = Inr ()" by blast
  from w obtain reads writes where
    "safe_worker_paths (dget a ''readPaths'') ''read'' = Inr reads"
    "safe_worker_paths (dget a ''writePaths'') ''write'' = Inr writes"
    and s: "set writes \<subseteq> set reads" "writes \<noteq> [] \<longleftrightarrow> str_or_empty (dget a ''type'') = ''implementer''"
    by (auto simp: authorize_worker_run_def Let_def bindE_eq_Inr split: if_splits)
  with safe_worker_paths_ok have "dget a ''readPaths'' = JList (map JStr reads)"
    "dget a ''writePaths'' = JList (map JStr writes)" "distinct reads" "distinct writes"
    "\<forall>p\<in>set reads. \<not> unsafe_path p \<and> length p \<le> 255" by blast+
  moreover from w obtain task where "dget a ''task'' = JStr task" "strip task \<noteq> []" "length task \<le> 32768"
    "str_or_empty (dget a ''type'') \<in> rp_worker_types rp"
    by (auto simp: authorize_worker_run_def Let_def split: if_splits json.splits)
  ultimately show ?thesis using rp s by blast
qed

theorem worker_run_is_scoped_witness:
  "\<exists>task. dget [(''repository'', JStr ''product''), (''type'', JStr ''implementer''), (''task'', JStr ''do it''),
       (''readPaths'', JList [JStr ''a'', JStr ''b/c'']), (''writePaths'', JList [JStr ''b/c''])] ''task'' = JStr task
     \<and> strip task \<noteq> []"
proof -
  let ?p = example_policy and ?s = "example_session ''software-implementer''" and ?op = "''worker.run''"
    and ?a = "[(''repository'', JStr ''product''), (''type'', JStr ''implementer''), (''task'', JStr ''do it''),
       (''readPaths'', JList [JStr ''a'', JStr ''b/c'']), (''writePaths'', JList [JStr ''b/c''])]"
  have "validate_request ?p ?s ?op (JObj ?a) = Inr ()" by code_simp
  moreover have "policy_role ?p (sn_role ?s) = Inr (example_role ''software-implementer'')" by code_simp
  moreover have w: "str_or_empty (dget ?a ''type'') = ''implementer''" "dget ?a ''task'' = JStr ''do it''"
    "strip ''do it'' = ''do it''" "''implementer'' \<in> rp_worker_types (example_role ''software-implementer'')"
    "safe_worker_paths (dget ?a ''readPaths'') ''read'' = Inr [''a'', ''b/c'']"
    "safe_worker_paths (dget ?a ''writePaths'') ''write'' = Inr [''b/c'']"
    "\<not> list_ex (has_key ?a) [''model'', ''provider'', ''role'', ''tools'', ''socket'']"
    by code_simp+
  moreover have "authorize_worker_run ?s (example_role ''software-implementer'') ?a = Inr ()"
    unfolding authorize_worker_run_def Let_def w json.case using w(4,7) by simp
  ultimately have "authorize (\<lambda>s. s) ?p ?s ?op (JObj ?a) None = Inr ()" by (simp add: authorize_simps)
  from worker_run_is_scoped [OF this] show ?thesis by blast
qed

text \<open>The path test of submissions and workers accepts exactly the texts whose
  \<^verbatim>\<open>/\<close>-separated components are all non-empty and neither \<^verbatim>\<open>.\<close> nor \<^verbatim>\<open>..\<close>, without
  backslash and control characters, and besides them the single text \<^verbatim>\<open>.\<close>, which has no
  component at all.\<close>

theorem unsafe_path_exact:
  "\<not> unsafe_path raw \<longleftrightarrow> (raw = ''.'' \<or> components_ok raw) \<and> CHR 92 \<notin> set raw \<and> \<not> has_control raw"
  by (rule safe_path_iff)

end
