(* ===== verification/Policy_Rules.thy ===== *)
theory Policy_Rules
  imports Policy
begin

text \<open>
  What a compiled policy guarantees to the components that read it.
\<close>

text \<open>C39: Every policy that compiles is well formed: distinct canonical roles with all required ones among them,
  each with exactly the worker types and repositories of its role, worker and token limits within
  bounds, an agent cap that equals the parents plus the concurrent workers, both repositories, and
  identifiers of the right shape; its digest is computed over the policy itself.\<close>

theorem compiled_policy_is_well_formed:
  assumes "compile_policy sha data c = Inr p"
  shows "policy_ok p \<and> op_policy_digest p = policy_digest_of sha (p\<lparr>op_policy_digest := []\<rparr>) \<and> op_source_commit p = c"
  using compile_policy_ok [OF assms] by blast

definition agent :: "string \<Rightarrow> string list \<Rightarrow> int \<Rightarrow> string list \<Rightarrow> json" where
  "agent role workers n repos = JObj [(''id'', JStr role), (''repositories'', JList (map JStr repos)), (''dailyTokenBudget'', JInt 10),
     (''workers'', JObj [(''allowed'', JList (map JStr workers)), (''maxPerWake'', JInt n), (''maxConcurrent'', JInt n)])]"

definition acme_agents :: "json list" where
  "acme_agents = [agent ''project-orchestrator'' [] 0 [''org''],
        agent ''commercial-planner'' [''researcher'', ''drafter''] 1 [''org''],
        agent ''software-implementer'' [''researcher'', ''drafter'', ''implementer''] 1 [''org'', ''product''],
        agent ''governance-reviewer'' [] 0 [''org''],
        agent ''policy-reviewer'' [''researcher'', ''drafter''] 1 [''org'']]"

definition acme :: json where
  "acme = JObj [(''apiVersion'', JStr ''scrum-jail.dev/v1''), (''kind'', JStr ''Organization''),
     (''metadata'', JObj [(''id'', JStr ''acme'')]),
     (''authority'', JObj [(''principalRole'', JStr ''human-principal''), (''principalGitHub'', JStr ''ann''),
        (''upstreamRole'', JStr ''portfolio-orchestrator'')]),
     (''repositories'', JObj [(''org'', JObj [(''slug'', JStr ''a/o''), (''defaultBranch'', JStr ''main'')]),
        (''product'', JObj [(''slug'', JStr ''a/p''), (''defaultBranch'', JStr ''main'')])]),
     (''controlRelease'', JObj [(''version'', JStr ''1.0.0''), (''sourceTreeSha256'', JStr (replicate 64 (CHR ''a'')))]),
     (''budgets'', JObj [(''organizationDailyTokens'', JInt 50)]), (''limits'', JObj [(''globalMaxAgents'', JInt 8)]),
     (''agents'', JList acme_agents),
     (''workflows'', JObj [(''hostedExecution'', JStr ''manual-only'')])]"

lemma acme_matches:
  "fullmatch ROLE_ID ''acme''" "fullmatch login_re ''ann''" "fullmatch version_re ''1.0.0''"
  "fullmatch slug_re ''a/o''" "fullmatch slug_re ''a/p''" "fullmatch branch_re ''main''"
  by code_simp+

lemmas strips = strip_dark dark_def ascii_space_def

definition compiled :: "string \<Rightarrow> int \<Rightarrow> role_policy" where
  "compiled role n = \<lparr>rp_role = role, rp_worker_types = expected_workers role, rp_max_workers_per_wake = n,
     rp_max_workers_concurrent = n, rp_repositories = expected_repositories role, rp_daily_token_budget = 10\<rparr>"

lemma text_set_strings: "text_set (JList (map JStr xs)) d = Inr (if xs = [] then set (map py_str d) else set xs)"
  by (auto simp: text_set_def py_or_def image_image)

lemma int_or_zero_JInt: "int_or_zero (JInt n) = Inr n"
  by (simp add: int_or_zero_def py_or_def)

lemma compile_agent:
  assumes "role \<in> EXECUTING_ROLES - set seen" "strip role = role" "0 \<le> n" "workers = [] \<longleftrightarrow> n = 0"
    "set workers = expected_workers role" "repos \<noteq> []" "set repos = expected_repositories role"
  shows "compile_role 50 seen (agent role workers n repos) = Inr (compiled role n)"
proof -
  have sub: "expected_workers role \<subseteq> {''researcher'', ''drafter'', ''implementer''}"
    by (simp add: expected_workers_def)
  have ne: "role \<noteq> []" using assms(1) by (auto simp: EXECUTING_ROLES_def REQUIRED_EXECUTING_ROLES_def OPTIONAL_EXECUTING_ROLES_def)
  have empty: "expected_workers role = {} \<longleftrightarrow> n = 0" "{} = expected_workers role \<longleftrightarrow> n = 0"
    using assms(4,5) by auto
  show ?thesis
    using assms sub ne empty
    by (simp add: compile_role_def agent_def exact_keys_def dget_def dkeys_def bindE_def str_or_empty_def
      text_set_strings int_or_zero_JInt compiled_def py_or_def Let_def)
qed

lemma compile_repo:
  assumes "map_of d alias = Some (JObj [(''slug'', JStr slug), (''defaultBranch'', JStr ''main'')])"
    "strip slug = slug" "fullmatch slug_re slug" "list_all (\<lambda>c. c \<notin> {''.'', ''..''}) (split_on (CHR ''/'') slug)" "slug \<noteq> []"
  shows "compile_repository d alias = Inr \<lparr>repo_alias = alias, repo_slug = slug, repo_default_branch = ''main''\<rparr>"
proof -
  have "strip ''main'' = ''main''" "\<not> contains ''..'' ''main''" "fullmatch branch_re ''main''"
    by (simp add: strips, code_simp, rule acme_matches)
  with assms show ?thesis
    by (auto simp: compile_repository_def exact_keys_def dget_def dkeys_def bindE_def str_or_empty_def py_or_def Let_def
      list_all_iff list_ex_iff)
qed

lemma compile_acme_roles:
  "\<exists>roles. compile_roles 50 [] acme_agents = Inr roles \<and> REQUIRED_EXECUTING_ROLES \<subseteq> fst ` set roles
     \<and> int (length roles) + sum_list (map (rp_max_workers_concurrent \<circ> snd) roles) = 8"
proof -
  have "compile_roles 50 [] acme_agents = Inr [(''project-orchestrator'', compiled ''project-orchestrator'' 0),
      (''commercial-planner'', compiled ''commercial-planner'' 1), (''software-implementer'', compiled ''software-implementer'' 1),
      (''governance-reviewer'', compiled ''governance-reviewer'' 0), (''policy-reviewer'', compiled ''policy-reviewer'' 1)]"
    by (simp add: acme_agents_def compile_agent strips EXECUTING_ROLES_def REQUIRED_EXECUTING_ROLES_def
        OPTIONAL_EXECUTING_ROLES_def expected_workers_def expected_repositories_def bindE_def compiled_def)
  then show ?thesis
    by (simp add: compiled_def REQUIRED_EXECUTING_ROLES_def)
qed

lemma acme_hash: "str_or_empty (JStr (replicate 64 (CHR ''a''))) = replicate 64 (CHR ''a'')"
  "fullmatch sha256_re (replicate 64 (CHR ''a''))"
  by (simp_all add: sha256_re_def fullmatch_rep_Cls list_all_iff is_hex_def str_or_empty_def py_or_def)

lemma acme_compiles: "\<exists>p. compile_policy (\<lambda>_. ''d'') acme ''c'' = Inr p"
proof -
  obtain roles where roles: "compile_roles 50 [] acme_agents = Inr roles" "REQUIRED_EXECUTING_ROLES \<subseteq> fst ` set roles"
     "int (length roles) + sum_list (map (rp_max_workers_concurrent \<circ> snd) roles) = 8"
    using compile_acme_roles by blast
  show ?thesis
    by (simp add: compile_policy_def acme_def exact_keys_def dget_def dkeys_def bindE_def Let_def acme_hash acme_matches
      agent_list_def int_or_zero_JInt compile_repo roles strips)
qed

theorem compiled_policy_is_well_formed_witness:
  "\<exists>p. compile_policy (\<lambda>_. ''d'') acme ''c'' = Inr p \<and> policy_ok p"
proof -
  obtain p where p: "compile_policy (\<lambda>_. ''d'') acme ''c'' = Inr p" using acme_compiles by blast
  with compiled_policy_is_well_formed [OF p] show ?thesis by blast
qed

end
