(* ===== verification/Tables.thy ===== *)
theory Tables
  imports Authz "HOL-Library.Product_Lexorder"
begin

text \<open>
  The database of \<^verbatim>\<open>control/sjg_control/store.py\<close>: one record per table of \<open>SCHEMA\<close>, a table
  as the list of its rows in insertion order, and the database as the record of all tables.
  A state column is a datatype with the values of its \<open>CHECK\<close>; a nullable column is an
  option. JSON columns that the code compares are kept as text (\<open>dumps\<close>), the others as
  the decoded value.

  An operation maps a database to its result and the database afterwards; \<open>immediate\<close>
  is the context manager of the same name, which restores the database when its body raises.
\<close>

section \<open>State columns\<close>

datatype session_state = S_active | S_revoked | S_finished | S_expired

datatype request_state = R_reserved | R_applying | R_verify_pending | R_succeeded | R_failed

datatype worker_state = W_accepted | W_running | W_succeeded | W_failed | W_rejected

datatype reservation_state = B_active | B_settled | B_released | B_uncertain

datatype snapshot_state = N_collecting | N_complete | N_incomplete

datatype enrichment_state = E_pending | E_routed | E_ignored

datatype delivery_state =
  D_queued | D_leased | D_running | D_retry_wait | D_budget_hold | D_succeeded | D_dead_letter | D_uncertain

datatype route_state = T_pending | T_queued | T_leased | T_delivered | T_manual_review | T_dead_letter

datatype reconcile_state = C_planned | C_applying | C_verify_pending | C_succeeded | C_dead_letter

datatype wake_state = K_prepared | K_running | K_succeeded | K_failed | K_uncertain | K_terminated

datatype process_state = P_running | P_exited | P_terminated | P_uncertain

datatype process_kind = Parent_process | Worker_process

text \<open>The kinds are ordered as their texts \<^verbatim>\<open>parent\<close> and \<^verbatim>\<open>worker\<close>.\<close>

instantiation process_kind :: linorder
begin

definition less_eq_process_kind :: "process_kind \<Rightarrow> process_kind \<Rightarrow> bool" where
  "less_eq_process_kind a b \<longleftrightarrow> a = Parent_process \<or> b = Worker_process"

definition less_process_kind :: "process_kind \<Rightarrow> process_kind \<Rightarrow> bool" where
  "less_process_kind a b \<longleftrightarrow> a = Parent_process \<and> b = Worker_process"

instance
proof
  fix a b c :: process_kind
  show "a < b \<longleftrightarrow> a \<le> b \<and> \<not> b \<le> a"
    by (cases a; cases b) (simp_all add: less_eq_process_kind_def less_process_kind_def)
  show "a \<le> a" by (cases a) (simp_all add: less_eq_process_kind_def)
  show "a \<le> b \<Longrightarrow> b \<le> c \<Longrightarrow> a \<le> c" by (auto simp: less_eq_process_kind_def)
  show "a \<le> b \<Longrightarrow> b \<le> a \<Longrightarrow> a = b" by (auto simp: less_eq_process_kind_def)
  show "a \<le> b \<or> b \<le> a" by (cases a; cases b) (simp_all add: less_eq_process_kind_def)
qed

end

section \<open>Rows\<close>

record wake_session =
  ws_session_id :: string
  ws_wake_id :: string
  ws_org_id :: string
  ws_role :: string
  ws_policy_digest :: string
  ws_workspace_aliases :: "string set"
  ws_issued_at :: string
  ws_expires_at :: string
  ws_state :: session_state

record broker_request =
  br_idempotency_key :: string
  br_session_id :: string
  br_operation :: string
  br_arguments_hash :: string
  br_arguments_json :: string
  br_state :: request_state
  br_response_json :: "json option"
  br_created_at :: string
  br_updated_at :: string

record worker_attempt =
  wa_attempt_id :: string
  wa_session_id :: string
  wa_sequence :: int
  wa_worker_type :: string
  wa_state :: worker_state
  wa_started_at :: string
  wa_finished_at :: "string option"
  wa_artifact_sha256 :: "string option"

record budget_bucket =
  bb_scope :: string
  bb_subject :: string
  bb_epoch :: string
  bb_token_limit :: int
  bb_consumed_tokens :: int
  bb_reserved_tokens :: int

record budget_reservation =
  bv_reservation_id :: string
  bv_session_id :: string
  bv_epoch :: string
  bv_reserved_tokens :: int
  bv_state :: reservation_state

record source_checkpoint =
  sc_source_id :: string
  sc_watermark :: string
  sc_overlap_seconds :: int
  sc_query_fingerprint :: "string option"
  sc_etag :: "string option"
  sc_last_complete_snapshot_id :: "string option"

record source_snapshot =
  ss_snapshot_id :: string
  ss_source_id :: string
  ss_state :: snapshot_state
  ss_started_at :: string
  ss_completed_at :: "string option"
  ss_page_count :: int
  ss_maximum_event_time :: "string option"
  ss_error_detail :: "string option"

record snapshot_event =
  se_snapshot_id :: string
  se_event_id :: string
  se_source_id :: string
  se_external_id :: string
  se_version_key :: string
  se_occurred_at :: string
  se_payload :: json

record observed_event =
  oe_event_id :: string
  oe_source_id :: string
  oe_external_id :: string
  oe_version_key :: string
  oe_occurred_at :: string
  oe_payload :: json
  oe_enrichment_state :: enrichment_state

record delivery =
  dv_delivery_id :: string
  dv_idempotency_key :: string
  dv_role :: string
  dv_state :: delivery_state
  dv_attempt :: int
  dv_eligible_at :: string
  dv_lease_owner :: "string option"
  dv_lease_until :: "string option"
  dv_last_error :: "string option"

record route_target =
  rt_event_id :: string
  rt_role :: string
  rt_state :: route_state
  rt_delivery_id :: "string option"

record delivery_event =
  de_delivery_id :: string
  de_event_id :: string
  de_role :: string

record reconcile_operation =
  rc_operation_id :: string
  rc_idempotency_key :: string
  rc_source_key :: string
  rc_operation :: string
  rc_precondition_json :: string
  rc_state :: reconcile_state
  rc_external_result :: "json option"
  rc_created_at :: string
  rc_updated_at :: string

record supervisor_state =
  sv_key :: string
  sv_value :: json
  sv_updated_at :: string

record wake_runtime =
  wr_wake_id :: string
  wr_session_id :: string
  wr_delivery_id :: "string option"
  wr_reservation_id :: string
  wr_role :: string
  wr_reason :: string
  wr_socket_path :: string
  wr_state :: wake_state
  wr_started_at :: string
  wr_finished_at :: "string option"
  wr_output_sha256 :: "string option"
  wr_error_detail :: "string option"

record process_runtime =
  pr_process_key :: string
  pr_session_id :: string
  pr_worker_attempt_id :: "string option"
  pr_kind :: process_kind
  pr_pid :: int
  pr_pgid :: int
  pr_birth_token :: string
  pr_state :: process_state
  pr_started_at :: string
  pr_finished_at :: "string option"
  pr_exit_code :: "int option"

record audit_entry =
  ae_recorded_at :: string
  ae_session_id :: "string option"
  ae_role :: "string option"
  ae_policy_digest :: "string option"
  ae_operation :: string
  ae_request_hash :: "string option"
  ae_decision :: string
  ae_detail :: json

section \<open>The database\<close>

record db =
  wake_sessions :: "wake_session list"
  broker_requests :: "broker_request list"
  worker_attempts :: "worker_attempt list"
  budget_buckets :: "budget_bucket list"
  budget_reservations :: "budget_reservation list"
  source_checkpoints :: "source_checkpoint list"
  source_snapshots :: "source_snapshot list"
  snapshot_events :: "snapshot_event list"
  observed_events :: "observed_event list"
  deliveries :: "delivery list"
  route_targets :: "route_target list"
  delivery_events :: "delivery_event list"
  reconcile_operations :: "reconcile_operation list"
  supervisor_values :: "supervisor_state list"
  wake_runtimes :: "wake_runtime list"
  process_runtimes :: "process_runtime list"
  audit_entries :: "audit_entry list"

text \<open>A fresh database after \<open>executescript(SCHEMA)\<close>.\<close>

definition empty_db :: db where
  "empty_db = \<lparr>wake_sessions = [], broker_requests = [], worker_attempts = [], budget_buckets = [],
     budget_reservations = [], source_checkpoints = [], source_snapshots = [], snapshot_events = [],
     observed_events = [], deliveries = [], route_targets = [], delivery_events = [],
     reconcile_operations = [], supervisor_values = [], wake_runtimes = [], process_runtimes = [],
     audit_entries = []\<rparr>"

type_synonym 'a op = "db \<Rightarrow> 'a result \<times> db"

definition immediate :: "'a op \<Rightarrow> 'a op" where
  "immediate body d = (case body d of (Inl e, _) \<Rightarrow> (Inl e, d) | (Inr x, d') \<Rightarrow> (Inr x, d'))"

text \<open>\<open>SELECT count(*)\<close>, \<open>UPDATE ... WHERE\<close> and the integrity error of a failed insert.\<close>

definition count_where :: "('r \<Rightarrow> bool) \<Rightarrow> 'r list \<Rightarrow> nat" where
  "count_where P rows = length (filter P rows)"

definition update_where :: "('r \<Rightarrow> bool) \<Rightarrow> ('r \<Rightarrow> 'r) \<Rightarrow> 'r list \<Rightarrow> 'r list" where
  "update_where P f rows = map (\<lambda>r. if P r then f r else r) rows"

definition unique_failed :: "string \<Rightarrow> exc" where
  "unique_failed what = IntegrityError (''UNIQUE constraint failed: '' @ what)"

definition foreign_failed :: exc where
  "foreign_failed = IntegrityError ''FOREIGN KEY constraint failed''"

text \<open>A column compared with a text under SQL: a comparison with \<open>NULL\<close> is not true.\<close>

definition null_le :: "string option \<Rightarrow> string \<Rightarrow> bool" where
  "null_le v t = (case v of None \<Rightarrow> False | Some s \<Rightarrow> s \<le> t)"

definition null_gt :: "string option \<Rightarrow> string \<Rightarrow> bool" where
  "null_gt v t = (case v of None \<Rightarrow> False | Some s \<Rightarrow> t < s)"

definition utcnow :: "instant \<Rightarrow> string" where
  "utcnow now = utc_text now"

section \<open>Facts about rows\<close>

lemma immediate_Inr: "immediate body d = (Inr x, d') \<longleftrightarrow> body d = (Inr x, d')"
  by (auto simp: immediate_def split: prod.splits sum.splits)

lemma immediate_Inl: "immediate body d = (Inl e, d') \<longleftrightarrow> d' = d \<and> (\<exists>d''. body d = (Inl e, d''))"
  by (auto simp: immediate_def split: prod.splits sum.splits)

text \<open>A transaction that raises leaves the database as it was.\<close>

lemma immediate_rollback: "fst (immediate body d) = Inl e \<Longrightarrow> snd (immediate body d) = d"
  by (auto simp: immediate_def split: prod.splits sum.splits)

lemma snd_immediate: "snd (immediate body d) = (if isl (fst (body d)) then d else snd (body d))"
  by (auto simp: immediate_def split: prod.splits sum.splits)

lemma count_where_0 [row_simps]: "count_where P rows = 0 \<longleftrightarrow> (\<forall>r\<in>set rows. \<not> P r)"
  by (simp add: count_where_def filter_empty_conv)

lemma count_where_pos: "count_where P rows \<noteq> 0 \<longleftrightarrow> (\<exists>r\<in>set rows. P r)"
  by (simp add: row_simps)

lemma count_where_append [simp]: "count_where P (xs @ ys) = count_where P xs + count_where P ys"
  and count_where_Nil [simp]: "count_where P [] = 0"
  and count_where_Cons [simp]: "count_where P (x # xs) = (if P x then Suc (count_where P xs) else count_where P xs)"
  by (simp_all add: count_where_def)

lemma length_update_where [simp]: "length (update_where P f rows) = length rows"
  and update_where_Nil [simp]: "update_where P f [] = []"
  and update_where_Cons [simp]:
    "update_where P f (x # xs) = (if P x then f x else x) # update_where P f xs"
  by (simp_all add: update_where_def)

lemma set_update_where [row_simps]: "set (update_where P f rows) = {if P r then f r else r |r. r \<in> set rows}"
  by (auto simp: update_where_def)

lemma ball_update_where: "(\<forall>r\<in>set (update_where P f rows). R r) \<longleftrightarrow> (\<forall>r\<in>set rows. R (if P r then f r else r))"
  by (auto simp: update_where_def)

lemma key_unique: "distinct (map key rows) \<Longrightarrow> x \<in> set rows \<Longrightarrow> y \<in> set rows \<Longrightarrow> key x = key y \<Longrightarrow> x = y"
  by (auto simp: distinct_map dest: inj_onD)

lemma map_update_where:
  assumes "\<And>r. r \<in> set rows \<Longrightarrow> P r \<Longrightarrow> g (f r) = g r"
  shows "map g (update_where P f rows) = map g rows"
  using assms by (auto simp: update_where_def)

lemma count_update_where:
  assumes "\<And>r. r \<in> set rows \<Longrightarrow> P r \<Longrightarrow> Q (f r) = Q r"
  shows "count_where Q (update_where P f rows) = count_where Q rows"
  using assms by (induction rows) auto

lemma count_update_where_le:
  assumes "\<And>r. r \<in> set rows \<Longrightarrow> P r \<Longrightarrow> Q (f r) \<Longrightarrow> Q r"
  shows "count_where Q (update_where P f rows) \<le> count_where Q rows"
  using assms by (induction rows) auto

lemma update_where_none: "count_where P rows = 0 \<Longrightarrow> update_where P f rows = rows"
  by (induction rows) (auto split: if_splits)

lemma count_where_mono: "(\<And>r. r \<in> set rows \<Longrightarrow> P r \<Longrightarrow> Q r) \<Longrightarrow> count_where P rows \<le> count_where Q rows"
  by (induction rows) auto

lemma count_key_le_1: "distinct (map key rows) \<Longrightarrow> count_where (\<lambda>r. key r = k \<and> P r) rows \<le> 1"
  by (induction rows) (auto simp: row_simps image_iff)

lemma update_where_cong:
  "(\<And>r. r \<in> set rows \<Longrightarrow> P r = Q r) \<Longrightarrow> (\<And>r. r \<in> set rows \<Longrightarrow> Q r \<Longrightarrow> f r = g r) \<Longrightarrow>
     update_where P f rows = update_where Q g rows"
  by (auto simp: update_where_def)

lemma list_ex_key: "list_ex (\<lambda>s. k s = x) xs \<longleftrightarrow> x \<in> k ` set xs"
  by (auto simp: list_ex_iff)

lemma list_ex_update_where:
  "(\<And>r. r \<in> set rows \<Longrightarrow> P r \<Longrightarrow> Q (f r) = Q r) \<Longrightarrow> list_ex Q (update_where P f rows) = list_ex Q rows"
  by (induction rows) auto

text \<open>With a key that is unique, one row is updated and every other row is kept.\<close>

lemma update_key_split:
  assumes "distinct (map key rows)" and "x \<in> set rows" and "key x = k"
  obtains us vs where "rows = us @ x # vs" "update_where (\<lambda>r. key r = k) f rows = us @ f x # vs"
proof -
  from assms(2) obtain us vs where rows: "rows = us @ x # vs" by (meson split_list)
  have "\<And>r. r \<in> set us \<union> set vs \<Longrightarrow> key r \<noteq> k"
    using assms(1,3) rows by (auto simp: image_iff)
  then have "update_where (\<lambda>r. key r = k) f us = us" "update_where (\<lambda>r. key r = k) f vs = vs"
    by (simp_all add: update_where_def map_idI)
  moreover have "update_where (\<lambda>r. key r = k) f rows
      = update_where (\<lambda>r. key r = k) f us @ f x # update_where (\<lambda>r. key r = k) f vs"
    by (simp add: rows assms(3) update_where_def)
  ultimately show thesis using that rows by simp
qed

section \<open>Keyed tables\<close>

text \<open>What the operations rely on for a table with a key column: reading and rewriting one
  table of the database, and that rewriting preserves what the schema declares unique.\<close>

locale keyed_table =
  fixes rows :: "db \<Rightarrow> 'r list"
    and rewrite :: "('r list \<Rightarrow> 'r list) \<Rightarrow> db \<Rightarrow> db"
    and key :: "'r \<Rightarrow> 'k"
  assumes rows_rewrite: "rows (rewrite f d) = f (rows d)"
    and rewrite_rewrite: "rewrite f (rewrite g d) = rewrite (\<lambda>rs. f (g rs)) d"
begin

lemma keys_insert:
  assumes "distinct (map key (rows d))" and "\<not> list_ex (\<lambda>r. key r = key x) (rows d)"
  shows "distinct (map key (rows (rewrite (\<lambda>rs. rs @ [x]) d)))"
  using assms by (auto simp: rows_rewrite list_ex_iff image_iff)

lemma keys_update:
  assumes "distinct (map key (rows d))" and "\<And>r. key (f r) = key r"
  shows "distinct (map key (rows (rewrite (update_where P f) d)))"
  using assms by (simp add: rows_rewrite map_update_where)

lemma keys_delete:
  "distinct (map key (rows d)) \<Longrightarrow> distinct (map key (rows (rewrite (filter P) d)))"
  by (auto simp: rows_rewrite distinct_map inj_on_def)

lemma find_inserted:
  assumes "\<not> list_ex (\<lambda>r. key r = key x) (rows d)"
  shows "find (\<lambda>r. key r = key x) (rows (rewrite (\<lambda>rs. rs @ [x]) d)) = Some x"
proof -
  have "find (\<lambda>r. key r = key x) (zs @ [x]) = Some x" if "\<not> list_ex (\<lambda>r. key r = key x) zs" for zs
    using that by (induction zs) auto
  with assms show ?thesis by (simp add: rows_rewrite)
qed

lemma find_other_kept:
  "k \<noteq> key x \<Longrightarrow> find (\<lambda>r. key r = k) (rows (rewrite (\<lambda>rs. rs @ [x]) d)) = find (\<lambda>r. key r = k) (rows d)"
proof -
  assume "k \<noteq> key x"
  then have "find (\<lambda>r. key r = k) (zs @ [x]) = find (\<lambda>r. key r = k) zs" for zs
    by (induction zs) auto
  then show ?thesis by (simp add: rows_rewrite)
qed

lemma find_updated:
  assumes "\<And>r. key (f r) = key r"
  shows "find (\<lambda>r. key r = k) (rows (rewrite (update_where P f) d))
       = map_option (\<lambda>r. if P r then f r else r) (find (\<lambda>r. key r = k) (rows d))"
proof -
  have "find (\<lambda>r. key r = k) (update_where P f zs) = map_option (\<lambda>r. if P r then f r else r) (find (\<lambda>r. key r = k) zs)"
    for zs using assms by (induction zs) auto
  then show ?thesis by (simp add: rows_rewrite)
qed

lemma find_unique:
  assumes "distinct (map key (rows d))" and "x \<in> set (rows d)"
  shows "find (\<lambda>r. key r = key x) (rows d) = Some x"
proof -
  have "find (\<lambda>r. key r = key x) zs = Some x" if "distinct (map key zs)" "x \<in> set zs" for zs
    using that by (induction zs) auto
  with assms show ?thesis by blast
qed

end

interpretation session_table: keyed_table wake_sessions wake_sessions_update ws_session_id
  by unfold_locales simp_all

interpretation request_table: keyed_table broker_requests broker_requests_update br_idempotency_key
  by unfold_locales simp_all

interpretation attempt_table: keyed_table worker_attempts worker_attempts_update wa_attempt_id
  by unfold_locales simp_all

interpretation bucket_table: keyed_table budget_buckets budget_buckets_update
    "\<lambda>r. (bb_scope r, bb_subject r, bb_epoch r)"
  by unfold_locales simp_all

interpretation reservation_table: keyed_table budget_reservations budget_reservations_update bv_reservation_id
  by unfold_locales simp_all

interpretation event_table: keyed_table observed_events observed_events_update oe_event_id
  by unfold_locales simp_all

interpretation delivery_table: keyed_table deliveries deliveries_update dv_delivery_id
  by unfold_locales simp_all

interpretation route_table: keyed_table route_targets route_targets_update "\<lambda>r. (rt_event_id r, rt_role r)"
  by unfold_locales simp_all

interpretation reconcile_table: keyed_table reconcile_operations reconcile_operations_update rc_operation_id
  by unfold_locales simp_all

interpretation runtime_table: keyed_table wake_runtimes wake_runtimes_update wr_wake_id
  by unfold_locales simp_all

interpretation process_table: keyed_table process_runtimes process_runtimes_update pr_process_key
  by unfold_locales simp_all

end
