(* ===== verification/Sessions.thy ===== *)
theory Sessions
  imports Tables
begin

text \<open>
  \<^verbatim>\<open>control/sjg_control/store.py\<close>, wake sessions and worker attempts: \<open>create_session\<close>,
  \<open>session\<close> (here \<open>store_session\<close>), \<open>revoke_session\<close>, \<open>finish_session\<close>,
  \<open>force_terminate_session\<close>, \<open>reap_expired_session\<close>, \<open>reserve_worker\<close>, and the three updates
  of \<open>worker_attempt\<close> that \<^verbatim>\<open>workers.py\<close> executes itself. Clock readings and fresh UUIDs are
  arguments.
\<close>

section \<open>Counting\<close>

definition active_session :: "wake_session \<Rightarrow> bool" where
  "active_session r \<longleftrightarrow> ws_state r = S_active"

definition live_attempt :: "worker_attempt \<Rightarrow> bool" where
  "live_attempt r \<longleftrightarrow> wa_state r = W_accepted \<or> wa_state r = W_running"

definition role_parents :: "string \<Rightarrow> string \<Rightarrow> db \<Rightarrow> nat" where
  "role_parents org_id role d =
     count_where (\<lambda>r. ws_org_id r = org_id \<and> ws_role r = role \<and> active_session r) (wake_sessions d)"

definition org_parents :: "string \<Rightarrow> db \<Rightarrow> nat" where
  "org_parents org_id d = count_where (\<lambda>r. ws_org_id r = org_id \<and> active_session r) (wake_sessions d)"

text \<open>The join of an attempt with its session, which the primary key makes unique.\<close>

definition org_workers :: "string \<Rightarrow> db \<Rightarrow> nat" where
  "org_workers org_id d =
     count_where (\<lambda>wa. live_attempt wa \<and> list_ex (\<lambda>ws. ws_session_id ws = wa_session_id wa \<and> ws_org_id ws = org_id)
        (wake_sessions d)) (worker_attempts d)"

definition session_attempts :: "string \<Rightarrow> db \<Rightarrow> nat" where
  "session_attempts session_id d = count_where (\<lambda>r. wa_session_id r = session_id) (worker_attempts d)"

definition live_attempts :: "string \<Rightarrow> db \<Rightarrow> nat" where
  "live_attempts session_id d = count_where (\<lambda>r. wa_session_id r = session_id \<and> live_attempt r) (worker_attempts d)"

definition active_reservations :: "string \<Rightarrow> db \<Rightarrow> nat" where
  "active_reservations session_id d =
     count_where (\<lambda>r. bv_session_id r = session_id \<and> bv_state r = B_active) (budget_reservations d)"

definition session_row :: "string \<Rightarrow> db \<Rightarrow> wake_session option" where
  "session_row session_id d = find (\<lambda>r. ws_session_id r = session_id) (wake_sessions d)"

section \<open>Wake sessions\<close>

definition insert_session :: "wake_session \<Rightarrow> db \<Rightarrow> db result" where
  "insert_session r d =
     (if list_ex (\<lambda>s. ws_session_id s = ws_session_id r) (wake_sessions d)
      then Inl (unique_failed ''wake_session.session_id'')
      else if list_ex (\<lambda>s. ws_wake_id s = ws_wake_id r) (wake_sessions d)
      then Inl (unique_failed ''wake_session.wake_id'')
      else Inr (d\<lparr>wake_sessions := wake_sessions d @ [r]\<rparr>))"

text \<open>The values that \<open>create_session\<close> inserts for a session.\<close>

definition session_values :: "string \<Rightarrow> session \<Rightarrow> wake_session" where
  "session_values issued_at s =
     \<lparr>ws_session_id = sn_session_id s, ws_wake_id = sn_wake_id s, ws_org_id = sn_org_id s, ws_role = sn_role s,
      ws_policy_digest = sn_policy_digest s, ws_workspace_aliases = sn_workspace_aliases s,
      ws_issued_at = issued_at, ws_expires_at = sn_expires_at s, ws_state = S_active\<rparr>"

definition new_session ::
  "instant \<Rightarrow> string \<Rightarrow> string \<Rightarrow> string \<Rightarrow> string \<Rightarrow> string \<Rightarrow> string set \<Rightarrow> string option \<Rightarrow> int \<Rightarrow> session" where
  "new_session now uuid1 uuid2 org_id role policy_digest workspace_aliases wake_id ttl_seconds =
     \<lparr>sn_session_id = uuid1,
      sn_wake_id = (case wake_id of Some w \<Rightarrow> (if w = [] then uuid2 else w) | None \<Rightarrow> uuid2),
      sn_org_id = org_id, sn_role = role, sn_policy_digest = policy_digest,
      sn_workspace_aliases = workspace_aliases, sn_expires_at = utc_text (now + ttl_seconds * second)\<rparr>"

definition create_session ::
  "instant \<Rightarrow> string \<Rightarrow> string \<Rightarrow> string \<Rightarrow> string \<Rightarrow> string \<Rightarrow> string set \<Rightarrow> string option \<Rightarrow> int \<Rightarrow> int
     \<Rightarrow> session op" where
  "create_session now uuid1 uuid2 org_id role policy_digest workspace_aliases wake_id ttl_seconds global_cap d =
     (if global_cap \<le> 0 \<or> ttl_seconds \<le> 0
      then (Inl (StateError ''global agent cap and session TTL must be positive''), d)
      else
        let s = new_session now uuid1 uuid2 org_id role policy_digest workspace_aliases wake_id ttl_seconds in
        immediate (\<lambda>d.
          if role_parents org_id role d \<noteq> 0 then (Inl (StateError ''role already has an active parent wake''), d)
          else if int (org_parents org_id d + org_workers org_id d) \<ge> global_cap
          then (Inl (StateError ''global active-agent cap reached''), d)
          else (case insert_session (session_values (utc_text now) s) d of
                  Inl e \<Rightarrow> (Inl e, d) | Inr d' \<Rightarrow> (Inr s, d'))) d)"

definition store_session :: "instant \<Rightarrow> string \<Rightarrow> db \<Rightarrow> session result" where
  "store_session now session_id d =
     (case find (\<lambda>r. ws_session_id r = session_id \<and> active_session r) (wake_sessions d) of
        None \<Rightarrow> Inl (StateError ''wake session is absent or inactive'')
      | Some r \<Rightarrow>
          if ws_expires_at r \<le> utcnow now then Inl (StateError ''wake session expired'')
          else Inr \<lparr>sn_session_id = ws_session_id r, sn_wake_id = ws_wake_id r, sn_org_id = ws_org_id r,
                    sn_role = ws_role r, sn_policy_digest = ws_policy_digest r,
                    sn_workspace_aliases = ws_workspace_aliases r, sn_expires_at = ws_expires_at r\<rparr>)"

text \<open>\<open>UPDATE wake_session SET state=? WHERE session_id=? AND state='active'\<close>.\<close>

definition close_session :: "session_state \<Rightarrow> string \<Rightarrow> db \<Rightarrow> db" where
  "close_session st session_id d =
     d\<lparr>wake_sessions := update_where (\<lambda>r. ws_session_id r = session_id \<and> active_session r)
         (\<lambda>r. r\<lparr>ws_state := st\<rparr>) (wake_sessions d)\<rparr>"

definition closable_sessions :: "string \<Rightarrow> db \<Rightarrow> nat" where
  "closable_sessions session_id d =
     count_where (\<lambda>r. ws_session_id r = session_id \<and> active_session r) (wake_sessions d)"

definition revoke_session :: "string \<Rightarrow> unit op" where
  "revoke_session session_id = immediate (\<lambda>d.
     if live_attempts session_id d \<noteq> 0
     then (Inl (StateError ''cannot revoke a wake while its workers are active''), d)
     else if closable_sessions session_id d \<noteq> 1
     then (Inl (StateError ''wake session is absent or inactive''), close_session S_revoked session_id d)
     else (Inr (), close_session S_revoked session_id d))"

definition finish_session :: "string \<Rightarrow> unit op" where
  "finish_session session_id = immediate (\<lambda>d.
     if live_attempts session_id d \<noteq> 0 \<or> active_reservations session_id d \<noteq> 0
     then (Inl (StateError ''cannot finish a wake with active workers or budget''), d)
     else if closable_sessions session_id d \<noteq> 1
     then (Inl (StateError ''wake session is absent or inactive''), close_session S_finished session_id d)
     else (Inr (), close_session S_finished session_id d))"

definition fail_live_attempts :: "string \<Rightarrow> string \<Rightarrow> db \<Rightarrow> db" where
  "fail_live_attempts now session_id d =
     d\<lparr>worker_attempts := update_where (\<lambda>r. wa_session_id r = session_id \<and> live_attempt r)
         (\<lambda>r. r\<lparr>wa_state := W_failed, wa_finished_at := Some now\<rparr>) (worker_attempts d)\<rparr>"

definition doubt_reservations :: "string \<Rightarrow> db \<Rightarrow> db" where
  "doubt_reservations session_id d =
     d\<lparr>budget_reservations := update_where (\<lambda>r. bv_session_id r = session_id \<and> bv_state r = B_active)
         (\<lambda>r. r\<lparr>bv_state := B_uncertain\<rparr>) (budget_reservations d)\<rparr>"

definition terminate_wakes :: "string \<Rightarrow> string \<Rightarrow> db \<Rightarrow> db" where
  "terminate_wakes now session_id d =
     d\<lparr>wake_runtimes := update_where
         (\<lambda>r. wr_session_id r = session_id \<and> (wr_state r = K_prepared \<or> wr_state r = K_running))
         (\<lambda>r. r\<lparr>wr_state := K_terminated, wr_finished_at := Some now,
              wr_error_detail := (case wr_error_detail r of None \<Rightarrow> Some ''terminated by supervisor'' | e \<Rightarrow> e)\<rparr>)
         (wake_runtimes d)\<rparr>"

definition force_terminate_session :: "instant \<Rightarrow> string \<Rightarrow> bool \<Rightarrow> unit op" where
  "force_terminate_session now session_id expired = immediate (\<lambda>d.
     case session_row session_id d of
       None \<Rightarrow> (Inl (StateError ''wake session is absent or inactive''), d)
     | Some r \<Rightarrow>
         if \<not> active_session r then (Inl (StateError ''wake session is absent or inactive''), d)
         else (Inr (), terminate_wakes (utcnow now) session_id
                 (close_session (if expired then S_expired else S_revoked) session_id
                   (doubt_reservations session_id (fail_live_attempts (utcnow now) session_id d)))))"

definition reap_expired_session :: "instant \<Rightarrow> string \<Rightarrow> unit op" where
  "reap_expired_session now session_id = immediate (\<lambda>d.
     case session_row session_id d of
       None \<Rightarrow> (Inl (StateError ''wake session is absent, inactive, or not expired''), d)
     | Some r \<Rightarrow>
         if \<not> active_session r \<or> ws_expires_at r > utcnow now
         then (Inl (StateError ''wake session is absent, inactive, or not expired''), d)
         else (Inr (), close_session S_expired session_id
                 (doubt_reservations session_id (fail_live_attempts (utcnow now) session_id d))))"

section \<open>Worker attempts\<close>

definition insert_attempt :: "worker_attempt \<Rightarrow> db \<Rightarrow> db result" where
  "insert_attempt r d =
     (if list_ex (\<lambda>s. wa_attempt_id s = wa_attempt_id r) (worker_attempts d)
      then Inl (unique_failed ''worker_attempt.attempt_id'')
      else if list_ex (\<lambda>s. (wa_session_id s, wa_sequence s) = (wa_session_id r, wa_sequence r)) (worker_attempts d)
      then Inl (unique_failed ''worker_attempt.session_id, worker_attempt.sequence'')
      else if \<not> list_ex (\<lambda>s. ws_session_id s = wa_session_id r) (wake_sessions d) then Inl foreign_failed
      else Inr (d\<lparr>worker_attempts := worker_attempts d @ [r]\<rparr>))"

definition new_attempt :: "string \<Rightarrow> string \<Rightarrow> int \<Rightarrow> string \<Rightarrow> string \<Rightarrow> worker_attempt" where
  "new_attempt attempt_id session_id sequence worker_type started_at =
     \<lparr>wa_attempt_id = attempt_id, wa_session_id = session_id, wa_sequence = sequence, wa_worker_type = worker_type,
      wa_state = W_accepted, wa_started_at = started_at, wa_finished_at = None, wa_artifact_sha256 = None\<rparr>"

definition reserve_worker ::
  "instant \<Rightarrow> instant \<Rightarrow> string \<Rightarrow> string \<Rightarrow> string \<Rightarrow> int \<Rightarrow> int \<Rightarrow> int \<Rightarrow> string op" where
  "reserve_worker now1 now2 uuid session_id worker_type cumulative_cap concurrent_cap global_cap =
     immediate (\<lambda>d.
       case find (\<lambda>r. ws_session_id r = session_id \<and> active_session r \<and> ws_expires_at r > utcnow now1)
              (wake_sessions d) of
         None \<Rightarrow> (Inl (StateError ''worker requires an active parent session''), d)
       | Some s \<Rightarrow>
           if int (session_attempts session_id d) \<ge> cumulative_cap
           then (Inl (StateError ''cumulative worker cap reached''), d)
           else if int (live_attempts session_id d) \<ge> concurrent_cap
           then (Inl (StateError ''concurrent worker cap reached''), d)
           else if int (org_parents (ws_org_id s) d + org_workers (ws_org_id s) d) \<ge> global_cap
           then (Inl (StateError ''global active-agent cap reached''), d)
           else (case insert_attempt (new_attempt uuid session_id (int (session_attempts session_id d) + 1)
                    worker_type (utcnow now2)) d of
                   Inl e \<Rightarrow> (Inl e, d) | Inr d' \<Rightarrow> (Inr uuid, d')))"

text \<open>The updates of \<open>WorkerSupervisor.run\<close>; \<open>stamp\<close> is SQLite's \<open>datetime('now')\<close>.\<close>

definition start_attempt :: "string \<Rightarrow> db \<Rightarrow> db" where
  "start_attempt attempt d =
     d\<lparr>worker_attempts := update_where (\<lambda>r. wa_attempt_id r = attempt)
         (\<lambda>r. r\<lparr>wa_state := W_running\<rparr>) (worker_attempts d)\<rparr>"

definition succeed_attempt :: "string \<Rightarrow> string \<Rightarrow> string \<Rightarrow> db \<Rightarrow> db" where
  "succeed_attempt stamp attempt artifact d =
     d\<lparr>worker_attempts := update_where (\<lambda>r. wa_attempt_id r = attempt)
         (\<lambda>r. r\<lparr>wa_state := W_succeeded, wa_finished_at := Some stamp, wa_artifact_sha256 := Some artifact\<rparr>)
         (worker_attempts d)\<rparr>"

definition fail_attempt :: "string \<Rightarrow> string \<Rightarrow> db \<Rightarrow> db" where
  "fail_attempt stamp attempt d =
     d\<lparr>worker_attempts := update_where (\<lambda>r. wa_attempt_id r = attempt)
         (\<lambda>r. r\<lparr>wa_state := W_failed, wa_finished_at := Some stamp\<rparr>) (worker_attempts d)\<rparr>"

section \<open>The invariant of sessions and attempts\<close>

text \<open>Session ids and wake ids are unique, a role of an organization has at most one active
  session, attempt ids are unique, every attempt belongs to a session, and the sequence numbers
  of a session's attempts are distinct numbers from 1 to their count.\<close>

definition session_keys_ok :: "db \<Rightarrow> bool" where
  "session_keys_ok d \<longleftrightarrow> distinct (map ws_session_id (wake_sessions d)) \<and> distinct (map ws_wake_id (wake_sessions d))"

definition single_parent :: "db \<Rightarrow> bool" where
  "single_parent d \<longleftrightarrow> (\<forall>org_id role. role_parents org_id role d \<le> 1)"

definition attempts_ok :: "db \<Rightarrow> bool" where
  "attempts_ok d \<longleftrightarrow> distinct (map wa_attempt_id (worker_attempts d))
     \<and> distinct (map (\<lambda>r. (wa_session_id r, wa_sequence r)) (worker_attempts d))
     \<and> (\<forall>wa\<in>set (worker_attempts d). wa_session_id wa \<in> ws_session_id ` set (wake_sessions d)
          \<and> 1 \<le> wa_sequence wa \<and> wa_sequence wa \<le> int (session_attempts (wa_session_id wa) d))"

definition session_inv :: "db \<Rightarrow> bool" where
  "session_inv d \<longleftrightarrow> session_keys_ok d \<and> single_parent d \<and> attempts_ok d"

text \<open>Live agents of an organization: active parents and live workers.\<close>

definition agents :: "string \<Rightarrow> db \<Rightarrow> nat" where
  "agents org_id d = org_parents org_id d + org_workers org_id d"

lemmas session_counts = role_parents_def org_parents_def org_workers_def session_attempts_def
  live_attempts_def agents_def

lemma session_inv_cong:
  "wake_sessions d' = wake_sessions d \<Longrightarrow> worker_attempts d' = worker_attempts d \<Longrightarrow> session_inv d' = session_inv d"
  by (simp add: session_inv_def session_keys_ok_def single_parent_def attempts_ok_def session_counts)

lemma agents_cong:
  "wake_sessions d' = wake_sessions d \<Longrightarrow> worker_attempts d' = worker_attempts d \<Longrightarrow> agents org_id d' = agents org_id d"
  by (simp add: session_counts)

lemma close_session_tables [simp]:
  "worker_attempts (close_session st i d) = worker_attempts d"
  "budget_reservations (close_session st i d) = budget_reservations d"
  "wake_runtimes (close_session st i d) = wake_runtimes d"
  "map ws_session_id (wake_sessions (close_session st i d)) = map ws_session_id (wake_sessions d)"
  "map ws_wake_id (wake_sessions (close_session st i d)) = map ws_wake_id (wake_sessions d)"
  by (simp_all add: close_session_def map_update_where)

lemma closed_ids [simp]: "ws_session_id ` set (wake_sessions (close_session st i d)) = ws_session_id ` set (wake_sessions d)"
  by (metis close_session_tables(4) set_map)

lemma list_ex_close [simp]:
  "list_ex (\<lambda>ws. ws_session_id ws = i' \<and> ws_org_id ws = org_id) (wake_sessions (close_session st i d))
     = list_ex (\<lambda>ws. ws_session_id ws = i' \<and> ws_org_id ws = org_id) (wake_sessions d)"
  by (simp add: close_session_def list_ex_update_where)

lemma close_session_counts:
  assumes "st \<noteq> S_active"
  shows "role_parents org_id role (close_session st i d) \<le> role_parents org_id role d"
    and "org_parents org_id (close_session st i d) \<le> org_parents org_id d"
    and "org_workers org_id (close_session st i d) = org_workers org_id d"
    and "session_attempts j (close_session st i d) = session_attempts j d"
  using assms
  by (auto simp: role_parents_def org_parents_def org_workers_def session_attempts_def)
    (auto simp: close_session_def active_session_def intro!: count_update_where_le)

lemma close_session_inv: "st \<noteq> S_active \<Longrightarrow> session_inv d \<Longrightarrow> session_inv (close_session st i d)"
  using close_session_counts(1) [of st _ _ i d]
  by (simp add: session_inv_def session_keys_ok_def single_parent_def attempts_ok_def close_session_counts(4))
    (meson le_trans)

text \<open>Updates of attempts that keep ids, sessions and sequence numbers.\<close>

lemma update_attempts_inv:
  assumes "\<And>r. wa_attempt_id (f r) = wa_attempt_id r" "\<And>r. wa_session_id (f r) = wa_session_id r"
    "\<And>r. wa_sequence (f r) = wa_sequence r" and "session_inv d"
  shows "session_inv (d\<lparr>worker_attempts := update_where P f (worker_attempts d)\<rparr>)"
proof -
  let ?d = "d\<lparr>worker_attempts := update_where P f (worker_attempts d)\<rparr>"
  have n: "session_attempts i ?d = session_attempts i d" for i
    using assms(2) by (simp add: session_attempts_def count_update_where)
  have "map wa_attempt_id (worker_attempts ?d) = map wa_attempt_id (worker_attempts d)"
    "map (\<lambda>r. (wa_session_id r, wa_sequence r)) (worker_attempts ?d)
       = map (\<lambda>r. (wa_session_id r, wa_sequence r)) (worker_attempts d)"
    using assms by (simp_all add: map_update_where)
  moreover have "\<forall>wa\<in>set (worker_attempts ?d). wa_session_id wa \<in> ws_session_id ` set (wake_sessions d)
          \<and> 1 \<le> wa_sequence wa \<and> wa_sequence wa \<le> int (session_attempts (wa_session_id wa) d)"
    using assms by (auto simp: row_simps session_inv_def attempts_ok_def)
  ultimately show ?thesis using assms(4) n
    by (simp add: session_inv_def attempts_ok_def session_keys_ok_def single_parent_def role_parents_def)
qed

lemma update_attempts_agents:
  assumes "\<And>r. wa_session_id (f r) = wa_session_id r"
    and "\<And>r. r \<in> set (worker_attempts d) \<Longrightarrow> P r \<Longrightarrow> live_attempt (f r) \<Longrightarrow> live_attempt r"
  shows "agents org_id (d\<lparr>worker_attempts := update_where P f (worker_attempts d)\<rparr>) \<le> agents org_id d"
  using assms by (auto simp: session_counts intro!: count_update_where_le)

lemma fail_live_attempts_inv: "session_inv d \<Longrightarrow> session_inv (fail_live_attempts now i d)"
  and start_attempt_inv: "session_inv d \<Longrightarrow> session_inv (start_attempt a d)"
  and succeed_attempt_inv: "session_inv d \<Longrightarrow> session_inv (succeed_attempt stamp a h d)"
  and fail_attempt_inv: "session_inv d \<Longrightarrow> session_inv (fail_attempt stamp a d)"
  by (simp_all add: fail_live_attempts_def start_attempt_def succeed_attempt_def fail_attempt_def update_attempts_inv)

lemma fail_live_attempts_agents: "agents org_id (fail_live_attempts now i d) \<le> agents org_id d"
  and succeed_attempt_agents: "agents org_id (succeed_attempt stamp a h d) \<le> agents org_id d"
  and fail_attempt_agents: "agents org_id (fail_attempt stamp a d) \<le> agents org_id d"
  by (auto simp: fail_live_attempts_def succeed_attempt_def fail_attempt_def live_attempt_def
      intro!: update_attempts_agents)

text \<open>The update to \<^verbatim>\<open>running\<close> has no guard on the state: it keeps the number of agents only for
  an attempt that is still live.\<close>

lemma start_attempt_agents:
  "(\<And>r. r \<in> set (worker_attempts d) \<Longrightarrow> wa_attempt_id r = a \<Longrightarrow> live_attempt r) \<Longrightarrow>
     agents org_id (start_attempt a d) \<le> agents org_id d"
  unfolding start_attempt_def by (intro update_attempts_agents) simp_all

lemma doubt_reservations_tables [simp]:
  "wake_sessions (doubt_reservations i d) = wake_sessions d"
  "worker_attempts (doubt_reservations i d) = worker_attempts d"
  "wake_runtimes (doubt_reservations i d) = wake_runtimes d"
  by (simp_all add: doubt_reservations_def)

lemma terminate_wakes_tables [simp]:
  "wake_sessions (terminate_wakes now i d) = wake_sessions d"
  "worker_attempts (terminate_wakes now i d) = worker_attempts d"
  "budget_reservations (terminate_wakes now i d) = budget_reservations d"
  by (simp_all add: terminate_wakes_def)

lemma doubt_inv [simp]: "session_inv (doubt_reservations i d) = session_inv d"
  and terminate_inv [simp]: "session_inv (terminate_wakes now i d) = session_inv d"
  and doubt_agents [simp]: "agents org_id (doubt_reservations i d) = agents org_id d"
  and terminate_agents [simp]: "agents org_id (terminate_wakes now i d) = agents org_id d"
  by (rule session_inv_cong agents_cong; simp)+

section \<open>What creating a session and reserving a worker do\<close>

lemma immediate_guards:
  "immediate (\<lambda>d. if A d then (Inl (e d), d) else if B d then (Inl (g d), d)
       else (case F d of Inl e \<Rightarrow> (Inl e, d) | Inr d' \<Rightarrow> (Inr x, d'))) d = (Inr s, d')
     \<longleftrightarrow> s = x \<and> \<not> A d \<and> \<not> B d \<and> F d = Inr d'"
  unfolding immediate_Inr by (cases "F d") auto

lemma create_session_new:
  "create_session now u1 u2 org_id role dig al w ttl cap d = (Inr s, d') \<longleftrightarrow>
     s = new_session now u1 u2 org_id role dig al w ttl \<and> 0 < cap \<and> 0 < ttl
     \<and> role_parents org_id role d = 0 \<and> int (agents org_id d) < cap
     \<and> insert_session (session_values (utc_text now) s) d = Inr d'"
proof (cases "cap \<le> 0 \<or> ttl \<le> 0")
  case False
  then show ?thesis
    unfolding create_session_def Let_def agents_def by (simp only: if_False immediate_guards) auto
qed (auto simp: create_session_def)

lemma create_session_Inr:
  assumes "create_session now u1 u2 org_id role dig al w ttl cap d = (Inr s, d')"
  shows "role_parents org_id role d = 0" "int (agents org_id d) < cap" "0 < ttl"
    "insert_session (session_values (utc_text now) s) d = Inr d'"
    "sn_session_id s = u1" "sn_org_id s = org_id" "sn_role s = role" "sn_policy_digest s = dig"
    "sn_workspace_aliases s = al" "sn_expires_at s = utc_text (now + ttl * second)"
  using assms unfolding create_session_new by (auto simp: new_session_def)

lemma session_values_simps [simp]:
  "ws_session_id (session_values t s) = sn_session_id s" "ws_wake_id (session_values t s) = sn_wake_id s"
  "ws_org_id (session_values t s) = sn_org_id s" "ws_role (session_values t s) = sn_role s"
  "ws_expires_at (session_values t s) = sn_expires_at s" "active_session (session_values t s)"
  by (simp_all add: session_values_def active_session_def)

lemma insert_session_Inr:
  "insert_session r d = Inr d' \<longleftrightarrow> ws_session_id r \<notin> ws_session_id ` set (wake_sessions d)
     \<and> ws_wake_id r \<notin> ws_wake_id ` set (wake_sessions d) \<and> d' = d\<lparr>wake_sessions := wake_sessions d @ [r]\<rparr>"
  by (auto simp: insert_session_def list_ex_key)

lemma insert_session_counts:
  assumes "attempts_ok d" and "insert_session r d = Inr d'" and "active_session r"
  shows "org_workers org_id d' = org_workers org_id d"
    and "org_parents org_id d' = org_parents org_id d + (if ws_org_id r = org_id then 1 else 0)"
proof -
  have "wa_session_id wa \<noteq> ws_session_id r" if "wa \<in> set (worker_attempts d)" for wa
    using assms that by (metis attempts_ok_def insert_session_Inr)
  then show "org_workers org_id d' = org_workers org_id d"
    using assms(2) unfolding insert_session_Inr org_workers_def count_where_def
    by (intro arg_cong [of _ _ length] filter_cong) (simp_all, metis)
  show "org_parents org_id d' = org_parents org_id d + (if ws_org_id r = org_id then 1 else 0)"
    using assms(2,3) by (auto simp: org_parents_def insert_session_Inr)
qed

lemma insert_session_inv:
  assumes "session_inv d" and "insert_session r d = Inr d'" and "role_parents (ws_org_id r) (ws_role r) d = 0"
  shows "session_inv d'"
proof -
  have "role_parents org_id role d' \<le> 1" for org_id role
    using assms by (auto simp: insert_session_Inr session_inv_def single_parent_def role_parents_def)
  then show ?thesis using assms
    by (auto simp: insert_session_Inr session_inv_def session_keys_ok_def single_parent_def attempts_ok_def
        session_attempts_def)
qed

lemma reserve_worker_Inr:
  assumes "reserve_worker now1 now2 u i wt cum con cap d = (Inr a, d')"
  obtains s r where "s \<in> set (wake_sessions d)" "ws_session_id s = i" "active_session s" "utcnow now1 < ws_expires_at s"
    "int (session_attempts i d) < cum" "int (live_attempts i d) < con" "int (agents (ws_org_id s) d) < cap"
    "insert_attempt r d = Inr d'" "a = u" "r = new_attempt u i (int (session_attempts i d) + 1) wt (utcnow now2)"
  using assms unfolding reserve_worker_def immediate_Inr agents_def
  by (auto split: if_split_asm sum.split_asm option.split_asm dest!: find_SomeD)

lemma new_attempt_simps [simp]:
  "wa_attempt_id (new_attempt a i n wt t) = a" "wa_session_id (new_attempt a i n wt t) = i"
  "wa_sequence (new_attempt a i n wt t) = n" "live_attempt (new_attempt a i n wt t)"
  by (simp_all add: new_attempt_def live_attempt_def)

lemma insert_attempt_Inr:
  "insert_attempt r d = Inr d' \<longleftrightarrow> wa_attempt_id r \<notin> wa_attempt_id ` set (worker_attempts d)
     \<and> (wa_session_id r, wa_sequence r) \<notin> (\<lambda>s. (wa_session_id s, wa_sequence s)) ` set (worker_attempts d)
     \<and> wa_session_id r \<in> ws_session_id ` set (wake_sessions d)
     \<and> d' = d\<lparr>worker_attempts := worker_attempts d @ [r]\<rparr>"
  unfolding insert_attempt_def list_ex_key by auto

lemma insert_attempt_inv:
  assumes "session_inv d" and "insert_attempt r d = Inr d'"
    and "wa_sequence r = int (session_attempts (wa_session_id r) d) + 1"
  shows "session_inv d'"
proof -
  have n: "session_attempts i d' = session_attempts i d + (if wa_session_id r = i then 1 else 0)" for i
    using assms(2) by (auto simp: insert_attempt_Inr session_attempts_def)
  have "wa_sequence wa \<le> int (session_attempts (wa_session_id wa) d')" if "wa \<in> set (worker_attempts d)" for wa
    using assms(1) that by (auto simp: n session_inv_def attempts_ok_def)
  then show ?thesis using assms n [of "wa_session_id r"]
    by (auto simp: insert_attempt_Inr session_inv_def session_keys_ok_def single_parent_def attempts_ok_def
        role_parents_def)
qed

lemma insert_attempt_agents:
  assumes "session_keys_ok d" and "insert_attempt r d = Inr d'" and "s \<in> set (wake_sessions d)"
    and "ws_session_id s = wa_session_id r"
  shows "agents org_id d' \<le> agents org_id d + (if ws_org_id s = org_id then 1 else 0)"
proof -
  have "ws_org_id s = org_id" if "list_ex (\<lambda>ws. ws_session_id ws = wa_session_id r \<and> ws_org_id ws = org_id) (wake_sessions d)"
    using that assms(1,3,4) unfolding list_ex_iff session_keys_ok_def distinct_map by (metis inj_onD)
  with assms(2) show ?thesis by (auto simp: insert_attempt_Inr session_counts)
qed

section \<open>Every operation keeps the invariant\<close>

lemma create_session_inv:
  "session_inv d \<Longrightarrow> session_inv (snd (create_session now u1 u2 org_id role dig al w ttl cap d))"
proof (cases "create_session now u1 u2 org_id role dig al w ttl cap d")
  case (Pair r d')
  assume inv: "session_inv d"
  show ?thesis
  proof (cases r)
    case (Inl e)
    with Pair have "d' = d" by (auto simp: create_session_def Let_def immediate_Inl split: if_splits)
    with Pair inv show ?thesis by simp
  next
    case (Inr s)
    with Pair have c: "create_session now u1 u2 org_id role dig al w ttl cap d = (Inr s, d')" by simp
    from insert_session_inv [OF inv create_session_Inr(4) [OF c]] create_session_Inr(1,6,7) [OF c] Pair
    show ?thesis by simp
  qed
qed

lemma reserve_worker_inv:
  "session_inv d \<Longrightarrow> session_inv (snd (reserve_worker now1 now2 u i wt cum con cap d))"
proof (cases "reserve_worker now1 now2 u i wt cum con cap d")
  case (Pair r d')
  assume inv: "session_inv d"
  show ?thesis
  proof (cases r)
    case (Inl e)
    with Pair have "d' = d" by (auto simp: reserve_worker_def immediate_Inl)
    with Pair inv show ?thesis by simp
  next
    case (Inr a)
    with Pair have c: "reserve_worker now1 now2 u i wt cum con cap d = (Inr a, d')" by simp
    show ?thesis
      by (rule reserve_worker_Inr [OF c]) (use insert_attempt_inv [OF inv] Pair in simp)
  qed
qed

lemma revoke_session_inv: "session_inv d \<Longrightarrow> session_inv (snd (revoke_session i d))"
  and finish_session_inv: "session_inv d \<Longrightarrow> session_inv (snd (finish_session i d))"
  by (simp_all add: revoke_session_def finish_session_def snd_immediate close_session_inv)

lemma force_terminate_session_inv: "session_inv d \<Longrightarrow> session_inv (snd (force_terminate_session now i expired d))"
  and reap_expired_session_inv: "session_inv d \<Longrightarrow> session_inv (snd (reap_expired_session now i d))"
  by (auto simp: force_terminate_session_def reap_expired_session_def snd_immediate close_session_inv
      fail_live_attempts_inv split: option.splits)

section \<open>Every operation respects the cap of live agents\<close>

lemma create_session_agents:
  assumes "session_inv d" and "create_session now u1 u2 org_id role dig al w ttl cap d = (Inr s, d')"
  shows "agents org_id d' = agents org_id d + 1" and "int (agents org_id d') \<le> cap"
    and "org' \<noteq> org_id \<Longrightarrow> agents org' d' = agents org' d"
proof -
  note c = create_session_Inr [OF assms(2)]
  from insert_session_counts [OF _ c(4)] assms(1)
  show "agents org_id d' = agents org_id d + 1" "org' \<noteq> org_id \<Longrightarrow> agents org' d' = agents org' d"
    by (simp_all add: agents_def session_inv_def c(6))
  with c(2) show "int (agents org_id d') \<le> cap" by simp
qed

lemma reserve_worker_agents:
  assumes "session_inv d" and "reserve_worker now1 now2 u i wt cum con cap d = (Inr a, d')"
  shows "int (agents org_id d') \<le> cap \<or> agents org_id d' \<le> agents org_id d"
proof -
  from assms(2) obtain s r where "s \<in> set (wake_sessions d)" "ws_session_id s = i" "int (agents (ws_org_id s) d) < cap"
    "insert_attempt r d = Inr d'" "wa_session_id r = i"
    by (rule reserve_worker_Inr) simp
  with insert_attempt_agents [of d r d' s org_id] assms(1) show ?thesis
    by (auto simp: session_inv_def split: if_splits)
qed

lemma close_session_agents: "st \<noteq> S_active \<Longrightarrow> agents org_id (close_session st i d) \<le> agents org_id d"
  by (simp add: agents_def close_session_counts)

lemma revoke_session_agents: "agents org_id (snd (revoke_session i d)) \<le> agents org_id d"
  and finish_session_agents: "agents org_id (snd (finish_session i d)) \<le> agents org_id d"
  by (simp_all add: revoke_session_def finish_session_def snd_immediate close_session_agents)

lemma force_terminate_session_agents: "agents org_id (snd (force_terminate_session now i expired d)) \<le> agents org_id d"
  and reap_expired_session_agents: "agents org_id (snd (reap_expired_session now i d)) \<le> agents org_id d"
proof -
  have "agents org_id (close_session st i (doubt_reservations i (fail_live_attempts n i d))) \<le> agents org_id d"
    if "st \<noteq> S_active" for st n
    using that close_session_agents fail_live_attempts_agents doubt_agents by (metis le_trans)
  then show "agents org_id (snd (force_terminate_session now i expired d)) \<le> agents org_id d"
    "agents org_id (snd (reap_expired_session now i d)) \<le> agents org_id d"
    by (auto simp: force_terminate_session_def reap_expired_session_def snd_immediate split: option.splits)
qed

section \<open>Reading a session back\<close>

lemma store_session_created:
  assumes "session_inv d" and "create_session now u1 u2 org_id role dig al w ttl cap d = (Inr s, d')"
    and "utcnow later < utc_text (now + ttl * second)"
  shows "store_session later u1 d' = Inr s"
proof -
  note c = create_session_Inr [OF assms(2)]
  let ?r = "session_values (utc_text now) s"
  have "find (\<lambda>r. ws_session_id r = u1 \<and> active_session r) (xs @ [?r]) = Some ?r"
    if "u1 \<notin> ws_session_id ` set xs" for xs
    using that c(5) by (induction xs) auto
  with c assms(3) show ?thesis by (simp add: store_session_def insert_session_Inr session_values_def)
qed

end
