(* ===== verification/Budget.thy ===== *)
theory Budget
  imports Sessions
begin

text \<open>
  \<^verbatim>\<open>control/sjg_control/store.py\<close>, token budgets: \<open>reserve_budget\<close>, \<open>settle_budget\<close>,
  \<open>mark_budget_uncertain\<close>, \<open>release_budget\<close> and \<open>_release_reservation_for\<close>. A reservation is
  charged to two buckets of its epoch, one of the organization and one of the role.
\<close>

type_synonym bucket_key = "string \<times> string \<times> string"

definition bucket_key :: "budget_bucket \<Rightarrow> bucket_key" where
  "bucket_key b = (bb_scope b, bb_subject b, bb_epoch b)"

definition bucket_row :: "bucket_key \<Rightarrow> db \<Rightarrow> budget_bucket option" where
  "bucket_row k d = find (\<lambda>b. bucket_key b = k) (budget_buckets d)"

definition reservation_row :: "string \<Rightarrow> db \<Rightarrow> budget_reservation option" where
  "reservation_row reservation_id d = find (\<lambda>r. bv_reservation_id r = reservation_id) (budget_reservations d)"

text \<open>\<open>UPDATE budget_bucket SET reserved_tokens=reserved_tokens+?, consumed_tokens=consumed_tokens+?\<close>
  for one key.\<close>

definition adjust_bucket :: "int \<Rightarrow> int \<Rightarrow> bucket_key \<Rightarrow> db \<Rightarrow> db" where
  "adjust_bucket reserved consumed k d =
     d\<lparr>budget_buckets := update_where (\<lambda>b. bucket_key b = k)
        (\<lambda>b. b\<lparr>bb_reserved_tokens := bb_reserved_tokens b + reserved,
              bb_consumed_tokens := bb_consumed_tokens b + consumed\<rparr>) (budget_buckets d)\<rparr>"

definition set_reservation :: "reservation_state \<Rightarrow> string \<Rightarrow> db \<Rightarrow> db" where
  "set_reservation st reservation_id d =
     d\<lparr>budget_reservations := update_where (\<lambda>r. bv_reservation_id r = reservation_id)
        (\<lambda>r. r\<lparr>bv_state := st\<rparr>) (budget_reservations d)\<rparr>"

section \<open>Reserving\<close>

definition insert_bucket_or_ignore :: "bucket_key \<Rightarrow> int \<Rightarrow> db \<Rightarrow> db" where
  "insert_bucket_or_ignore k limit d =
     (if list_ex (\<lambda>b. bucket_key b = k) (budget_buckets d) then d
      else d\<lparr>budget_buckets := budget_buckets d @
        [\<lparr>bb_scope = fst k, bb_subject = fst (snd k), bb_epoch = snd (snd k), bb_token_limit = limit,
          bb_consumed_tokens = 0, bb_reserved_tokens = 0\<rparr>]\<rparr>)"

fun check_buckets :: "string \<Rightarrow> int \<Rightarrow> (string \<times> string \<times> int) list \<Rightarrow> db \<Rightarrow> db result" where
  "check_buckets epoch requested [] d = Inr d"
| "check_buckets epoch requested ((scope, subject, limit) # bs) d =
     (if limit \<le> 0 then Inl (StateError ''budget bucket limit must be positive'')
      else let d1 = insert_bucket_or_ignore (scope, subject, epoch) limit d in
      case bucket_row (scope, subject, epoch) d1 of
        None \<Rightarrow> Inl (TypeError ''NoneType object is not subscriptable'')
      | Some row \<Rightarrow>
          if bb_token_limit row \<noteq> limit
          then Inl (StateError (''budget policy changed during epoch: '' @ scope @ ''/'' @ subject))
          else if bb_consumed_tokens row + bb_reserved_tokens row + requested > bb_token_limit row
          then Inl (StateError (''budget hold: '' @ scope @ ''/'' @ subject))
          else check_buckets epoch requested bs d1)"

fun hold_buckets :: "string \<Rightarrow> int \<Rightarrow> (string \<times> string \<times> int) list \<Rightarrow> db \<Rightarrow> db" where
  "hold_buckets epoch requested [] d = d"
| "hold_buckets epoch requested ((scope, subject, limit) # bs) d =
     hold_buckets epoch requested bs (adjust_bucket requested 0 (scope, subject, epoch) d)"

definition insert_reservation :: "budget_reservation \<Rightarrow> db \<Rightarrow> db result" where
  "insert_reservation r d =
     (if list_ex (\<lambda>s. bv_reservation_id s = bv_reservation_id r) (budget_reservations d)
      then Inl (unique_failed ''budget_reservation.reservation_id'')
      else if list_ex (\<lambda>s. bv_session_id s = bv_session_id r) (budget_reservations d)
      then Inl (unique_failed ''budget_reservation.session_id'')
      else if \<not> list_ex (\<lambda>s. ws_session_id s = bv_session_id r) (wake_sessions d) then Inl foreign_failed
      else Inr (d\<lparr>budget_reservations := budget_reservations d @ [r]\<rparr>))"

definition bucket_names :: "(string \<times> string \<times> int) list \<Rightarrow> (string \<times> string) list" where
  "bucket_names buckets = map (\<lambda>(scope, subject, limit). (scope, subject)) buckets"

definition reserve_budget ::
  "instant \<Rightarrow> string \<Rightarrow> string \<Rightarrow> string \<Rightarrow> int \<Rightarrow> (string \<times> string \<times> int) list \<Rightarrow> string op" where
  "reserve_budget now uuid session_id epoch requested_tokens buckets d =
     (if requested_tokens \<le> 0 then (Inl (StateError ''budget reservation must be positive''), d)
      else immediate (\<lambda>d.
        case find (\<lambda>r. ws_session_id r = session_id \<and> active_session r \<and> ws_expires_at r > utcnow now)
               (wake_sessions d) of
          None \<Rightarrow> (Inl (StateError ''budget reservation requires an active session''), d)
        | Some s \<Rightarrow>
            if length buckets \<noteq> 2 \<or> \<not> distinct (bucket_names buckets)
            then (Inl (StateError ''budget reservation requires exactly one organization and role bucket''), d)
            else if set (bucket_names buckets) \<noteq> {(''org'', ws_org_id s), (''role'', ws_role s)}
            then (Inl (StateError ''budget buckets do not match the bound session''), d)
            else (case bindE (check_buckets epoch requested_tokens buckets d) (\<lambda>d1.
                     insert_reservation \<lparr>bv_reservation_id = uuid, bv_session_id = session_id, bv_epoch = epoch,
                         bv_reserved_tokens = requested_tokens, bv_state = B_active\<rparr>
                       (hold_buckets epoch requested_tokens buckets d1)) of
                    Inl e \<Rightarrow> (Inl e, d) | Inr d' \<Rightarrow> (Inr uuid, d'))) d)"

section \<open>Settling and releasing\<close>

definition session_buckets :: "wake_session \<Rightarrow> string \<Rightarrow> bucket_key list" where
  "session_buckets s epoch = [(''org'', ws_org_id s, epoch), (''role'', ws_role s, epoch)]"

definition covers :: "int \<Rightarrow> db \<Rightarrow> bucket_key \<Rightarrow> bool" where
  "covers reserved d k = (case bucket_row k d of None \<Rightarrow> False | Some b \<Rightarrow> reserved \<le> bb_reserved_tokens b)"

definition crosses :: "int \<Rightarrow> db \<Rightarrow> bucket_key \<Rightarrow> bool" where
  "crosses consumed d k =
     (case bucket_row k d of None \<Rightarrow> False | Some b \<Rightarrow> bb_consumed_tokens b + consumed > bb_token_limit b)"

definition settle_budget :: "string \<Rightarrow> int \<Rightarrow> unit op" where
  "settle_budget reservation_id consumed_tokens d =
     (if consumed_tokens < 0 then (Inl (StateError ''consumed token count must not be negative''), d)
      else case immediate (\<lambda>d.
        case reservation_row reservation_id d of
          None \<Rightarrow> (Inl (StateError ''budget reservation is absent or inactive''), d)
        | Some r \<Rightarrow>
            if bv_state r \<noteq> B_active then (Inl (StateError ''budget reservation is absent or inactive''), d)
            else (case session_row (bv_session_id r) d of
              None \<Rightarrow> (Inl (StateError ''budget reservation session is absent''), d)
            | Some s \<Rightarrow>
                let reserved = bv_reserved_tokens r; ks = session_buckets s (bv_epoch r) in
                if \<not> list_all (covers reserved d) ks
                then (Inl (StateError ''budget bucket does not cover the reservation''), d)
                else let uncertain = (consumed_tokens > reserved \<or> list_ex (crosses consumed_tokens d) ks);
                         d1 = fold (adjust_bucket (- reserved) consumed_tokens) ks d in
                  (Inr uncertain,
                   set_reservation (if uncertain then B_uncertain else B_settled) reservation_id d1))) d of
        (Inl e, d') \<Rightarrow> (Inl e, d')
      | (Inr uncertain, d') \<Rightarrow>
          if uncertain
          then (Inl (StateError ''actual usage exceeded a budget boundary; manual review required''), d')
          else (Inr (), d'))"

definition mark_budget_uncertain :: "string \<Rightarrow> unit op" where
  "mark_budget_uncertain reservation_id d =
     (let P = (\<lambda>r. bv_reservation_id r = reservation_id \<and> bv_state r = B_active);
          d' = d\<lparr>budget_reservations := update_where P (\<lambda>r. r\<lparr>bv_state := B_uncertain\<rparr>) (budget_reservations d)\<rparr> in
      if count_where P (budget_reservations d) \<noteq> 1
      then (Inl (StateError ''budget reservation is absent or inactive''), d')
      else (Inr (), d'))"

text \<open>The release of both buckets: each \<open>UPDATE\<close> needs one row with enough reserved tokens.\<close>

fun release_buckets :: "string \<Rightarrow> int \<Rightarrow> bucket_key list \<Rightarrow> db \<Rightarrow> db result" where
  "release_buckets message reserved [] d = Inr d"
| "release_buckets message reserved (k # ks) d =
     (if count_where (\<lambda>b. bucket_key b = k \<and> bb_reserved_tokens b \<ge> reserved) (budget_buckets d) \<noteq> 1
      then Inl (StateError message)
      else release_buckets message reserved ks
        (d\<lparr>budget_buckets := update_where (\<lambda>b. bucket_key b = k \<and> bb_reserved_tokens b \<ge> reserved)
            (\<lambda>b. b\<lparr>bb_reserved_tokens := bb_reserved_tokens b - reserved\<rparr>) (budget_buckets d)\<rparr>))"

definition release_budget :: "string \<Rightarrow> unit op" where
  "release_budget reservation_id = immediate (\<lambda>d.
     case reservation_row reservation_id d of
       None \<Rightarrow> (Inl (StateError ''budget reservation is absent or inactive''), d)
     | Some r \<Rightarrow>
         if bv_state r \<noteq> B_active then (Inl (StateError ''budget reservation is absent or inactive''), d)
         else (case session_row (bv_session_id r) d of
           None \<Rightarrow> (Inl (StateError ''budget reservation session is absent''), d)
         | Some s \<Rightarrow>
             (case release_buckets ''budget bucket does not cover the reservation'' (bv_reserved_tokens r)
                     (session_buckets s (bv_epoch r)) d of
                Inl e \<Rightarrow> (Inl e, d)
              | Inr d' \<Rightarrow> (Inr (), set_reservation B_released reservation_id d'))))"

text \<open>\<open>_release_reservation_for\<close>, run inside the transaction of its caller.\<close>

definition release_reservation_for :: "string \<Rightarrow> db \<Rightarrow> db result" where
  "release_reservation_for session_id d =
     (case find (\<lambda>r. bv_session_id r = session_id) (budget_reservations d) of
        None \<Rightarrow> Inr d
      | Some r \<Rightarrow>
          if bv_state r \<noteq> B_active then Inl (StateError ''unstarted session budget is not active'')
          else (case session_row session_id d of
            None \<Rightarrow> Inl (TypeError ''NoneType object is not subscriptable'')
          | Some s \<Rightarrow>
              bindE (release_buckets ''unstarted session budget bucket is inconsistent'' (bv_reserved_tokens r)
                      (session_buckets s (bv_epoch r)) d) (\<lambda>d'.
                Inr (set_reservation B_released (bv_reservation_id r) d'))))"

section \<open>The budget invariant\<close>

text \<open>The organization and role of a session, which never change.\<close>

definition owner :: "db \<Rightarrow> string \<Rightarrow> (string \<times> string) option" where
  "owner d session_id = map_option (\<lambda>s. (ws_org_id s, ws_role s)) (session_row session_id d)"

definition charged_keys :: "db \<Rightarrow> budget_reservation \<Rightarrow> bucket_key list" where
  "charged_keys d r =
     (case owner d (bv_session_id r) of
        None \<Rightarrow> [] | Some (org_id, role) \<Rightarrow> [(''org'', org_id, bv_epoch r), (''role'', role, bv_epoch r)])"

text \<open>Tokens that reservations in a given set of states hold on a bucket.\<close>

definition holds :: "(reservation_state \<Rightarrow> bool) \<Rightarrow> bucket_key \<Rightarrow> (budget_reservation \<Rightarrow> bucket_key list)
    \<Rightarrow> budget_reservation list \<Rightarrow> int" where
  "holds P k keys rs = sum_list (map (\<lambda>r. if P (bv_state r) \<and> k \<in> set (keys r) then bv_reserved_tokens r else 0) rs)"

definition active_hold :: "db \<Rightarrow> bucket_key \<Rightarrow> int" where
  "active_hold d k = holds (\<lambda>st. st = B_active) k (charged_keys d) (budget_reservations d)"

definition doubtful_hold :: "db \<Rightarrow> bucket_key \<Rightarrow> int" where
  "doubtful_hold d k = holds (\<lambda>st. st = B_active \<or> st = B_uncertain) k (charged_keys d) (budget_reservations d)"

definition reservations_ok :: "db \<Rightarrow> bool" where
  "reservations_ok d \<longleftrightarrow> distinct (map bv_reservation_id (budget_reservations d))
     \<and> distinct (map bv_session_id (budget_reservations d))
     \<and> (\<forall>r\<in>set (budget_reservations d). 0 < bv_reserved_tokens r \<and> owner d (bv_session_id r) \<noteq> None
          \<and> (bv_state r = B_active \<longrightarrow> set (charged_keys d r) \<subseteq> bucket_key ` set (budget_buckets d)))"

text \<open>What a bucket has reserved covers the active reservations and is covered by the active and
  uncertain ones; a bucket over its limit is charged by an uncertain reservation.\<close>

definition bucket_ok :: "db \<Rightarrow> budget_bucket \<Rightarrow> bool" where
  "bucket_ok d b \<longleftrightarrow> 0 \<le> bb_consumed_tokens b
     \<and> active_hold d (bucket_key b) \<le> bb_reserved_tokens b
     \<and> bb_reserved_tokens b \<le> doubtful_hold d (bucket_key b)
     \<and> (bb_consumed_tokens b + bb_reserved_tokens b > bb_token_limit b \<longrightarrow>
          (\<exists>r\<in>set (budget_reservations d). bv_state r = B_uncertain \<and> bucket_key b \<in> set (charged_keys d r)))"

definition budget_inv :: "db \<Rightarrow> bool" where
  "budget_inv d \<longleftrightarrow> distinct (map bucket_key (budget_buckets d)) \<and> reservations_ok d
     \<and> (\<forall>b\<in>set (budget_buckets d). bucket_ok d b)"

lemma session_keys_row: "session_row i d = Some s \<Longrightarrow> ws_session_id s = i \<and> s \<in> set (wake_sessions d)"
  by (auto simp: session_row_def dest!: find_SomeD)

lemma charged_keys_owner:
  "session_row (bv_session_id r) d = Some s \<Longrightarrow> charged_keys d r = session_buckets s (bv_epoch r)"
  by (simp add: charged_keys_def owner_def session_buckets_def)

lemma holds_Nil [simp]: "holds P k keys [] = 0"
  and holds_Cons [simp]: "holds P k keys (r # rs)
    = (if P (bv_state r) \<and> k \<in> set (keys r) then bv_reserved_tokens r else 0) + holds P k keys rs"
  and holds_append [simp]: "holds P k keys (rs @ ts) = holds P k keys rs + holds P k keys ts"
  by (simp_all add: holds_def)

lemma holds_nonneg: "\<forall>r\<in>set rs. 0 < bv_reserved_tokens r \<Longrightarrow> 0 \<le> holds P k keys rs"
  by (induction rs) (auto simp: add_nonneg_nonneg)

lemma holds_member:
  assumes "\<forall>r\<in>set rs. 0 < bv_reserved_tokens r" and "r \<in> set rs" and "P (bv_state r)" and "k \<in> set (keys r)"
  shows "bv_reserved_tokens r \<le> holds P k keys rs"
  using assms holds_nonneg by (induction rs) (fastforce simp: add_nonneg_nonneg)+

lemma holds_cong:
  "(\<And>r. r \<in> set rs \<Longrightarrow> set (keys r) = set (keys' r)) \<Longrightarrow> holds P k keys rs = holds P k keys' rs"
  by (induction rs) auto

text \<open>The invariant reads the sessions only through the owner of each reservation.\<close>

lemma charged_keys_cong: "owner d' (bv_session_id r) = owner d (bv_session_id r) \<Longrightarrow> charged_keys d' r = charged_keys d r"
  by (simp add: charged_keys_def)

lemma budget_inv_cong:
  assumes "budget_buckets d' = budget_buckets d" and "budget_reservations d' = budget_reservations d"
    and "\<And>r. r \<in> set (budget_reservations d) \<Longrightarrow> owner d' (bv_session_id r) = owner d (bv_session_id r)"
  shows "budget_inv d' = budget_inv d"
proof -
  have k: "\<And>r. r \<in> set (budget_reservations d) \<Longrightarrow> charged_keys d' r = charged_keys d r"
    by (rule charged_keys_cong) (rule assms(3))
  then have "holds P key (charged_keys d') (budget_reservations d) = holds P key (charged_keys d) (budget_reservations d)"
    for P key by (intro holds_cong) simp
  then have "active_hold d' key = active_hold d key" "doubtful_hold d' key = doubtful_hold d key" for key
    unfolding active_hold_def doubtful_hold_def assms(2) by simp_all
  with k assms show ?thesis by (simp add: budget_inv_def reservations_ok_def bucket_ok_def)
qed

section \<open>Reservations that become uncertain\<close>

text \<open>Turning active reservations into uncertain ones changes no bucket and keeps the invariant.\<close>

definition doubt :: "(budget_reservation \<Rightarrow> bool) \<Rightarrow> db \<Rightarrow> db" where
  "doubt P d = d\<lparr>budget_reservations := update_where (\<lambda>r. P r \<and> bv_state r = B_active)
     (\<lambda>r. r\<lparr>bv_state := B_uncertain\<rparr>) (budget_reservations d)\<rparr>"

lemma doubt_reservations_doubt: "doubt_reservations i d = doubt (\<lambda>r. bv_session_id r = i) d"
  by (simp add: doubt_reservations_def doubt_def)

lemma mark_budget_uncertain_doubt:
  "snd (mark_budget_uncertain rid d) = doubt (\<lambda>r. bv_reservation_id r = rid) d"
  by (simp add: mark_budget_uncertain_def doubt_def Let_def)

lemma charged_keys_state [simp]: "charged_keys d (r\<lparr>bv_state := st\<rparr>) = charged_keys d r"
  by (simp add: charged_keys_def split: option.split)

lemma holds_doubt:
  assumes "\<forall>r\<in>set rs. 0 < bv_reserved_tokens r" and "\<And>r st. keys (r\<lparr>bv_state := st\<rparr>) = keys r"
  shows "holds (\<lambda>st. st = B_active) k keys (update_where (\<lambda>r. P r \<and> bv_state r = B_active)
            (\<lambda>r. r\<lparr>bv_state := B_uncertain\<rparr>) rs) \<le> holds (\<lambda>st. st = B_active) k keys rs"
    and "holds (\<lambda>st. st = B_active \<or> st = B_uncertain) k keys (update_where (\<lambda>r. P r \<and> bv_state r = B_active)
            (\<lambda>r. r\<lparr>bv_state := B_uncertain\<rparr>) rs) = holds (\<lambda>st. st = B_active \<or> st = B_uncertain) k keys rs"
  using assms by (induction rs) auto

lemma owner_tables: "wake_sessions d' = wake_sessions d \<Longrightarrow> owner d' i = owner d i"
  by (simp add: owner_def session_row_def)

lemma charged_keys_tables: "wake_sessions d' = wake_sessions d \<Longrightarrow> charged_keys d' = charged_keys d"
  by (rule ext) (simp add: charged_keys_def owner_def session_row_def)

lemma doubt_budget_inv: "budget_inv d \<Longrightarrow> budget_inv (doubt P d)"
proof -
  assume inv: "budget_inv d"
  let ?u = "update_where (\<lambda>r. P r \<and> bv_state r = B_active) (\<lambda>r. r\<lparr>bv_state := B_uncertain\<rparr>) (budget_reservations d)"
  have k: "charged_keys (doubt P d) = charged_keys d" "owner (doubt P d) = owner d"
    by (rule charged_keys_tables, simp add: doubt_def) (rule ext, rule owner_tables, simp add: doubt_def)
  have pos: "\<forall>r\<in>set (budget_reservations d). 0 < bv_reserved_tokens r"
    using inv by (simp add: budget_inv_def reservations_ok_def)
  have a: "active_hold (doubt P d) key \<le> active_hold d key" "doubtful_hold (doubt P d) key = doubtful_hold d key" for key
    using holds_doubt [OF pos, of "charged_keys d"] unfolding active_hold_def doubtful_hold_def k
    by (simp_all add: doubt_def)
  have r: "reservations_ok (doubt P d)"
    using inv unfolding reservations_ok_def k budget_inv_def
    by (auto simp: doubt_def map_update_where row_simps)
  have u: "\<exists>r\<in>set ?u. bv_state r = B_uncertain \<and> key \<in> set (charged_keys d r)"
    if "\<exists>r\<in>set (budget_reservations d). bv_state r = B_uncertain \<and> key \<in> set (charged_keys d r)" for key
    using that by (fastforce simp: row_simps)
  have "bucket_ok (doubt P d) b" if "bucket_ok d b" for b
    using that a(1) [of "bucket_key b"] a(2) [of "bucket_key b"] u [of "bucket_key b"]
    unfolding bucket_ok_def k by (simp add: doubt_def)
  with inv r show ?thesis by (simp add: budget_inv_def doubt_def)
qed

section \<open>Settling and releasing one reservation\<close>

text \<open>The common effect: the reservation leaves the active state, its buckets give back the
  tokens it held and are charged what was used.\<close>

definition settle_effect :: "db \<Rightarrow> budget_reservation \<Rightarrow> int \<Rightarrow> reservation_state \<Rightarrow> db" where
  "settle_effect d r used st = d\<lparr>
     budget_buckets := update_where (\<lambda>b. bucket_key b \<in> set (charged_keys d r))
        (\<lambda>b. b\<lparr>bb_reserved_tokens := bb_reserved_tokens b - bv_reserved_tokens r,
              bb_consumed_tokens := bb_consumed_tokens b + used\<rparr>) (budget_buckets d),
     budget_reservations := update_where (\<lambda>s. bv_reservation_id s = bv_reservation_id r)
        (\<lambda>s. s\<lparr>bv_state := st\<rparr>) (budget_reservations d)\<rparr>"

lemma bucket_key_update [simp]:
  "bucket_key (b\<lparr>bb_reserved_tokens := x\<rparr>) = bucket_key b"
  "bucket_key (b\<lparr>bb_reserved_tokens := x, bb_consumed_tokens := y\<rparr>) = bucket_key b"
  by (simp_all add: bucket_key_def)

lemma holds_settle:
  assumes "distinct (map bv_reservation_id rs)" and "r \<in> set rs" and "bv_state r = B_active"
    and "\<And>r st. keys (r\<lparr>bv_state := st\<rparr>) = keys r" and "P B_active"
  shows "holds P k keys (update_where (\<lambda>s. bv_reservation_id s = bv_reservation_id r) (\<lambda>s. s\<lparr>bv_state := st\<rparr>) rs)
       = holds P k keys rs - (if k \<in> set (keys r) \<and> \<not> P st then bv_reserved_tokens r else 0)"
  using assms(1,2)
  by (rule update_key_split [where f = "\<lambda>s. s\<lparr>bv_state := st\<rparr>"]) (use assms(3-5) in auto)

lemma settle_effect_inv:
  assumes inv: "budget_inv d" and r: "r \<in> set (budget_reservations d)" "bv_state r = B_active"
    and used: "0 \<le> used" and st: "st \<noteq> B_active"
    and over: "\<And>b. b \<in> set (budget_buckets d) \<Longrightarrow> bucket_key b \<in> set (charged_keys d r) \<Longrightarrow> st \<noteq> B_uncertain \<Longrightarrow>
       bb_consumed_tokens b + used + (bb_reserved_tokens b - bv_reserved_tokens r) \<le> max (bb_token_limit b) (bb_consumed_tokens b + bb_reserved_tokens b)"
  shows "budget_inv (settle_effect d r used st)"
proof -
  let ?d = "settle_effect d r used st" and ?ks = "set (charged_keys d r)"
  let ?rs = "budget_reservations d"
  have k: "charged_keys ?d = charged_keys d" "owner ?d = owner d"
    by (rule charged_keys_tables, simp add: settle_effect_def)
      (rule ext, rule owner_tables, simp add: settle_effect_def)
  have ids: "distinct (map bv_reservation_id ?rs)" and pos: "\<forall>r\<in>set ?rs. 0 < bv_reserved_tokens r"
    using inv by (simp_all add: budget_inv_def reservations_ok_def)
  note h = holds_settle [OF ids r, of "charged_keys d", OF charged_keys_state]
  have act: "active_hold ?d key = active_hold d key - (if key \<in> ?ks then bv_reserved_tokens r else 0)" for key
    using h [of "\<lambda>st. st = B_active"] st unfolding active_hold_def k by (simp add: settle_effect_def)
  have dbt: "doubtful_hold ?d key = doubtful_hold d key - (if key \<in> ?ks \<and> st \<noteq> B_uncertain then bv_reserved_tokens r else 0)" for key
    using h [of "\<lambda>st. st = B_active \<or> st = B_uncertain"] st unfolding doubtful_hold_def k by (simp add: settle_effect_def)
  have bk: "map bucket_key (budget_buckets ?d) = map bucket_key (budget_buckets d)"
    by (simp add: settle_effect_def map_update_where)
  then have bs: "bucket_key ` set (budget_buckets ?d) = bucket_key ` set (budget_buckets d)" by (metis set_map)
  have "reservations_ok d" using inv by (simp add: budget_inv_def)
  then have rok: "reservations_ok ?d"
    unfolding reservations_ok_def k bs using st
    by (simp add: settle_effect_def map_update_where) (auto simp: row_simps)
  have old: "\<exists>s\<in>set (budget_reservations ?d). bv_state s = B_uncertain \<and> key \<in> set (charged_keys d s)"
    if "\<exists>s\<in>set ?rs. bv_state s = B_uncertain \<and> key \<in> set (charged_keys d s)" for key
  proof -
    from that obtain s where s: "s \<in> set ?rs" "bv_state s = B_uncertain" "key \<in> set (charged_keys d s)" by blast
    with r ids have "bv_reservation_id s \<noteq> bv_reservation_id r"
      by (metis distinct_map inj_onD reservation_state.distinct(5))
    with s have "s \<in> set (budget_reservations ?d)" by (auto simp: settle_effect_def row_simps)
    with s show ?thesis by blast
  qed
  have new: "\<exists>s\<in>set (budget_reservations ?d). bv_state s = B_uncertain \<and> key \<in> set (charged_keys d s)"
    if "st = B_uncertain" "key \<in> ?ks" for key
    using that r by (intro bexI [of _ "r\<lparr>bv_state := st\<rparr>"]) (auto simp: settle_effect_def row_simps)
  have "bucket_ok ?d b'" if "b' \<in> set (budget_buckets ?d)" for b'
  proof -
    from that obtain b where b: "b \<in> set (budget_buckets d)" and b': "b' = (if bucket_key b \<in> ?ks
        then b\<lparr>bb_reserved_tokens := bb_reserved_tokens b - bv_reserved_tokens r,
              bb_consumed_tokens := bb_consumed_tokens b + used\<rparr> else b)"
      by (auto simp: settle_effect_def row_simps)
    have ok: "bucket_ok d b" using inv b by (simp add: budget_inv_def)
    show ?thesis
    proof (cases "bucket_key b \<in> ?ks")
      case True
      have "\<exists>s\<in>set (budget_reservations ?d). bv_state s = B_uncertain \<and> bucket_key b \<in> set (charged_keys d s)"
        if o: "bb_consumed_tokens b + used + (bb_reserved_tokens b - bv_reserved_tokens r) > bb_token_limit b"
      proof (cases "st = B_uncertain")
        case False
        with over [OF b True] o have "bb_consumed_tokens b + bb_reserved_tokens b > bb_token_limit b" by simp
        with ok old show ?thesis by (simp add: bucket_ok_def)
      qed (use new True in blast)
      moreover have "0 \<le> bb_consumed_tokens b + used" using ok used by (simp add: bucket_ok_def)
      moreover have "bv_reserved_tokens r > 0" using pos r by blast
      ultimately show ?thesis using True b' ok act [of "bucket_key b"] dbt [of "bucket_key b"]
        unfolding bucket_ok_def k by (auto simp: algebra_simps split: if_splits)
    next
      case False
      with ok b' act [of "bucket_key b"] dbt [of "bucket_key b"] old [of "bucket_key b"] show ?thesis
        unfolding bucket_ok_def k by auto
    qed
  qed
  moreover have "distinct (map bucket_key (budget_buckets ?d))"
    unfolding bk using inv by (simp add: budget_inv_def)
  ultimately show ?thesis using rok by (simp add: budget_inv_def)
qed

lemma adjust_two:
  assumes "k1 \<noteq> k2"
  shows "fold (adjust_bucket a c) [k1, k2] d = d\<lparr>budget_buckets := update_where (\<lambda>b. bucket_key b \<in> {k1, k2})
     (\<lambda>b. b\<lparr>bb_reserved_tokens := bb_reserved_tokens b + a, bb_consumed_tokens := bb_consumed_tokens b + c\<rparr>)
     (budget_buckets d)\<rparr>"
  using assms by (simp add: adjust_bucket_def update_where_def)

lemma bucket_row_unique:
  "distinct (map bucket_key (budget_buckets d)) \<Longrightarrow> b \<in> set (budget_buckets d) \<Longrightarrow> bucket_row (bucket_key b) d = Some b"
  unfolding bucket_row_def using bucket_table.find_unique [of d b] by (simp add: bucket_key_def [abs_def])

lemma reservation_rowD: "reservation_row rid d = Some r \<Longrightarrow> r \<in> set (budget_reservations d) \<and> bv_reservation_id r = rid"
  by (auto simp: reservation_row_def dest!: find_SomeD)

lemma active_covered:
  assumes inv: "budget_inv d" and r: "r \<in> set (budget_reservations d)" "bv_state r = B_active"
    and k: "k \<in> set (charged_keys d r)"
  obtains b where "b \<in> set (budget_buckets d)" "bucket_key b = k" "bucket_row k d = Some b"
    "bv_reserved_tokens r \<le> bb_reserved_tokens b"
proof -
  have "k \<in> bucket_key ` set (budget_buckets d)" and pos: "\<forall>r\<in>set (budget_reservations d). 0 < bv_reserved_tokens r"
    using inv r k by (auto simp: budget_inv_def reservations_ok_def)
  then obtain b where b: "b \<in> set (budget_buckets d)" "bucket_key b = k" by blast
  have "bv_reserved_tokens r \<le> active_hold d k"
    unfolding active_hold_def using holds_member [OF pos r(1)] r(2) k by simp
  moreover have "bucket_ok d b" using inv b by (simp add: budget_inv_def)
  ultimately have "bv_reserved_tokens r \<le> bb_reserved_tokens b" using b by (simp add: bucket_ok_def)
  then show thesis using that b inv bucket_row_unique [of d b] by (simp add: budget_inv_def)
qed

lemma session_buckets_set: "set (session_buckets s e) = {(''org'', ws_org_id s, e), (''role'', ws_role s, e)}"
  by (simp add: session_buckets_def)

text \<open>An active reservation is always covered, so settling it never stops at its buckets: it
  charges what was used, and reports an error exactly when a boundary was crossed.\<close>

definition settles_uncertain :: "db \<Rightarrow> budget_reservation \<Rightarrow> int \<Rightarrow> bool" where
  "settles_uncertain d r used \<longleftrightarrow>
     used > bv_reserved_tokens r \<or> list_ex (crosses used d) (charged_keys d r)"

lemma settle_budget_active:
  assumes inv: "budget_inv d" and r: "reservation_row rid d = Some r" "bv_state r = B_active" and used: "0 \<le> used"
  shows "settle_budget rid used d =
    (if settles_uncertain d r used
     then Inl (StateError ''actual usage exceeded a budget boundary; manual review required'') else Inr (),
     settle_effect d r used (if settles_uncertain d r used then B_uncertain else B_settled))"
proof -
  have mem: "r \<in> set (budget_reservations d)" "bv_reservation_id r = rid" using reservation_rowD [OF r(1)] by simp_all
  with inv obtain s where s: "session_row (bv_session_id r) d = Some s"
    by (auto simp: budget_inv_def reservations_ok_def owner_def)
  note ck = charged_keys_owner [OF s]
  have "list_all (covers (bv_reserved_tokens r) d) (charged_keys d r)"
    unfolding list_all_iff
  proof
    fix k assume "k \<in> set (charged_keys d r)"
    then obtain b where "bucket_row k d = Some b" "bv_reserved_tokens r \<le> bb_reserved_tokens b"
      using active_covered [OF inv mem(1) r(2)] by blast
    then show "covers (bv_reserved_tokens r) d k" by (simp add: covers_def)
  qed
  then have cov: "list_all (covers (bv_reserved_tokens r) d) (session_buckets s (bv_epoch r))" by (simp add: ck)
  have eff: "set_reservation st rid (fold (adjust_bucket (- bv_reserved_tokens r) used) (session_buckets s (bv_epoch r)) d)
     = settle_effect d r used st" for st
    unfolding session_buckets_def by (subst adjust_two)
      (simp_all add: set_reservation_def settle_effect_def ck session_buckets_def mem(2))
  show ?thesis using used r s cov
    unfolding settle_budget_def immediate_def Let_def settles_uncertain_def
    by (simp add: eff ck)
qed

lemma settle_budget_inactive:
  assumes "\<nexists>r. reservation_row rid d = Some r \<and> bv_state r = B_active"
  shows "snd (settle_budget rid used d) = d" "isl (fst (settle_budget rid used d))"
  using assms by (auto simp: settle_budget_def immediate_def split: option.splits)

lemma crosses_not:
  assumes "budget_inv d" "\<not> settles_uncertain d r used" "b \<in> set (budget_buckets d)" "bucket_key b \<in> set (charged_keys d r)"
  shows "bb_consumed_tokens b + used \<le> bb_token_limit b" "used \<le> bv_reserved_tokens r"
proof -
  have "bucket_row (bucket_key b) d = Some b" using assms(1,3) by (simp add: budget_inv_def bucket_row_unique)
  with assms(2,4) show "bb_consumed_tokens b + used \<le> bb_token_limit b" "used \<le> bv_reserved_tokens r"
    by (auto simp: settles_uncertain_def list_ex_iff crosses_def)
qed

lemma settle_budget_inv: "budget_inv d \<Longrightarrow> budget_inv (snd (settle_budget rid used d))"
proof -
  assume inv: "budget_inv d"
  show ?thesis
  proof (cases "0 \<le> used \<and> (\<exists>r. reservation_row rid d = Some r \<and> bv_state r = B_active)")
    case True
    then obtain r where r: "reservation_row rid d = Some r" "bv_state r = B_active" and u: "0 \<le> used" by blast
    have "budget_inv (settle_effect d r used (if settles_uncertain d r used then B_uncertain else B_settled))"
    proof (rule settle_effect_inv [OF inv _ r(2) u])
      show "r \<in> set (budget_reservations d)" using reservation_rowD [OF r(1)] by simp
    next
      fix b assume "b \<in> set (budget_buckets d)" "bucket_key b \<in> set (charged_keys d r)"
        "(if settles_uncertain d r used then B_uncertain else B_settled) \<noteq> B_uncertain"
      with crosses_not [OF inv] have "used \<le> bv_reserved_tokens r" by (metis (full_types))
      then show "bb_consumed_tokens b + used + (bb_reserved_tokens b - bv_reserved_tokens r)
          \<le> max (bb_token_limit b) (bb_consumed_tokens b + bb_reserved_tokens b)" by simp
    qed simp
    then show ?thesis by (simp add: settle_budget_active [OF inv r u])
  next
    case False
    then have "snd (settle_budget rid used d) = d"
      using settle_budget_inactive(1) [of rid d used] by (cases "used < 0") (auto simp: settle_budget_def)
    with inv show ?thesis by simp
  qed
qed

text \<open>Releasing an active reservation gives its buckets back exactly what it held.\<close>

lemma count_bucket:
  assumes "distinct (map bucket_key (budget_buckets d))" and "b \<in> set (budget_buckets d)" and "P b"
  shows "count_where (\<lambda>x. bucket_key x = bucket_key b \<and> P x) (budget_buckets d) = 1"
proof -
  have "count_where (\<lambda>x. bucket_key x = bucket_key b \<and> P x) (budget_buckets d) \<noteq> 0"
    unfolding count_where_pos using assms by blast
  with count_key_le_1 [OF assms(1), of "bucket_key b" P] show ?thesis by simp
qed

lemma release_one:
  assumes "distinct (map bucket_key (budget_buckets d))" and "b \<in> set (budget_buckets d)" and "n \<le> bb_reserved_tokens b"
  shows "release_buckets m n (bucket_key b # ks) d = release_buckets m n ks (adjust_bucket (- n) 0 (bucket_key b) d)"
proof -
  have "\<And>x. x \<in> set (budget_buckets d) \<Longrightarrow> bucket_key x = bucket_key b \<Longrightarrow> x = b"
    using assms(1,2) by (metis distinct_map inj_onD)
  then have "update_where (\<lambda>x. bucket_key x = bucket_key b \<and> n \<le> bb_reserved_tokens x)
      (\<lambda>x. x\<lparr>bb_reserved_tokens := bb_reserved_tokens x - n\<rparr>) (budget_buckets d)
    = update_where (\<lambda>x. bucket_key x = bucket_key b)
      (\<lambda>x. x\<lparr>bb_reserved_tokens := bb_reserved_tokens x + - n, bb_consumed_tokens := bb_consumed_tokens x + 0\<rparr>) (budget_buckets d)"
    using assms(3) by (intro update_where_cong) auto
  with count_bucket [OF assms(1,2), of "\<lambda>x. n \<le> bb_reserved_tokens x"] assms(3)
  show ?thesis by (simp add: adjust_bucket_def)
qed

lemma adjust_bucket_keys [simp]:
  "map bucket_key (budget_buckets (adjust_bucket a c k d)) = map bucket_key (budget_buckets d)"
  by (simp add: adjust_bucket_def map_update_where)

lemma adjust_bucket_other:
  "b \<in> set (budget_buckets d) \<Longrightarrow> bucket_key b \<noteq> k \<Longrightarrow> b \<in> set (budget_buckets (adjust_bucket a c k d))"
  by (auto simp: adjust_bucket_def row_simps)

lemma release_two:
  assumes "distinct (map bucket_key (budget_buckets d))" and "b1 \<in> set (budget_buckets d)" "b2 \<in> set (budget_buckets d)"
    and "bucket_key b1 \<noteq> bucket_key b2" and "n \<le> bb_reserved_tokens b1" "n \<le> bb_reserved_tokens b2"
  shows "release_buckets m n [bucket_key b1, bucket_key b2] d
    = Inr (fold (adjust_bucket (- n) 0) [bucket_key b1, bucket_key b2] d)"
  using assms release_one [OF assms(1,2,5), of m "[bucket_key b2]"]
    release_one [of "adjust_bucket (- n) 0 (bucket_key b1) d" b2 n m "[]"]
  by (simp add: adjust_bucket_other)

lemma release_active:
  assumes inv: "budget_inv d" and r: "r \<in> set (budget_reservations d)" "bv_state r = B_active"
    and s: "session_row (bv_session_id r) d = Some s"
  shows "bindE (release_buckets m (bv_reserved_tokens r) (session_buckets s (bv_epoch r)) d)
           (\<lambda>d'. Inr (set_reservation B_released (bv_reservation_id r) d'))
         = Inr (settle_effect d r 0 B_released)"
proof -
  note ck = charged_keys_owner [OF s]
  obtain b1 where b1: "b1 \<in> set (budget_buckets d)" "bucket_key b1 = (''org'', ws_org_id s, bv_epoch r)"
    "bv_reserved_tokens r \<le> bb_reserved_tokens b1"
    by (rule active_covered [OF inv r, of "(''org'', ws_org_id s, bv_epoch r)"]) (simp_all add: ck session_buckets_def)
  obtain b2 where b2: "b2 \<in> set (budget_buckets d)" "bucket_key b2 = (''role'', ws_role s, bv_epoch r)"
    "bv_reserved_tokens r \<le> bb_reserved_tokens b2"
    by (rule active_covered [OF inv r, of "(''role'', ws_role s, bv_epoch r)"]) (simp_all add: ck session_buckets_def)
  have "distinct (map bucket_key (budget_buckets d))" using inv by (simp add: budget_inv_def)
  from release_two [OF this b1(1) b2(1) _ b1(3) b2(3), of m] b1(2) b2(2)
  have "release_buckets m (bv_reserved_tokens r) (session_buckets s (bv_epoch r)) d
      = Inr (fold (adjust_bucket (- bv_reserved_tokens r) 0) (session_buckets s (bv_epoch r)) d)"
    by (simp add: session_buckets_def)
  moreover have "set_reservation B_released (bv_reservation_id r)
      (fold (adjust_bucket (- bv_reserved_tokens r) 0) (session_buckets s (bv_epoch r)) d) = settle_effect d r 0 B_released"
    unfolding session_buckets_def by (subst adjust_two)
      (simp_all add: set_reservation_def settle_effect_def ck session_buckets_def)
  ultimately show ?thesis by simp
qed

lemma release_effect_inv:
  assumes "budget_inv d" and "r \<in> set (budget_reservations d)" "bv_state r = B_active"
  shows "budget_inv (settle_effect d r 0 B_released)"
proof (rule settle_effect_inv [OF assms])
  fix b assume "b \<in> set (budget_buckets d)"
  have "0 < bv_reserved_tokens r" using assms by (simp add: budget_inv_def reservations_ok_def)
  then show "bb_consumed_tokens b + 0 + (bb_reserved_tokens b - bv_reserved_tokens r)
      \<le> max (bb_token_limit b) (bb_consumed_tokens b + bb_reserved_tokens b)" by simp
qed simp_all

lemma reservation_session:
  "budget_inv d \<Longrightarrow> r \<in> set (budget_reservations d) \<Longrightarrow> \<exists>s. session_row (bv_session_id r) d = Some s"
  by (auto simp: budget_inv_def reservations_ok_def owner_def)

lemma release_budget_active:
  assumes inv: "budget_inv d" and r: "reservation_row rid d = Some r" "bv_state r = B_active"
  shows "release_budget rid d = (Inr (), settle_effect d r 0 B_released)"
proof -
  have mem: "r \<in> set (budget_reservations d)" "bv_reservation_id r = rid" using reservation_rowD [OF r(1)] by simp_all
  then obtain s where s: "session_row (bv_session_id r) d = Some s" using reservation_session [OF inv] by blast
  from release_active [OF inv mem(1) r(2) s, of "''budget bucket does not cover the reservation''"] r s mem(2)
  show ?thesis by (auto simp: release_budget_def immediate_def bindE_eq_Inr split: sum.splits)
qed

lemma release_budget_inv: "budget_inv d \<Longrightarrow> budget_inv (snd (release_budget rid d))"
proof -
  assume inv: "budget_inv d"
  show ?thesis
  proof (cases "\<exists>r. reservation_row rid d = Some r \<and> bv_state r = B_active")
    case True
    then obtain r where r: "reservation_row rid d = Some r" "bv_state r = B_active" by blast
    then show ?thesis
      using release_effect_inv [OF inv] reservation_rowD by (simp add: release_budget_active [OF inv r])
  next
    case False
    then have "snd (release_budget rid d) = d" by (auto simp: release_budget_def immediate_def split: option.splits)
    with inv show ?thesis by simp
  qed
qed

lemma release_reservation_for_inv:
  assumes inv: "budget_inv d" and ok: "release_reservation_for i d = Inr d'"
  shows "budget_inv d'" "wake_sessions d' = wake_sessions d"
    "(d' = d \<and> i \<notin> bv_session_id ` set (budget_reservations d))
     \<or> (\<exists>r\<in>set (budget_reservations d). bv_session_id r = i \<and> bv_state r = B_active \<and> d' = settle_effect d r 0 B_released)"
proof -
  have e: "(d' = d \<and> i \<notin> bv_session_id ` set (budget_reservations d))
     \<or> (\<exists>r\<in>set (budget_reservations d). bv_session_id r = i \<and> bv_state r = B_active \<and> d' = settle_effect d r 0 B_released)"
  proof (cases "find (\<lambda>r. bv_session_id r = i) (budget_reservations d)")
    case None
    then show ?thesis using ok by (simp add: release_reservation_for_def) (auto simp: find_None_iff)
  next
    case (Some r)
    then have mem: "r \<in> set (budget_reservations d)" "bv_session_id r = i" by (auto dest: find_SomeD)
    from ok Some have act: "bv_state r = B_active" by (auto simp: release_reservation_for_def split: if_splits)
    obtain s where s: "session_row (bv_session_id r) d = Some s" using reservation_session [OF inv mem(1)] by blast
    from release_active [OF inv mem(1) act s] ok Some act s mem(2) have "d' = settle_effect d r 0 B_released"
      by (simp add: release_reservation_for_def)
    with mem act show ?thesis by blast
  qed
  then show "budget_inv d'" using inv release_effect_inv by blast
  from e show "wake_sessions d' = wake_sessions d" by (auto simp: settle_effect_def)
  show "(d' = d \<and> i \<notin> bv_session_id ` set (budget_reservations d))
     \<or> (\<exists>r\<in>set (budget_reservations d). bv_session_id r = i \<and> bv_state r = B_active \<and> d' = settle_effect d r 0 B_released)"
    by (rule e)
qed

section \<open>Reserving keeps the invariant\<close>

text \<open>A missing bucket is created empty; no active reservation can be charged to it.\<close>

lemma empty_hold:
  assumes "reservations_ok d" and "k \<notin> bucket_key ` set (budget_buckets d)"
  shows "active_hold d k = 0"
proof -
  have "holds (\<lambda>st. st = B_active) k (charged_keys d) rs = 0" if "set rs \<subseteq> set (budget_reservations d)" for rs
    using that assms by (induction rs) (auto simp: reservations_ok_def)
  then show ?thesis by (simp add: active_hold_def)
qed

lemma doubtful_nonneg: "reservations_ok d \<Longrightarrow> 0 \<le> doubtful_hold d k"
  unfolding doubtful_hold_def by (rule holds_nonneg) (simp add: reservations_ok_def)

lemma hold_tables:
  assumes "wake_sessions d' = wake_sessions d" "budget_reservations d' = budget_reservations d"
  shows "active_hold d' = active_hold d" "doubtful_hold d' = doubtful_hold d"
  by (rule ext, simp add: active_hold_def doubtful_hold_def charged_keys_tables [OF assms(1)] assms(2))+

lemma insert_bucket_inv:
  assumes inv: "budget_inv d" and "0 < limit"
  shows "budget_inv (insert_bucket_or_ignore k limit d)"
proof (cases "k \<in> bucket_key ` set (budget_buckets d)")
  case True
  with inv show ?thesis by (simp add: insert_bucket_or_ignore_def list_ex_key)
next
  case False
  let ?b = "\<lparr>bb_scope = fst k, bb_subject = fst (snd k), bb_epoch = snd (snd k), bb_token_limit = limit,
          bb_consumed_tokens = 0, bb_reserved_tokens = 0\<rparr>"
  let ?d = "d\<lparr>budget_buckets := budget_buckets d @ [?b]\<rparr>"
  have e: "insert_bucket_or_ignore k limit d = ?d" using False by (simp add: insert_bucket_or_ignore_def list_ex_key)
  have kb: "bucket_key ?b = k" by (simp add: bucket_key_def)
  have t: "charged_keys ?d = charged_keys d" "owner ?d = owner d" "active_hold ?d = active_hold d" "doubtful_hold ?d = doubtful_hold d"
    using charged_keys_tables [of ?d d] owner_tables [of ?d d] hold_tables [of ?d d] by (simp_all add: fun_eq_iff)
  have rok: "reservations_ok d" using inv by (simp add: budget_inv_def)
  then have "reservations_ok ?d" unfolding reservations_ok_def t by auto
  moreover have "bucket_ok ?d ?b"
    unfolding bucket_ok_def t kb using empty_hold [OF rok False] doubtful_nonneg [OF rok, of k] assms(2) by simp
  moreover have "bucket_ok ?d b" if "bucket_ok d b" for b using that unfolding bucket_ok_def t by simp
  ultimately show ?thesis using inv False unfolding e by (auto simp: budget_inv_def kb)
qed

lemma insert_bucket_tables [simp]:
  "wake_sessions (insert_bucket_or_ignore k limit d) = wake_sessions d"
  "budget_reservations (insert_bucket_or_ignore k limit d) = budget_reservations d"
  by (simp_all add: insert_bucket_or_ignore_def)

lemma insert_bucket_mem: "b \<in> set (budget_buckets d) \<Longrightarrow> b \<in> set (budget_buckets (insert_bucket_or_ignore k limit d))"
  by (simp add: insert_bucket_or_ignore_def)

definition has_room :: "int \<Rightarrow> db \<Rightarrow> bucket_key \<Rightarrow> bool" where
  "has_room requested d k \<longleftrightarrow> (\<exists>b\<in>set (budget_buckets d). bucket_key b = k
     \<and> bb_consumed_tokens b + bb_reserved_tokens b + requested \<le> bb_token_limit b)"

definition requested_keys :: "string \<Rightarrow> (string \<times> string \<times> int) list \<Rightarrow> bucket_key list" where
  "requested_keys epoch buckets = map (\<lambda>(scope, subject, limit). (scope, subject, epoch)) buckets"

lemma check_buckets_ok:
  "check_buckets epoch n bs d = Inr d1 \<Longrightarrow> budget_inv d \<Longrightarrow>
     budget_inv d1 \<and> wake_sessions d1 = wake_sessions d \<and> budget_reservations d1 = budget_reservations d
     \<and> set (budget_buckets d) \<subseteq> set (budget_buckets d1) \<and> (\<forall>k\<in>set (requested_keys epoch bs). has_room n d1 k)"
proof (induction epoch n bs d rule: check_buckets.induct)
  case (2 epoch n scope subject limit bs d)
  let ?k = "(scope, subject, epoch)" and ?d = "insert_bucket_or_ignore (scope, subject, epoch) limit d"
  from "2.prems"(1) obtain row where lim: "0 < limit" and row: "bucket_row ?k ?d = Some row"
    and room: "bb_consumed_tokens row + bb_reserved_tokens row + n \<le> bb_token_limit row"
    and rest: "check_buckets epoch n bs ?d = Inr d1"
    by (auto simp: Let_def split: if_splits option.splits)
  have "budget_inv ?d" using insert_bucket_inv [OF "2.prems"(2) lim] .
  from "2.IH" [OF _ refl row _ _ rest this] lim row room "2.prems"(1)
  have ih: "budget_inv d1" "wake_sessions d1 = wake_sessions d" "budget_reservations d1 = budget_reservations d"
    "set (budget_buckets ?d) \<subseteq> set (budget_buckets d1)" "\<forall>k\<in>set (requested_keys epoch bs). has_room n d1 k"
    by (auto simp: Let_def split: if_splits)
  have "row \<in> set (budget_buckets ?d)" "bucket_key row = ?k" using row by (auto simp: bucket_row_def dest!: find_SomeD)
  with ih(4) room have "has_room n d1 ?k" by (auto simp: has_room_def)
  with ih insert_bucket_mem show ?case by (auto simp: requested_keys_def)
qed (simp add: requested_keys_def)

lemma hold_two:
  assumes "(s1, t1) \<noteq> (s2, t2)"
  shows "hold_buckets epoch n [(s1, t1, l1), (s2, t2, l2)] d = d\<lparr>budget_buckets :=
      update_where (\<lambda>b. bucket_key b \<in> set (requested_keys epoch [(s1, t1, l1), (s2, t2, l2)]))
       (\<lambda>b. b\<lparr>bb_reserved_tokens := bb_reserved_tokens b + n, bb_consumed_tokens := bb_consumed_tokens b + 0\<rparr>)
       (budget_buckets d)\<rparr>"
  using adjust_two [of "(s1, t1, epoch)" "(s2, t2, epoch)" n 0 d] assms by (simp add: requested_keys_def)

text \<open>The effect of a reservation on a database whose buckets have room for it.\<close>

definition hold_effect :: "db \<Rightarrow> budget_reservation \<Rightarrow> db" where
  "hold_effect d r = d\<lparr>
     budget_buckets := update_where (\<lambda>b. bucket_key b \<in> set (charged_keys d r))
       (\<lambda>b. b\<lparr>bb_reserved_tokens := bb_reserved_tokens b + bv_reserved_tokens r,
             bb_consumed_tokens := bb_consumed_tokens b + 0\<rparr>) (budget_buckets d),
     budget_reservations := budget_reservations d @ [r]\<rparr>"

lemma hold_effect_inv:
  assumes inv: "budget_inv d" and r: "bv_state r = B_active" "0 < bv_reserved_tokens r" "owner d (bv_session_id r) \<noteq> None"
    and new: "bv_reservation_id r \<notin> bv_reservation_id ` set (budget_reservations d)"
      "bv_session_id r \<notin> bv_session_id ` set (budget_reservations d)"
    and room: "\<forall>k\<in>set (charged_keys d r). has_room (bv_reserved_tokens r) d k"
  shows "budget_inv (hold_effect d r)"
proof -
  let ?d = "hold_effect d r" and ?ks = "set (charged_keys d r)"
  have k: "charged_keys ?d = charged_keys d" "owner ?d = owner d"
    by (rule charged_keys_tables, simp add: hold_effect_def) (rule ext, rule owner_tables, simp add: hold_effect_def)
  have bk: "map bucket_key (budget_buckets ?d) = map bucket_key (budget_buckets d)"
    by (simp add: hold_effect_def map_update_where)
  then have bs: "bucket_key ` set (budget_buckets ?d) = bucket_key ` set (budget_buckets d)" by (metis set_map)
  have keys: "?ks \<subseteq> bucket_key ` set (budget_buckets d)" using room unfolding has_room_def by (metis imageI subsetI)
  have "reservations_ok d" using inv by (simp add: budget_inv_def)
  then have rok: "reservations_ok ?d"
    unfolding reservations_ok_def k bs using r new keys by (auto simp: hold_effect_def)
  have act: "active_hold ?d key = active_hold d key + (if key \<in> ?ks then bv_reserved_tokens r else 0)"
    and dbt: "doubtful_hold ?d key = doubtful_hold d key + (if key \<in> ?ks then bv_reserved_tokens r else 0)" for key
    unfolding active_hold_def doubtful_hold_def k using r(1) by (simp_all add: hold_effect_def)
  have "bucket_ok ?d b'" if "b' \<in> set (budget_buckets ?d)" for b'
  proof -
    from that obtain b where b: "b \<in> set (budget_buckets d)" and b': "b' = (if bucket_key b \<in> ?ks
        then b\<lparr>bb_reserved_tokens := bb_reserved_tokens b + bv_reserved_tokens r,
              bb_consumed_tokens := bb_consumed_tokens b + 0\<rparr> else b)"
      by (auto simp: hold_effect_def row_simps)
    have ok: "bucket_ok d b" using inv b by (simp add: budget_inv_def)
    have kept: "set (budget_reservations d) \<subseteq> set (budget_reservations ?d)" by (auto simp: hold_effect_def)
    show ?thesis
    proof (cases "bucket_key b \<in> ?ks")
      case True
      then obtain c where c: "c \<in> set (budget_buckets d)" "bucket_key c = bucket_key b"
        "bb_consumed_tokens c + bb_reserved_tokens c + bv_reserved_tokens r \<le> bb_token_limit c"
        using room by (auto simp: has_room_def)
      with b inv have "c = b" by (metis budget_inv_def distinct_map inj_onD)
      with True b' ok c(3) act [of "bucket_key b"] dbt [of "bucket_key b"] show ?thesis
        unfolding bucket_ok_def k by auto
    next
      case False
      with ok b' kept act [of "bucket_key b"] dbt [of "bucket_key b"] show ?thesis
        unfolding bucket_ok_def k by auto
    qed
  qed
  then show ?thesis using inv rok bk by (simp add: budget_inv_def)
qed

lemma reserve_budget_Inr:
  assumes "reserve_budget now u i epoch n buckets d = (Inr rid, d')"
  obtains s d1 where "rid = u" "0 < n" "s \<in> set (wake_sessions d)" "ws_session_id s = i" "active_session s"
    "utcnow now < ws_expires_at s" "length buckets = 2" "distinct (bucket_names buckets)"
    "set (bucket_names buckets) = {(''org'', ws_org_id s), (''role'', ws_role s)}"
    "check_buckets epoch n buckets d = Inr d1"
    "insert_reservation \<lparr>bv_reservation_id = u, bv_session_id = i, bv_epoch = epoch,
       bv_reserved_tokens = n, bv_state = B_active\<rparr> (hold_buckets epoch n buckets d1) = Inr d'"
proof (cases "n \<le> 0")
  case False
  with assms show thesis
    unfolding reserve_budget_def
    by (simp add: immediate_Inr split: option.split_asm if_split_asm sum.split_asm)
      (auto simp: bindE_eq_Inr dest!: find_SomeD intro: that)
qed (use assms in \<open>simp add: reserve_budget_def\<close>)

lemma insert_reservation_Inr:
  "insert_reservation r d = Inr d' \<longleftrightarrow> bv_reservation_id r \<notin> bv_reservation_id ` set (budget_reservations d)
     \<and> bv_session_id r \<notin> bv_session_id ` set (budget_reservations d)
     \<and> bv_session_id r \<in> ws_session_id ` set (wake_sessions d)
     \<and> d' = d\<lparr>budget_reservations := budget_reservations d @ [r]\<rparr>"
  unfolding insert_reservation_def list_ex_key by auto

lemma requested_keys_names:
  "set (requested_keys epoch buckets) = (\<lambda>(scope, subject). (scope, subject, epoch)) ` set (bucket_names buckets)"
  by (force simp: requested_keys_def bucket_names_def)

lemma two_buckets:
  assumes "length bs = 2"
  obtains s1 t1 l1 s2 t2 l2 where "bs = [(s1, t1, l1), (s2, t2, l2)]"
  using assms by (auto simp: numeral_2_eq_2 length_Suc_conv)

text \<open>A successful reservation is the hold on the database in which its buckets exist.\<close>

lemma reserve_budget_effect:
  assumes inv: "budget_inv d" and keys: "session_keys_ok d"
    and res: "reserve_budget now u i epoch n buckets d = (Inr rid, d')"
  obtains d1 r where "check_buckets epoch n buckets d = Inr d1" "budget_inv d1"
    "bv_reservation_id r = rid" "bv_session_id r = i" "bv_epoch r = epoch" "bv_reserved_tokens r = n" "bv_state r = B_active"
    "d' = hold_effect d1 r" "budget_inv d'" "set (charged_keys d1 r) = set (requested_keys epoch buckets)"
    "wake_sessions d' = wake_sessions d" "budget_reservations d' = budget_reservations d @ [r]" "owner d i \<noteq> None"
proof -
  from res obtain s d1 where rid: "rid = u" and n: "0 < n" and s: "s \<in> set (wake_sessions d)" "ws_session_id s = i"
    and two: "length buckets = 2" "distinct (bucket_names buckets)"
    and names: "set (bucket_names buckets) = {(''org'', ws_org_id s), (''role'', ws_role s)}"
    and chk: "check_buckets epoch n buckets d = Inr d1"
    and ins: "insert_reservation \<lparr>bv_reservation_id = u, bv_session_id = i, bv_epoch = epoch,
       bv_reserved_tokens = n, bv_state = B_active\<rparr> (hold_buckets epoch n buckets d1) = Inr d'"
    by (rule reserve_budget_Inr) blast
  let ?r = "\<lparr>bv_reservation_id = u, bv_session_id = i, bv_epoch = epoch, bv_reserved_tokens = n, bv_state = B_active\<rparr>"
  note c = check_buckets_ok [OF chk inv]
  have row: "session_row i d = Some s"
    using keys s session_table.find_unique [of d s] by (simp add: session_keys_ok_def session_row_def)
  then have row1: "session_row i d1 = Some s" using c by (simp add: session_row_def)
  have ck: "set (charged_keys d1 ?r) = set (requested_keys epoch buckets)"
    using charged_keys_owner [of ?r d1 s] row1 by (simp add: requested_keys_names names session_buckets_def)
  obtain s1 t1 l1 s2 t2 l2 where bs: "buckets = [(s1, t1, l1), (s2, t2, l2)]" using two_buckets [OF two(1)] .
  have "hold_buckets epoch n buckets d1 = d1\<lparr>budget_buckets := update_where (\<lambda>b. bucket_key b \<in> set (charged_keys d1 ?r))
       (\<lambda>b. b\<lparr>bb_reserved_tokens := bb_reserved_tokens b + n, bb_consumed_tokens := bb_consumed_tokens b + 0\<rparr>)
       (budget_buckets d1)\<rparr>"
    unfolding ck bs using two(2) by (intro hold_two) (simp add: bs bucket_names_def)
  with ins have d': "d' = hold_effect d1 ?r"
    and new: "u \<notin> bv_reservation_id ` set (budget_reservations d1)" "i \<notin> bv_session_id ` set (budget_reservations d1)"
    by (simp_all add: insert_reservation_Inr hold_effect_def)
  have own: "owner d1 i \<noteq> None" using row1 by (simp add: owner_def)
  have "budget_inv (hold_effect d1 ?r)"
    using c n own new ck by (intro hold_effect_inv) simp_all
  then show thesis using that [OF chk, of ?r] rid d' c ck row by (simp add: hold_effect_def owner_def)
qed

lemma reserve_budget_Inl: "reserve_budget now u i epoch n buckets d = (Inl e, d') \<Longrightarrow> d' = d"
  by (auto simp: reserve_budget_def immediate_Inl split: if_splits)

lemma reserve_budget_inv:
  "budget_inv d \<Longrightarrow> session_keys_ok d \<Longrightarrow> budget_inv (snd (reserve_budget now u i epoch n buckets d))"
proof (cases "reserve_budget now u i epoch n buckets d")
  case (Pair r d')
  assume inv: "budget_inv d" "session_keys_ok d"
  show ?thesis
  proof (cases r)
    case (Inr rid)
    with Pair have "reserve_budget now u i epoch n buckets d = (Inr rid, d')" by simp
    from reserve_budget_effect [OF inv this] Pair show ?thesis by auto
  qed (use Pair inv reserve_budget_Inl [of now u i epoch n buckets d _ d'] in auto)
qed

end
