(* ===== verification/Events.thy ===== *)
theory Events
  imports Tables
begin

text \<open>
  \<^verbatim>\<open>control/sjg_control/store.py\<close>, source snapshots and routing of events: \<open>checkpoint\<close>,
  \<open>begin_snapshot\<close>, \<open>stage_observation\<close>, \<open>finish_snapshot\<close>, \<open>unrouted_events\<close>,
  \<open>finish_event_routing\<close>, \<open>add_route\<close>, \<open>pending_routes\<close>, and the key-value table of the
  supervisor (\<open>supervisor_value\<close>, \<open>set_supervisor_value\<close>). \<open>uuid5\<close> is the name-based UUID in the URL
  namespace.
\<close>

section \<open>Checkpoints and snapshots\<close>

definition checkpoint_row :: "string \<Rightarrow> db \<Rightarrow> source_checkpoint option" where
  "checkpoint_row source_id d = find (\<lambda>r. sc_source_id r = source_id) (source_checkpoints d)"

definition checkpoint :: "string \<Rightarrow> string \<Rightarrow> db \<Rightarrow> source_checkpoint option \<times> db" where
  "checkpoint source_id initial_watermark d =
     (let d' = (if list_ex (\<lambda>r. sc_source_id r = source_id) (source_checkpoints d) then d
                else d\<lparr>source_checkpoints := source_checkpoints d @
                  [\<lparr>sc_source_id = source_id, sc_watermark = initial_watermark, sc_overlap_seconds = 300,
                    sc_query_fingerprint = None, sc_etag = None, sc_last_complete_snapshot_id = None\<rparr>]\<rparr>) in
      (checkpoint_row source_id d', d'))"

definition snapshot_row :: "string \<Rightarrow> db \<Rightarrow> source_snapshot option" where
  "snapshot_row snapshot_id d = find (\<lambda>r. ss_snapshot_id r = snapshot_id) (source_snapshots d)"

definition begin_snapshot :: "instant \<Rightarrow> string \<Rightarrow> string \<Rightarrow> string op" where
  "begin_snapshot now uuid source_id d =
     (if list_ex (\<lambda>r. ss_snapshot_id r = uuid) (source_snapshots d)
      then (Inl (unique_failed ''source_snapshot.snapshot_id''), d)
      else (Inr uuid, d\<lparr>source_snapshots := source_snapshots d @
        [\<lparr>ss_snapshot_id = uuid, ss_source_id = source_id, ss_state = N_collecting, ss_started_at = utcnow now,
          ss_completed_at = None, ss_page_count = 0, ss_maximum_event_time = None, ss_error_detail = None\<rparr>]\<rparr>))"

definition event_name :: "string \<Rightarrow> string \<Rightarrow> string \<Rightarrow> string" where
  "event_name source_id external_id version_key = source_id @ '':'' @ external_id @ '':'' @ version_key"

definition stage_observation ::
  "(string \<Rightarrow> string) \<Rightarrow> string \<Rightarrow> string \<Rightarrow> string \<Rightarrow> string \<Rightarrow> string \<Rightarrow> json \<Rightarrow> bool op" where
  "stage_observation uuid5 snapshot_id source_id external_id version_key occurred_at payload d =
     (case snapshot_row snapshot_id d of
        None \<Rightarrow> (Inl (StateError ''observation requires a collecting snapshot''), d)
      | Some s \<Rightarrow>
          if ss_state s \<noteq> N_collecting then (Inl (StateError ''observation requires a collecting snapshot''), d)
          else if ss_source_id s \<noteq> source_id
          then (Inl (StateError ''observation source does not match its snapshot''), d)
          else let event_id = uuid5 (event_name source_id external_id version_key) in
            if list_ex (\<lambda>r. se_snapshot_id r = snapshot_id \<and> se_event_id r = event_id) (snapshot_events d)
            then (Inr False, d)
            else (Inr True, d\<lparr>snapshot_events := snapshot_events d @
              [\<lparr>se_snapshot_id = snapshot_id, se_event_id = event_id, se_source_id = source_id,
                se_external_id = external_id, se_version_key = version_key, se_occurred_at = occurred_at,
                se_payload = payload\<rparr>]\<rparr>))"

text \<open>\<open>INSERT OR IGNORE\<close> of one staged event: it is ignored when its id or its source identity is
  already observed.\<close>

definition observe_event :: "snapshot_event \<Rightarrow> observed_event list \<Rightarrow> observed_event list" where
  "observe_event e os =
     (if list_ex (\<lambda>x. oe_event_id x = se_event_id e
          \<or> (oe_source_id x = se_source_id e \<and> oe_external_id x = se_external_id e \<and> oe_version_key x = se_version_key e)) os
      then os
      else os @ [\<lparr>oe_event_id = se_event_id e, oe_source_id = se_source_id e, oe_external_id = se_external_id e,
                  oe_version_key = se_version_key e, oe_occurred_at = se_occurred_at e, oe_payload = se_payload e,
                  oe_enrichment_state = E_pending\<rparr>])"

definition publish_events :: "string \<Rightarrow> db \<Rightarrow> observed_event list" where
  "publish_events snapshot_id d =
     fold observe_event (filter (\<lambda>e. se_snapshot_id e = snapshot_id) (snapshot_events d)) (observed_events d)"

definition close_snapshot ::
  "string \<Rightarrow> snapshot_state \<Rightarrow> string \<Rightarrow> int \<Rightarrow> string option \<Rightarrow> string option \<Rightarrow> db \<Rightarrow> db" where
  "close_snapshot snapshot_id st now page_count maximum_event_time error d =
     d\<lparr>source_snapshots := update_where (\<lambda>r. ss_snapshot_id r = snapshot_id)
        (\<lambda>r. r\<lparr>ss_state := st, ss_completed_at := Some now, ss_page_count := page_count,
              ss_maximum_event_time := maximum_event_time, ss_error_detail := error\<rparr>) (source_snapshots d)\<rparr>"

definition finish_snapshot ::
  "instant \<Rightarrow> string \<Rightarrow> bool \<Rightarrow> int \<Rightarrow> string option \<Rightarrow> string option \<Rightarrow> string option \<Rightarrow> string option \<Rightarrow> string option
     \<Rightarrow> nat op" where
  "finish_snapshot now snapshot_id complete page_count maximum_event_time next_watermark query_fingerprint etag error =
     immediate (\<lambda>d.
       case snapshot_row snapshot_id d of
         None \<Rightarrow> (Inl (StateError ''unknown source snapshot''), d)
       | Some row \<Rightarrow>
           if ss_state row \<noteq> N_collecting then (Inl (StateError ''source snapshot is already finalized''), d)
           else if complete then
             (case next_watermark of
                None \<Rightarrow> (Inl (StateError ''complete snapshot requires a next watermark''), d)
              | Some w \<Rightarrow>
                  let os = publish_events snapshot_id d;
                      published = length os - length (observed_events d);
                      P = (\<lambda>r. sc_source_id r = ss_source_id row);
                      d1 = d\<lparr>observed_events := os,
                             source_checkpoints := update_where P (\<lambda>r. r\<lparr>sc_watermark := w,
                               sc_query_fingerprint := query_fingerprint, sc_etag := etag,
                               sc_last_complete_snapshot_id := Some snapshot_id\<rparr>) (source_checkpoints d)\<rparr> in
                  if count_where P (source_checkpoints d) \<noteq> 1
                  then (Inl (StateError ''complete snapshot has no source checkpoint''), d1)
                  else (Inr published, close_snapshot snapshot_id N_complete (utcnow now) page_count
                          maximum_event_time error d1))
           else (Inr 0, close_snapshot snapshot_id N_incomplete (utcnow now) page_count maximum_event_time error d))"

section \<open>Routing\<close>

definition unrouted_events :: "int \<Rightarrow> db \<Rightarrow> observed_event list result" where
  "unrouted_events limit d =
     (if \<not> (1 \<le> limit \<and> limit \<le> 5000) then Inl (StateError ''event routing batch limit is invalid'')
      else Inr (take (nat limit) (sort_key (\<lambda>r. (oe_occurred_at r, oe_event_id r))
             (filter (\<lambda>r. oe_enrichment_state r = E_pending) (observed_events d)))))"

definition insert_route :: "string \<Rightarrow> string \<Rightarrow> db \<Rightarrow> db result" where
  "insert_route event_id role d =
     (if list_ex (\<lambda>r. rt_event_id r = event_id \<and> rt_role r = role) (route_targets d)
      then Inl (unique_failed ''route_target.event_id, route_target.role'')
      else if \<not> list_ex (\<lambda>r. oe_event_id r = event_id) (observed_events d) then Inl foreign_failed
      else Inr (d\<lparr>route_targets := route_targets d @
        [\<lparr>rt_event_id = event_id, rt_role = role, rt_state = T_pending, rt_delivery_id = None\<rparr>]\<rparr>))"

definition finish_event_routing :: "string \<Rightarrow> string option \<Rightarrow> unit op" where
  "finish_event_routing event_id role = immediate (\<lambda>d.
     case find (\<lambda>r. oe_event_id r = event_id) (observed_events d) of
       None \<Rightarrow> (Inl (StateError ''event is absent or already routed''), d)
     | Some row \<Rightarrow>
         if oe_enrichment_state row \<noteq> E_pending then (Inl (StateError ''event is absent or already routed''), d)
         else (case (case role of None \<Rightarrow> Inr d | Some r \<Rightarrow> insert_route event_id r d) of
                 Inl e \<Rightarrow> (Inl e, d)
               | Inr d1 \<Rightarrow>
                   (Inr (), d1\<lparr>observed_events := update_where (\<lambda>r. oe_event_id r = event_id)
                      (\<lambda>r. r\<lparr>oe_enrichment_state := (if role = None then E_ignored else E_routed)\<rparr>)
                      (observed_events d1)\<rparr>)))"

text \<open>\<open>INSERT OR IGNORE\<close> keeps an existing route; an unknown event violates the foreign key.\<close>

definition add_route :: "string \<Rightarrow> string \<Rightarrow> unit op" where
  "add_route event_id role d =
     (case insert_route event_id role d of
        Inr d' \<Rightarrow> (Inr (), d')
      | Inl e \<Rightarrow>
          if list_ex (\<lambda>r. rt_event_id r = event_id \<and> rt_role r = role) (route_targets d) then (Inr (), d)
          else (Inl (StateError ''route references an unknown observed event''), d))"

definition pending_routes :: "string \<Rightarrow> int \<Rightarrow> db \<Rightarrow> (string \<times> string \<times> string) list result" where
  "pending_routes role limit d =
     (if role = [] \<or> \<not> (1 \<le> limit \<and> limit \<le> 5000)
      then Inl (StateError ''pending-route batch limit is invalid'')
      else Inr (take (nat limit) (sort_key (\<lambda>(e, r, t). (t, e))
             [(rt_event_id rt, rt_role rt, oe_occurred_at oe).
                rt \<leftarrow> route_targets d, oe \<leftarrow> observed_events d,
                oe_event_id oe = rt_event_id rt, rt_state rt = T_pending, rt_delivery_id rt = None, rt_role rt = role])))"

section \<open>Supervisor values\<close>

definition supervisor_value :: "string \<Rightarrow> json \<Rightarrow> db \<Rightarrow> json" where
  "supervisor_value key fallback d =
     (case find (\<lambda>r. sv_key r = key) (supervisor_values d) of None \<Rightarrow> fallback | Some r \<Rightarrow> sv_value r)"

definition set_supervisor_value :: "instant \<Rightarrow> string \<Rightarrow> json \<Rightarrow> unit op" where
  "set_supervisor_value now key v d =
     (if key = [] \<or> text_len key > 100 then (Inl (StateError ''supervisor-state key is invalid''), d)
      else if list_ex (\<lambda>r. sv_key r = key) (supervisor_values d)
      then (Inr (), d\<lparr>supervisor_values := update_where (\<lambda>r. sv_key r = key)
              (\<lambda>r. r\<lparr>sv_value := v, sv_updated_at := utcnow now\<rparr>) (supervisor_values d)\<rparr>)
      else (Inr (), d\<lparr>supervisor_values := supervisor_values d
              @ [\<lparr>sv_key = key, sv_value = v, sv_updated_at = utcnow now\<rparr>]\<rparr>))"

section \<open>Publication of a snapshot\<close>

text \<open>Publishing only appends events, and keeps ids and source identities unique.\<close>

lemma observe_event_prefix: "\<exists>zs. observe_event e os = os @ zs"
  by (auto simp: observe_event_def)

lemma fold_observe_prefix: "\<exists>zs. fold observe_event es os = os @ zs"
proof (induction es arbitrary: os)
  case (Cons e es)
  from observe_event_prefix [of e os] Cons.IH [of "observe_event e os"] show ?case by (auto simp: fold_def)
qed simp

definition source_identity :: "observed_event \<Rightarrow> string \<times> string \<times> string" where
  "source_identity x = (oe_source_id x, oe_external_id x, oe_version_key x)"

definition events_unique :: "observed_event list \<Rightarrow> bool" where
  "events_unique os \<longleftrightarrow> distinct (map oe_event_id os) \<and> distinct (map source_identity os)"

lemma observe_event_unique: "events_unique os \<Longrightarrow> events_unique (observe_event e os)"
  by (auto simp: events_unique_def observe_event_def source_identity_def list_ex_iff image_iff)

lemma fold_observe_unique: "events_unique os \<Longrightarrow> events_unique (fold observe_event es os)"
  by (induction es arbitrary: os) (simp_all add: observe_event_unique)

text \<open>Every staged event of a published snapshot is observed afterwards, by its id or by its
  source identity.\<close>

definition observes :: "observed_event list \<Rightarrow> snapshot_event \<Rightarrow> bool" where
  "observes os e \<longleftrightarrow> (\<exists>x\<in>set os. oe_event_id x = se_event_id e
     \<or> source_identity x = (se_source_id e, se_external_id e, se_version_key e))"

lemma observe_event_observes: "observes (observe_event e os) e"
  by (auto simp: observes_def observe_event_def source_identity_def list_ex_iff)

lemma observes_append: "observes os e \<Longrightarrow> observes (os @ zs) e"
  by (auto simp: observes_def)

lemma fold_observes: "e \<in> set es \<Longrightarrow> observes (fold observe_event es os) e"
proof (induction es arbitrary: os)
  case (Cons x es)
  show ?case
  proof (cases "e \<in> set es")
    case True
    with Cons.IH show ?thesis by simp
  next
    case False
    with Cons.prems have "e = x" by simp
    moreover obtain zs where "fold observe_event es (observe_event x os) = observe_event x os @ zs"
      using fold_observe_prefix by blast
    ultimately show ?thesis using observes_append [OF observe_event_observes] by simp
  qed
qed simp

lemma finish_snapshot_complete:
  assumes "finish_snapshot now sid True pc mx nw qf et er d = (Inr n, d')"
  obtains row w where "snapshot_row sid d = Some row" "ss_state row = N_collecting" "nw = Some w"
    "observed_events d' = publish_events sid d" "n = length (observed_events d') - length (observed_events d)"
    "count_where (\<lambda>r. sc_source_id r = ss_source_id row) (source_checkpoints d) = 1"
    "source_checkpoints d' = update_where (\<lambda>r. sc_source_id r = ss_source_id row) (\<lambda>r. r\<lparr>sc_watermark := w,
       sc_query_fingerprint := qf, sc_etag := et, sc_last_complete_snapshot_id := Some sid\<rparr>) (source_checkpoints d)"
  using assms unfolding finish_snapshot_def immediate_Inr
  by (auto simp: Let_def close_snapshot_def split: option.split_asm if_split_asm)

lemma finish_snapshot_incomplete:
  assumes "finish_snapshot now sid False pc mx nw qf et er d = (r, d')"
  shows "observed_events d' = observed_events d" "source_checkpoints d' = source_checkpoints d"
  using assms unfolding finish_snapshot_def immediate_def
  by (auto simp: close_snapshot_def split: option.split_asm if_split_asm)

lemma finish_snapshot_error: "finish_snapshot now sid c pc mx nw qf et er d = (Inl e, d') \<Longrightarrow> d' = d"
  by (simp add: finish_snapshot_def immediate_Inl)

end
