(* ===== verification/Deliveries.thy ===== *)
theory Deliveries
  imports Events
begin

text \<open>
  \<^verbatim>\<open>control/sjg_control/store.py\<close>, deliveries of routed events: \<open>enqueue_delivery\<close>,
  \<open>lease_delivery\<close>, \<open>start_delivery\<close>, \<open>finish_delivery\<close>, \<open>release_budget_hold\<close>,
  \<open>force_delivery_uncertain\<close>, \<open>_retry_leased_delivery\<close> and \<open>delivery_events\<close>.
\<close>

definition text_or :: "string option \<Rightarrow> string \<Rightarrow> string" where
  "text_or v fallback = (case v of Some t \<Rightarrow> (if t = [] then fallback else t) | None \<Rightarrow> fallback)"

definition delivery_row :: "string \<Rightarrow> db \<Rightarrow> delivery option" where
  "delivery_row delivery_id d = find (\<lambda>r. dv_delivery_id r = delivery_id) (deliveries d)"

definition route_row :: "string \<Rightarrow> string \<Rightarrow> db \<Rightarrow> route_target option" where
  "route_row event_id role d = find (\<lambda>r. rt_event_id r = event_id \<and> rt_role r = role) (route_targets d)"

text \<open>\<open>UPDATE delivery SET ... WHERE delivery_id=?\<close> and
  \<open>UPDATE route_target SET state=? WHERE delivery_id=?\<close>.\<close>

definition set_delivery :: "(delivery \<Rightarrow> delivery) \<Rightarrow> string \<Rightarrow> db \<Rightarrow> db" where
  "set_delivery f delivery_id d =
     d\<lparr>deliveries := update_where (\<lambda>r. dv_delivery_id r = delivery_id) f (deliveries d)\<rparr>"

definition set_routes :: "route_state \<Rightarrow> string \<Rightarrow> db \<Rightarrow> db" where
  "set_routes st delivery_id d =
     d\<lparr>route_targets := update_where (\<lambda>r. rt_delivery_id r = Some delivery_id)
        (\<lambda>r. r\<lparr>rt_state := st\<rparr>) (route_targets d)\<rparr>"

section \<open>Enqueueing\<close>

definition assignable :: "string \<Rightarrow> db \<Rightarrow> string \<Rightarrow> bool" where
  "assignable role d event_id =
     (case route_row event_id role d of
        None \<Rightarrow> False | Some r \<Rightarrow> rt_state r = T_pending \<and> rt_delivery_id r = None)"

definition bound_events :: "string \<Rightarrow> db \<Rightarrow> string list" where
  "bound_events delivery_id d =
     sort (map de_event_id (filter (\<lambda>r. de_delivery_id r = delivery_id) (delivery_events d)))"

fun bind_events :: "string \<Rightarrow> string \<Rightarrow> string list \<Rightarrow> db \<Rightarrow> db result" where
  "bind_events delivery_id role [] d = Inr d"
| "bind_events delivery_id role (event_id # es) d =
     (let row = \<lparr>de_delivery_id = delivery_id, de_event_id = event_id, de_role = role\<rparr> in
      if list_ex (\<lambda>r. r = row) (delivery_events d)
      then Inl (unique_failed ''delivery_event.delivery_id, delivery_event.event_id, delivery_event.role'')
      else if \<not> list_ex (\<lambda>r. oe_event_id r = event_id) (observed_events d) then Inl foreign_failed
      else bind_events delivery_id role es
        (d\<lparr>delivery_events := delivery_events d @ [row],
           route_targets := update_where (\<lambda>r. rt_event_id r = event_id \<and> rt_role r = role)
             (\<lambda>r. r\<lparr>rt_state := T_queued, rt_delivery_id := Some delivery_id\<rparr>) (route_targets d)\<rparr>))"

definition new_delivery :: "string \<Rightarrow> string \<Rightarrow> string \<Rightarrow> string \<Rightarrow> delivery" where
  "new_delivery delivery_id idempotency_key role eligible_at =
     \<lparr>dv_delivery_id = delivery_id, dv_idempotency_key = idempotency_key, dv_role = role, dv_state = D_queued,
      dv_attempt = 0, dv_eligible_at = eligible_at, dv_lease_owner = None, dv_lease_until = None, dv_last_error = None\<rparr>"

definition enqueue_delivery ::
  "instant \<Rightarrow> string \<Rightarrow> string \<Rightarrow> string list \<Rightarrow> string \<Rightarrow> string option \<Rightarrow> string op" where
  "enqueue_delivery now uuid role event_ids idempotency_key eligible_at d =
     (let unique = sort (remdups event_ids) in
      if role = [] \<or> unique = [] \<or> idempotency_key = []
      then (Inl (StateError ''delivery requires a role, events, and idempotency key''), d)
      else immediate (\<lambda>d.
        case find (\<lambda>r. dv_idempotency_key r = idempotency_key) (deliveries d) of
          Some existing \<Rightarrow>
            if dv_role existing \<noteq> role
            then (Inl (StateError ''delivery idempotency key is bound to another role''), d)
            else if bound_events (dv_delivery_id existing) d \<noteq> unique
            then (Inl (StateError ''delivery idempotency key is bound to different events''), d)
            else (Inr (dv_delivery_id existing), d)
        | None \<Rightarrow>
            if \<not> list_all (assignable role d) unique
            then (Inl (StateError ''route is absent or already assigned''), d)
            else if list_ex (\<lambda>r. dv_delivery_id r = uuid) (deliveries d)
            then (Inl (unique_failed ''delivery.delivery_id''), d)
            else (case bind_events uuid role unique
                     (d\<lparr>deliveries := deliveries d @ [new_delivery uuid idempotency_key role (text_or eligible_at (utcnow now))]\<rparr>) of
                    Inl e \<Rightarrow> (Inl e, d) | Inr d' \<Rightarrow> (Inr uuid, d'))) d)"

definition delivery_events_of :: "string \<Rightarrow> db \<Rightarrow> observed_event list" where
  "delivery_events_of delivery_id d =
     sort_key (\<lambda>e. (oe_occurred_at e, oe_event_id e))
       [oe. de \<leftarrow> delivery_events d, oe \<leftarrow> observed_events d, oe_event_id oe = de_event_id de, de_delivery_id de = delivery_id]"

section \<open>Leasing\<close>

definition quarantine :: "string \<Rightarrow> db \<Rightarrow> db" where
  "quarantine delivery_id d =
     set_routes T_manual_review delivery_id
       (set_delivery (\<lambda>r. r\<lparr>dv_state := D_uncertain, dv_last_error := Some ''running lease expired'',
          dv_lease_owner := None, dv_lease_until := None\<rparr>) delivery_id d)"

definition exhaust :: "string \<Rightarrow> db \<Rightarrow> db" where
  "exhaust delivery_id d =
     set_routes T_dead_letter delivery_id
       (set_delivery (\<lambda>r. r\<lparr>dv_state := D_dead_letter, dv_last_error := Some ''retry ceiling reached''\<rparr>) delivery_id d)"

definition waiting :: "delivery \<Rightarrow> bool" where
  "waiting r \<longleftrightarrow> dv_state r = D_queued \<or> dv_state r = D_retry_wait"

definition expire_running :: "string \<Rightarrow> db \<Rightarrow> db" where
  "expire_running timestamp d =
     fold quarantine (map dv_delivery_id
       (filter (\<lambda>r. dv_state r = D_running \<and> null_le (dv_lease_until r) timestamp) (deliveries d))) d"

definition expire_leases :: "string \<Rightarrow> db \<Rightarrow> db" where
  "expire_leases timestamp d =
     d\<lparr>deliveries := update_where (\<lambda>r. dv_state r = D_leased \<and> null_le (dv_lease_until r) timestamp)
        (\<lambda>r. r\<lparr>dv_state := D_retry_wait, dv_last_error := Some ''lease expired'', dv_lease_owner := None,
              dv_lease_until := None\<rparr>) (deliveries d)\<rparr>"

definition exhaust_waiting :: "int \<Rightarrow> db \<Rightarrow> db" where
  "exhaust_waiting max_attempts d =
     fold exhaust (map dv_delivery_id (filter (\<lambda>r. waiting r \<and> dv_attempt r \<ge> max_attempts) (deliveries d))) d"

definition eligible_deliveries :: "string \<Rightarrow> db \<Rightarrow> delivery list" where
  "eligible_deliveries timestamp d =
     sort_key (\<lambda>r. (dv_eligible_at r, dv_delivery_id r))
       (filter (\<lambda>r. waiting r \<and> dv_eligible_at r \<le> timestamp) (deliveries d))"

definition take_lease :: "string \<Rightarrow> string \<Rightarrow> string \<Rightarrow> db \<Rightarrow> db" where
  "take_lease lease_owner lease_until delivery_id d =
     set_routes T_leased delivery_id
       (d\<lparr>deliveries := update_where (\<lambda>r. dv_delivery_id r = delivery_id \<and> waiting r)
          (\<lambda>r. r\<lparr>dv_state := D_leased, dv_attempt := dv_attempt r + 1, dv_lease_owner := Some lease_owner,
                dv_lease_until := Some lease_until\<rparr>) (deliveries d)\<rparr>)"

text \<open>\<open>instant\<close> is the time that \<open>now or utcnow()\<close> denotes.\<close>

definition lease_delivery :: "instant \<Rightarrow> string \<Rightarrow> int \<Rightarrow> int \<Rightarrow> delivery option op" where
  "lease_delivery instant lease_owner lease_seconds max_attempts d =
     (if lease_owner = [] \<or> lease_seconds \<le> 0 \<or> max_attempts \<le> 0
      then (Inl (StateError ''delivery lease requires an owner and positive limits''), d)
      else let timestamp = utc_text instant; lease_until = utc_text (instant + lease_seconds * second) in
      immediate (\<lambda>d.
        let d1 = exhaust_waiting max_attempts (expire_leases timestamp (expire_running timestamp d)) in
        case eligible_deliveries timestamp d1 of
          [] \<Rightarrow> (Inr None, d1)
        | row # _ \<Rightarrow>
            if count_where (\<lambda>r. dv_delivery_id r = dv_delivery_id row \<and> waiting r) (deliveries d1) \<noteq> 1
            then (Inl (StateError ''delivery lease race''), d1)
            else let d2 = take_lease lease_owner lease_until (dv_delivery_id row) d1 in
              (Inr (delivery_row (dv_delivery_id row) d2), d2)) d)"

section \<open>Running and finishing\<close>

definition start_delivery :: "string \<Rightarrow> string \<Rightarrow> string \<Rightarrow> unit op" where
  "start_delivery timestamp delivery_id lease_owner d =
     (let P = (\<lambda>r. dv_delivery_id r = delivery_id \<and> dv_state r = D_leased \<and> dv_lease_owner r = Some lease_owner
                 \<and> null_gt (dv_lease_until r) timestamp);
          d' = d\<lparr>deliveries := update_where P (\<lambda>r. r\<lparr>dv_state := D_running\<rparr>) (deliveries d)\<rparr> in
      if count_where P (deliveries d) \<noteq> 1
      then (Inl (StateError ''delivery lease is absent, expired, or owned elsewhere''), d')
      else (Inr (), d'))"

definition delivery_targets :: "string \<Rightarrow> (delivery_state \<times> route_state) option" where
  "delivery_targets = map_of
     [(''succeeded'', (D_succeeded, T_delivered)), (''retry'', (D_retry_wait, T_queued)),
      (''budget_hold'', (D_budget_hold, T_queued)), (''dead_letter'', (D_dead_letter, T_dead_letter)),
      (''uncertain'', (D_uncertain, T_manual_review))]"

definition allowed_outcomes :: "delivery_state \<Rightarrow> string set" where
  "allowed_outcomes st = (if st = D_leased then {''retry'', ''budget_hold'', ''dead_letter'', ''uncertain''}
                          else {''succeeded'', ''dead_letter'', ''uncertain''})"

definition held_text :: "delivery_state \<Rightarrow> string" where
  "held_text st = (if st = D_leased then ''leased'' else ''running'')"

definition finish_delivery ::
  "instant \<Rightarrow> string \<Rightarrow> string \<Rightarrow> string \<Rightarrow> string option \<Rightarrow> string option \<Rightarrow> unit op" where
  "finish_delivery now delivery_id lease_owner outcome error eligible_at d =
     (case delivery_targets outcome of
        None \<Rightarrow> (Inl (StateError (''invalid delivery outcome: '' @ outcome)), d)
      | Some (delivery_state, route_state) \<Rightarrow> immediate (\<lambda>d.
          case delivery_row delivery_id d of
            None \<Rightarrow> (Inl (StateError ''delivery is not held by this owner''), d)
          | Some row \<Rightarrow>
              if dv_state row \<notin> {D_leased, D_running} \<or> dv_lease_owner row \<noteq> Some lease_owner
              then (Inl (StateError ''delivery is not held by this owner''), d)
              else if outcome \<notin> allowed_outcomes (dv_state row)
              then (Inl (StateError (''delivery outcome '' @ repr_text outcome @ '' is unsafe from '' @ held_text (dv_state row))), d)
              else let adjustment = (if dv_state row = D_leased \<and> outcome = ''budget_hold'' then -1 else 0) in
                (Inr (), set_routes route_state delivery_id
                  (set_delivery (\<lambda>r. r\<lparr>dv_state := delivery_state, dv_eligible_at := text_or eligible_at (utcnow now),
                      dv_lease_owner := None, dv_lease_until := None, dv_last_error := error,
                      dv_attempt := dv_attempt r + adjustment\<rparr>) delivery_id d))) d)"

definition release_budget_hold :: "instant \<Rightarrow> string \<Rightarrow> string option \<Rightarrow> unit op" where
  "release_budget_hold now delivery_id eligible_at = immediate (\<lambda>d.
     let P = (\<lambda>r. dv_delivery_id r = delivery_id \<and> dv_state r = D_budget_hold);
         d' = d\<lparr>deliveries := update_where P (\<lambda>r. r\<lparr>dv_state := D_retry_wait,
                  dv_eligible_at := text_or eligible_at (utcnow now), dv_last_error := None\<rparr>) (deliveries d)\<rparr> in
     if count_where P (deliveries d) \<noteq> 1 then (Inl (StateError ''delivery is not budget-held''), d')
     else (Inr (), set_routes T_queued delivery_id d'))"

definition force_delivery_uncertain :: "string \<Rightarrow> string \<Rightarrow> unit op" where
  "force_delivery_uncertain delivery_id error = immediate (\<lambda>d.
     let P = (\<lambda>r. dv_delivery_id r = delivery_id \<and> (dv_state r = D_leased \<or> dv_state r = D_running));
         d' = d\<lparr>deliveries := update_where P (\<lambda>r. r\<lparr>dv_state := D_uncertain, dv_lease_owner := None,
                  dv_lease_until := None, dv_last_error := Some error\<rparr>) (deliveries d)\<rparr> in
     if count_where P (deliveries d) \<noteq> 1 then (Inl (StateError ''delivery is absent or not active''), d')
     else (Inr (), set_routes T_manual_review delivery_id d'))"

text \<open>\<open>_retry_leased_delivery\<close>, run inside the transaction of its caller.\<close>

definition retry_leased_delivery :: "string \<Rightarrow> string \<Rightarrow> string \<Rightarrow> db \<Rightarrow> db result" where
  "retry_leased_delivery delivery_id eligible_at error d =
     (case delivery_row delivery_id d of
        None \<Rightarrow> Inl (StateError ''unstarted delivery is not safely leased'')
      | Some r \<Rightarrow>
          if dv_state r \<noteq> D_leased then Inl (StateError ''unstarted delivery is not safely leased'')
          else Inr (set_routes T_queued delivery_id
            (set_delivery (\<lambda>r. r\<lparr>dv_state := D_retry_wait, dv_eligible_at := eligible_at, dv_lease_owner := None,
               dv_lease_until := None, dv_last_error := Some error\<rparr>) delivery_id d)))"

section \<open>The delivery invariant\<close>

text \<open>The states a bound route can have for each state of its delivery. A delivery whose lease
  expired waits for a retry while its routes still say \<^verbatim>\<open>leased\<close>.\<close>

fun route_matches :: "delivery_state \<Rightarrow> route_state \<Rightarrow> bool" where
  "route_matches D_queued st = (st = T_queued)"
| "route_matches D_retry_wait st = (st = T_queued \<or> st = T_leased)"
| "route_matches D_leased st = (st = T_leased)"
| "route_matches D_running st = (st = T_leased)"
| "route_matches D_budget_hold st = (st = T_queued)"
| "route_matches D_succeeded st = (st = T_delivered)"
| "route_matches D_dead_letter st = (st = T_dead_letter)"
| "route_matches D_uncertain st = (st = T_manual_review)"

definition held :: "delivery \<Rightarrow> bool" where
  "held r \<longleftrightarrow> dv_state r = D_leased \<or> dv_state r = D_running"

definition lease_ok :: "delivery \<Rightarrow> bool" where
  "lease_ok r \<longleftrightarrow> (held r \<longleftrightarrow> dv_lease_owner r \<noteq> None) \<and> (held r \<longleftrightarrow> dv_lease_until r \<noteq> None)
     \<and> 0 \<le> dv_attempt r \<and> (held r \<longrightarrow> 1 \<le> dv_attempt r)"

definition route_ok :: "delivery list \<Rightarrow> route_target \<Rightarrow> bool" where
  "route_ok ds t = (case rt_delivery_id t of
       None \<Rightarrow> rt_state t = T_pending
     | Some i \<Rightarrow> (\<exists>r\<in>set ds. dv_delivery_id r = i \<and> dv_role r = rt_role t \<and> route_matches (dv_state r) (rt_state t)))"

definition bindings :: "route_target list \<Rightarrow> (string \<times> string \<times> string) set" where
  "bindings ts = {(i, e, r). (Some i, e, r) \<in> set (map (\<lambda>t. (rt_delivery_id t, rt_event_id t, rt_role t)) ts)}"

definition delivery_inv :: "db \<Rightarrow> bool" where
  "delivery_inv d \<longleftrightarrow> distinct (map dv_delivery_id (deliveries d)) \<and> distinct (map dv_idempotency_key (deliveries d))
     \<and> distinct (map (\<lambda>t. (rt_event_id t, rt_role t)) (route_targets d))
     \<and> (\<forall>r\<in>set (deliveries d). lease_ok r) \<and> (\<forall>t\<in>set (route_targets d). route_ok (deliveries d) t)
     \<and> (\<lambda>e. (de_delivery_id e, de_event_id e, de_role e)) ` set (delivery_events d) = bindings (route_targets d)"

lemma delivery_inv_cong:
  "deliveries d' = deliveries d \<Longrightarrow> route_targets d' = route_targets d \<Longrightarrow> delivery_events d' = delivery_events d \<Longrightarrow>
     delivery_inv d' = delivery_inv d"
  by (simp add: delivery_inv_def)

lemma delivery_ids: "delivery_inv d \<Longrightarrow> distinct (map dv_delivery_id (deliveries d))"
  by (simp add: delivery_inv_def)

lemma bindings_states: "bindings (update_where P (\<lambda>t. t\<lparr>rt_state := st\<rparr>) ts) = bindings ts"
  unfolding bindings_def by (subst map_update_where) simp_all

text \<open>Rewriting deliveries and route states so that each delivery and route stays consistent.\<close>

lemma rewrite_delivery_inv:
  assumes inv: "delivery_inv d"
    and f: "\<And>r. dv_delivery_id (f r) = dv_delivery_id r" "\<And>r. dv_idempotency_key (f r) = dv_idempotency_key r"
      "\<And>r. dv_role (f r) = dv_role r"
    and lease: "\<And>r. r \<in> set (deliveries d) \<Longrightarrow> P r \<Longrightarrow> lease_ok (f r)"
    and match: "\<And>r t. r \<in> set (deliveries d) \<Longrightarrow> t \<in> set (route_targets d) \<Longrightarrow> rt_delivery_id t = Some (dv_delivery_id r) \<Longrightarrow>
       route_matches (dv_state r) (rt_state t) \<Longrightarrow>
       route_matches (dv_state (if P r then f r else r)) (rt_state (if Q t then t\<lparr>rt_state := st\<rparr> else t))"
    and bound: "\<And>t. t \<in> set (route_targets d) \<Longrightarrow> Q t \<Longrightarrow> rt_delivery_id t \<noteq> None"
  shows "delivery_inv (d\<lparr>deliveries := update_where P f (deliveries d),
    route_targets := update_where Q (\<lambda>t. t\<lparr>rt_state := st\<rparr>) (route_targets d)\<rparr>)"
proof -
  let ?ds = "update_where P f (deliveries d)"
  have "route_ok ?ds (if Q t then t\<lparr>rt_state := st\<rparr> else t)" if t: "t \<in> set (route_targets d)" for t
  proof (cases "rt_delivery_id t")
    case None
    then have "\<not> Q t" using bound [OF t] by auto
    moreover have "route_ok (deliveries d) t" using inv t by (simp add: delivery_inv_def)
    ultimately show ?thesis using None by (simp add: route_ok_def)
  next
    case (Some i)
    with inv t obtain r where r: "r \<in> set (deliveries d)" "dv_delivery_id r = i" "dv_role r = rt_role t"
      "route_matches (dv_state r) (rt_state t)"
      by (fastforce simp: delivery_inv_def route_ok_def)
    let ?r = "if P r then f r else r"
    have "?r \<in> set ?ds" using r(1) by (auto simp: row_simps)
    moreover have "dv_delivery_id ?r = i" "dv_role ?r = rt_role t" using r f by auto
    moreover have "route_matches (dv_state ?r) (rt_state (if Q t then t\<lparr>rt_state := st\<rparr> else t))"
      using match [OF r(1) t _ r(4)] Some r(2) by blast
    ultimately show ?thesis using Some by (auto simp: route_ok_def)
  qed
  then have "\<forall>t\<in>set (update_where Q (\<lambda>t. t\<lparr>rt_state := st\<rparr>) (route_targets d)). route_ok ?ds t"
    unfolding ball_update_where by blast
  moreover have "\<forall>r\<in>set ?ds. lease_ok r" using inv lease by (auto simp: row_simps delivery_inv_def)
  ultimately show ?thesis using inv f
    by (simp add: delivery_inv_def map_update_where bindings_states)
qed

lemma update_nothing: "update_where (\<lambda>t. False) g ts = ts"
  by (simp add: update_where_def)

lemma move_delivery_inv:
  assumes inv: "delivery_inv d"
    and f: "\<And>r. dv_delivery_id (f r) = dv_delivery_id r" "\<And>r. dv_idempotency_key (f r) = dv_idempotency_key r"
      "\<And>r. dv_role (f r) = dv_role r"
    and lease: "\<And>r. r \<in> set (deliveries d) \<Longrightarrow> dv_delivery_id r = i \<Longrightarrow> lease_ok (f r) \<and> route_matches (dv_state (f r)) st"
  shows "delivery_inv (set_routes st i (set_delivery f i d))"
proof -
  have "delivery_inv (d\<lparr>deliveries := update_where (\<lambda>r. dv_delivery_id r = i) f (deliveries d),
    route_targets := update_where (\<lambda>t. rt_delivery_id t = Some i) (\<lambda>t. t\<lparr>rt_state := st\<rparr>) (route_targets d)\<rparr>)"
    using lease by (intro rewrite_delivery_inv [OF inv f]) auto
  then show ?thesis by (simp add: set_routes_def set_delivery_def)
qed

lemma fold_keeps: "(\<And>x d. x \<in> set xs \<Longrightarrow> I d \<Longrightarrow> I (f x d)) \<Longrightarrow> I d \<Longrightarrow> I (fold f xs d)"
  by (induction xs arbitrary: d) auto

lemma quarantine_inv: "delivery_inv d \<Longrightarrow> delivery_inv (quarantine i d)"
  unfolding quarantine_def
  by (rule move_delivery_inv) (auto simp: lease_ok_def held_def delivery_inv_def)

lemma expire_running_inv: "delivery_inv d \<Longrightarrow> delivery_inv (expire_running ts d)"
  unfolding expire_running_def by (rule fold_keeps) (simp_all add: quarantine_inv)

lemma expire_leases_inv: "delivery_inv d \<Longrightarrow> delivery_inv (expire_leases ts d)"
proof -
  assume inv: "delivery_inv d"
  have "delivery_inv (d\<lparr>deliveries := update_where (\<lambda>r. dv_state r = D_leased \<and> null_le (dv_lease_until r) ts)
        (\<lambda>r. r\<lparr>dv_state := D_retry_wait, dv_last_error := Some ''lease expired'', dv_lease_owner := None,
              dv_lease_until := None\<rparr>) (deliveries d),
     route_targets := update_where (\<lambda>t. False) (\<lambda>t. t\<lparr>rt_state := T_leased\<rparr>) (route_targets d)\<rparr>)"
    using inv by (intro rewrite_delivery_inv [OF inv]) (auto simp: lease_ok_def held_def delivery_inv_def)
  then show ?thesis by (simp add: expire_leases_def update_nothing)
qed

text \<open>The lease fields of a delivery that is waiting are empty.\<close>

lemma waiting_lease: "lease_ok r \<Longrightarrow> waiting r \<Longrightarrow> dv_lease_owner r = None \<and> dv_lease_until r = None"
  by (auto simp: lease_ok_def held_def waiting_def)

lemma exhaust_id:
  assumes "delivery_inv d" and "\<And>r. r \<in> set (deliveries d) \<Longrightarrow> dv_delivery_id r = i \<Longrightarrow> \<not> held r"
  shows "delivery_inv (exhaust i d)"
  unfolding exhaust_def
  using assms by (intro move_delivery_inv) (auto simp: lease_ok_def held_def delivery_inv_def)

text \<open>The loop over exhausted deliveries meets only deliveries that are not held.\<close>

lemma exhaust_keeps_held: "r \<in> set (deliveries (exhaust i d)) \<Longrightarrow> held r \<Longrightarrow> r \<in> set (deliveries d)"
  by (auto simp: exhaust_def set_routes_def set_delivery_def row_simps held_def split: if_splits)

lemma exhaust_waiting_inv:
  assumes inv: "delivery_inv d"
  shows "delivery_inv (exhaust_waiting m d)"
proof -
  let ?ids = "map dv_delivery_id (filter (\<lambda>r. waiting r \<and> dv_attempt r \<ge> m) (deliveries d))"
  have free: "\<not> held r" if "i \<in> set ?ids" "r \<in> set (deliveries d)" "dv_delivery_id r = i" for i r
  proof -
    from that obtain r' where "r' \<in> set (deliveries d)" "waiting r'" "dv_delivery_id r' = dv_delivery_id r" by auto
    with that(2) have "waiting r" using key_unique [OF delivery_ids [OF inv]] by blast
    then show ?thesis by (auto simp: waiting_def held_def)
  qed
  have "delivery_inv (fold exhaust is e) \<and> True"
    if "delivery_inv e" "set is \<subseteq> set ?ids" "\<And>r. r \<in> set (deliveries e) \<Longrightarrow> held r \<Longrightarrow> r \<in> set (deliveries d)" for "is" e
    using that
  proof (induction "is" arbitrary: e)
    case (Cons i "is")
    have "delivery_inv (exhaust i e)"
      using Cons.prems free by (intro exhaust_id) auto
    moreover have "\<And>r. r \<in> set (deliveries (exhaust i e)) \<Longrightarrow> held r \<Longrightarrow> r \<in> set (deliveries d)"
      using Cons.prems(3) exhaust_keeps_held by blast
    ultimately show ?case using Cons.IH [of "exhaust i e"] Cons.prems(2) by simp
  qed simp
  from this [OF inv, of ?ids] show ?thesis by (simp add: exhaust_waiting_def)
qed

text \<open>A guarded update of the one row with a given id is the update of that row.\<close>

lemma guarded_update:
  assumes "distinct (map key rows)" and "count_where (\<lambda>r. key r = k \<and> Q r) rows = 1"
  shows "update_where (\<lambda>r. key r = k \<and> Q r) f rows = update_where (\<lambda>r. key r = k) f rows"
    and "\<And>r. r \<in> set rows \<Longrightarrow> key r = k \<Longrightarrow> Q r"
proof -
  from assms(2) obtain x where x: "x \<in> set rows" "key x = k" "Q x" using count_where_pos [of "\<lambda>r. key r = k \<and> Q r" rows] by auto
  show q: "\<And>r. r \<in> set rows \<Longrightarrow> key r = k \<Longrightarrow> Q r" using x key_unique [OF assms(1)] by metis
  then show "update_where (\<lambda>r. key r = k \<and> Q r) f rows = update_where (\<lambda>r. key r = k) f rows"
    by (intro update_where_cong) auto
qed

lemma take_lease_inv:
  assumes inv: "delivery_inv d" and one: "count_where (\<lambda>r. dv_delivery_id r = i \<and> waiting r) (deliveries d) = 1"
  shows "delivery_inv (take_lease own until i d)"
proof -
  note g = guarded_update [OF delivery_ids [OF inv] one]
  have "delivery_inv (set_routes T_leased i (set_delivery (\<lambda>r. r\<lparr>dv_state := D_leased, dv_attempt := dv_attempt r + 1,
      dv_lease_owner := Some own, dv_lease_until := Some until\<rparr>) i d))"
    using inv by (intro move_delivery_inv) (auto simp: lease_ok_def held_def delivery_inv_def)
  then show ?thesis by (simp add: take_lease_def set_delivery_def g(1))
qed

lemma lease_delivery_inv: "delivery_inv d \<Longrightarrow> delivery_inv (snd (lease_delivery now own secs m d))"
proof -
  assume inv: "delivery_inv d"
  let ?d = "exhaust_waiting m (expire_leases (utc_text now) (expire_running (utc_text now) d))"
  have "delivery_inv ?d" using inv by (intro exhaust_waiting_inv expire_leases_inv expire_running_inv)
  with inv show ?thesis
    by (auto simp: lease_delivery_def Let_def snd_immediate take_lease_inv split: list.splits)
qed

lemma start_delivery_inv: "delivery_inv d \<Longrightarrow> delivery_inv (snd (start_delivery ts i own d))"
proof -
  assume inv: "delivery_inv d"
  let ?P = "\<lambda>r. dv_delivery_id r = i \<and> dv_state r = D_leased \<and> dv_lease_owner r = Some own \<and> null_gt (dv_lease_until r) ts"
  have "delivery_inv (d\<lparr>deliveries := update_where ?P (\<lambda>r. r\<lparr>dv_state := D_running\<rparr>) (deliveries d),
     route_targets := update_where (\<lambda>t. False) (\<lambda>t. t\<lparr>rt_state := T_leased\<rparr>) (route_targets d)\<rparr>)"
    using inv by (intro rewrite_delivery_inv [OF inv]) (auto simp: lease_ok_def held_def delivery_inv_def)
  then show ?thesis by (simp add: start_delivery_def Let_def update_nothing)
qed

lemma delivery_rowD: "delivery_row i d = Some r \<Longrightarrow> r \<in> set (deliveries d) \<and> dv_delivery_id r = i"
  by (auto simp: delivery_row_def dest!: find_SomeD)

lemma delivery_row_only:
  "delivery_inv d \<Longrightarrow> delivery_row i d = Some r \<Longrightarrow> x \<in> set (deliveries d) \<Longrightarrow> dv_delivery_id x = i \<Longrightarrow> x = r"
  using delivery_rowD key_unique [OF delivery_ids] by blast

lemma delivery_targets_match:
  "delivery_targets outcome = Some (ds, rs) \<Longrightarrow> route_matches ds rs \<and> ds \<noteq> D_leased \<and> ds \<noteq> D_running"
  by (auto simp: delivery_targets_def split: if_splits)

lemma finish_delivery_inv: "delivery_inv d \<Longrightarrow> delivery_inv (snd (finish_delivery now i own outcome err el d))"
proof -
  assume inv: "delivery_inv d"
  show ?thesis
  proof (cases "fst (finish_delivery now i own outcome err el d)")
    case (Inl e)
    then have "snd (finish_delivery now i own outcome err el d) = d"
      by (auto simp: finish_delivery_def snd_immediate immediate_def split: option.splits if_splits)
    with inv show ?thesis by simp
  next
    case (Inr u)
    then obtain ds rs row where t: "delivery_targets outcome = Some (ds, rs)" and row: "delivery_row i d = Some row"
      and h: "dv_state row \<in> {D_leased, D_running}" and s: "snd (finish_delivery now i own outcome err el d) =
        set_routes rs i (set_delivery (\<lambda>r. r\<lparr>dv_state := ds, dv_eligible_at := text_or el (utcnow now),
           dv_lease_owner := None, dv_lease_until := None, dv_last_error := err,
           dv_attempt := dv_attempt r + (if dv_state row = D_leased \<and> outcome = ''budget_hold'' then -1 else 0)\<rparr>) i d)"
      by (auto simp: finish_delivery_def immediate_def Let_def split: option.splits if_splits)
    have "lease_ok row" using inv delivery_rowD [OF row] by (simp add: delivery_inv_def)
    with h have "1 \<le> dv_attempt row" by (auto simp: lease_ok_def held_def)
    then show ?thesis unfolding s
      using inv delivery_targets_match [OF t] delivery_row_only [OF inv row]
      by (intro move_delivery_inv) (auto simp: lease_ok_def held_def)
  qed
qed

lemma release_budget_hold_inv: "delivery_inv d \<Longrightarrow> delivery_inv (snd (release_budget_hold now i el d))"
proof -
  assume inv: "delivery_inv d"
  show ?thesis
  proof (cases "count_where (\<lambda>r. dv_delivery_id r = i \<and> dv_state r = D_budget_hold) (deliveries d) = 1")
    case True
    note g = guarded_update [OF delivery_ids [OF inv] True]
    have "delivery_inv (set_routes T_queued i (set_delivery (\<lambda>r. r\<lparr>dv_state := D_retry_wait,
        dv_eligible_at := text_or el (utcnow now), dv_last_error := None\<rparr>) i d))"
    proof (rule move_delivery_inv [OF inv])
      fix r assume r: "r \<in> set (deliveries d)" "dv_delivery_id r = i"
      have "lease_ok r" using inv r(1) by (simp add: delivery_inv_def)
      with g(2) [OF r] show "lease_ok (r\<lparr>dv_state := D_retry_wait, dv_eligible_at := text_or el (utcnow now), dv_last_error := None\<rparr>)
        \<and> route_matches (dv_state (r\<lparr>dv_state := D_retry_wait, dv_eligible_at := text_or el (utcnow now), dv_last_error := None\<rparr>)) T_queued"
        by (auto simp: lease_ok_def held_def)
    qed simp_all
    then show ?thesis using True
      by (simp add: release_budget_hold_def snd_immediate Let_def set_delivery_def g(1))
  qed (use inv in \<open>simp add: release_budget_hold_def snd_immediate Let_def\<close>)
qed

lemma force_delivery_uncertain_inv: "delivery_inv d \<Longrightarrow> delivery_inv (snd (force_delivery_uncertain i err d))"
proof -
  assume inv: "delivery_inv d"
  show ?thesis
  proof (cases "count_where (\<lambda>r. dv_delivery_id r = i \<and> (dv_state r = D_leased \<or> dv_state r = D_running)) (deliveries d) = 1")
    case True
    note g = guarded_update [OF delivery_ids [OF inv] True]
    have "delivery_inv (set_routes T_manual_review i (set_delivery (\<lambda>r. r\<lparr>dv_state := D_uncertain, dv_lease_owner := None,
        dv_lease_until := None, dv_last_error := Some err\<rparr>) i d))"
      using inv by (intro move_delivery_inv) (auto simp: lease_ok_def held_def delivery_inv_def)
    then show ?thesis using True
      by (simp add: force_delivery_uncertain_def snd_immediate Let_def set_delivery_def g(1))
  qed (use inv in \<open>simp add: force_delivery_uncertain_def snd_immediate Let_def\<close>)
qed

lemma retry_leased_delivery_inv:
  assumes inv: "delivery_inv d" and ok: "retry_leased_delivery i el err d = Inr d'"
  shows "delivery_inv d'"
proof -
  from ok have "d' = set_routes T_queued i (set_delivery (\<lambda>r. r\<lparr>dv_state := D_retry_wait, dv_eligible_at := el,
      dv_lease_owner := None, dv_lease_until := None, dv_last_error := Some err\<rparr>) i d)"
    by (auto simp: retry_leased_delivery_def split: option.splits if_splits)
  moreover have "delivery_inv (set_routes T_queued i (set_delivery (\<lambda>r. r\<lparr>dv_state := D_retry_wait, dv_eligible_at := el,
      dv_lease_owner := None, dv_lease_until := None, dv_last_error := Some err\<rparr>) i d))"
    using inv by (intro move_delivery_inv) (auto simp: lease_ok_def held_def delivery_inv_def)
  ultimately show ?thesis by simp
qed

section \<open>Enqueueing binds each route once\<close>

lemma bindings_mem: "t \<in> set ts \<Longrightarrow> rt_delivery_id t = Some i \<Longrightarrow> (i, rt_event_id t, rt_role t) \<in> bindings ts"
  by (force simp: bindings_def)

lemma bindingsE:
  assumes "(i, e, r) \<in> bindings ts"
  obtains t where "t \<in> set ts" "rt_delivery_id t = Some i" "rt_event_id t = e" "rt_role t = r"
  using assms by (auto simp: bindings_def)

text \<open>An event of a role is bound to at most one delivery.\<close>

lemma bindings_unique:
  assumes "delivery_inv d" and "(i, e, r) \<in> bindings (route_targets d)" "(j, e, r) \<in> bindings (route_targets d)"
  shows "i = j"
proof -
  obtain t where t: "t \<in> set (route_targets d)" "rt_delivery_id t = Some i" "rt_event_id t = e" "rt_role t = r"
    using assms(2) by (rule bindingsE)
  obtain u where u: "u \<in> set (route_targets d)" "rt_delivery_id u = Some j" "rt_event_id u = e" "rt_role u = r"
    using assms(3) by (rule bindingsE)
  have "distinct (map (\<lambda>t. (rt_event_id t, rt_role t)) (route_targets d))" using assms(1) by (simp add: delivery_inv_def)
  from key_unique [OF this t(1) u(1)] t u show ?thesis by simp
qed

lemma route_rowD: "route_row e r d = Some t \<Longrightarrow> t \<in> set (route_targets d) \<and> rt_event_id t = e \<and> rt_role t = r"
  by (auto simp: route_row_def dest!: find_SomeD)

lemma assignable_unbound:
  assumes "delivery_inv d" and "assignable role d e"
  shows "(i, e, role) \<notin> bindings (route_targets d)"
proof
  assume "(i, e, role) \<in> bindings (route_targets d)"
  then obtain t where t: "t \<in> set (route_targets d)" "rt_delivery_id t = Some i" "rt_event_id t = e" "rt_role t = role"
    by (rule bindingsE)
  from assms(2) obtain u where u: "u \<in> set (route_targets d)" "rt_event_id u = e" "rt_role u = role" "rt_delivery_id u = None"
    by (auto simp: assignable_def split: option.splits dest!: route_rowD)
  have "distinct (map (\<lambda>t. (rt_event_id t, rt_role t)) (route_targets d))" using assms(1) by (simp add: delivery_inv_def)
  from key_unique [OF this t(1) u(1)] t u show False by simp
qed

definition bind_one :: "string \<Rightarrow> string \<Rightarrow> string \<Rightarrow> db \<Rightarrow> db" where
  "bind_one i role e d = d\<lparr>delivery_events := delivery_events d @ [\<lparr>de_delivery_id = i, de_event_id = e, de_role = role\<rparr>],
     route_targets := update_where (\<lambda>r. rt_event_id r = e \<and> rt_role r = role)
       (\<lambda>r. r\<lparr>rt_state := T_queued, rt_delivery_id := Some i\<rparr>) (route_targets d)\<rparr>"

lemma bind_one_bindings:
  assumes "delivery_inv d" and "assignable role d e"
  shows "bindings (route_targets (bind_one i role e d)) = insert (i, e, role) (bindings (route_targets d))"
proof -
  obtain u where u: "u \<in> set (route_targets d)" "rt_event_id u = e" "rt_role u = role"
    using assms(2) by (auto simp: assignable_def split: option.splits dest!: route_rowD)
  let ?f = "\<lambda>r. r\<lparr>rt_state := T_queued, rt_delivery_id := Some i\<rparr>"
  let ?ts = "route_targets (bind_one i role e d)"
  have ts: "?ts = update_where (\<lambda>r. rt_event_id r = e \<and> rt_role r = role) ?f (route_targets d)"
    by (simp add: bind_one_def)
  show ?thesis
  proof (intro equalityI subsetI)
    fix x assume "x \<in> bindings ?ts"
    then obtain j e' r t where x: "x = (j, e', r)" and t: "t \<in> set ?ts" "rt_delivery_id t = Some j" "rt_event_id t = e'" "rt_role t = r"
      by (cases x) (auto elim: bindingsE)
    from t(1) obtain v where v: "v \<in> set (route_targets d)"
      "t = (if rt_event_id v = e \<and> rt_role v = role then ?f v else v)" by (auto simp: ts row_simps)
    with t x bindings_mem [OF v(1)] show "x \<in> insert (i, e, role) (bindings (route_targets d))"
      by (auto split: if_splits)
  next
    fix x assume "x \<in> insert (i, e, role) (bindings (route_targets d))"
    then consider "x = (i, e, role)" | "x \<in> bindings (route_targets d)" by blast
    then show "x \<in> bindings ?ts"
    proof cases
      case 1
      have "?f u \<in> set ?ts" unfolding ts set_update_where using u by force
      from bindings_mem [OF this, of i] u 1 show ?thesis by simp
    next
      case 2
      then obtain j e' r t where x: "x = (j, e', r)" and t: "t \<in> set (route_targets d)" "rt_delivery_id t = Some j"
        "rt_event_id t = e'" "rt_role t = r" by (cases x) (auto elim: bindingsE)
      have "\<not> (e' = e \<and> r = role)" using assignable_unbound [OF assms] 2 x by blast
      then have "t \<in> set ?ts" unfolding ts set_update_where using t by force
      from bindings_mem [OF this t(2)] x t show ?thesis by simp
    qed
  qed
qed

lemma bind_one_inv:
  assumes inv: "delivery_inv d" and a: "assignable role d e"
    and r: "r \<in> set (deliveries d)" "dv_delivery_id r = i" "dv_role r = role" "dv_state r = D_queued"
  shows "delivery_inv (bind_one i role e d)"
proof -
  have "route_ok (deliveries d) (if rt_event_id t = e \<and> rt_role t = role then t\<lparr>rt_state := T_queued, rt_delivery_id := Some i\<rparr> else t)"
    if "t \<in> set (route_targets d)" for t
    using that inv r by (auto simp: delivery_inv_def route_ok_def)
  then have "\<forall>t\<in>set (update_where (\<lambda>r. rt_event_id r = e \<and> rt_role r = role)
       (\<lambda>r. r\<lparr>rt_state := T_queued, rt_delivery_id := Some i\<rparr>) (route_targets d)). route_ok (deliveries d) t"
    unfolding ball_update_where by blast
  then have "\<forall>t\<in>set (route_targets (bind_one i role e d)). route_ok (deliveries d) t" by (simp add: bind_one_def)
  moreover have "distinct (map (\<lambda>t. (rt_event_id t, rt_role t)) (route_targets (bind_one i role e d)))"
    using inv by (simp add: bind_one_def delivery_inv_def map_update_where)
  ultimately show ?thesis using inv bind_one_bindings [OF inv a, of i]
    by (simp add: delivery_inv_def bind_one_def)
qed

lemma assignable_bind_other: "e' \<noteq> e \<Longrightarrow> assignable role (bind_one i role e d) e' = assignable role d e'"
proof -
  assume ne: "e' \<noteq> e"
  have "find (\<lambda>r. rt_event_id r = e' \<and> rt_role r = role) (update_where (\<lambda>r. rt_event_id r = e \<and> rt_role r = role)
       (\<lambda>r. r\<lparr>rt_state := T_queued, rt_delivery_id := Some i\<rparr>) ts) = find (\<lambda>r. rt_event_id r = e' \<and> rt_role r = role) ts" for ts :: "route_target list"
    using ne by (induction ts) auto
  then show ?thesis by (simp add: assignable_def route_row_def bind_one_def)
qed

lemma bind_events_inv:
  "bind_events i role es d = Inr d' \<Longrightarrow> delivery_inv d \<Longrightarrow> distinct es \<Longrightarrow> list_all (assignable role d) es \<Longrightarrow>
   r \<in> set (deliveries d) \<Longrightarrow> dv_delivery_id r = i \<Longrightarrow> dv_role r = role \<Longrightarrow> dv_state r = D_queued \<Longrightarrow>
   delivery_inv d' \<and> deliveries d' = deliveries d
   \<and> bindings (route_targets d') = (\<lambda>e. (i, e, role)) ` set es \<union> bindings (route_targets d)"
proof (induction es arbitrary: d)
  case (Cons e es)
  have a: "assignable role d e" using Cons.prems(4) by simp
  have next_step: "bind_events i role es (bind_one i role e d) = Inr d'"
    using Cons.prems(1) by (auto simp: bind_one_def Let_def split: if_splits)
  have inv': "delivery_inv (bind_one i role e d)" using bind_one_inv [OF Cons.prems(2) a Cons.prems(5-8)] .
  have "assignable role (bind_one i role e d) x" if "x \<in> set es" for x
    using that Cons.prems(3,4) assignable_bind_other [of x e role i d] by (auto simp: list_all_iff)
  then have "list_all (assignable role (bind_one i role e d)) es" by (simp add: list_all_iff)
  moreover have "deliveries (bind_one i role e d) = deliveries d" by (simp add: bind_one_def)
  ultimately show ?case
    using Cons.IH [OF next_step inv'] Cons.prems(3,5-8) bind_one_bindings [OF Cons.prems(2) a, of i] by simp
qed simp

lemma append_delivery_inv:
  assumes inv: "delivery_inv d" and "i \<notin> dv_delivery_id ` set (deliveries d)" and "k \<notin> dv_idempotency_key ` set (deliveries d)"
  shows "delivery_inv (d\<lparr>deliveries := deliveries d @ [new_delivery i k role t]\<rparr>)"
proof -
  have "route_ok (deliveries d @ [new_delivery i k role t]) u" if "route_ok (deliveries d) u" for u
    using that by (auto simp: route_ok_def split: option.splits)
  with assms show ?thesis by (auto simp: delivery_inv_def new_delivery_def lease_ok_def held_def)
qed

lemma enqueue_delivery_Inr:
  assumes inv: "delivery_inv d" and ok: "enqueue_delivery now u role es k el d = (Inr i, d')"
  obtains (bound) x where "d' = d" "x \<in> set (deliveries d)" "dv_idempotency_key x = k" "dv_delivery_id x = i" "dv_role x = role"
      "bound_events i d = sort (remdups es)"
    | (fresh) "i = u" "k \<notin> dv_idempotency_key ` set (deliveries d)" "delivery_inv d'"
      "deliveries d' = deliveries d @ [new_delivery u k role (text_or el (utcnow now))]" "es \<noteq> []"
      "\<forall>e\<in>set es. assignable role d e"
      "bindings (route_targets d') = (\<lambda>e. (u, e, role)) ` set es \<union> bindings (route_targets d)"
proof (cases "find (\<lambda>r. dv_idempotency_key r = k) (deliveries d)")
  case (Some x)
  then have "x \<in> set (deliveries d)" "dv_idempotency_key x = k" by (auto dest: find_SomeD)
  with Some ok show thesis
    by (intro bound [of x]) (auto simp: enqueue_delivery_def Let_def immediate_Inr split: if_splits)
next
  case None
  let ?es = "sort (remdups es)"
  let ?d = "d\<lparr>deliveries := deliveries d @ [new_delivery u k role (text_or el (utcnow now))]\<rparr>"
  from None ok have "es \<noteq> []" and a: "list_all (assignable role d) ?es" and u: "u \<notin> dv_delivery_id ` set (deliveries d)"
    and b: "bind_events u role ?es ?d = Inr d'" and i: "i = u"
    by (auto simp: enqueue_delivery_def Let_def immediate_Inr list_ex_key split: if_splits sum.splits)
  from None have k: "k \<notin> dv_idempotency_key ` set (deliveries d)" by (auto simp: find_None_iff)
  have inv': "delivery_inv ?d" using append_delivery_inv [OF inv u k] .
  have "list_all (assignable role ?d) ?es" using a by (simp add: list_all_iff assignable_def route_row_def)
  from bind_events_inv [OF b inv' _ this, of "new_delivery u k role (text_or el (utcnow now))"]
  have "delivery_inv d' \<and> deliveries d' = deliveries ?d
     \<and> bindings (route_targets d') = (\<lambda>e. (u, e, role)) ` set ?es \<union> bindings (route_targets ?d)"
    by (simp add: new_delivery_def)
  with i k a \<open>es \<noteq> []\<close> show thesis by (intro fresh) (simp_all add: list_all_iff)
qed

lemma enqueue_delivery_inv:
  assumes inv: "delivery_inv d"
  shows "delivery_inv (snd (enqueue_delivery now u role es k el d))"
proof (cases "enqueue_delivery now u role es k el d")
  case (Pair r d')
  show ?thesis
  proof (cases r)
    case (Inl e)
    with Pair have "d' = d" by (auto simp: enqueue_delivery_def Let_def immediate_Inl split: if_splits)
    with Pair inv show ?thesis by simp
  next
    case (Inr i)
    with Pair have c: "enqueue_delivery now u role es k el d = (Inr i, d')" by simp
    from enqueue_delivery_Inr [OF inv c] Pair inv show ?thesis by (cases rule: disjE) auto
  qed
qed

section \<open>New routes\<close>

lemma insert_route_inv:
  assumes inv: "delivery_inv d" and ok: "insert_route e role d = Inr d'"
  shows "delivery_inv d'" "bindings (route_targets d') = bindings (route_targets d)"
proof -
  let ?t = "\<lparr>rt_event_id = e, rt_role = role, rt_state = T_pending, rt_delivery_id = None\<rparr>"
  from ok have d': "d' = d\<lparr>route_targets := route_targets d @ [?t]\<rparr>"
    and new: "\<forall>t\<in>set (route_targets d). \<not> (rt_event_id t = e \<and> rt_role t = role)"
    by (auto simp: insert_route_def list_ex_iff split: if_splits)
  show b: "bindings (route_targets d') = bindings (route_targets d)" by (simp add: d' bindings_def)
  have "distinct (map (\<lambda>t. (rt_event_id t, rt_role t)) (route_targets d'))"
    using inv new by (auto simp: d' delivery_inv_def)
  moreover have "\<forall>t\<in>set (route_targets d'). route_ok (deliveries d') t"
    using inv by (simp add: d' delivery_inv_def route_ok_def)
  ultimately show "delivery_inv d'" using inv b by (simp add: d' delivery_inv_def)
qed

lemma finish_event_routing_inv: "delivery_inv d \<Longrightarrow> delivery_inv (snd (finish_event_routing e role d))"
proof -
  assume inv: "delivery_inv d"
  have upd: "delivery_inv (x\<lparr>observed_events := os\<rparr>) = delivery_inv x" for x os by (rule delivery_inv_cong) simp_all
  show ?thesis using inv insert_route_inv(1) [OF inv]
    by (auto simp: finish_event_routing_def snd_immediate upd split: option.splits sum.splits)
qed

lemma add_route_inv: "delivery_inv d \<Longrightarrow> delivery_inv (snd (add_route e role d))"
  using insert_route_inv(1) by (auto simp: add_route_def split: sum.splits)

end
