(* ===== verification/Runtime.thy ===== *)
theory Runtime
  imports Budget Deliveries
begin

text \<open>
  \<^verbatim>\<open>control/sjg_control/store.py\<close>, wake and process runtimes and the recovery of wakes that never
  started: \<open>prepare_wake\<close>, \<open>mark_wake_running\<close>, \<open>finish_wake\<close>, \<open>record_process\<close>,
  \<open>finish_process\<close>, \<open>active_processes\<close>, \<open>active_wakes\<close>, \<open>orphan_sessions\<close>,
  \<open>recover_orphan_session\<close> and \<open>recover_prepared_wake\<close>.
\<close>

section \<open>Wake runtimes\<close>

definition insert_wake_runtime :: "wake_runtime \<Rightarrow> db \<Rightarrow> db result" where
  "insert_wake_runtime r d =
     (if list_ex (\<lambda>x. wr_wake_id x = wr_wake_id r) (wake_runtimes d) then Inl (unique_failed ''wake_runtime.wake_id'')
      else if list_ex (\<lambda>x. wr_session_id x = wr_session_id r) (wake_runtimes d)
      then Inl (unique_failed ''wake_runtime.session_id'')
      else if list_ex (\<lambda>x. wr_reservation_id x = wr_reservation_id r) (wake_runtimes d)
      then Inl (unique_failed ''wake_runtime.reservation_id'')
      else if list_ex (\<lambda>x. wr_socket_path x = wr_socket_path r) (wake_runtimes d)
      then Inl (unique_failed ''wake_runtime.socket_path'')
      else if \<not> list_ex (\<lambda>x. ws_session_id x = wr_session_id r) (wake_sessions d)
              \<or> (case wr_delivery_id r of None \<Rightarrow> False | Some i \<Rightarrow> \<not> list_ex (\<lambda>x. dv_delivery_id x = i) (deliveries d))
              \<or> \<not> list_ex (\<lambda>x. bv_reservation_id x = wr_reservation_id r) (budget_reservations d)
      then Inl foreign_failed
      else Inr (d\<lparr>wake_runtimes := wake_runtimes d @ [r]\<rparr>))"

definition prepare_wake ::
  "instant \<Rightarrow> session \<Rightarrow> string option \<Rightarrow> string \<Rightarrow> string \<Rightarrow> string \<Rightarrow> unit op" where
  "prepare_wake now sn delivery_id reservation_id socket_path reason d =
     (if reason = [] \<or> \<not> starts_with ''/'' socket_path
      then (Inl (StateError ''wake runtime requires a reason and absolute socket path''), d)
      else (case insert_wake_runtime \<lparr>wr_wake_id = sn_wake_id sn, wr_session_id = sn_session_id sn,
               wr_delivery_id = delivery_id, wr_reservation_id = reservation_id, wr_role = sn_role sn,
               wr_reason = reason, wr_socket_path = socket_path, wr_state = K_prepared, wr_started_at = utcnow now,
               wr_finished_at = None, wr_output_sha256 = None, wr_error_detail = None\<rparr> d of
              Inl e \<Rightarrow> (Inl e, d) | Inr d' \<Rightarrow> (Inr (), d')))"

definition mark_wake_running :: "string \<Rightarrow> unit op" where
  "mark_wake_running wake_id d =
     (let P = (\<lambda>r. wr_wake_id r = wake_id \<and> wr_state r = K_prepared);
          d' = d\<lparr>wake_runtimes := update_where P (\<lambda>r. r\<lparr>wr_state := K_running\<rparr>) (wake_runtimes d)\<rparr> in
      if count_where P (wake_runtimes d) \<noteq> 1 then (Inl (StateError ''wake runtime is not prepared''), d')
      else (Inr (), d'))"

definition terminal_wake_state :: "string \<Rightarrow> wake_state option" where
  "terminal_wake_state = map_of [(''succeeded'', K_succeeded), (''failed'', K_failed), (''uncertain'', K_uncertain),
     (''terminated'', K_terminated)]"

definition open_wake :: "wake_runtime \<Rightarrow> bool" where
  "open_wake r \<longleftrightarrow> wr_state r = K_prepared \<or> wr_state r = K_running"

definition finish_wake :: "instant \<Rightarrow> string \<Rightarrow> string \<Rightarrow> string option \<Rightarrow> string option \<Rightarrow> unit op" where
  "finish_wake now wake_id state output_sha256 error d =
     (case terminal_wake_state state of
        None \<Rightarrow> (Inl (StateError ''wake runtime terminal state is invalid''), d)
      | Some st \<Rightarrow>
          let P = (\<lambda>r. wr_wake_id r = wake_id \<and> open_wake r);
              d' = d\<lparr>wake_runtimes := update_where P (\<lambda>r. r\<lparr>wr_state := st, wr_finished_at := Some (utcnow now),
                     wr_output_sha256 := output_sha256, wr_error_detail := error\<rparr>) (wake_runtimes d)\<rparr> in
          if count_where P (wake_runtimes d) \<noteq> 1 then (Inl (StateError ''wake runtime is not active''), d')
          else (Inr (), d'))"

definition active_wakes :: "db \<Rightarrow> (wake_runtime \<times> string) list" where
  "active_wakes d = sort_key (\<lambda>(r, t). wr_started_at r)
     [(wr, ws_expires_at ws). wr \<leftarrow> wake_runtimes d, ws \<leftarrow> wake_sessions d,
        ws_session_id ws = wr_session_id wr, open_wake wr]"

definition orphan_sessions :: "db \<Rightarrow> wake_session list" where
  "orphan_sessions d = sort_key ws_issued_at
     (filter (\<lambda>ws. active_session ws \<and> \<not> list_ex (\<lambda>wr. wr_session_id wr = ws_session_id ws) (wake_runtimes d))
       (wake_sessions d))"

section \<open>Processes\<close>

definition process_kind_of :: "string \<Rightarrow> process_kind option" where
  "process_kind_of = map_of [(''parent'', Parent_process), (''worker'', Worker_process)]"

definition record_process ::
  "instant \<Rightarrow> string \<Rightarrow> string \<Rightarrow> string option \<Rightarrow> string \<Rightarrow> int \<Rightarrow> int \<Rightarrow> string \<Rightarrow> unit op" where
  "record_process now process_key session_id worker_attempt_id kind pid pgid birth_token d =
     (case process_kind_of kind of
        None \<Rightarrow> (Inl (StateError ''process runtime identity is invalid''), d)
      | Some k \<Rightarrow>
          if pid \<le> 0 \<or> pgid \<le> 0 \<or> birth_token = []
          then (Inl (StateError ''process runtime identity is invalid''), d)
          else if list_ex (\<lambda>r. pr_process_key r = process_key) (process_runtimes d)
          then (Inl (unique_failed ''process_runtime.process_key''), d)
          else if list_ex (\<lambda>r. pr_pid r = pid \<and> pr_birth_token r = birth_token) (process_runtimes d)
          then (Inl (unique_failed ''process_runtime.pid, process_runtime.birth_token''), d)
          else if \<not> list_ex (\<lambda>r. ws_session_id r = session_id) (wake_sessions d)
               \<or> (case worker_attempt_id of None \<Rightarrow> False
                  | Some a \<Rightarrow> \<not> list_ex (\<lambda>r. wa_attempt_id r = a) (worker_attempts d))
          then (Inl foreign_failed, d)
          else (Inr (), d\<lparr>process_runtimes := process_runtimes d @
            [\<lparr>pr_process_key = process_key, pr_session_id = session_id, pr_worker_attempt_id = worker_attempt_id,
              pr_kind = k, pr_pid = pid, pr_pgid = pgid, pr_birth_token = birth_token, pr_state = P_running,
              pr_started_at = utcnow now, pr_finished_at = None, pr_exit_code = None\<rparr>]\<rparr>))"

definition terminal_process_state :: "string \<Rightarrow> process_state option" where
  "terminal_process_state = map_of [(''exited'', P_exited), (''terminated'', P_terminated), (''uncertain'', P_uncertain)]"

definition finish_process :: "instant \<Rightarrow> string \<Rightarrow> string \<Rightarrow> int option \<Rightarrow> unit op" where
  "finish_process now process_key state exit_code d =
     (case terminal_process_state state of
        None \<Rightarrow> (Inl (StateError ''process runtime terminal state is invalid''), d)
      | Some st \<Rightarrow>
          let P = (\<lambda>r. pr_process_key r = process_key \<and> pr_state r = P_running);
              d' = d\<lparr>process_runtimes := update_where P (\<lambda>r. r\<lparr>pr_state := st, pr_finished_at := Some (utcnow now),
                     pr_exit_code := exit_code\<rparr>) (process_runtimes d)\<rparr> in
          if count_where P (process_runtimes d) \<noteq> 1
          then (Inl (StateError ''process runtime is absent or inactive''), d')
          else (Inr (), d'))"

text \<open>\<open>ORDER BY kind DESC, started_at\<close>: the workers, then the parents, each by start time.\<close>

definition active_processes :: "string option \<Rightarrow> db \<Rightarrow> process_runtime list" where
  "active_processes session_id d =
     (let rs = sort_key pr_started_at (filter (\<lambda>r. pr_state r = P_running
            \<and> (case session_id of None \<Rightarrow> True | Some i \<Rightarrow> pr_session_id r = i)) (process_runtimes d)) in
      filter (\<lambda>r. pr_kind r = Worker_process) rs @ filter (\<lambda>r. pr_kind r = Parent_process) rs)"

section \<open>Recovery\<close>

definition no_trace :: "string \<Rightarrow> db \<Rightarrow> bool" where
  "no_trace session_id d \<longleftrightarrow> count_where (\<lambda>r. pr_session_id r = session_id) (process_runtimes d) = 0
     \<and> session_attempts session_id d = 0"

definition recover_orphan_session :: "string \<Rightarrow> string option \<Rightarrow> string option \<Rightarrow> string \<Rightarrow> unit op" where
  "recover_orphan_session session_id delivery_id eligible_at error = immediate (\<lambda>d.
     case session_row session_id d of
       None \<Rightarrow> (Inl (StateError ''session is not a recoverable pre-wake orphan''), d)
     | Some s \<Rightarrow>
         if \<not> active_session s \<or> count_where (\<lambda>r. wr_session_id r = session_id) (wake_runtimes d) \<noteq> 0
            \<or> \<not> no_trace session_id d
         then (Inl (StateError ''session is not a recoverable pre-wake orphan''), d)
         else (case bindE (release_reservation_for session_id d) (\<lambda>d1.
                 case delivery_id of
                   None \<Rightarrow> Inr d1
                 | Some i \<Rightarrow>
                     (case eligible_at of
                        None \<Rightarrow> Inl (StateError ''orphan delivery recovery requires an eligibility time'')
                      | Some t \<Rightarrow> retry_leased_delivery i t error d1)) of
                 Inl e \<Rightarrow> (Inl e, d)
               | Inr d2 \<Rightarrow> (Inr (), close_session S_revoked session_id d2)))"

definition fail_wake :: "string \<Rightarrow> string \<Rightarrow> string \<Rightarrow> db \<Rightarrow> db" where
  "fail_wake now wake_id error d =
     d\<lparr>wake_runtimes := update_where (\<lambda>r. wr_wake_id r = wake_id)
        (\<lambda>r. r\<lparr>wr_state := K_failed, wr_finished_at := Some now, wr_error_detail := Some error\<rparr>) (wake_runtimes d)\<rparr>"

definition recover_prepared_wake :: "instant \<Rightarrow> string \<Rightarrow> string \<Rightarrow> string \<Rightarrow> unit op" where
  "recover_prepared_wake now wake_id eligible_at error = immediate (\<lambda>d.
     case find (\<lambda>r. wr_wake_id r = wake_id) (wake_runtimes d) of
       None \<Rightarrow> (Inl (StateError ''wake is not prepared for safe recovery''), d)
     | Some wake \<Rightarrow>
         if wr_state wake \<noteq> K_prepared then (Inl (StateError ''wake is not prepared for safe recovery''), d)
         else let session_id = wr_session_id wake in
         (case session_row session_id d of
            None \<Rightarrow> (Inl (StateError ''prepared wake is not proved process-free''), d)
          | Some s \<Rightarrow>
              if \<not> active_session s \<or> \<not> no_trace session_id d
              then (Inl (StateError ''prepared wake is not proved process-free''), d)
              else (case bindE (release_reservation_for session_id d) (\<lambda>d1.
                      case wr_delivery_id wake of
                        None \<Rightarrow> Inr d1
                      | Some i \<Rightarrow> (if i = [] then Inr d1 else retry_leased_delivery i eligible_at error d1)) of
                      Inl e \<Rightarrow> (Inl e, d)
                    | Inr d2 \<Rightarrow> (Inr (), close_session S_revoked session_id (fail_wake (utcnow now) wake_id error d2)))))"

text \<open>The \<open>UPDATE\<close> of \<open>Supervisor._terminate_wake\<close> for a session whose processes could not be identified.\<close>

definition doubt_wake :: "instant \<Rightarrow> string \<Rightarrow> db \<Rightarrow> db" where
  "doubt_wake now session_id d =
     d\<lparr>wake_runtimes := update_where (\<lambda>r. wr_session_id r = session_id \<and> open_wake r)
        (\<lambda>r. r\<lparr>wr_state := K_uncertain, wr_finished_at := Some (utcnow now),
             wr_error_detail := Some ''process identity changed; manual host inspection required''\<rparr>) (wake_runtimes d)\<rparr>"

section \<open>What recovery does\<close>

text \<open>The tables that releasing a reservation and returning a delivery leave alone.\<close>

lemma settle_effect_tables [simp]:
  "wake_sessions (settle_effect d r u st) = wake_sessions d" "worker_attempts (settle_effect d r u st) = worker_attempts d"
  "deliveries (settle_effect d r u st) = deliveries d" "route_targets (settle_effect d r u st) = route_targets d"
  "delivery_events (settle_effect d r u st) = delivery_events d" "wake_runtimes (settle_effect d r u st) = wake_runtimes d"
  by (simp_all add: settle_effect_def)

lemma retry_leased_tables:
  assumes "retry_leased_delivery i t e d = Inr d'"
  shows "wake_sessions d' = wake_sessions d" "worker_attempts d' = worker_attempts d"
    "budget_buckets d' = budget_buckets d" "budget_reservations d' = budget_reservations d" "wake_runtimes d' = wake_runtimes d"
  using assms by (auto simp: retry_leased_delivery_def set_routes_def set_delivery_def split: option.splits if_splits)

lemma release_reservation_for_tables:
  assumes "budget_inv d" and "release_reservation_for i d = Inr d'"
  shows "wake_sessions d' = wake_sessions d" "worker_attempts d' = worker_attempts d"
    "deliveries d' = deliveries d" "route_targets d' = route_targets d" "delivery_events d' = delivery_events d"
    "wake_runtimes d' = wake_runtimes d"
  using release_reservation_for_inv(3) [OF assms] by auto

text \<open>The part both recoveries share: the reservation is released and the delivery returns to the
  queue.\<close>

definition give_back :: "string \<Rightarrow> string option \<Rightarrow> string \<Rightarrow> string \<Rightarrow> db \<Rightarrow> db result" where
  "give_back session_id delivery_id eligible_at error d =
     bindE (release_reservation_for session_id d) (\<lambda>d1.
       case delivery_id of None \<Rightarrow> Inr d1 | Some i \<Rightarrow> retry_leased_delivery i eligible_at error d1)"

lemma give_back_tables:
  assumes "budget_inv d" and "give_back i del t e d = Inr d'"
  shows "wake_sessions d' = wake_sessions d" "worker_attempts d' = worker_attempts d" "wake_runtimes d' = wake_runtimes d"
  using assms release_reservation_for_tables [OF assms(1)] retry_leased_tables
  by (auto simp: give_back_def bindE_eq_Inr split: option.splits)

lemma owner_close [simp]: "owner (close_session st i d) j = owner d j"
proof -
  have "map_option (\<lambda>s. (ws_org_id s, ws_role s)) (find (\<lambda>r. ws_session_id r = j)
      (update_where (\<lambda>r. ws_session_id r = i \<and> active_session r) (\<lambda>r. r\<lparr>ws_state := st\<rparr>) xs))
    = map_option (\<lambda>s. (ws_org_id s, ws_role s)) (find (\<lambda>r. ws_session_id r = j) xs)" for xs :: "wake_session list"
    by (induction xs) auto
  then show ?thesis by (simp add: owner_def session_row_def close_session_def)
qed

lemma close_session_other_tables [simp]:
  "budget_buckets (close_session st i d) = budget_buckets d" "deliveries (close_session st i d) = deliveries d"
  "route_targets (close_session st i d) = route_targets d" "delivery_events (close_session st i d) = delivery_events d"
  by (simp_all add: close_session_def)

lemma close_session_budget [simp]: "budget_inv (close_session st i d) = budget_inv d"
  by (rule budget_inv_cong) simp_all

lemma close_session_delivery [simp]: "delivery_inv (close_session st i d) = delivery_inv d"
  by (rule delivery_inv_cong) simp_all

lemma give_back_inv:
  assumes "budget_inv d" and "delivery_inv d" and ok: "give_back i del t e d = Inr d'"
  shows "budget_inv d'" "delivery_inv d'"
proof -
  from ok obtain d1 where d1: "release_reservation_for i d = Inr d1"
    and d': "(case del of None \<Rightarrow> Inr d1 | Some j \<Rightarrow> retry_leased_delivery j t e d1) = Inr d'"
    by (auto simp: give_back_def bindE_eq_Inr)
  note r = release_reservation_for_tables [OF assms(1) d1]
  have b1: "budget_inv d1" using release_reservation_for_inv(1) [OF assms(1) d1] .
  have v1: "delivery_inv d1" using assms(2) delivery_inv_cong [of d1 d] r by simp
  show "budget_inv d'"
  proof (cases del)
    case (Some j)
    with d' have "retry_leased_delivery j t e d1 = Inr d'" by simp
    note q = retry_leased_tables [OF this]
    have "owner d' k = owner d1 k" for k by (simp add: owner_def session_row_def q)
    with b1 show ?thesis using budget_inv_cong [of d' d1] q by simp
  qed (use d' b1 in simp)
  show "delivery_inv d'"
    using d' v1 retry_leased_delivery_inv [OF v1] by (auto split: option.splits)
qed

lemma recover_orphan_Inr:
  assumes "recover_orphan_session i del el err d = (Inr (), d')"
  obtains s d2 where "session_row i d = Some s" "active_session s" "no_trace i d"
    "give_back i del (case el of Some t \<Rightarrow> t | None \<Rightarrow> []) err d = Inr d2" "d' = close_session S_revoked i d2"
  using assms unfolding recover_orphan_session_def immediate_Inr
  by (cases del; cases el)
    (auto simp: give_back_def bindE_eq_Inr split: option.split_asm if_split_asm sum.split_asm)

lemma recover_prepared_Inr:
  assumes "recover_prepared_wake now w el err d = (Inr (), d')"
  obtains wake s d2 where "wake \<in> set (wake_runtimes d)" "wr_wake_id wake = w" "wr_state wake = K_prepared"
    "session_row (wr_session_id wake) d = Some s" "active_session s" "no_trace (wr_session_id wake) d"
    "give_back (wr_session_id wake) (case wr_delivery_id wake of Some i \<Rightarrow> (if i = [] then None else Some i) | None \<Rightarrow> None) el err d = Inr d2"
    "d' = close_session S_revoked (wr_session_id wake) (fail_wake (utcnow now) w err d2)"
proof -
  from assms obtain wake where w: "find (\<lambda>r. wr_wake_id r = w) (wake_runtimes d) = Some wake"
    by (auto simp: recover_prepared_wake_def immediate_Inr split: option.splits)
  then have mem: "wake \<in> set (wake_runtimes d)" "wr_wake_id wake = w" by (auto dest: find_SomeD)
  from assms w obtain s where s: "session_row (wr_session_id wake) d = Some s"
    by (auto simp: recover_prepared_wake_def immediate_Inr Let_def split: option.splits if_splits)
  define del where "del = (case wr_delivery_id wake of Some i \<Rightarrow> (if i = [] then None else Some i) | None \<Rightarrow> None)"
  have g: "give_back (wr_session_id wake) del el err d = bindE (release_reservation_for (wr_session_id wake) d) (\<lambda>d1.
      case wr_delivery_id wake of None \<Rightarrow> Inr d1
      | Some i \<Rightarrow> (if i = [] then Inr d1 else retry_leased_delivery i el err d1))"
    by (simp add: give_back_def del_def split: option.split)
  show thesis
    using assms w s mem unfolding recover_prepared_wake_def immediate_Inr
    by (auto simp: g [symmetric] Let_def del_def [symmetric] split: if_split_asm sum.split_asm intro: that)
qed

lemma fail_wake_tables [simp]:
  "wake_sessions (fail_wake t w e d) = wake_sessions d" "worker_attempts (fail_wake t w e d) = worker_attempts d"
  "budget_buckets (fail_wake t w e d) = budget_buckets d" "budget_reservations (fail_wake t w e d) = budget_reservations d"
  "deliveries (fail_wake t w e d) = deliveries d" "route_targets (fail_wake t w e d) = route_targets d"
  "delivery_events (fail_wake t w e d) = delivery_events d"
  by (simp_all add: fail_wake_def)

end
