(* ===== verification/Requests.thy ===== *)
theory Requests
  imports Tables
begin

text \<open>
  \<^verbatim>\<open>control/sjg_control/store.py\<close>, the two idempotency journals and the audit log:
  \<open>reserve_request\<close>, \<open>prior_request\<close>, \<open>mark_request_applying\<close>, \<open>abandon_read_request\<close>,
  \<open>finish_request\<close>, \<open>audit\<close>, \<open>pending_broker_verifications\<close>, and \<open>reserve_reconcile\<close>,
  \<open>mark_reconcile_applying\<close>, \<open>finish_reconcile\<close>, \<open>pending_reconciliations\<close>.

  The contract that both journals offer, that a key once bound keeps its request, is the
  locale \<open>journal\<close>.
\<close>

section \<open>Broker requests\<close>

definition request_row :: "string \<Rightarrow> db \<Rightarrow> broker_request option" where
  "request_row key d = find (\<lambda>r. br_idempotency_key r = key) (broker_requests d)"

definition in_progress :: json where
  "in_progress = JObj [(''status'', JStr ''indeterminate''), (''error'', JStr ''request is already in progress'')]"

definition outcome_unknown :: json where
  "outcome_unknown = JObj [(''schema'', JStr ''sjg.response/v1''), (''status'', JStr ''indeterminate''),
     (''error'', JStr ''request is already in progress or its outcome is unknown'')]"

definition new_request :: "string \<Rightarrow> string \<Rightarrow> string \<Rightarrow> string \<Rightarrow> string \<Rightarrow> string \<Rightarrow> broker_request" where
  "new_request now session_id key operation arguments_hash arguments_json =
     \<lparr>br_idempotency_key = key, br_session_id = session_id, br_operation = operation,
      br_arguments_hash = arguments_hash, br_arguments_json = arguments_json, br_state = R_reserved,
      br_response_json = None, br_created_at = now, br_updated_at = now\<rparr>"

definition reserve_request ::
  "instant \<Rightarrow> string \<Rightarrow> string \<Rightarrow> string \<Rightarrow> string \<Rightarrow> json \<Rightarrow> json option op" where
  "reserve_request now session_id key operation arguments_hash arguments = immediate (\<lambda>d.
     case request_row key d of
       Some row \<Rightarrow>
         if (br_session_id row, br_operation row, br_arguments_hash row, br_arguments_json row)
            \<noteq> (session_id, operation, arguments_hash, dumps arguments)
         then (Inl (StateError ''idempotency key reused with different request''), d)
         else (Inr (Some (case br_response_json row of Some r \<Rightarrow> r | None \<Rightarrow> in_progress)), d)
     | None \<Rightarrow>
         if \<not> list_ex (\<lambda>s. ws_session_id s = session_id) (wake_sessions d) then (Inl foreign_failed, d)
         else (Inr None, d\<lparr>broker_requests := broker_requests d
                 @ [new_request (utcnow now) session_id key operation arguments_hash (dumps arguments)]\<rparr>))"

definition prior_request :: "string \<Rightarrow> string \<Rightarrow> string \<Rightarrow> string \<Rightarrow> db \<Rightarrow> json option result" where
  "prior_request session_id key operation arguments_hash d =
     (case request_row key d of
        None \<Rightarrow> Inr None
      | Some row \<Rightarrow>
          if (br_session_id row, br_operation row, br_arguments_hash row) \<noteq> (session_id, operation, arguments_hash)
          then Inl (StateError ''idempotency key reused with different request'')
          else Inr (Some (case br_response_json row of Some r \<Rightarrow> r | None \<Rightarrow> outcome_unknown)))"

definition mark_request_applying :: "instant \<Rightarrow> string \<Rightarrow> unit op" where
  "mark_request_applying now key d =
     (let P = (\<lambda>r. br_idempotency_key r = key \<and> br_state r = R_reserved);
          d' = d\<lparr>broker_requests := update_where P
                 (\<lambda>r. r\<lparr>br_state := R_applying, br_updated_at := utcnow now\<rparr>) (broker_requests d)\<rparr> in
      if count_where P (broker_requests d) \<noteq> 1 then (Inl (StateError ''request is not reserved''), d')
      else (Inr (), d'))"

definition abandoned_operations :: "string list" where
  "abandoned_operations = [''read.issue.get'', ''read.issue.list'', ''read.issue.children'', ''read.issue.comments'',
     ''read.pr.get'', ''read.pr.list'', ''read.pr.files'', ''read.pr.checks'', ''read.workflow.runs'', ''repo.status'']"

definition abandon_read_request :: "string \<Rightarrow> unit op" where
  "abandon_read_request key d =
     (let P = (\<lambda>r. br_idempotency_key r = key \<and> br_operation r \<in> set abandoned_operations);
          d' = d\<lparr>broker_requests := filter (\<lambda>r. \<not> P r) (broker_requests d)\<rparr> in
      if count_where P (broker_requests d) \<notin> {0, 1}
      then (Inl (StateError ''unexpected read-request cleanup result''), d')
      else (Inr (), d'))"

definition terminal_request_state :: "string \<Rightarrow> request_state option" where
  "terminal_request_state = map_of [(''succeeded'', R_succeeded), (''failed'', R_failed),
     (''verify_pending'', R_verify_pending)]"

definition finish_request :: "instant \<Rightarrow> string \<Rightarrow> string \<Rightarrow> json \<Rightarrow> unit op" where
  "finish_request now key state response d =
     (case terminal_request_state state of
        None \<Rightarrow> (Inl (StateError (''invalid request terminal state: '' @ state)), d)
      | Some st \<Rightarrow> (Inr (), d\<lparr>broker_requests := update_where (\<lambda>r. br_idempotency_key r = key)
          (\<lambda>r. r\<lparr>br_state := st, br_response_json := Some response, br_updated_at := utcnow now\<rparr>)
          (broker_requests d)\<rparr>))"

definition pending_broker_verifications :: "db \<Rightarrow> broker_request list" where
  "pending_broker_verifications d =
     sort_key (\<lambda>r. (br_created_at r, br_idempotency_key r))
       (filter (\<lambda>r. br_state r = R_verify_pending) (broker_requests d))"

definition audit :: "instant \<Rightarrow> session option \<Rightarrow> string \<Rightarrow> string \<Rightarrow> json \<Rightarrow> string option \<Rightarrow> db \<Rightarrow> db" where
  "audit now sn operation decision detail request_hash d =
     d\<lparr>audit_entries := audit_entries d @
        [\<lparr>ae_recorded_at = utcnow now, ae_session_id = map_option sn_session_id sn, ae_role = map_option sn_role sn,
          ae_policy_digest = map_option sn_policy_digest sn, ae_operation = operation,
          ae_request_hash = request_hash, ae_decision = decision, ae_detail = detail\<rparr>]\<rparr>"

section \<open>Reconciliation operations\<close>

definition reconcile_row :: "string \<Rightarrow> db \<Rightarrow> reconcile_operation option" where
  "reconcile_row idempotency_key d = find (\<lambda>r. rc_idempotency_key r = idempotency_key) (reconcile_operations d)"

definition new_reconcile :: "string \<Rightarrow> string \<Rightarrow> string \<Rightarrow> string \<Rightarrow> string \<Rightarrow> string \<Rightarrow> reconcile_operation" where
  "new_reconcile now operation_id idempotency_key source_key operation precondition_json =
     \<lparr>rc_operation_id = operation_id, rc_idempotency_key = idempotency_key, rc_source_key = source_key,
      rc_operation = operation, rc_precondition_json = precondition_json, rc_state = C_planned,
      rc_external_result = None, rc_created_at = now, rc_updated_at = now\<rparr>"

definition reserve_reconcile ::
  "instant \<Rightarrow> string \<Rightarrow> string \<Rightarrow> string \<Rightarrow> string \<Rightarrow> json \<Rightarrow> reconcile_operation op" where
  "reserve_reconcile now uuid idempotency_key source_key operation precondition d =
     (if operation \<notin> {''create'', ''move'', ''close''}
      then (Inl (StateError ''unsupported reconciliation operation''), d)
      else immediate (\<lambda>d.
        case reconcile_row idempotency_key d of
          Some existing \<Rightarrow>
            if (rc_source_key existing, rc_operation existing, rc_precondition_json existing)
               \<noteq> (source_key, operation, dumps precondition)
            then (Inl (StateError ''reconciliation idempotency key was reused''), d)
            else (Inr existing, d)
        | None \<Rightarrow>
            if list_ex (\<lambda>r. rc_operation_id r = uuid) (reconcile_operations d)
            then (Inl (unique_failed ''reconcile_operation.operation_id''), d)
            else let row = new_reconcile (utcnow now) uuid idempotency_key source_key operation (dumps precondition) in
              (Inr row, d\<lparr>reconcile_operations := reconcile_operations d @ [row]\<rparr>)) d)"

definition mark_reconcile_applying :: "instant \<Rightarrow> string \<Rightarrow> unit op" where
  "mark_reconcile_applying now operation_id d =
     (let P = (\<lambda>r. rc_operation_id r = operation_id \<and> rc_state r = C_planned);
          d' = d\<lparr>reconcile_operations := update_where P
                 (\<lambda>r. r\<lparr>rc_state := C_applying, rc_updated_at := utcnow now\<rparr>) (reconcile_operations d)\<rparr> in
      if count_where P (reconcile_operations d) \<noteq> 1
      then (Inl (StateError ''reconciliation operation is not applicable''), d')
      else (Inr (), d'))"

definition final_reconcile_state :: "string \<Rightarrow> reconcile_state option" where
  "final_reconcile_state = map_of [(''verify_pending'', C_verify_pending), (''succeeded'', C_succeeded),
     (''dead_letter'', C_dead_letter)]"

definition reconcile_allowed :: "reconcile_state \<Rightarrow> reconcile_state set" where
  "reconcile_allowed st =
     (case st of C_applying \<Rightarrow> {C_verify_pending, C_succeeded, C_dead_letter}
      | C_verify_pending \<Rightarrow> {C_succeeded, C_dead_letter} | _ \<Rightarrow> {})"

definition finish_reconcile :: "instant \<Rightarrow> string \<Rightarrow> string \<Rightarrow> json option \<Rightarrow> unit op" where
  "finish_reconcile now operation_id state result d =
     (case final_reconcile_state state of
        None \<Rightarrow> (Inl (StateError ''invalid reconciliation terminal state''), d)
      | Some st \<Rightarrow> immediate (\<lambda>d.
          case find (\<lambda>r. rc_operation_id r = operation_id) (reconcile_operations d) of
            None \<Rightarrow> (Inl (StateError ''reconciliation operation cannot transition from its current state''), d)
          | Some row \<Rightarrow>
              if st \<notin> reconcile_allowed (rc_state row)
              then (Inl (StateError ''reconciliation operation cannot transition from its current state''), d)
              else (Inr (), d\<lparr>reconcile_operations := update_where
                (\<lambda>r. rc_operation_id r = operation_id \<and> rc_state r = rc_state row)
                (\<lambda>r. r\<lparr>rc_state := st, rc_external_result := result, rc_updated_at := utcnow now\<rparr>)
                (reconcile_operations d)\<rparr>)) d)"

definition pending_reconciliations :: "db \<Rightarrow> reconcile_operation list" where
  "pending_reconciliations d =
     sort_key (\<lambda>r. (rc_created_at r, rc_operation_id r))
       (filter (\<lambda>r. rc_state r = C_verify_pending) (reconcile_operations d))"

section \<open>The contract of a journal\<close>

text \<open>A journal binds a key to the identity of the request that reserved it: a reservation of a
  bound key either agrees with that identity and changes nothing, or is refused.\<close>

locale journal =
  fixes entry :: "db \<Rightarrow> string \<Rightarrow> 'e option"
    and identity :: "'e \<Rightarrow> 'j"
    and canonical :: "'i \<Rightarrow> 'j"
    and accepts :: "'i \<Rightarrow> bool"
    and reserve :: "'p \<Rightarrow> string \<Rightarrow> 'i \<Rightarrow> 'r op"
  assumes reserve_fresh: "entry d k = None \<Longrightarrow> reserve p k i d = (Inr r, d') \<Longrightarrow>
      accepts i \<and> (\<exists>e. entry d' k = Some e \<and> identity e = canonical i)"
    and reserve_other: "reserve p k i d = (Inr r, d') \<Longrightarrow> k' \<noteq> k \<Longrightarrow> entry d' k' = entry d k'"
    and reserve_same: "entry d k = Some e \<Longrightarrow> identity e = canonical i \<Longrightarrow> accepts i \<Longrightarrow> \<exists>r. reserve p k i d = (Inr r, d)"
    and reserve_reused: "entry d k = Some e \<Longrightarrow> identity e \<noteq> canonical i \<Longrightarrow> \<exists>m. reserve p k i d = (Inl (StateError m), d)"
    and reserve_refused: "\<not> accepts i \<Longrightarrow> \<exists>m. reserve p k i d = (Inl (StateError m), d)"
    and reserve_error: "reserve p k i d = (Inl x, d') \<Longrightarrow> d' = d"
begin

lemma reserve_accepts: "reserve p k i d = (Inr r, d') \<Longrightarrow> accepts i"
  using reserve_refused [of i p k d] by auto

lemma reserve_agrees:
  assumes "entry d k = Some e" and "reserve p k i d = (Inr r, d')"
  shows "identity e = canonical i" and "d' = d"
proof -
  show id: "identity e = canonical i"
    using reserve_reused [OF assms(1), of i p] assms(2) by auto
  show "d' = d"
    using reserve_same [OF assms(1) id reserve_accepts [OF assms(2)], of p] assms(2) by auto
qed

lemma reserve_binds:
  assumes "reserve p k i d = (Inr r, d')"
  shows "\<exists>e. entry d' k = Some e \<and> identity e = canonical i"
proof (cases "entry d k")
  case None
  then show ?thesis using reserve_fresh assms by blast
next
  case (Some e)
  then show ?thesis using reserve_agrees [OF Some assms] by simp
qed

lemma reserve_idempotent:
  assumes "reserve p k i d = (Inr r, d')"
  shows "\<exists>r'. reserve p' k i d' = (Inr r', d')"
  using reserve_binds [OF assms] reserve_same reserve_accepts [OF assms] by blast

lemma reserve_no_reuse:
  assumes "reserve p k i d = (Inr r, d')" and "canonical j \<noteq> canonical i"
  shows "\<exists>m. reserve p' k j d' = (Inl (StateError m), d')"
  using reserve_binds [OF assms(1)] reserve_reused assms(2) by metis

lemma reserve_keeps_bound:
  assumes "entry d k' = Some e" and "reserve p k i d = (r, d')"
  shows "entry d' k' = Some e"
proof (cases r)
  case (Inl x)
  then show ?thesis using assms reserve_error by blast
next
  case (Inr y)
  show ?thesis
  proof (cases "k' = k")
    case True
    then show ?thesis using reserve_agrees(2) [of d k e p i y d'] assms Inr by simp
  qed (use Inr reserve_other assms in metis)
qed

end

lemma find_append_key:
  "find P (xs @ [x]) = (case find P xs of None \<Rightarrow> (if P x then Some x else None) | Some y \<Rightarrow> Some y)"
  by (induction xs) auto

interpretation requests: journal
  "\<lambda>d k. request_row k d"
  "\<lambda>r. (br_session_id r, br_operation r, br_arguments_hash r, br_arguments_json r)"
  "\<lambda>(session_id, operation, arguments_hash, arguments). (session_id, operation, arguments_hash, dumps arguments)"
  "\<lambda>_. True"
  "\<lambda>now key (session_id, operation, arguments_hash, arguments).
     reserve_request now session_id key operation arguments_hash arguments"
proof unfold_locales
  fix d k p r d' and i :: "string \<times> string \<times> string \<times> json"
  obtain sid op h a where i: "i = (sid, op, h, a)" by (metis prod_cases4)
  let ?reserve = "\<lambda>now key (session_id, operation, arguments_hash, arguments).
     reserve_request now session_id key operation arguments_hash arguments"
  show "True \<and> (\<exists>e. request_row k d' = Some e \<and>
      (br_session_id e, br_operation e, br_arguments_hash e, br_arguments_json e)
      = (case i of (session_id, operation, arguments_hash, arguments) \<Rightarrow> (session_id, operation, arguments_hash, dumps arguments)))"
    if "request_row k d = None" "?reserve p k i d = (Inr r, d')"
    using that i
    by (auto simp: reserve_request_def immediate_Inr request_row_def find_append_key new_request_def split: if_splits)
  show "request_row k' d' = request_row k' d" if "?reserve p k i d = (Inr r, d')" "k' \<noteq> k" for k'
    using that i
    by (auto simp: reserve_request_def immediate_Inr request_row_def find_append_key new_request_def
        split: if_splits option.splits)
qed (auto simp: reserve_request_def immediate_def split: option.splits if_splits)

interpretation reconciliations: journal
  "\<lambda>d k. reconcile_row k d"
  "\<lambda>r. (rc_source_key r, rc_operation r, rc_precondition_json r)"
  "\<lambda>(source_key, operation, precondition). (source_key, operation, dumps precondition)"
  "\<lambda>(source_key, operation, precondition). operation \<in> {''create'', ''move'', ''close''}"
  "\<lambda>(now, uuid) key (source_key, operation, precondition). reserve_reconcile now uuid key source_key operation precondition"
proof unfold_locales
  fix d k d' and i :: "string \<times> string \<times> json" and p :: "instant \<times> string" and r
  obtain sk op a where i: "i = (sk, op, a)" by (metis prod_cases3)
  obtain now u where p: "p = (now, u)" by (metis prod.exhaust)
  let ?reserve = "\<lambda>(now, uuid) key (source_key, operation, precondition). reserve_reconcile now uuid key source_key operation precondition"
  show "(case i of (source_key, operation, precondition) \<Rightarrow> operation \<in> {''create'', ''move'', ''close''})
      \<and> (\<exists>e. reconcile_row k d' = Some e \<and> (rc_source_key e, rc_operation e, rc_precondition_json e)
      = (case i of (source_key, operation, precondition) \<Rightarrow> (source_key, operation, dumps precondition)))"
    if "reconcile_row k d = None" "?reserve p k i d = (Inr r, d')"
    using that i p
    by (auto simp: reserve_reconcile_def immediate_Inr reconcile_row_def find_append_key new_reconcile_def Let_def
        split: if_splits)
  show "reconcile_row k' d' = reconcile_row k' d" if "?reserve p k i d = (Inr r, d')" "k' \<noteq> k" for k'
    using that i p
    by (auto simp: reserve_reconcile_def immediate_Inr reconcile_row_def find_append_key new_reconcile_def Let_def
        split: if_splits option.splits)
qed (auto simp: reserve_reconcile_def immediate_def Let_def split: option.splits if_splits)

end
