(* ===== verification/Store.thy ===== *)
theory Store
  imports Runtime Requests
begin

text \<open>
  The store of \<^verbatim>\<open>control/sjg_control/store.py\<close> as a transition system. A call of a store operation
  is a \<open>store_event\<close>, and \<open>store_run\<close> gives the database after the call, whether it returned or
  raised. \<open>reachable\<close> closes the empty database under the calls that \<open>admissible\<close> allows: every
  call uses the one agent cap of the policy, and \<^verbatim>\<open>workers.py\<close> starts only an attempt that is
  still live. The invariants of the components hold in every reachable database.
\<close>

section \<open>Calls\<close>

datatype session_event =
    Create_session instant string string string string string "string set" "string option" int
  | Revoke_session string
  | Finish_session string
  | Force_terminate instant string bool
  | Reap_expired instant string
  | Reserve_worker instant instant string string string int int
  | Start_attempt string
  | Succeed_attempt string string string
  | Fail_attempt string string

datatype budget_event =
    Reserve_budget instant string string string int "(string \<times> string \<times> int) list"
  | Settle_budget string int
  | Mark_uncertain string
  | Release_budget string

datatype journal_event =
    Reserve_request instant string string string string json
  | Mark_applying instant string
  | Abandon_read string
  | Finish_request instant string string json
  | Audit instant "session option" string string json "string option"
  | Reserve_reconcile instant string string string string json
  | Mark_reconcile instant string
  | Finish_reconcile instant string string "json option"

datatype source_event =
    Checkpoint string string
  | Begin_snapshot instant string string
  | Stage_observation string string string string string json
  | Finish_snapshot instant string bool int "string option" "string option" "string option" "string option" "string option"
  | Set_value instant string json

datatype queue_event =
    Finish_routing string "string option"
  | Add_route string string
  | Enqueue instant string string "string list" string "string option"
  | Lease instant string int int
  | Start_delivery string string string
  | Finish_delivery instant string string string "string option" "string option"
  | Release_hold instant string "string option"
  | Force_uncertain string string

datatype runtime_event =
    Prepare_wake instant session "string option" string string string
  | Mark_wake_running string
  | Finish_wake instant string string "string option" "string option"
  | Record_process instant string string "string option" string int int string
  | Finish_process instant string string "int option"
  | Recover_orphan string "string option" "string option" string
  | Recover_prepared instant string string string
  | Doubt_wake instant string

datatype store_event =
    Session session_event | Budget budget_event | Journal journal_event
  | Source source_event | Queue queue_event | Runtime runtime_event

fun session_run :: "int \<Rightarrow> session_event \<Rightarrow> db \<Rightarrow> db" where
  "session_run cap (Create_session now u1 u2 org_id role dig al w ttl) d = snd (create_session now u1 u2 org_id role dig al w ttl cap d)"
| "session_run cap (Revoke_session i) d = snd (revoke_session i d)"
| "session_run cap (Finish_session i) d = snd (finish_session i d)"
| "session_run cap (Force_terminate now i expired) d = snd (force_terminate_session now i expired d)"
| "session_run cap (Reap_expired now i) d = snd (reap_expired_session now i d)"
| "session_run cap (Reserve_worker now1 now2 u i wt cumulative concurrent) d
    = snd (reserve_worker now1 now2 u i wt cumulative concurrent cap d)"
| "session_run cap (Start_attempt a) d = start_attempt a d"
| "session_run cap (Succeed_attempt stamp a h) d = succeed_attempt stamp a h d"
| "session_run cap (Fail_attempt stamp a) d = fail_attempt stamp a d"

fun budget_run :: "budget_event \<Rightarrow> db \<Rightarrow> db" where
  "budget_run (Reserve_budget now u i epoch n buckets) d = snd (reserve_budget now u i epoch n buckets d)"
| "budget_run (Settle_budget rid n) d = snd (settle_budget rid n d)"
| "budget_run (Mark_uncertain rid) d = snd (mark_budget_uncertain rid d)"
| "budget_run (Release_budget rid) d = snd (release_budget rid d)"

fun journal_run :: "journal_event \<Rightarrow> db \<Rightarrow> db" where
  "journal_run (Reserve_request now i k op h a) d = snd (reserve_request now i k op h a d)"
| "journal_run (Mark_applying now k) d = snd (mark_request_applying now k d)"
| "journal_run (Abandon_read k) d = snd (abandon_read_request k d)"
| "journal_run (Finish_request now k st r) d = snd (finish_request now k st r d)"
| "journal_run (Audit now sn op dec det h) d = audit now sn op dec det h d"
| "journal_run (Reserve_reconcile now u k sk op p) d = snd (reserve_reconcile now u k sk op p d)"
| "journal_run (Mark_reconcile now i) d = snd (mark_reconcile_applying now i d)"
| "journal_run (Finish_reconcile now i st r) d = snd (finish_reconcile now i st r d)"

fun source_run :: "(string \<Rightarrow> string) \<Rightarrow> source_event \<Rightarrow> db \<Rightarrow> db" where
  "source_run uuid5 (Checkpoint s w) d = snd (checkpoint s w d)"
| "source_run uuid5 (Begin_snapshot now u s) d = snd (begin_snapshot now u s d)"
| "source_run uuid5 (Stage_observation sid s e v t p) d = snd (stage_observation uuid5 sid s e v t p d)"
| "source_run uuid5 (Finish_snapshot now sid c pc mx nw qf et er) d = snd (finish_snapshot now sid c pc mx nw qf et er d)"
| "source_run uuid5 (Set_value now k v) d = snd (set_supervisor_value now k v d)"

fun queue_run :: "queue_event \<Rightarrow> db \<Rightarrow> db" where
  "queue_run (Finish_routing e role) d = snd (finish_event_routing e role d)"
| "queue_run (Add_route e role) d = snd (add_route e role d)"
| "queue_run (Enqueue now u role es k el) d = snd (enqueue_delivery now u role es k el d)"
| "queue_run (Lease now own secs m) d = snd (lease_delivery now own secs m d)"
| "queue_run (Start_delivery ts i own) d = snd (start_delivery ts i own d)"
| "queue_run (Finish_delivery now i own oc err el) d = snd (finish_delivery now i own oc err el d)"
| "queue_run (Release_hold now i el) d = snd (release_budget_hold now i el d)"
| "queue_run (Force_uncertain i err) d = snd (force_delivery_uncertain i err d)"

fun runtime_run :: "runtime_event \<Rightarrow> db \<Rightarrow> db" where
  "runtime_run (Prepare_wake now sn del rid sock reason) d = snd (prepare_wake now sn del rid sock reason d)"
| "runtime_run (Mark_wake_running w) d = snd (mark_wake_running w d)"
| "runtime_run (Finish_wake now w st h err) d = snd (finish_wake now w st h err d)"
| "runtime_run (Record_process now pk i a kind pid pgid tok) d = snd (record_process now pk i a kind pid pgid tok d)"
| "runtime_run (Finish_process now pk st code) d = snd (finish_process now pk st code d)"
| "runtime_run (Recover_orphan i del el err) d = snd (recover_orphan_session i del el err d)"
| "runtime_run (Recover_prepared now w el err) d = snd (recover_prepared_wake now w el err d)"
| "runtime_run (Doubt_wake now i) d = doubt_wake now i d"

fun store_run :: "int \<Rightarrow> (string \<Rightarrow> string) \<Rightarrow> store_event \<Rightarrow> db \<Rightarrow> db" where
  "store_run cap uuid5 (Session e) d = session_run cap e d"
| "store_run cap uuid5 (Budget e) d = budget_run e d"
| "store_run cap uuid5 (Journal e) d = journal_run e d"
| "store_run cap uuid5 (Source e) d = source_run uuid5 e d"
| "store_run cap uuid5 (Queue e) d = queue_run e d"
| "store_run cap uuid5 (Runtime e) d = runtime_run e d"

definition starts_live :: "session_event \<Rightarrow> db \<Rightarrow> bool" where
  "starts_live e d = (case e of Start_attempt a \<Rightarrow>
     list_all (\<lambda>r. wa_attempt_id r = a \<longrightarrow> live_attempt r) (worker_attempts d) | _ \<Rightarrow> True)"

definition admissible :: "store_event \<Rightarrow> db \<Rightarrow> bool" where
  "admissible e d = (case e of Session s \<Rightarrow> starts_live s d | _ \<Rightarrow> True)"

inductive reachable :: "int \<Rightarrow> (string \<Rightarrow> string) \<Rightarrow> db \<Rightarrow> bool" for cap uuid5 where
  start: "reachable cap uuid5 empty_db"
| call: "reachable cap uuid5 d \<Longrightarrow> admissible e d \<Longrightarrow> reachable cap uuid5 (store_run cap uuid5 e d)"

section \<open>Invariants of a transition system\<close>

text \<open>A property of the start that every admissible step keeps holds in every reachable state.\<close>

locale step_invariant =
  fixes cap :: int and uuid5 :: "string \<Rightarrow> string" and I :: "db \<Rightarrow> bool"
  assumes initially: "I empty_db"
    and keeps: "I d \<Longrightarrow> admissible e d \<Longrightarrow> I (store_run cap uuid5 e d)"
begin

lemma always: "reachable cap uuid5 d \<Longrightarrow> I d"
  by (induction rule: reachable.induct) (simp_all add: initially keeps)

end

end
