(* ===== verification/Store_Invariants.thy ===== *)
theory Store_Invariants
  imports Store
begin

text \<open>
  Every call of the store keeps the invariants of its components: sessions and workers
  (\<open>session_inv\<close>), the budget (\<open>budget_inv\<close>), the delivery queue (\<open>delivery_inv\<close>), the observed
  events (\<open>events_unique\<close>) and the cap of live agents. The frame lemmas say which tables the calls
  of a component leave alone; \<open>store_inv\<close> collects the invariants and interprets the transition
  system of \<^verbatim>\<open>Store\<close>.
\<close>

section \<open>Frames\<close>

text \<open>The tables that an invariant reads are the same in two databases.\<close>

definition same_sessions :: "db \<Rightarrow> db \<Rightarrow> bool" where
  "same_sessions d d' \<longleftrightarrow> wake_sessions d' = wake_sessions d \<and> worker_attempts d' = worker_attempts d"

definition same_budget :: "db \<Rightarrow> db \<Rightarrow> bool" where
  "same_budget d d' \<longleftrightarrow> budget_buckets d' = budget_buckets d \<and> budget_reservations d' = budget_reservations d"

definition same_queue :: "db \<Rightarrow> db \<Rightarrow> bool" where
  "same_queue d d' \<longleftrightarrow> deliveries d' = deliveries d \<and> route_targets d' = route_targets d \<and> delivery_events d' = delivery_events d"

definition same_events :: "db \<Rightarrow> db \<Rightarrow> bool" where
  "same_events d d' \<longleftrightarrow> observed_events d' = observed_events d"

lemmas same_tables = same_sessions_def same_budget_def same_queue_def same_events_def

lemma journal_run_frame:
  "same_sessions d (journal_run e d)" "same_budget d (journal_run e d)" "same_queue d (journal_run e d)"
  "same_events d (journal_run e d)"
  by (cases e; simp add: same_tables reserve_request_def mark_request_applying_def abandon_read_request_def
      finish_request_def audit_def reserve_reconcile_def mark_reconcile_applying_def finish_reconcile_def
      snd_immediate Let_def split: option.split if_split)+

lemma source_run_frame:
  "same_sessions d (source_run f e d)" "same_budget d (source_run f e d)" "same_queue d (source_run f e d)"
  by (cases e; simp add: same_tables checkpoint_def begin_snapshot_def stage_observation_def finish_snapshot_def
      set_supervisor_value_def close_snapshot_def snd_immediate Let_def split: option.split if_split)+

lemma fold_frame: "(\<And>x d. g (f x d) = g d) \<Longrightarrow> g (fold f xs d) = g d"
  by (induction xs arbitrary: d) simp_all

lemma lease_delivery_frame:
  "same_sessions d (snd (lease_delivery now own secs m d))" "same_budget d (snd (lease_delivery now own secs m d))"
  "same_events d (snd (lease_delivery now own secs m d))"
proof -
  let ?d1 = "\<lambda>t. exhaust_waiting m (expire_leases t (expire_running t d))"
  have "wake_sessions (?d1 t) = wake_sessions d" "worker_attempts (?d1 t) = worker_attempts d"
    "budget_buckets (?d1 t) = budget_buckets d" "budget_reservations (?d1 t) = budget_reservations d"
    "observed_events (?d1 t) = observed_events d" for t
    by (simp_all add: exhaust_waiting_def expire_leases_def expire_running_def fold_frame exhaust_def quarantine_def
        set_routes_def set_delivery_def)
  then show "same_sessions d (snd (lease_delivery now own secs m d))" "same_budget d (snd (lease_delivery now own secs m d))"
    "same_events d (snd (lease_delivery now own secs m d))"
    by (simp_all add: same_tables lease_delivery_def snd_immediate Let_def take_lease_def set_routes_def split: list.split)
qed

lemma bind_events_frame:
  "bind_events i role es d = Inr d' \<Longrightarrow> same_sessions d d' \<and> same_budget d d' \<and> same_events d d'"
proof (induction es arbitrary: d)
  case (Cons e es)
  then show ?case by (fastforce simp: Let_def same_tables split: if_splits)
qed (simp add: same_tables)

lemma enqueue_delivery_frame:
  "same_sessions d (snd (enqueue_delivery now u role es k el d)) \<and> same_budget d (snd (enqueue_delivery now u role es k el d))
   \<and> same_events d (snd (enqueue_delivery now u role es k el d))"
proof (cases "bind_events u role (sort (remdups es))
    (d\<lparr>deliveries := deliveries d @ [new_delivery u k role (text_or el (utcnow now))]\<rparr>)")
  case (Inl e)
  then show ?thesis by (simp add: enqueue_delivery_def snd_immediate Let_def same_tables split: option.split)
next
  case (Inr d')
  from bind_events_frame [OF this] show ?thesis
    by (simp add: enqueue_delivery_def snd_immediate Let_def same_tables Inr split: option.split)
qed

lemma queue_run_frame: "same_sessions d (queue_run e d)" "same_budget d (queue_run e d)"
proof -
  have r: "insert_route x r d = Inr d' \<Longrightarrow> same_sessions d d' \<and> same_budget d d'" for x r d'
    by (auto simp: insert_route_def same_tables split: if_splits)
  show "same_sessions d (queue_run e d)" "same_budget d (queue_run e d)"
    using lease_delivery_frame enqueue_delivery_frame r
    by (cases e; auto simp: same_tables finish_event_routing_def add_route_def start_delivery_def finish_delivery_def
        release_budget_hold_def force_delivery_uncertain_def set_routes_def set_delivery_def snd_immediate Let_def
        split: option.split sum.split)+
qed


lemma adjust_bucket_frame: "same_sessions d (adjust_bucket a b k d) \<and> same_queue d (adjust_bucket a b k d) \<and> same_events d (adjust_bucket a b k d)"
  by (simp add: adjust_bucket_def same_tables)

lemma check_buckets_frame:
  "check_buckets epoch n bs d = Inr d' \<Longrightarrow> same_sessions d d' \<and> same_queue d d' \<and> same_events d d'"
proof (induction epoch n bs d rule: check_buckets.induct)
  case (2 epoch n scope subject limit bs d)
  then have "same_sessions (insert_bucket_or_ignore (scope, subject, epoch) limit d) d'
      \<and> same_queue (insert_bucket_or_ignore (scope, subject, epoch) limit d) d'
      \<and> same_events (insert_bucket_or_ignore (scope, subject, epoch) limit d) d'"
    by (auto simp: Let_def split: if_splits option.splits)
  then show ?case by (simp add: insert_bucket_or_ignore_def same_tables split: if_splits)
qed (simp add: same_tables)

lemma hold_buckets_frame:
  "same_sessions d (hold_buckets epoch n bs d) \<and> same_queue d (hold_buckets epoch n bs d) \<and> same_events d (hold_buckets epoch n bs d)"
  by (induction epoch n bs d rule: hold_buckets.induct) (simp_all add: same_tables adjust_bucket_def)

lemma release_buckets_frame:
  "release_buckets m n ks d = Inr d' \<Longrightarrow> same_sessions d d' \<and> same_queue d d' \<and> same_events d d'"
  by (induction m n ks d rule: release_buckets.induct) (simp_all add: same_tables split: if_splits)

lemma reserve_budget_frame:
  "same_sessions d (snd (reserve_budget now u i epoch n bs d)) \<and> same_queue d (snd (reserve_budget now u i epoch n bs d))
   \<and> same_events d (snd (reserve_budget now u i epoch n bs d))"
proof (cases "reserve_budget now u i epoch n bs d")
  case (Pair r d')
  show ?thesis
  proof (cases r)
    case (Inr rid)
    with Pair have "reserve_budget now u i epoch n bs d = (Inr rid, d')" by simp
    then obtain d1 r where c: "check_buckets epoch n bs d = Inr d1" "insert_reservation r (hold_buckets epoch n bs d1) = Inr d'"
      by (rule reserve_budget_Inr) blast
    from c(2) have "same_sessions (hold_buckets epoch n bs d1) d' \<and> same_queue (hold_buckets epoch n bs d1) d'
      \<and> same_events (hold_buckets epoch n bs d1) d'" by (auto simp: insert_reservation_Inr same_tables)
    with check_buckets_frame [OF c(1)] hold_buckets_frame [of d1 epoch n bs] Pair show ?thesis by (simp add: same_tables)
  qed (use Pair reserve_budget_Inl [of now u i epoch n bs d _ d'] in \<open>auto simp: same_tables\<close>)
qed

lemma settle_budget_frame:
  "same_sessions d (snd (settle_budget rid n d)) \<and> same_queue d (snd (settle_budget rid n d))
   \<and> same_events d (snd (settle_budget rid n d))"
proof -
  have g: "same_sessions d (fold (adjust_bucket a b) ks d) \<and> same_queue d (fold (adjust_bucket a b) ks d)
    \<and> same_events d (fold (adjust_bucket a b) ks d)" for a b ks
    by (simp add: same_tables fold_frame adjust_bucket_def)
  show ?thesis
  proof (cases "settle_budget rid n d")
    case (Pair r d')
    then have "d' = d \<or> (\<exists>a b ks st. d' = set_reservation st rid (fold (adjust_bucket a b) ks d))"
      by (auto simp: settle_budget_def immediate_def Let_def split: if_split_asm option.split_asm)
    with Pair g show ?thesis by (auto simp: same_tables set_reservation_def)
  qed
qed

lemma release_budget_frame:
  "same_sessions d (snd (release_budget rid d)) \<and> same_queue d (snd (release_budget rid d))
   \<and> same_events d (snd (release_budget rid d))"
  using release_buckets_frame
  by (auto simp: release_budget_def snd_immediate same_tables set_reservation_def split: option.split sum.split)

lemma budget_run_frame: "same_sessions d (budget_run e d)" "same_queue d (budget_run e d)" "same_events d (budget_run e d)"
proof -
  have m: "same_sessions d (doubt P d) \<and> same_queue d (doubt P d) \<and> same_events d (doubt P d)" for P
    by (simp add: doubt_def same_tables)
  show "same_sessions d (budget_run e d)" "same_queue d (budget_run e d)" "same_events d (budget_run e d)"
    by (cases e; simp add: reserve_budget_frame settle_budget_frame release_budget_frame mark_budget_uncertain_doubt m)+
qed

lemma session_run_frame: "same_queue d (session_run cap e d)" "same_events d (session_run cap e d)"
  "budget_buckets (session_run cap e d) = budget_buckets d"
proof -
  have i: "insert_session r d = Inr d' \<Longrightarrow> same_queue d d' \<and> same_events d d' \<and> budget_buckets d' = budget_buckets d" for r d'
    by (auto simp: insert_session_Inr same_tables)
  have a: "insert_attempt r d = Inr d' \<Longrightarrow> same_queue d d' \<and> same_events d d' \<and> budget_buckets d' = budget_buckets d" for r d'
    by (auto simp: insert_attempt_Inr same_tables)
  have "same_queue d (session_run cap e d) \<and> same_events d (session_run cap e d)
    \<and> budget_buckets (session_run cap e d) = budget_buckets d"
    using i a
    by (cases e) (auto simp: same_tables create_session_def revoke_session_def finish_session_def force_terminate_session_def
        reap_expired_session_def reserve_worker_def start_attempt_def succeed_attempt_def fail_attempt_def
        close_session_def fail_live_attempts_def doubt_reservations_def terminate_wakes_def
        snd_immediate Let_def split: option.split sum.split)
  then show "same_queue d (session_run cap e d)" "same_events d (session_run cap e d)"
    "budget_buckets (session_run cap e d) = budget_buckets d" by simp_all
qed

section \<open>Sessions\<close>

lemma session_run_inv: "session_inv d \<Longrightarrow> session_inv (session_run cap e d)"
  by (cases e) (simp_all add: create_session_inv reserve_worker_inv revoke_session_inv finish_session_inv
      force_terminate_session_inv reap_expired_session_inv start_attempt_inv succeed_attempt_inv fail_attempt_inv)

definition agents_capped :: "int \<Rightarrow> db \<Rightarrow> bool" where
  "agents_capped cap d \<longleftrightarrow> (\<forall>org_id. int (agents org_id d) \<le> max 0 cap)"

lemma capped_le: "agents_capped cap d \<Longrightarrow> (\<And>org_id. agents org_id d' \<le> agents org_id d) \<Longrightarrow> agents_capped cap d'"
  unfolding agents_capped_def by (blast intro: order_trans [OF of_nat_mono])

lemma create_session_capped:
  assumes inv: "session_inv d" "agents_capped cap d"
  shows "agents_capped cap (snd (create_session now u1 u2 org_id role dig al w ttl cap d))"
proof (cases "create_session now u1 u2 org_id role dig al w ttl cap d")
  case (Pair r d')
  show ?thesis
  proof (cases r)
    case (Inl e)
    with Pair have "d' = d" by (auto simp: create_session_def Let_def immediate_Inl split: if_splits)
    with Pair inv show ?thesis by simp
  next
    case (Inr s)
    with Pair have c: "create_session now u1 u2 org_id role dig al w ttl cap d = (Inr s, d')" by simp
    have "int (agents x d') \<le> max 0 cap" for x
      using create_session_agents(2,3) [OF inv(1) c] inv(2) unfolding agents_capped_def
      by (cases "x = org_id") (auto simp: le_max_iff_disj)
    with Pair show ?thesis by (simp add: agents_capped_def)
  qed
qed

lemma reserve_worker_capped:
  assumes inv: "session_inv d" "agents_capped cap d"
  shows "agents_capped cap (snd (reserve_worker now1 now2 u i wt cum con cap d))"
proof (cases "reserve_worker now1 now2 u i wt cum con cap d")
  case (Pair r d')
  show ?thesis
  proof (cases r)
    case (Inl e)
    with Pair have "d' = d" by (auto simp: reserve_worker_def immediate_Inl)
    with Pair inv show ?thesis by simp
  next
    case (Inr a)
    with Pair have c: "reserve_worker now1 now2 u i wt cum con cap d = (Inr a, d')" by simp
    have "int (agents x d') \<le> max 0 cap" for x
      using reserve_worker_agents [OF inv(1) c, of x] inv(2) unfolding agents_capped_def
      by (metis le_max_iff_disj of_nat_mono order_trans)
    with Pair show ?thesis by (simp add: agents_capped_def)
  qed
qed

lemma session_run_capped:
  assumes "session_inv d" "agents_capped cap d" "starts_live e d"
  shows "agents_capped cap (session_run cap e d)"
proof (cases e)
  case (Start_attempt a)
  then have "live_attempt r" if "r \<in> set (worker_attempts d)" "wa_attempt_id r = a" for r
    using assms(3) that by (auto simp: starts_live_def list_all_iff)
  then have "agents x (start_attempt a d) \<le> agents x d" for x by (rule start_attempt_agents) blast
  then show ?thesis using capped_le [OF assms(2)] Start_attempt by simp
qed (use assms in \<open>simp_all add: create_session_capped reserve_worker_capped capped_le revoke_session_agents
    finish_session_agents force_terminate_session_agents reap_expired_session_agents succeed_attempt_agents
    fail_attempt_agents\<close>)

section \<open>Budget\<close>

lemma append_session_owner: "owner d i \<noteq> None \<Longrightarrow> owner (d\<lparr>wake_sessions := wake_sessions d @ [r]\<rparr>) i = owner d i"
  by (auto simp: owner_def session_row_def find_append_key split: option.splits)

lemma append_session_budget: "budget_inv d \<Longrightarrow> budget_inv (d\<lparr>wake_sessions := wake_sessions d @ [r]\<rparr>)"
  using budget_inv_cong [of "d\<lparr>wake_sessions := wake_sessions d @ [r]\<rparr>" d]
  by (simp add: budget_inv_def reservations_ok_def append_session_owner)

lemma same_budget_inv: "same_budget d d' \<Longrightarrow> wake_sessions d' = wake_sessions d \<Longrightarrow> budget_inv d' = budget_inv d"
  by (rule budget_inv_cong) (simp_all add: same_tables owner_def session_row_def)

lemma attempts_budget [simp]: "budget_inv (d\<lparr>worker_attempts := was\<rparr>) = budget_inv d"
  by (rule same_budget_inv) (simp_all add: same_tables)

lemma wakes_budget [simp]: "budget_inv (d\<lparr>wake_runtimes := wrs\<rparr>) = budget_inv d"
  by (rule same_budget_inv) (simp_all add: same_tables)

lemma session_run_budget: "budget_inv d \<Longrightarrow> budget_inv (session_run cap e d)"
proof -
  assume inv: "budget_inv d"
  have i: "insert_session r d = Inr d' \<Longrightarrow> budget_inv d'" for r d'
    using inv by (auto simp: insert_session_Inr append_session_budget)
  have a: "insert_attempt r d = Inr d' \<Longrightarrow> budget_inv d'" for r d'
    using inv by (auto simp: insert_attempt_Inr)
  have f: "budget_inv (doubt_reservations i (fail_live_attempts now i d))" for i now
    using inv by (simp add: doubt_reservations_doubt doubt_budget_inv fail_live_attempts_def)
  show ?thesis using inv i a f
    by (cases e) (auto simp: create_session_def revoke_session_def finish_session_def force_terminate_session_def
        reap_expired_session_def reserve_worker_def start_attempt_def succeed_attempt_def fail_attempt_def
        terminate_wakes_def snd_immediate Let_def split: option.split sum.split)
qed

lemma budget_run_inv: "budget_inv d \<Longrightarrow> session_keys_ok d \<Longrightarrow> budget_inv (budget_run e d)"
  by (cases e) (simp_all add: reserve_budget_inv settle_budget_inv release_budget_inv mark_budget_uncertain_doubt
      doubt_budget_inv)

section \<open>Queue and events\<close>

lemma queue_run_inv: "delivery_inv d \<Longrightarrow> delivery_inv (queue_run e d)"
  by (cases e) (simp_all add: finish_event_routing_inv add_route_inv enqueue_delivery_inv lease_delivery_inv
      start_delivery_inv finish_delivery_inv release_budget_hold_inv force_delivery_uncertain_inv)

lemma events_unique_mark:
  "events_unique (update_where P (\<lambda>r. r\<lparr>oe_enrichment_state := st\<rparr>) os) = events_unique os"
  unfolding events_unique_def by (simp add: map_update_where source_identity_def)

lemma queue_run_events: "events_unique (observed_events d) \<Longrightarrow> events_unique (observed_events (queue_run e d))"
proof -
  assume u: "events_unique (observed_events d)"
  have r: "insert_route x r d = Inr d' \<Longrightarrow> observed_events d' = observed_events d" for x r d'
    by (auto simp: insert_route_def split: if_splits)
  show ?thesis
    using u lease_delivery_frame(3) enqueue_delivery_frame r
    by (cases e; auto simp: same_tables finish_event_routing_def add_route_def start_delivery_def finish_delivery_def
        release_budget_hold_def force_delivery_uncertain_def set_routes_def set_delivery_def snd_immediate Let_def
        events_unique_mark split: option.split sum.split)
qed

lemma source_run_events: "events_unique (observed_events d) \<Longrightarrow> events_unique (observed_events (source_run f e d))"
  by (cases e; simp add: checkpoint_def begin_snapshot_def stage_observation_def finish_snapshot_def
      set_supervisor_value_def close_snapshot_def publish_events_def snd_immediate Let_def fold_observe_unique
      split: option.split if_split)

section \<open>Recovery\<close>

text \<open>Both recoveries give back the reservation and the delivery and revoke the session.\<close>

lemma same_sessions_inv: "same_sessions d d' \<Longrightarrow> session_inv d' = session_inv d"
  by (rule session_inv_cong) (simp_all add: same_tables)

lemma same_sessions_agents: "same_sessions d d' \<Longrightarrow> agents_capped cap d' = agents_capped cap d"
  using agents_cong [of d' d] by (simp add: same_tables agents_capped_def)

lemma same_queue_inv: "same_queue d d' \<Longrightarrow> delivery_inv d' = delivery_inv d"
  by (rule delivery_inv_cong) (simp_all add: same_tables)

definition store_inv :: "int \<Rightarrow> db \<Rightarrow> bool" where
  "store_inv cap d \<longleftrightarrow> session_inv d \<and> agents_capped cap d \<and> budget_inv d \<and> delivery_inv d
     \<and> events_unique (observed_events d)"

lemma same_store_inv:
  assumes "same_sessions d d'" "same_budget d d'" "same_queue d d'" "same_events d d'" "store_inv cap d"
  shows "store_inv cap d'"
proof -
  have "wake_sessions d' = wake_sessions d" using assms(1) by (simp add: same_tables)
  from same_budget_inv [OF assms(2) this] same_sessions_inv [OF assms(1)] same_sessions_agents [OF assms(1)]
    same_queue_inv [OF assms(3)] assms(4,5)
  show ?thesis by (simp add: store_inv_def same_tables)
qed

lemma give_back_events:
  assumes "budget_inv d" "give_back i del t err d = Inr d'"
  shows "observed_events d' = observed_events d"
proof -
  have s: "observed_events (settle_effect d r u st) = observed_events d" for r u st by (simp add: settle_effect_def)
  have q: "retry_leased_delivery j t err x = Inr y \<Longrightarrow> observed_events y = observed_events x" for j x y
    by (auto simp: retry_leased_delivery_def set_routes_def set_delivery_def split: option.splits if_splits)
  show ?thesis
    using assms(2) release_reservation_for_inv(3) [OF assms(1)] s q
    by (fastforce simp: give_back_def bindE_eq_Inr split: option.splits)
qed

lemma revoke_returned_inv:
  assumes inv: "store_inv cap d" and "give_back i del t err d = Inr d2"
    and same: "same_sessions d2 d3" "same_budget d2 d3" "same_queue d2 d3" "same_events d2 d3"
  shows "store_inv cap (close_session S_revoked i d3)"
proof -
  have b: "budget_inv d" "delivery_inv d" using inv by (simp_all add: store_inv_def)
  have "same_sessions d d2" using give_back_tables [OF b(1) assms(2)] by (simp add: same_tables)
  then have "store_inv cap d2"
    using inv give_back_inv [OF b assms(2)] give_back_events [OF b(1) assms(2)]
    by (simp add: store_inv_def same_sessions_inv same_sessions_agents)
  with same have "store_inv cap d3" by (rule same_store_inv)
  moreover have "observed_events (close_session S_revoked i d3) = observed_events d3" by (simp add: close_session_def)
  moreover have "agents_capped cap (close_session S_revoked i d3)" if "agents_capped cap d3"
    using that by (rule capped_le) (simp add: close_session_agents)
  ultimately show ?thesis by (simp add: store_inv_def close_session_inv)
qed

lemma recover_orphan_store_inv: "store_inv cap d \<Longrightarrow> store_inv cap (snd (recover_orphan_session i del el err d))"
proof (cases "recover_orphan_session i del el err d")
  case (Pair r d')
  assume inv: "store_inv cap d"
  show ?thesis
  proof (cases r)
    case (Inl e)
    with Pair have "d' = d" by (simp add: recover_orphan_session_def immediate_Inl)
    with Pair inv show ?thesis by simp
  next
    case (Inr u)
    with Pair have "recover_orphan_session i del el err d = (Inr (), d')" by simp
    then obtain d2 where "give_back i del (case el of Some t \<Rightarrow> t | None \<Rightarrow> []) err d = Inr d2" "d' = close_session S_revoked i d2"
      by (rule recover_orphan_Inr)
    with revoke_returned_inv [OF inv this(1), of d2] Pair show ?thesis by (simp add: same_tables)
  qed
qed

lemma recover_prepared_store_inv: "store_inv cap d \<Longrightarrow> store_inv cap (snd (recover_prepared_wake now w el err d))"
proof (cases "recover_prepared_wake now w el err d")
  case (Pair r d')
  assume inv: "store_inv cap d"
  show ?thesis
  proof (cases r)
    case (Inl e)
    with Pair have "d' = d" by (simp add: recover_prepared_wake_def immediate_Inl)
    with Pair inv show ?thesis by simp
  next
    case (Inr u)
    with Pair have "recover_prepared_wake now w el err d = (Inr (), d')" by simp
    then obtain i del d2 where "give_back i del el err d = Inr d2"
      "d' = close_session S_revoked i (fail_wake (utcnow now) w err d2)"
      by (rule recover_prepared_Inr)
    with revoke_returned_inv [OF inv this(1), of "fail_wake (utcnow now) w err d2"] Pair
    show ?thesis by (simp add: same_tables fail_wake_def)
  qed
qed

lemma runtime_run_inv: "store_inv cap d \<Longrightarrow> store_inv cap (runtime_run e d)"
proof -
  assume inv: "store_inv cap d"
  have f: "store_inv cap d'" if "wake_sessions d' = wake_sessions d" "worker_attempts d' = worker_attempts d"
      "budget_buckets d' = budget_buckets d" "budget_reservations d' = budget_reservations d" "deliveries d' = deliveries d"
      "route_targets d' = route_targets d" "delivery_events d' = delivery_events d" "observed_events d' = observed_events d" for d'
    using inv by (rule same_store_inv [rotated 4]) (simp_all add: same_tables that)
  show ?thesis
  proof (cases e)
    case (Prepare_wake now sn del rid sock reason)
    then show ?thesis
      by (auto simp: prepare_wake_def insert_wake_runtime_def split: sum.split if_splits intro: f inv)
  qed (use inv in \<open>auto simp: mark_wake_running_def finish_wake_def record_process_def finish_process_def doubt_wake_def
      recover_orphan_store_inv recover_prepared_store_inv Let_def split: option.split intro!: f\<close>)
qed

section \<open>Every call keeps the invariant of the store\<close>

lemma store_run_inv:
  assumes inv: "store_inv cap d" and "admissible e d"
  shows "store_inv cap (store_run cap uuid5 e d)"
proof (cases e)
  case (Session s)
  then have "starts_live s d" using assms(2) by (simp add: admissible_def)
  with inv show ?thesis using session_run_frame [where d = d and cap = cap and e = s]
    by (simp add: Session store_inv_def session_run_inv session_run_capped session_run_budget same_queue_inv same_events_def)
next
  case (Budget b)
  have "session_keys_ok d" using inv by (simp add: store_inv_def session_inv_def)
  with inv show ?thesis using budget_run_frame [of d b]
    by (simp add: Budget store_inv_def same_sessions_inv same_sessions_agents same_queue_inv same_events_def budget_run_inv)
next
  case (Journal j)
  with inv same_store_inv [OF journal_run_frame] show ?thesis by simp
next
  case (Source s)
  have "wake_sessions (source_run uuid5 s d) = wake_sessions d" using source_run_frame [of d uuid5 s] by (simp add: same_tables)
  with inv show ?thesis using source_run_frame [of d uuid5 s]
    by (simp add: Source store_inv_def same_sessions_inv same_sessions_agents same_queue_inv same_budget_inv source_run_events)
next
  case (Queue q)
  have "wake_sessions (queue_run q d) = wake_sessions d" using queue_run_frame [of d q] by (simp add: same_tables)
  with inv show ?thesis using queue_run_frame [of d q]
    by (simp add: Queue store_inv_def same_sessions_inv same_sessions_agents same_budget_inv queue_run_inv queue_run_events)
next
  case (Runtime r)
  with inv show ?thesis by (simp add: runtime_run_inv)
qed

lemma empty_store_inv: "store_inv cap empty_db"
  by (auto simp: store_inv_def empty_db_def session_inv_def session_keys_ok_def single_parent_def attempts_ok_def session_counts
      agents_capped_def budget_inv_def reservations_ok_def delivery_inv_def bindings_def events_unique_def count_where_def)

interpretation store_invariants: step_invariant cap uuid5 "store_inv cap" for cap uuid5
  by unfold_locales (simp_all add: empty_store_inv store_run_inv)

lemmas reachable_store_inv = store_invariants.always

end
