(* ===== verification/Queue_Spec.thy ===== *)
theory Queue_Spec
  imports Store_Invariants
begin

text \<open>
  The specification of the delivery queue as a state machine over the state and the attempt
  counter of one delivery, and the proof that the store implements it: every call moves each
  delivery along the machine, keeps its role and idempotency key, and never loses it.
\<close>

section \<open>The state machine\<close>

type_synonym phase = "delivery_state \<times> int"

inductive queue_step :: "phase \<Rightarrow> phase \<Rightarrow> bool" where
  lease: "st = D_queued \<or> st = D_retry_wait \<Longrightarrow> queue_step (st, n) (D_leased, n + 1)"
| give_back: "queue_step (D_leased, n) (D_retry_wait, n)"
| start_run: "queue_step (D_leased, n) (D_running, n)"
| hold: "queue_step (D_leased, n) (D_budget_hold, n - 1)"
| release: "queue_step (D_budget_hold, n) (D_retry_wait, n)"
| succeed: "queue_step (D_running, n) (D_succeeded, n)"
| exhaust: "st = D_queued \<or> st = D_retry_wait \<Longrightarrow> queue_step (st, n) (D_dead_letter, n)"
| reject: "st = D_leased \<or> st = D_running \<Longrightarrow> queue_step (st, n) (D_dead_letter, n)"
| quarantine: "st = D_leased \<or> st = D_running \<Longrightarrow> queue_step (st, n) (D_uncertain, n)"

code_pred queue_step .

inductive_cases terminal_steps [elim!]: "queue_step (D_succeeded, n) p" "queue_step (D_dead_letter, n) p" "queue_step (D_uncertain, n) p"
inductive_cases hold_steps [elim!]: "queue_step (D_budget_hold, n) p"

text \<open>The steps that no release of a budget hold takes part in.\<close>

definition unreleased :: "phase \<Rightarrow> phase \<Rightarrow> bool" where
  "unreleased p q \<longleftrightarrow> queue_step p q \<and> fst p \<noteq> D_budget_hold"

definition phase_of :: "delivery \<Rightarrow> phase" where
  "phase_of r = (dv_state r, dv_attempt r)"

definition final :: "delivery_state \<Rightarrow> bool" where
  "final st \<longleftrightarrow> st = D_succeeded \<or> st = D_dead_letter \<or> st = D_uncertain"

text \<open>The machine never leaves a final state.\<close>

lemma final_steps: "queue_step\<^sup>*\<^sup>* p q \<Longrightarrow> final (fst p) \<Longrightarrow> q = p"
proof (induction rule: converse_rtranclp_induct)
  case (step p p')
  then show ?case by (cases p) (auto simp: final_def)
qed simp

section \<open>What it means to follow the machine\<close>

text \<open>One delivery moves along a relation of phases and keeps its identity.\<close>

definition moves :: "(phase \<Rightarrow> phase \<Rightarrow> bool) \<Rightarrow> delivery \<Rightarrow> delivery \<Rightarrow> bool" where
  "moves R r r' \<longleftrightarrow> dv_delivery_id r' = dv_delivery_id r \<and> dv_idempotency_key r' = dv_idempotency_key r \<and> dv_role r' = dv_role r
     \<and> R (phase_of r) (phase_of r')"

definition follows :: "(phase \<Rightarrow> phase \<Rightarrow> bool) \<Rightarrow> db \<Rightarrow> db \<Rightarrow> bool" where
  "follows R d d' \<longleftrightarrow> (\<forall>i r. delivery_row i d = Some r \<longrightarrow>
     (\<exists>r'. delivery_row i d' = Some r' \<and> moves R\<^sup>*\<^sup>* r r'))"

lemma moves_refl [simp]: "moves R\<^sup>*\<^sup>* r r"
  by (simp add: moves_def)

lemma moves_trans: "moves R\<^sup>*\<^sup>* r s \<Longrightarrow> moves R\<^sup>*\<^sup>* s t \<Longrightarrow> moves R\<^sup>*\<^sup>* r t"
  unfolding moves_def by auto

lemma moves_step: "moves R r s \<Longrightarrow> moves R\<^sup>*\<^sup>* r s"
  by (auto simp: moves_def)

lemma follows_trans: "follows R d e \<Longrightarrow> follows R e f \<Longrightarrow> follows R d f"
  unfolding follows_def using moves_trans by meson

lemma follows_same: "deliveries d' = deliveries d \<Longrightarrow> follows R d d'"
  by (simp add: follows_def delivery_row_def)

lemma find_update_where:
  "(\<And>r. key (f r) = key r) \<Longrightarrow>
   find (\<lambda>r. key r = k) (update_where P f rows) = map_option (\<lambda>r. if P r then f r else r) (find (\<lambda>r. key r = k) rows)"
  by (induction rows) auto

lemma follows_update:
  assumes d': "deliveries d' = update_where P f (deliveries d)"
    and step: "\<And>r. r \<in> set (deliveries d) \<Longrightarrow> P r \<Longrightarrow> moves R r (f r)"
    and key: "\<And>r. dv_delivery_id (f r) = dv_delivery_id r"
  shows "follows R d d'"
  unfolding follows_def
proof (intro allI impI)
  fix i r assume r: "delivery_row i d = Some r"
  then have "delivery_row i d' = Some (if P r then f r else r)"
    unfolding delivery_row_def d' using find_update_where [of dv_delivery_id f i P "deliveries d"] key by simp
  moreover have "moves R\<^sup>*\<^sup>* r (if P r then f r else r)"
    using step [OF conjunct1 [OF delivery_rowD [OF r]]] by (simp add: moves_step)
  ultimately show "\<exists>r'. delivery_row i d' = Some r' \<and> moves R\<^sup>*\<^sup>* r r'" by blast
qed

lemma follows_append: "deliveries d' = deliveries d @ rs \<Longrightarrow> follows R d d'"
  unfolding follows_def delivery_row_def
  by (intro allI impI) (auto simp: find_Some_iff nth_append)

section \<open>The loops over deliveries\<close>

text \<open>A loop that rewrites the rows of a list of ids is one update of those rows.\<close>

lemma fold_set_delivery:
  assumes "\<And>r. f (f r) = f r" and "\<And>r. dv_delivery_id (f r) = dv_delivery_id r"
  shows "deliveries (fold (\<lambda>i d. set_routes st i (set_delivery f i d)) is d)
    = update_where (\<lambda>r. dv_delivery_id r \<in> set is) f (deliveries d)"
proof (induction "is" arbitrary: d)
  case Nil
  then show ?case by (simp add: update_where_def)
next
  case (Cons i "is")
  have "deliveries (set_routes st i (set_delivery f i d)) = update_where (\<lambda>r. dv_delivery_id r = i) f (deliveries d)"
    by (simp add: set_routes_def set_delivery_def)
  with Cons show ?case using assms by (auto simp: update_where_def)
qed

lemma selected_ids:
  assumes "distinct (map key rows)"
  shows "update_where (\<lambda>r. key r \<in> set (map key (filter P rows))) f rows = update_where P f rows"
  using key_unique [OF assms] by (intro update_where_cong) auto

lemma expire_running_deliveries:
  "delivery_inv d \<Longrightarrow> deliveries (expire_running t d) = update_where (\<lambda>r. dv_state r = D_running \<and> null_le (dv_lease_until r) t)
     (\<lambda>r. r\<lparr>dv_state := D_uncertain, dv_last_error := Some ''running lease expired'', dv_lease_owner := None,
        dv_lease_until := None\<rparr>) (deliveries d)"
  unfolding expire_running_def quarantine_def
  by (subst fold_set_delivery) (simp_all only: selected_ids [OF delivery_ids], simp_all)

lemma exhaust_waiting_deliveries:
  "delivery_inv d \<Longrightarrow> deliveries (exhaust_waiting m d) = update_where (\<lambda>r. waiting r \<and> dv_attempt r \<ge> m)
     (\<lambda>r. r\<lparr>dv_state := D_dead_letter, dv_last_error := Some ''retry ceiling reached''\<rparr>) (deliveries d)"
  unfolding exhaust_waiting_def exhaust_def
  by (subst fold_set_delivery) (simp_all only: selected_ids [OF delivery_ids], simp_all)

section \<open>Every call follows the machine\<close>

lemma lease_delivery_follows:
  assumes inv: "delivery_inv d"
  shows "follows unreleased d (snd (lease_delivery now own secs m d))"
proof -
  let ?t = "utc_text now"
  let ?a = "expire_running ?t d"
  let ?b = "expire_leases ?t ?a"
  let ?c = "exhaust_waiting m ?b"
  have inv': "delivery_inv ?a" "delivery_inv ?b"
    using inv by (simp_all add: expire_running_inv expire_leases_inv)
  have "follows unreleased d ?a"
    by (rule follows_update [OF expire_running_deliveries [OF inv]])
      (auto simp: moves_def phase_of_def unreleased_def intro: queue_step.intros)
  moreover have "follows unreleased ?a ?b"
    by (rule follows_update, simp add: expire_leases_def)
      (auto simp: moves_def phase_of_def unreleased_def intro: queue_step.intros)
  moreover have "follows unreleased ?b ?c"
    by (rule follows_update [OF exhaust_waiting_deliveries [OF inv'(2)]])
      (auto simp: moves_def phase_of_def unreleased_def waiting_def intro: queue_step.intros)
  moreover have "follows unreleased ?c (take_lease own until i ?c)" for until i
    by (rule follows_update, simp add: take_lease_def set_routes_def)
      (auto simp: moves_def phase_of_def unreleased_def waiting_def intro: queue_step.intros)
  ultimately have "follows unreleased d ?c" "follows unreleased d (take_lease own until i ?c)" for until i
    using follows_trans by blast+
  moreover have "follows unreleased d d" by (simp add: follows_same)
  ultimately show ?thesis
    by (simp add: lease_delivery_def Let_def snd_immediate split: list.split)
qed

lemma finish_delivery_follows:
  assumes inv: "delivery_inv d"
  shows "follows unreleased d (snd (finish_delivery now i own outcome err el d))"
proof (cases "fst (finish_delivery now i own outcome err el d)")
  case (Inl e)
  then have "snd (finish_delivery now i own outcome err el d) = d"
    by (auto simp: finish_delivery_def snd_immediate immediate_def split: option.splits if_splits)
  then show ?thesis by (simp add: follows_same)
next
  case (Inr u)
  then obtain ds rs row where t: "delivery_targets outcome = Some (ds, rs)" and row: "delivery_row i d = Some row"
    and h: "dv_state row \<in> {D_leased, D_running}" and o: "outcome \<in> allowed_outcomes (dv_state row)"
    and s: "deliveries (snd (finish_delivery now i own outcome err el d)) = update_where (\<lambda>r. dv_delivery_id r = i)
      (\<lambda>r. r\<lparr>dv_state := ds, dv_eligible_at := text_or el (utcnow now),
         dv_lease_owner := None, dv_lease_until := None, dv_last_error := err,
         dv_attempt := dv_attempt r + (if dv_state row = D_leased \<and> outcome = ''budget_hold'' then -1 else 0)\<rparr>) (deliveries d)"
    by (auto simp: finish_delivery_def immediate_def Let_def set_routes_def set_delivery_def split: option.splits if_splits)
  have "queue_step (phase_of row) (ds, dv_attempt row + (if dv_state row = D_leased \<and> outcome = ''budget_hold'' then -1 else 0))"
    using t h o by (cases row) (auto simp: phase_of_def delivery_targets_def allowed_outcomes_def split: if_splits
        intro: queue_step.intros queue_step.hold [of "n + 1" for n, simplified])
  then have "unreleased (phase_of row) (ds, dv_attempt row + (if dv_state row = D_leased \<and> outcome = ''budget_hold'' then -1 else 0))"
    using h by (auto simp: unreleased_def phase_of_def)
  then show ?thesis
    using delivery_row_only [OF inv row]
    by (intro follows_update [OF s]) (auto simp: moves_def phase_of_def)
qed

lemma retry_leased_follows:
  assumes inv: "delivery_inv d" and "retry_leased_delivery i el err d = Inr d'"
  shows "follows unreleased d d'"
proof -
  from assms(2) obtain row where row: "delivery_row i d = Some row" "dv_state row = D_leased"
    and s: "deliveries d' = update_where (\<lambda>r. dv_delivery_id r = i) (\<lambda>r. r\<lparr>dv_state := D_retry_wait, dv_eligible_at := el,
      dv_lease_owner := None, dv_lease_until := None, dv_last_error := Some err\<rparr>) (deliveries d)"
    by (auto simp: retry_leased_delivery_def set_routes_def set_delivery_def split: option.splits if_splits)
  then show ?thesis using delivery_row_only [OF inv row(1)]
    by (intro follows_update [OF s]) (auto simp: moves_def phase_of_def unreleased_def intro: queue_step.intros)
qed

lemma enqueue_delivery_follows:
  assumes inv: "delivery_inv d"
  shows "follows unreleased d (snd (enqueue_delivery now u role es k el d))"
proof (cases "enqueue_delivery now u role es k el d")
  case (Pair r d')
  show ?thesis
  proof (cases r)
    case (Inl e)
    with Pair have "d' = d" by (auto simp: enqueue_delivery_def Let_def immediate_Inl split: if_splits)
    with Pair show ?thesis by (simp add: follows_same)
  next
    case (Inr i)
    with Pair have c: "enqueue_delivery now u role es k el d = (Inr i, d')" by simp
    from inv c have "d' = d \<or> (\<exists>rs. deliveries d' = deliveries d @ rs)" by (rule enqueue_delivery_Inr) auto
    with Pair follows_same [of d' d] follows_append [of d' d] show ?thesis by auto
  qed
qed

lemma queue_run_follows:
  assumes inv: "delivery_inv d" and e: "\<And>now i el. e \<noteq> Release_hold now i el"
  shows "follows unreleased d (queue_run e d)"
proof (cases e)
  case (Finish_routing x role)
  have "insert_route x r d = Inr d' \<Longrightarrow> deliveries d' = deliveries d" for r d'
    by (auto simp: insert_route_def split: if_splits)
  then show ?thesis unfolding Finish_routing
    by (intro follows_same) (auto simp: finish_event_routing_def snd_immediate split: option.split sum.split)
next
  case (Add_route x role)
  have "insert_route x r d = Inr d' \<Longrightarrow> deliveries d' = deliveries d" for r d'
    by (auto simp: insert_route_def split: if_splits)
  then show ?thesis unfolding Add_route by (intro follows_same) (auto simp: add_route_def split: sum.split)
next
  case (Start_delivery ts i own)
  show ?thesis unfolding Start_delivery
    by (rule follows_update [where P = "\<lambda>r. dv_delivery_id r = i \<and> dv_state r = D_leased \<and> dv_lease_owner r = Some own
          \<and> null_gt (dv_lease_until r) ts" and f = "\<lambda>r. r\<lparr>dv_state := D_running\<rparr>"])
      (auto simp: start_delivery_def Let_def moves_def phase_of_def unreleased_def intro: queue_step.intros)
next
  case (Force_uncertain i err)
  let ?P = "\<lambda>r. dv_delivery_id r = i \<and> (dv_state r = D_leased \<or> dv_state r = D_running)"
  let ?d = "d\<lparr>deliveries := update_where ?P (\<lambda>r. r\<lparr>dv_state := D_uncertain, dv_lease_owner := None,
                  dv_lease_until := None, dv_last_error := Some err\<rparr>) (deliveries d)\<rparr>"
  have "follows unreleased d (set_routes T_manual_review i ?d)"
    by (rule follows_update [where P = ?P], simp add: set_routes_def)
      (auto simp: moves_def phase_of_def unreleased_def intro: queue_step.intros)
  then show ?thesis
    by (simp add: Force_uncertain force_delivery_uncertain_def snd_immediate Let_def follows_same)
qed (simp_all add: enqueue_delivery_follows lease_delivery_follows finish_delivery_follows inv e)

lemma release_hold_follows: "follows queue_step d (snd (release_budget_hold now i el d))"
proof -
  let ?P = "\<lambda>r. dv_delivery_id r = i \<and> dv_state r = D_budget_hold"
  let ?d = "d\<lparr>deliveries := update_where ?P (\<lambda>r. r\<lparr>dv_state := D_retry_wait,
                  dv_eligible_at := text_or el (utcnow now), dv_last_error := None\<rparr>) (deliveries d)\<rparr>"
  have "follows queue_step d (set_routes T_queued i ?d)"
    by (rule follows_update [where P = ?P], simp add: set_routes_def)
      (auto simp: moves_def phase_of_def intro: queue_step.intros)
  then show ?thesis by (simp add: release_budget_hold_def snd_immediate Let_def follows_same)
qed

lemma give_back_follows:
  assumes "budget_inv d" "delivery_inv d" "give_back i del t err d = Inr d'"
  shows "follows unreleased d d'"
proof -
  from assms(3) obtain d1 where d1: "release_reservation_for i d = Inr d1"
    and d': "(case del of None \<Rightarrow> Inr d1 | Some j \<Rightarrow> retry_leased_delivery j t err d1) = Inr d'"
    by (auto simp: give_back_def bindE_eq_Inr)
  note r = release_reservation_for_tables [OF assms(1) d1]
  have "delivery_inv d1" using assms(2) delivery_inv_cong [of d1 d] r by simp
  then have "follows unreleased d1 d'" using d' retry_leased_follows by (auto split: option.splits simp: follows_same)
  moreover have "follows unreleased d d1" by (rule follows_same) (rule r(3))
  ultimately show ?thesis by (rule follows_trans [rotated])
qed

lemma runtime_run_follows:
  assumes inv: "store_inv cap d"
  shows "follows unreleased d (runtime_run e d)"
proof (cases e)
  case (Recover_orphan i del el err)
  have b: "budget_inv d" "delivery_inv d" using inv by (simp_all add: store_inv_def)
  show ?thesis
  proof (cases "recover_orphan_session i del el err d")
    case (Pair r d')
    show ?thesis
    proof (cases r)
      case (Inl x)
      with Pair have "d' = d" by (simp add: recover_orphan_session_def immediate_Inl)
      with Pair show ?thesis by (simp add: Recover_orphan follows_same)
    next
      case (Inr u)
      with Pair have "recover_orphan_session i del el err d = (Inr (), d')" by simp
      then obtain t d2 where g: "give_back i del t err d = Inr d2" and "d' = close_session S_revoked i d2"
        by (rule recover_orphan_Inr)
      then have "follows unreleased d2 d'" by (intro follows_same) simp
      with give_back_follows [OF b g] Pair show ?thesis by (simp add: Recover_orphan follows_trans)
    qed
  qed
next
  case (Recover_prepared now w el err)
  have b: "budget_inv d" "delivery_inv d" using inv by (simp_all add: store_inv_def)
  show ?thesis
  proof (cases "recover_prepared_wake now w el err d")
    case (Pair r d')
    show ?thesis
    proof (cases r)
      case (Inl x)
      with Pair have "d' = d" by (simp add: recover_prepared_wake_def immediate_Inl)
      with Pair show ?thesis by (simp add: Recover_prepared follows_same)
    next
      case (Inr u)
      with Pair have "recover_prepared_wake now w el err d = (Inr (), d')" by simp
      then obtain i del d2 where g: "give_back i del el err d = Inr d2"
        and "d' = close_session S_revoked i (fail_wake (utcnow now) w err d2)"
        by (rule recover_prepared_Inr)
      then have "follows unreleased d2 d'" by (intro follows_same) simp
      with give_back_follows [OF b g] Pair show ?thesis by (simp add: Recover_prepared follows_trans)
    qed
  qed
qed (auto intro!: follows_same simp: prepare_wake_def insert_wake_runtime_def mark_wake_running_def finish_wake_def
    record_process_def finish_process_def doubt_wake_def Let_def split: option.split sum.split if_splits)

text \<open>Every call but a release takes only steps that leave a budget hold alone.\<close>

definition releases :: "store_event \<Rightarrow> bool" where
  "releases e = (case e of Queue (Release_hold now i el) \<Rightarrow> True | _ \<Rightarrow> False)"

lemma store_run_unreleased:
  assumes inv: "store_inv cap d" and e: "\<not> releases e"
  shows "follows unreleased d (store_run cap uuid5 e d)"
proof -
  have v: "delivery_inv d" using inv by (simp add: store_inv_def)
  show ?thesis
  proof (cases e)
    case (Session s)
    then show ?thesis using session_run_frame(1) [where d = d and cap = cap and e = s]
      by (simp add: same_tables follows_same)
  next
    case (Budget b)
    then show ?thesis using budget_run_frame(2) [of d b] by (simp add: same_tables follows_same)
  next
    case (Journal j)
    then show ?thesis using journal_run_frame(3) [of d j] by (simp add: same_tables follows_same)
  next
    case (Source s)
    then show ?thesis using source_run_frame(3) [of d uuid5 s] by (simp add: same_tables follows_same)
  next
    case (Queue q)
    then have "\<And>now i el. q \<noteq> Release_hold now i el" using e by (auto simp: releases_def)
    from queue_run_follows [OF v this] show ?thesis by (simp add: Queue)
  qed (simp add: runtime_run_follows [OF inv])
qed

lemma follows_mono:
  assumes "follows R d d'" and "\<And>p q. R p q \<Longrightarrow> S p q"
  shows "follows S d d'"
proof -
  have "S\<^sup>*\<^sup>* p q" if "R\<^sup>*\<^sup>* p q" for p q
    using that by induction (auto intro: rtranclp.rtrancl_into_rtrancl assms(2))
  then have m: "moves R\<^sup>*\<^sup>* r r' \<Longrightarrow> moves S\<^sup>*\<^sup>* r r'" for r r' by (simp add: moves_def)
  show ?thesis unfolding follows_def
  proof (intro allI impI)
    fix i r assume "delivery_row i d = Some r"
    with assms(1) obtain r' where "delivery_row i d' = Some r'" "moves R\<^sup>*\<^sup>* r r'" unfolding follows_def by blast
    with m show "\<exists>r'. delivery_row i d' = Some r' \<and> moves S\<^sup>*\<^sup>* r r'" by blast
  qed
qed

lemma store_run_follows:
  assumes inv: "store_inv cap d"
  shows "follows queue_step d (store_run cap uuid5 e d)"
proof (cases "releases e")
  case True
  then obtain now i el where "e = Queue (Release_hold now i el)"
    by (auto simp: releases_def split: store_event.splits queue_event.splits)
  then show ?thesis by (simp add: release_hold_follows)
next
  case False
  from store_run_unreleased [OF inv this] show ?thesis by (rule follows_mono) (simp add: unreleased_def)
qed

lemma held_steps: "unreleased\<^sup>*\<^sup>* p q \<Longrightarrow> fst p = D_budget_hold \<Longrightarrow> q = p"
  by (induction rule: converse_rtranclp_induct) (auto simp: unreleased_def)

end
