(* ===== verification/Store_Rules.thy ===== *)
theory Store_Rules
  imports Queue_Spec
begin

text \<open>
  What holds of the store in every database that its calls can reach: the properties of sessions
  and workers, of the token budget, of the delivery queue, of source snapshots and of the journals.
\<close>

section \<open>Example databases\<close>

definition sample_calls :: "store_event list" where
  "sample_calls =
     [Session (Create_session 0 ''s1'' ''w1'' ''acme'' ''pm'' ''digest'' {} None 60),
      Session (Reserve_worker 1 1 ''a1'' ''s1'' ''code'' 2 1),
      Budget (Reserve_budget 1 ''b1'' ''s1'' ''1'' 10 [(''org'', ''acme'', 20), (''role'', ''pm'', 15)]),
      Source (Checkpoint ''gh'' ''t0''), Source (Begin_snapshot 0 ''n1'' ''gh''),
      Source (Stage_observation ''n1'' ''gh'' ''7'' ''v1'' ''t1'' JNull),
      Source (Finish_snapshot 1 ''n1'' True 1 None (Some ''t1'') None None None),
      Queue (Finish_routing ''gh:7:v1'' (Some ''pm'')),
      Queue (Enqueue 1 ''d1'' ''pm'' [''gh:7:v1''] ''key'' None)]"

definition sample_db :: db where
  "sample_db = \<lparr>wake_sessions =
      [\<lparr>ws_session_id = ''s1'', ws_wake_id = ''w1'', ws_org_id = ''acme'',
          ws_role = ''pm'', ws_policy_digest = ''digest'',
          ws_workspace_aliases = {}, ws_issued_at = ''0001-01-01T00:00:00Z'',
          ws_expires_at = ''0001-01-01T00:01:00Z'', ws_state = S_active\<rparr>],
      broker_requests = [],
      worker_attempts =
        [\<lparr>wa_attempt_id = ''a1'', wa_session_id = ''s1'', wa_sequence = 1,
            wa_worker_type = ''code'', wa_state = W_accepted,
            wa_started_at = ''0001-01-01T00:00:00.000001Z'',
            wa_finished_at = None, wa_artifact_sha256 = None\<rparr>],
      budget_buckets =
        [\<lparr>bb_scope = ''org'', bb_subject = ''acme'', bb_epoch = ''1'',
            bb_token_limit = 20, bb_consumed_tokens = 0,
            bb_reserved_tokens = 10\<rparr>,
         \<lparr>bb_scope = ''role'', bb_subject = ''pm'', bb_epoch = ''1'',
            bb_token_limit = 15, bb_consumed_tokens = 0,
            bb_reserved_tokens = 10\<rparr>],
      budget_reservations =
        [\<lparr>bv_reservation_id = ''b1'', bv_session_id = ''s1'',
            bv_epoch = ''1'', bv_reserved_tokens = 10, bv_state = B_active\<rparr>],
      source_checkpoints =
        [\<lparr>sc_source_id = ''gh'', sc_watermark = ''t1'',
            sc_overlap_seconds = 300, sc_query_fingerprint = None,
            sc_etag = None, sc_last_complete_snapshot_id = Some ''n1''\<rparr>],
      source_snapshots =
        [\<lparr>ss_snapshot_id = ''n1'', ss_source_id = ''gh'',
            ss_state = N_complete, ss_started_at = ''0001-01-01T00:00:00Z'',
            ss_completed_at = Some ''0001-01-01T00:00:00.000001Z'',
            ss_page_count = 1, ss_maximum_event_time = None,
            ss_error_detail = None\<rparr>],
      snapshot_events =
        [\<lparr>se_snapshot_id = ''n1'', se_event_id = ''gh:7:v1'',
            se_source_id = ''gh'', se_external_id = ''7'',
            se_version_key = ''v1'', se_occurred_at = ''t1'',
            se_payload = JNull\<rparr>],
      observed_events =
        [\<lparr>oe_event_id = ''gh:7:v1'', oe_source_id = ''gh'',
            oe_external_id = ''7'', oe_version_key = ''v1'',
            oe_occurred_at = ''t1'', oe_payload = JNull,
            oe_enrichment_state = E_routed\<rparr>],
      deliveries =
        [\<lparr>dv_delivery_id = ''d1'', dv_idempotency_key = ''key'',
            dv_role = ''pm'', dv_state = D_queued, dv_attempt = 0,
            dv_eligible_at = ''0001-01-01T00:00:00.000001Z'',
            dv_lease_owner = None, dv_lease_until = None,
            dv_last_error = None\<rparr>],
      route_targets =
        [\<lparr>rt_event_id = ''gh:7:v1'', rt_role = ''pm'', rt_state = T_queued,
            rt_delivery_id = Some ''d1''\<rparr>],
      delivery_events =
        [\<lparr>de_delivery_id = ''d1'', de_event_id = ''gh:7:v1'',
            de_role = ''pm''\<rparr>],
      reconcile_operations = [], supervisor_values = [], wake_runtimes = [],
      process_runtimes = [], audit_entries = []\<rparr>"

lemma sample_db_run: "fold (store_run 3 id) sample_calls empty_db = sample_db"
  by code_simp

text \<open>A sequence of calls without a start of a worker attempt is admissible throughout.\<close>

definition unconditional :: "store_event \<Rightarrow> bool" where
  "unconditional e = (case e of Session (Start_attempt a) \<Rightarrow> False | _ \<Rightarrow> True)"

lemma unconditional_admissible: "unconditional e \<Longrightarrow> admissible e d"
  by (auto simp: unconditional_def admissible_def starts_live_def split: store_event.splits session_event.splits)

lemma reachable_calls:
  "list_all unconditional es \<Longrightarrow> reachable cap uuid5 d \<Longrightarrow> reachable cap uuid5 (fold (store_run cap uuid5) es d)"
  by (induction es arbitrary: d) (simp_all add: unconditional_admissible reachable.call)

lemma sample_reachable: "reachable 3 id sample_db"
  unfolding sample_db_run [symmetric] by (rule reachable_calls [OF _ reachable.start]) (simp add: sample_calls_def unconditional_def)

lemma sample_leased_reachable: "reachable 3 id (store_run 3 id (Queue (Lease (2 * second) ''me'' 60 3)) sample_db)"
  by (rule reachable.call [OF sample_reachable]) (simp add: admissible_def)

section \<open>Sessions and workers\<close>

text \<open>C12: In every database the store can reach, a role has at most one active parent wake, and
  the active parents and live workers of an organization together stay within the agent cap.\<close>

theorem agents_stay_capped:
  assumes "reachable cap uuid5 d"
  shows "role_parents org_id role d \<le> 1 \<and> int (org_parents org_id d + org_workers org_id d) \<le> max 0 cap"
  using reachable_store_inv [OF assms]
  by (simp add: store_inv_def session_inv_def single_parent_def agents_capped_def agents_def)

theorem agents_stay_capped_witness:
  "role_parents ''acme'' ''pm'' sample_db = 1 \<and> org_workers ''acme'' sample_db = 1
   \<and> int (org_parents ''acme'' sample_db + org_workers ''acme'' sample_db) \<le> 3"
proof -
  have "role_parents ''acme'' ''pm'' sample_db = 1" "org_workers ''acme'' sample_db = 1" by code_simp+
  with agents_stay_capped [OF sample_reachable, of "''acme''" "''pm''"] show ?thesis by simp
qed

text \<open>The attempts of a session carry distinct numbers between 1 and their count, so two
  attempts of one session with the same number are the same attempt.\<close>

theorem attempts_are_numbered:
  assumes "reachable cap uuid5 d" and "a \<in> set (worker_attempts d)" "b \<in> set (worker_attempts d)"
    and "wa_session_id a = wa_session_id b"
  shows "1 \<le> wa_sequence a \<and> wa_sequence a \<le> int (session_attempts (wa_session_id a) d)
    \<and> (wa_sequence a = wa_sequence b \<longrightarrow> a = b)"
proof -
  have ok: "attempts_ok d" using reachable_store_inv [OF assms(1)] by (simp add: store_inv_def session_inv_def)
  then have "distinct (map (\<lambda>r. (wa_session_id r, wa_sequence r)) (worker_attempts d))" by (simp add: attempts_ok_def)
  from key_unique [OF this assms(2,3)] ok assms(2,4) show ?thesis by (auto simp: attempts_ok_def)
qed

theorem attempts_are_numbered_witness:
  "worker_attempts sample_db \<noteq> [] \<and> wa_sequence (hd (worker_attempts sample_db)) = 1
   \<and> wa_sequence (hd (worker_attempts sample_db)) \<le> int (session_attempts (wa_session_id (hd (worker_attempts sample_db))) sample_db)"
proof -
  have w: "worker_attempts sample_db \<noteq> []" "wa_sequence (hd (worker_attempts sample_db)) = 1" by code_simp+
  let ?a = "hd (worker_attempts sample_db)"
  from attempts_are_numbered [OF sample_reachable, of ?a ?a] w show ?thesis by simp
qed

text \<open>C13: A worker is reserved only for an active, unexpired session, and then the session's
  attempts stay within the cumulative cap, its live attempts within the concurrent cap, and the new
  attempt has the next number.\<close>

theorem reserved_worker_is_bounded:
  assumes "reserve_worker now1 now2 u i wt cumulative concurrent cap d = (Inr a, d')"
  shows "(\<exists>s\<in>set (wake_sessions d). ws_session_id s = i \<and> ws_state s = S_active \<and> utcnow now1 < ws_expires_at s)
    \<and> int (session_attempts i d') \<le> cumulative \<and> int (live_attempts i d') \<le> concurrent
    \<and> worker_attempts d' = worker_attempts d @ [new_attempt a i (int (session_attempts i d')) wt (utcnow now2)]"
proof -
  from assms obtain s r where s: "s \<in> set (wake_sessions d)" "ws_session_id s = i" "active_session s"
      "utcnow now1 < ws_expires_at s" and caps: "int (session_attempts i d) < cumulative" "int (live_attempts i d) < concurrent"
    and ins: "insert_attempt r d = Inr d'" and r: "r = new_attempt u i (int (session_attempts i d) + 1) wt (utcnow now2)"
    and a: "a = u"
    by (rule reserve_worker_Inr)
  from ins r have "session_attempts i d' = session_attempts i d + 1" "live_attempts i d' = live_attempts i d + 1"
    by (simp_all add: insert_attempt_Inr session_attempts_def live_attempts_def)
  with s caps ins r a show ?thesis by (auto simp: insert_attempt_Inr active_session_def add.commute)
qed

definition open_db :: db where
  "open_db = fold (store_run 3 id) [Session (Create_session 0 ''s1'' ''w1'' ''acme'' ''pm'' ''digest'' {} None 60)] empty_db"

theorem reserved_worker_is_bounded_witness:
  "fst (reserve_worker 1 1 ''a1'' ''s1'' ''code'' 2 1 3 open_db) = Inr ''a1''
   \<and> int (session_attempts ''s1'' (snd (reserve_worker 1 1 ''a1'' ''s1'' ''code'' 2 1 3 open_db))) \<le> 2"
proof -
  have f: "fst (reserve_worker 1 1 ''a1'' ''s1'' ''code'' 2 1 3 open_db) = Inr ''a1''" by code_simp
  then have "reserve_worker 1 1 ''a1'' ''s1'' ''code'' 2 1 3 open_db
      = (Inr ''a1'', snd (reserve_worker 1 1 ''a1'' ''s1'' ''code'' 2 1 3 open_db))" by (metis prod.collapse)
  from reserved_worker_is_bounded [OF this] f show ?thesis by simp
qed

text \<open>A session reads back as it was created until the text of the clock reaches its expiry.\<close>

theorem created_session_reads_back:
  assumes "reachable cap uuid5 d"
    and "create_session now u1 u2 org_id role dig al w ttl cap d = (Inr s, d')"
    and "utcnow later < utc_text (now + ttl * second)"
  shows "store_session later u1 d' = Inr s"
  using reachable_store_inv [OF assms(1)] store_session_created [OF _ assms(2,3)] by (simp add: store_inv_def)

theorem created_session_reads_back_witness:
  "store_session 1 ''s1'' (snd (create_session 0 ''s1'' ''w1'' ''acme'' ''pm'' ''digest'' {''org''} None 60 3 empty_db))
   = Inr (new_session 0 ''s1'' ''w1'' ''acme'' ''pm'' ''digest'' {''org''} None 60)"
proof -
  let ?c = "create_session 0 ''s1'' ''w1'' ''acme'' ''pm'' ''digest'' {''org''} None 60 3 empty_db"
  have "\<not> isl (fst ?c)" by code_simp
  then obtain s d' where c: "?c = (Inr s, d')" by (cases ?c; cases "fst ?c") auto
  then have s: "s = new_session 0 ''s1'' ''w1'' ''acme'' ''pm'' ''digest'' {''org''} None 60" by (simp add: create_session_new)
  have "utcnow 1 < utc_text (0 + 60 * second)" by code_simp
  from created_session_reads_back [OF reachable.start c this] c s show ?thesis by simp
qed

section \<open>The token budget\<close>

text \<open>C14: The tokens a bucket has reserved cover its active reservations and are covered by the
  active and uncertain ones, and unless an uncertain reservation is charged to the bucket, what it
  has consumed and reserved stays within its limit.\<close>

theorem buckets_stay_covered:
  assumes "reachable cap uuid5 d" and "b \<in> set (budget_buckets d)"
  shows "0 \<le> bb_consumed_tokens b \<and> active_hold d (bucket_key b) \<le> bb_reserved_tokens b
    \<and> bb_reserved_tokens b \<le> doubtful_hold d (bucket_key b)
    \<and> ((\<forall>r\<in>set (budget_reservations d). bv_state r = B_uncertain \<longrightarrow> bucket_key b \<notin> set (charged_keys d r)) \<longrightarrow>
         bb_consumed_tokens b + bb_reserved_tokens b \<le> bb_token_limit b)"
proof -
  have "bucket_ok d b" using reachable_store_inv [OF assms(1)] assms(2) by (simp add: store_inv_def budget_inv_def)
  then show ?thesis by (force simp: bucket_ok_def)
qed

theorem buckets_stay_covered_witness:
  "list_all (\<lambda>r. bv_state r = B_active) (budget_reservations sample_db) \<and> length (budget_buckets sample_db) = 2
   \<and> list_all (\<lambda>b. bb_consumed_tokens b + bb_reserved_tokens b \<le> bb_token_limit b) (budget_buckets sample_db)"
proof -
  have e: "list_all (\<lambda>r. bv_state r = B_active) (budget_reservations sample_db)" "length (budget_buckets sample_db) = 2"
    by code_simp+
  with buckets_stay_covered [OF sample_reachable] show ?thesis by (auto simp: list_all_iff)
qed

text \<open>C15: Settling an active reservation never fails at its buckets. Each charged bucket gives
  back the reserved tokens and is charged the used ones, and the call raises, with the reservation
  marked uncertain and the charge kept, exactly when the use exceeds the reservation or a limit.\<close>

theorem settle_charges_what_was_used:
  assumes "reachable cap uuid5 d" and "reservation_row rid d = Some r" and "bv_state r = B_active" and "0 \<le> used"
  shows "settle_budget rid used d =
    (if settles_uncertain d r used
     then Inl (StateError ''actual usage exceeded a budget boundary; manual review required'') else Inr (),
     d\<lparr>budget_buckets := update_where (\<lambda>b. bucket_key b \<in> set (charged_keys d r))
         (\<lambda>b. b\<lparr>bb_reserved_tokens := bb_reserved_tokens b - bv_reserved_tokens r,
               bb_consumed_tokens := bb_consumed_tokens b + used\<rparr>) (budget_buckets d),
       budget_reservations := update_where (\<lambda>x. bv_reservation_id x = rid)
         (\<lambda>x. x\<lparr>bv_state := if settles_uncertain d r used then B_uncertain else B_settled\<rparr>) (budget_reservations d)\<rparr>)"
proof -
  have "budget_inv d" using reachable_store_inv [OF assms(1)] by (simp add: store_inv_def)
  from settle_budget_active [OF this assms(2-4)] reservation_rowD [OF assms(2)] show ?thesis
    by (simp add: settle_effect_def)
qed

theorem settle_charges_what_was_used_witness:
  "fst (settle_budget ''b1'' 8 sample_db) = Inr () \<and> isl (fst (settle_budget ''b1'' 12 sample_db))
   \<and> map bb_consumed_tokens (budget_buckets (snd (settle_budget ''b1'' 12 sample_db))) = [12, 12]"
proof -
  have r: "reservation_row ''b1'' sample_db = Some (hd (budget_reservations sample_db))"
    "bv_state (hd (budget_reservations sample_db)) = B_active" by code_simp+
  have u: "\<not> settles_uncertain sample_db (hd (budget_reservations sample_db)) 8"
    "settles_uncertain sample_db (hd (budget_reservations sample_db)) 12" by code_simp+
  have "map bb_consumed_tokens (update_where (\<lambda>b. bucket_key b \<in> set (charged_keys sample_db (hd (budget_reservations sample_db))))
         (\<lambda>b. b\<lparr>bb_reserved_tokens := bb_reserved_tokens b - bv_reserved_tokens (hd (budget_reservations sample_db)),
               bb_consumed_tokens := bb_consumed_tokens b + 12\<rparr>) (budget_buckets sample_db)) = [12, 12]" by code_simp
  with settle_charges_what_was_used [OF sample_reachable r, of 8] settle_charges_what_was_used [OF sample_reachable r, of 12] u
  show ?thesis by simp
qed

text \<open>Reserving creates at most empty buckets, and its hold is undone by the matching release.\<close>

lemma check_buckets_new:
  "check_buckets epoch n bs d = Inr d1 \<Longrightarrow> b \<in> set (budget_buckets d1) \<Longrightarrow>
     b \<in> set (budget_buckets d) \<or> (bb_consumed_tokens b = 0 \<and> bb_reserved_tokens b = 0)"
proof (induction epoch n bs d rule: check_buckets.induct)
  case (2 epoch n scope subject limit bs d)
  let ?d = "insert_bucket_or_ignore (scope, subject, epoch) limit d"
  from 2 have "b \<in> set (budget_buckets ?d) \<or> (bb_consumed_tokens b = 0 \<and> bb_reserved_tokens b = 0)"
    by (auto simp: Let_def split: if_splits option.splits)
  then show ?case by (auto simp: insert_bucket_or_ignore_def split: if_splits)
qed simp

lemma hold_then_release:
  "budget_buckets (settle_effect (hold_effect d r) r 0 st) = budget_buckets d"
proof -
  have "charged_keys (hold_effect d r) = charged_keys d"
    by (rule charged_keys_tables) (simp add: hold_effect_def)
  then show ?thesis
    by (auto simp: settle_effect_def hold_effect_def update_where_def intro!: map_idI)
qed

text \<open>Releasing a reservation that was just made restores the budget: every bucket is as it
  was before the reservation, and a bucket that did not exist before is empty.\<close>

theorem reserve_release_roundtrip:
  assumes "reachable cap uuid5 d" and "reserve_budget now u i epoch n buckets d = (Inr rid, d')"
  shows "fst (release_budget rid d') = Inr ()
    \<and> set (budget_buckets d) \<subseteq> set (budget_buckets (snd (release_budget rid d')))
    \<and> (\<forall>b\<in>set (budget_buckets (snd (release_budget rid d'))). b \<in> set (budget_buckets d)
         \<or> (bb_consumed_tokens b = 0 \<and> bb_reserved_tokens b = 0))"
proof -
  have inv: "budget_inv d" "session_keys_ok d"
    using reachable_store_inv [OF assms(1)] by (simp_all add: store_inv_def session_inv_def)
  from inv assms(2) obtain d1 r where chk: "check_buckets epoch n buckets d = Inr d1"
    and r: "bv_reservation_id r = rid" "bv_state r = B_active" and d': "d' = hold_effect d1 r"
    and inv': "budget_inv d'" and rs: "budget_reservations d' = budget_reservations d @ [r]"
    by (rule reserve_budget_effect)
  have "distinct (map bv_reservation_id (budget_reservations d'))" using inv' by (simp add: budget_inv_def reservations_ok_def)
  with reservation_table.find_unique [of d' r] r rs have "reservation_row rid d' = Some r"
    by (simp add: reservation_row_def)
  from release_budget_active [OF inv' this r(2)] have "release_budget rid d' = (Inr (), settle_effect (hold_effect d1 r) r 0 B_released)"
    by (simp add: d')
  with hold_then_release [of d1 r] check_buckets_ok [OF chk inv(1)] check_buckets_new [OF chk] show ?thesis by auto
qed

theorem reserve_release_roundtrip_witness:
  "fst (reserve_budget 1 ''b1'' ''s1'' ''1'' 10 [(''org'', ''acme'', 20), (''role'', ''pm'', 15)] open_db) = Inr ''b1''
   \<and> fst (release_budget ''b1'' (snd (reserve_budget 1 ''b1'' ''s1'' ''1'' 10 [(''org'', ''acme'', 20), (''role'', ''pm'', 15)] open_db)))
     = Inr ()"
proof -
  have f: "fst (reserve_budget 1 ''b1'' ''s1'' ''1'' 10 [(''org'', ''acme'', 20), (''role'', ''pm'', 15)] open_db) = Inr ''b1''"
    by code_simp
  have o: "reachable 3 id open_db"
    unfolding open_db_def by (rule reachable_calls [OF _ reachable.start]) (simp add: unconditional_def)
  from reserve_release_roundtrip [OF o, of 1 "''b1''" "''s1''" "''1''" 10 "[(''org'', ''acme'', 20), (''role'', ''pm'', 15)]" "''b1''"] f
  show ?thesis by (metis prod.collapse)
qed

section \<open>The delivery queue\<close>

text \<open>C16: The store implements the specified state machine of deliveries: every call keeps each
  delivery with its key and its role, and moves its state and attempt counter along the machine.\<close>

theorem store_refines_queue:
  assumes "reachable cap uuid5 d" and "delivery_row i d = Some r"
  shows "\<exists>r'. delivery_row i (store_run cap uuid5 e d) = Some r' \<and> dv_idempotency_key r' = dv_idempotency_key r
    \<and> dv_role r' = dv_role r \<and> queue_step\<^sup>*\<^sup>* (dv_state r, dv_attempt r) (dv_state r', dv_attempt r')"
  using store_run_follows [OF reachable_store_inv [OF assms(1)], of uuid5 e] assms(2)
  by (auto simp: follows_def moves_def phase_of_def)

theorem store_refines_queue_witness:
  "\<exists>r'. delivery_row ''d1'' (store_run 3 id (Queue (Lease (2 * second) ''me'' 60 3)) sample_db) = Some r'
     \<and> dv_state r' = D_leased \<and> dv_role r' = ''pm'' \<and> queue_step\<^sup>*\<^sup>* (D_queued, 0) (D_leased, 1)"
proof -
  let ?r = "hd (deliveries sample_db)" and ?d = "store_run 3 id (Queue (Lease (2 * second) ''me'' 60 3)) sample_db"
  have r: "delivery_row ''d1'' sample_db = Some ?r" "dv_state ?r = D_queued" "dv_attempt ?r = 0" "dv_role ?r = ''pm''"
    by code_simp+
  have s: "map_option (\<lambda>x. (dv_state x, dv_attempt x)) (delivery_row ''d1'' ?d) = Some (D_leased, 1)" by code_simp
  from store_refines_queue [OF sample_reachable r(1), of "Queue (Lease (2 * second) ''me'' 60 3)"] r s show ?thesis by auto
qed

text \<open>A delivery that succeeded, was dead-lettered or is uncertain is final: no call of the
  store changes its state or its attempt counter.\<close>

theorem final_deliveries_stay:
  assumes "reachable cap uuid5 d" and "delivery_row i d = Some r" and "dv_state r \<in> {D_succeeded, D_dead_letter, D_uncertain}"
  shows "\<exists>r'. delivery_row i (store_run cap uuid5 e d) = Some r' \<and> dv_state r' = dv_state r \<and> dv_attempt r' = dv_attempt r"
  using store_run_follows [OF reachable_store_inv [OF assms(1)], of uuid5 e] assms(2,3) final_steps [of "phase_of r"]
  by (fastforce simp: follows_def moves_def phase_of_def final_def)

definition uncertain_calls :: "store_event list" where
  "uncertain_calls = [Queue (Lease (2 * second) ''me'' 60 3), Queue (Force_uncertain ''d1'' ''stopped'')]"

theorem final_deliveries_stay_witness:
  "\<exists>r'. delivery_row ''d1'' (store_run 3 id (Queue (Lease (9 * second) ''you'' 60 3))
      (fold (store_run 3 id) uncertain_calls sample_db)) = Some r' \<and> dv_state r' = D_uncertain"
proof -
  let ?d = "fold (store_run 3 id) uncertain_calls sample_db"
  have d: "reachable 3 id ?d" by (rule reachable_calls [OF _ sample_reachable]) (simp add: uncertain_calls_def unconditional_def)
  have r: "delivery_row ''d1'' ?d = Some (hd (deliveries ?d))" "dv_state (hd (deliveries ?d)) = D_uncertain" by code_simp+
  from final_deliveries_stay [OF d r(1), of "Queue (Lease (9 * second) ''you'' 60 3)"] r(2) show ?thesis by auto
qed

text \<open>Only \<open>release_budget_hold\<close> ends a budget hold: under every other call a held delivery
  keeps its state, however often the queue is leased.\<close>

theorem budget_hold_needs_release:
  assumes "reachable cap uuid5 d" and "delivery_row i d = Some r" and "dv_state r = D_budget_hold"
    and "\<forall>now j el. e \<noteq> Queue (Release_hold now j el)"
  shows "\<exists>r'. delivery_row i (store_run cap uuid5 e d) = Some r' \<and> dv_state r' = D_budget_hold"
proof -
  have "\<not> releases e" using assms(4) by (auto simp: releases_def split: store_event.splits queue_event.splits)
  from store_run_unreleased [OF reachable_store_inv [OF assms(1)] this, of uuid5] assms(2,3) held_steps [of "phase_of r"]
  show ?thesis by (fastforce simp: follows_def moves_def phase_of_def)
qed

definition hold_calls :: "store_event list" where
  "hold_calls = [Queue (Lease (2 * second) ''me'' 60 3), Queue (Finish_delivery 3 ''d1'' ''me'' ''budget_hold'' None None)]"

theorem budget_hold_needs_release_witness:
  "\<exists>r'. delivery_row ''d1'' (store_run 3 id (Queue (Lease (9000 * second) ''me'' 60 3))
      (fold (store_run 3 id) hold_calls sample_db)) = Some r' \<and> dv_state r' = D_budget_hold"
proof -
  let ?d = "fold (store_run 3 id) hold_calls sample_db"
  have d: "reachable 3 id ?d" by (rule reachable_calls [OF _ sample_reachable]) (simp add: hold_calls_def unconditional_def)
  have r: "delivery_row ''d1'' ?d = Some (hd (deliveries ?d))" "dv_state (hd (deliveries ?d)) = D_budget_hold" by code_simp+
  from budget_hold_needs_release [OF d r, of "Queue (Lease (9000 * second) ''me'' 60 3)"] show ?thesis by simp
qed

text \<open>No call unbinds a route or binds it again.\<close>

lemma same_bindings: "map (\<lambda>t. (rt_delivery_id t, rt_event_id t, rt_role t)) (route_targets d')
    = map (\<lambda>t. (rt_delivery_id t, rt_event_id t, rt_role t)) (route_targets d) \<Longrightarrow>
  bindings (route_targets d') = bindings (route_targets d)"
  by (simp add: bindings_def)

lemma set_routes_bindings [simp]: "bindings (route_targets (set_routes st i d)) = bindings (route_targets d)"
  by (simp add: set_routes_def bindings_states)

lemma set_delivery_routes [simp]: "route_targets (set_delivery f i d) = route_targets d"
  by (simp add: set_delivery_def)









text \<open>C18: Routes and deliveries agree: a route without a delivery is pending, a bound route belongs
  to a delivery of its role in a matching state, and a delivery has a lease owner and a lease end
  exactly while it is leased or running, with at least one attempt counted.\<close>

theorem queue_stays_consistent:
  assumes "reachable cap uuid5 d"
  shows "(\<forall>t\<in>set (route_targets d). case rt_delivery_id t of None \<Rightarrow> rt_state t = T_pending
       | Some i \<Rightarrow> \<exists>r\<in>set (deliveries d). dv_delivery_id r = i \<and> dv_role r = rt_role t \<and> route_matches (dv_state r) (rt_state t))
    \<and> (\<forall>r\<in>set (deliveries d). (dv_state r \<in> {D_leased, D_running} \<longleftrightarrow> dv_lease_owner r \<noteq> None)
         \<and> (dv_state r \<in> {D_leased, D_running} \<longleftrightarrow> dv_lease_until r \<noteq> None)
         \<and> 0 \<le> dv_attempt r \<and> (dv_state r \<in> {D_leased, D_running} \<longrightarrow> 1 \<le> dv_attempt r))"
  using reachable_store_inv [OF assms] by (auto simp: store_inv_def delivery_inv_def route_ok_def lease_ok_def held_def)

theorem queue_stays_consistent_witness:
  "list_all (\<lambda>r. (dv_state r \<in> {D_leased, D_running}) = (dv_lease_owner r \<noteq> None)) (deliveries sample_db)
   \<and> length (deliveries sample_db) = 1"
proof -
  have "length (deliveries sample_db) = 1" by code_simp
  with queue_stays_consistent [OF sample_reachable] show ?thesis by (simp add: list_all_iff)
qed

text \<open>What a lease does to the queue before it picks a delivery.\<close>

definition swept :: "instant \<Rightarrow> int \<Rightarrow> db \<Rightarrow> db" where
  "swept now m d = exhaust_waiting m (expire_leases (utc_text now) (expire_running (utc_text now) d))"

lemma swept_inv: "delivery_inv d \<Longrightarrow> delivery_inv (swept now m d)"
  by (simp add: swept_def exhaust_waiting_inv expire_leases_inv expire_running_inv)

lemma swept_waiting:
  assumes "delivery_inv d" and "r \<in> set (deliveries (swept now m d))" and "waiting r"
  shows "dv_attempt r < m"
proof -
  have "delivery_inv (expire_leases (utc_text now) (expire_running (utc_text now) d))"
    using assms(1) by (simp add: expire_leases_inv expire_running_inv)
  from exhaust_waiting_deliveries [OF this, of m]
  have "\<forall>x\<in>set (deliveries (swept now m d)). waiting x \<longrightarrow> dv_attempt x < m"
    unfolding swept_def by (simp only: ball_update_where) (auto simp: waiting_def)
  with assms show ?thesis by blast
qed

lemma swept_keeps:
  assumes "delivery_inv d" and "r \<in> set (deliveries d)" and "waiting r" and "dv_attempt r < m"
  shows "r \<in> set (deliveries (swept now m d))"
proof -
  let ?a = "expire_running (utc_text now) d"
  let ?b = "expire_leases (utc_text now) ?a"
  have "r \<in> set (deliveries ?a)"
    unfolding expire_running_deliveries [OF assms(1)] set_update_where using assms(2,3) by (force simp: waiting_def)
  then have "r \<in> set (deliveries ?b)"
    unfolding expire_leases_def using assms(3) by (force simp: waiting_def row_simps)
  then show ?thesis unfolding swept_def
    using exhaust_waiting_deliveries [OF expire_leases_inv [OF expire_running_inv [OF assms(1)]], of m "utc_text now" "utc_text now"] assms(4)
    by (force simp: row_simps)
qed

lemma lease_takes:
  assumes inv: "delivery_inv d" and ok: "own \<noteq> []" "0 < secs" "0 < m"
    and head: "eligible_deliveries (utc_text now) (swept now m d) = r # rs"
  shows "lease_delivery now own secs m d =
    (Inr (Some (r\<lparr>dv_state := D_leased, dv_attempt := dv_attempt r + 1, dv_lease_owner := Some own,
        dv_lease_until := Some (utc_text (now + secs * second))\<rparr>)),
     take_lease own (utc_text (now + secs * second)) (dv_delivery_id r) (swept now m d))"
    and "delivery_row (dv_delivery_id r) (take_lease own (utc_text (now + secs * second)) (dv_delivery_id r) (swept now m d))
      = Some (r\<lparr>dv_state := D_leased, dv_attempt := dv_attempt r + 1, dv_lease_owner := Some own,
        dv_lease_until := Some (utc_text (now + secs * second))\<rparr>)"
proof -
  let ?d = "swept now m d"
  have r: "r \<in> set (deliveries ?d)" "waiting r"
    using arg_cong [OF head, of set] by (auto simp: eligible_deliveries_def)
  have inv': "delivery_inv ?d" using swept_inv [OF inv] .
  have u: "delivery_row (dv_delivery_id r) ?d = Some r"
    using delivery_table.find_unique [OF delivery_ids [OF inv'] r(1)] by (simp add: delivery_row_def)
  have "count_where (\<lambda>x. dv_delivery_id x = dv_delivery_id r \<and> waiting x) (deliveries ?d) \<noteq> 0"
    using r by (auto simp: count_where_0)
  with count_key_le_1 [OF delivery_ids [OF inv'], of "dv_delivery_id r" waiting]
  have one: "count_where (\<lambda>x. dv_delivery_id x = dv_delivery_id r \<and> waiting x) (deliveries ?d) = 1" by simp
  let ?f = "\<lambda>x. x\<lparr>dv_state := D_leased, dv_attempt := dv_attempt x + 1, dv_lease_owner := Some own,
        dv_lease_until := Some (utc_text (now + secs * second))\<rparr>"
  show row: "delivery_row (dv_delivery_id r) (take_lease own (utc_text (now + secs * second)) (dv_delivery_id r) ?d) = Some (?f r)"
    using find_update_where [of dv_delivery_id ?f "dv_delivery_id r" "\<lambda>x. dv_delivery_id x = dv_delivery_id r \<and> waiting x" "deliveries ?d"]
      u r by (simp add: delivery_row_def take_lease_def set_routes_def)
  with ok head one show "lease_delivery now own secs m d =
      (Inr (Some (?f r)), take_lease own (utc_text (now + secs * second)) (dv_delivery_id r) ?d)"
    by (simp add: lease_delivery_def swept_def [symmetric] Let_def immediate_def)
qed

lemma lease_nothing:
  assumes ok: "own \<noteq> []" "0 < secs" "0 < m" and head: "eligible_deliveries (utc_text now) (swept now m d) = []"
  shows "lease_delivery now own secs m d = (Inr None, swept now m d)"
  using assms by (simp add: lease_delivery_def swept_def [symmetric] Let_def immediate_def)

lemma lease_params: "lease_delivery now own secs m d = (Inr x, d') \<Longrightarrow> own \<noteq> [] \<and> 0 < secs \<and> 0 < m"
  by (auto simp: lease_delivery_def split: if_splits)

text \<open>C19: A leased delivery was eligible, belongs to the caller until the end of the lease, and has
  used at most the allowed attempts, this one included.\<close>

theorem lease_is_bounded:
  assumes "reachable cap uuid5 d" and "lease_delivery now own secs m d = (Inr (Some r), d')"
  shows "dv_state r = D_leased \<and> dv_lease_owner r = Some own \<and> dv_lease_until r = Some (utc_text (now + secs * second))
    \<and> dv_eligible_at r \<le> utc_text now \<and> 1 \<le> dv_attempt r \<and> dv_attempt r \<le> m \<and> delivery_row (dv_delivery_id r) d' = Some r"
proof -
  have inv: "delivery_inv d" using reachable_store_inv [OF assms(1)] by (simp add: store_inv_def)
  note ok = conjunct1 [OF lease_params [OF assms(2)]] lease_params [OF assms(2), THEN conjunct2, THEN conjunct1]
    lease_params [OF assms(2), THEN conjunct2, THEN conjunct2]
  show ?thesis
  proof (cases "eligible_deliveries (utc_text now) (swept now m d)")
    case Nil
    from lease_nothing [OF ok Nil] assms(2) show ?thesis by simp
  next
    case (Cons x xs)
    have x: "x \<in> set (deliveries (swept now m d))" "waiting x" "dv_eligible_at x \<le> utc_text now"
      using arg_cong [OF Cons, of set] by (auto simp: eligible_deliveries_def)
    have "lease_ok x" using swept_inv [OF inv] x(1) by (auto simp: delivery_inv_def)
    moreover have "dv_attempt x < m" using swept_waiting [OF inv x(1,2)] .
    moreover have "delivery_row (dv_delivery_id r) d' = Some r"
      using lease_takes [OF inv ok Cons] assms(2) by auto
    ultimately show ?thesis using lease_takes(1) [OF inv ok Cons] assms(2) x(3) by (auto simp: lease_ok_def)
  qed
qed

theorem lease_is_bounded_witness:
  "\<exists>r. fst (lease_delivery (2 * second) ''me'' 60 3 sample_db) = Inr (Some r) \<and> dv_lease_owner r = Some ''me'' \<and> dv_attempt r \<le> 3"
proof -
  have "case fst (lease_delivery (2 * second) ''me'' 60 3 sample_db) of Inr (Some r) \<Rightarrow> True | _ \<Rightarrow> False" by code_simp
  then obtain r where "fst (lease_delivery (2 * second) ''me'' 60 3 sample_db) = Inr (Some r)"
    by (auto split: sum.splits option.splits)
  with lease_is_bounded [OF sample_reachable, of "2 * second" "''me''" 60 3 r] show ?thesis by (metis prod.collapse)
qed

text \<open>C20: A waiting delivery that is eligible and has attempts left is not starved: a lease returns
  a delivery, and one that comes no later in the order of eligibility and id.\<close>

theorem lease_serves_waiting:
  assumes "reachable cap uuid5 d" and "own \<noteq> []" "0 < secs" "0 < m"
    and "r \<in> set (deliveries d)" and "dv_state r \<in> {D_queued, D_retry_wait}" and "dv_attempt r < m" and "dv_eligible_at r \<le> utc_text now"
  shows "\<exists>x d'. lease_delivery now own secs m d = (Inr (Some x), d')
    \<and> (dv_eligible_at x, dv_delivery_id x) \<le> (dv_eligible_at r, dv_delivery_id r)"
proof -
  have inv: "delivery_inv d" using reachable_store_inv [OF assms(1)] by (simp add: store_inv_def)
  have w: "waiting r" using assms(6) by (auto simp: waiting_def)
  let ?es = "eligible_deliveries (utc_text now) (swept now m d)"
  have mem: "r \<in> set ?es" using swept_keeps [OF inv assms(5) w assms(7)] w assms(8) by (simp add: eligible_deliveries_def)
  then obtain x xs where es: "?es = x # xs" by (cases ?es) auto
  have "sorted (map (\<lambda>r. (dv_eligible_at r, dv_delivery_id r)) ?es)" by (simp add: eligible_deliveries_def)
  with es mem have "(dv_eligible_at x, dv_delivery_id x) \<le> (dv_eligible_at r, dv_delivery_id r)" by auto
  with lease_takes(1) [OF inv assms(2-4) es] show ?thesis by auto
qed

theorem lease_serves_waiting_witness:
  "\<exists>x d'. lease_delivery (2 * second) ''me'' 60 3 sample_db = (Inr (Some x), d')
    \<and> (dv_eligible_at x, dv_delivery_id x) \<le> (utc_text 1, ''d1'')"
proof -
  have r: "deliveries sample_db = [hd (deliveries sample_db)]" "dv_state (hd (deliveries sample_db)) = D_queued"
    "dv_attempt (hd (deliveries sample_db)) = 0" "dv_eligible_at (hd (deliveries sample_db)) = utc_text 1"
    "dv_delivery_id (hd (deliveries sample_db)) = ''d1''" by code_simp+
  have t: "utc_text 1 \<le> utc_text (2 * second)" by code_simp
  have "hd (deliveries sample_db) \<in> set (deliveries sample_db)" by (subst (2) r(1)) simp
  from lease_serves_waiting [OF sample_reachable, of "''me''" 60 3 "hd (deliveries sample_db)" "2 * second"] this r t
  show ?thesis by simp
qed

end
