(* ===== verification/Journal_Rules.thy ===== *)
theory Journal_Rules
  imports Store_Rules
begin

text \<open>
  What holds of source snapshots, of the idempotency journals, of the recovery of wakes that never
  started, and of calls of the store that raise.
\<close>

section \<open>Source snapshots\<close>

text \<open>C21: A complete snapshot publishes every event staged for it exactly once and advances the
  checkpoint of its source; the number returned is the number of new events, and the events observed
  before stay in front.\<close>

theorem complete_snapshot_publishes:
  assumes "finish_snapshot now sid True pc mx nw qf et er d = (Inr n, d')"
  shows "(\<forall>e\<in>set (snapshot_events d). se_snapshot_id e = sid \<longrightarrow> observes (observed_events d') e)
    \<and> (\<exists>zs. observed_events d' = observed_events d @ zs \<and> n = length zs)
    \<and> (events_unique (observed_events d) \<longrightarrow> events_unique (observed_events d'))
    \<and> (\<exists>row w. snapshot_row sid d = Some row \<and> nw = Some w \<and>
         (\<forall>c\<in>set (source_checkpoints d'). sc_source_id c = ss_source_id row \<longrightarrow>
            sc_watermark c = w \<and> sc_last_complete_snapshot_id c = Some sid))"
proof -
  from assms obtain row w where r: "snapshot_row sid d = Some row" "nw = Some w"
    and o: "observed_events d' = publish_events sid d" and n: "n = length (observed_events d') - length (observed_events d)"
    and c: "source_checkpoints d' = update_where (\<lambda>r. sc_source_id r = ss_source_id row) (\<lambda>r. r\<lparr>sc_watermark := w,
       sc_query_fingerprint := qf, sc_etag := et, sc_last_complete_snapshot_id := Some sid\<rparr>) (source_checkpoints d)"
    by (rule finish_snapshot_complete)
  obtain zs where zs: "observed_events d' = observed_events d @ zs"
    using fold_observe_prefix unfolding o publish_events_def by blast
  have "\<forall>c\<in>set (source_checkpoints d'). sc_source_id c = ss_source_id row \<longrightarrow>
      sc_watermark c = w \<and> sc_last_complete_snapshot_id c = Some sid"
    unfolding c ball_update_where by simp
  moreover have "observes (observed_events d') e" if "e \<in> set (snapshot_events d)" "se_snapshot_id e = sid" for e
    unfolding o publish_events_def by (rule fold_observes) (use that in simp)
  moreover have "events_unique (observed_events d) \<longrightarrow> events_unique (observed_events d')"
    unfolding o publish_events_def by (simp add: fold_observe_unique)
  ultimately show ?thesis using r zs n by auto
qed

definition staged_db :: db where
  "staged_db = fold (store_run 3 id)
     [Source (Checkpoint ''gh'' ''t0''), Source (Begin_snapshot 0 ''n1'' ''gh''),
      Source (Stage_observation ''n1'' ''gh'' ''7'' ''v1'' ''t1'' JNull)] empty_db"

theorem complete_snapshot_publishes_witness:
  "fst (finish_snapshot 1 ''n1'' True 1 None (Some ''t1'') None None None staged_db) = Inr 1
   \<and> observes (observed_events (snd (finish_snapshot 1 ''n1'' True 1 None (Some ''t1'') None None None staged_db)))
        (hd (snapshot_events staged_db))"
proof -
  have f: "fst (finish_snapshot 1 ''n1'' True 1 None (Some ''t1'') None None None staged_db) = Inr 1" by code_simp
  then have "finish_snapshot 1 ''n1'' True 1 None (Some ''t1'') None None None staged_db
    = (Inr 1, snd (finish_snapshot 1 ''n1'' True 1 None (Some ''t1'') None None None staged_db))" by (metis prod.collapse)
  note p = complete_snapshot_publishes [OF this]
  have "snapshot_events staged_db \<noteq> []" "se_snapshot_id (hd (snapshot_events staged_db)) = ''n1''" by code_simp+
  with p f show ?thesis by simp
qed

text \<open>A snapshot that is not complete publishes nothing and leaves every checkpoint alone,
  whatever was staged and whether the call returns or raises.\<close>

theorem incomplete_snapshot_publishes_nothing:
  "observed_events (snd (finish_snapshot now sid False pc mx nw qf et er d)) = observed_events d
   \<and> source_checkpoints (snd (finish_snapshot now sid False pc mx nw qf et er d)) = source_checkpoints d"
  using finish_snapshot_incomplete [of now sid pc mx nw qf et er d] by (metis prod.collapse)

section \<open>Idempotency journals\<close>

text \<open>An idempotency key binds one request for good: reserving it again with the same session,
  operation, digest and arguments changes nothing, and reserving it with any other is refused.\<close>

theorem request_key_is_bound:
  assumes "reserve_request now i k op h a d = (Inr r, d')"
  shows "(\<exists>r'. reserve_request later i k op h a d' = (Inr r', d'))
    \<and> ((i', op', h', dumps a') \<noteq> (i, op, h, dumps a) \<longrightarrow>
         (\<exists>m. reserve_request later i' k op' h' a' d' = (Inl (StateError m), d')))"
  using requests.reserve_idempotent [of now k "(i, op, h, a)" d r d' later]
    requests.reserve_no_reuse [of now k "(i, op, h, a)" d r d' "(i', op', h', a')" later] assms
  by simp

theorem request_key_is_bound_witness:
  "fst (reserve_request 1 ''s1'' ''k'' ''repo.status'' ''h'' (JObj []) open_db) = Inr None
   \<and> (\<exists>m. reserve_request 2 ''s1'' ''k'' ''pr.review'' ''h'' (JObj [])
         (snd (reserve_request 1 ''s1'' ''k'' ''repo.status'' ''h'' (JObj []) open_db))
       = (Inl (StateError m), snd (reserve_request 1 ''s1'' ''k'' ''repo.status'' ''h'' (JObj []) open_db)))"
proof -
  have f: "fst (reserve_request 1 ''s1'' ''k'' ''repo.status'' ''h'' (JObj []) open_db) = Inr None" by code_simp
  then have "reserve_request 1 ''s1'' ''k'' ''repo.status'' ''h'' (JObj []) open_db
    = (Inr None, snd (reserve_request 1 ''s1'' ''k'' ''repo.status'' ''h'' (JObj []) open_db))" by (metis prod.collapse)
  from request_key_is_bound [OF this, of 2 "''s1''" "''pr.review''" "''h''" "JObj []"] f show ?thesis by simp
qed

text \<open>A reconciliation operation that succeeded or was dead-lettered is never changed again by
  a call on the journals.\<close>

theorem finished_reconcile_stays:
  assumes "r \<in> set (reconcile_operations d)" and "rc_state r \<in> {C_succeeded, C_dead_letter}"
  shows "r \<in> set (reconcile_operations (journal_run e d))"
proof -
  have u: "r \<in> set (update_where P f (reconcile_operations d))" if "\<not> P r" for P f
    using assms(1) that unfolding set_update_where by force
  show ?thesis
  proof (cases e)
    case (Finish_reconcile now i st res)
    have "r \<in> set (update_where (\<lambda>x. rc_operation_id x = i \<and> rc_state x = rc_state row) f (reconcile_operations d))"
      if "stt \<in> reconcile_allowed (rc_state row)" for row f stt
      using that assms(2) by (intro u) (auto simp: reconcile_allowed_def split: reconcile_state.splits)
    then show ?thesis using assms(1)
      by (auto simp: Finish_reconcile finish_reconcile_def snd_immediate split: option.split)
  qed (use assms u in \<open>auto simp: reserve_request_def mark_request_applying_def abandon_read_request_def finish_request_def
      audit_def reserve_reconcile_def mark_reconcile_applying_def snd_immediate Let_def split: option.split\<close>)
qed

definition reconciled_db :: db where
  "reconciled_db = fold journal_run
     [Reserve_reconcile 0 ''o1'' ''k'' ''src'' ''create'' (JObj []), Mark_reconcile 1 ''o1'', Finish_reconcile 2 ''o1'' ''succeeded'' None]
     empty_db"

theorem finished_reconcile_stays_witness:
  "rc_state (hd (reconcile_operations reconciled_db)) = C_succeeded
   \<and> hd (reconcile_operations reconciled_db) \<in> set (reconcile_operations (journal_run (Finish_reconcile 3 ''o1'' ''dead_letter'' None) reconciled_db))"
proof -
  have r: "reconcile_operations reconciled_db \<noteq> []" "rc_state (hd (reconcile_operations reconciled_db)) = C_succeeded" by code_simp+
  with finished_reconcile_stays [of "hd (reconcile_operations reconciled_db)" reconciled_db "Finish_reconcile 3 ''o1'' ''dead_letter'' None"]
  show ?thesis by simp
qed

section \<open>Recovery and errors\<close>

text \<open>C22: Recovering an orphan session either leaves the database as it was, or gives everything
  back: the session is no longer active, its reservation is released, and its delivery, which was
  leased, waits for a retry.\<close>

theorem orphan_recovery_is_complete:
  assumes "reachable cap uuid5 d" and "recover_orphan_session i (Some del) (Some t) err d = (r, d')"
  shows "(isl r \<and> d' = d) \<or>
    ((\<forall>s\<in>set (wake_sessions d'). ws_session_id s = i \<longrightarrow> ws_state s \<noteq> S_active)
     \<and> (\<forall>b\<in>set (budget_reservations d'). bv_session_id b = i \<longrightarrow> bv_state b = B_released)
     \<and> (\<exists>x y. delivery_row del d = Some x \<and> dv_state x = D_leased \<and> delivery_row del d' = Some y \<and> dv_state y = D_retry_wait
          \<and> dv_eligible_at y = t \<and> dv_attempt y = dv_attempt x))"
proof (cases r)
  case (Inl e)
  with assms(2) show ?thesis by (simp add: recover_orphan_session_def immediate_Inl)
next
  case (Inr u)
  have inv: "budget_inv d" using reachable_store_inv [OF assms(1)] by (simp add: store_inv_def)
  from Inr assms(2) have "recover_orphan_session i (Some del) (Some t) err d = (Inr (), d')" by simp
  then obtain d2 where g: "give_back i (Some del) t err d = Inr d2" and d': "d' = close_session S_revoked i d2"
    by (rule recover_orphan_Inr) simp
  then obtain d1 where d1: "release_reservation_for i d = Inr d1" and d2: "retry_leased_delivery del t err d1 = Inr d2"
    by (auto simp: give_back_def bindE_eq_Inr)
  from d2 obtain x where x: "delivery_row del d1 = Some x" "dv_state x = D_leased"
    and ds: "deliveries d2 = update_where (\<lambda>r. dv_delivery_id r = del) (\<lambda>r. r\<lparr>dv_state := D_retry_wait, dv_eligible_at := t,
        dv_lease_owner := None, dv_lease_until := None, dv_last_error := Some err\<rparr>) (deliveries d1)"
    by (auto simp: retry_leased_delivery_def set_routes_def set_delivery_def split: option.splits if_splits)
  let ?f = "\<lambda>r. r\<lparr>dv_state := D_retry_wait, dv_eligible_at := t, dv_lease_owner := None, dv_lease_until := None, dv_last_error := Some err\<rparr>"
  have "delivery_row del d' = Some (?f x)"
    using x(1) delivery_rowD [OF x(1)] find_update_where [of dv_delivery_id ?f del "\<lambda>r. dv_delivery_id r = del" "deliveries d1"]
    by (simp add: delivery_row_def d' ds)
  moreover have "delivery_row del d = Some x"
    using x(1) release_reservation_for_tables(3) [OF inv d1] by (simp add: delivery_row_def)
  moreover have "\<forall>s\<in>set (wake_sessions d'). ws_session_id s = i \<longrightarrow> ws_state s \<noteq> S_active"
    unfolding d' close_session_def by (simp add: ball_update_where active_session_def)
  moreover have "\<forall>b\<in>set (budget_reservations d'). bv_session_id b = i \<longrightarrow> bv_state b = B_released"
  proof -
    have same: "budget_reservations d' = budget_reservations d1"
      using retry_leased_tables(4) [OF d2] by (simp add: d')
    from release_reservation_for_inv(3) [OF inv d1] show ?thesis
    proof
      assume "d1 = d \<and> i \<notin> bv_session_id ` set (budget_reservations d)"
      with same show ?thesis by auto
    next
      assume "\<exists>b\<in>set (budget_reservations d). bv_session_id b = i \<and> bv_state b = B_active \<and> d1 = settle_effect d b 0 B_released"
      then obtain b where b: "b \<in> set (budget_reservations d)" "bv_session_id b = i" "d1 = settle_effect d b 0 B_released" by blast
      have "distinct (map bv_session_id (budget_reservations d))" using inv by (simp add: budget_inv_def reservations_ok_def)
      from key_unique [OF this _ b(1)] b(2) show ?thesis
        unfolding same b(3) settle_effect_def by (simp add: ball_update_where) blast
    qed
  qed
  ultimately show ?thesis using x(2) by auto
qed

definition orphan_calls :: "store_event list" where
  "orphan_calls =
     [Source (Checkpoint ''gh'' ''t0''), Source (Begin_snapshot 0 ''n1'' ''gh''),
      Source (Stage_observation ''n1'' ''gh'' ''7'' ''v1'' ''t1'' JNull),
      Source (Finish_snapshot 1 ''n1'' True 1 None (Some ''t1'') None None None),
      Queue (Finish_routing ''gh:7:v1'' (Some ''pm'')),
      Queue (Enqueue 1 ''d1'' ''pm'' [''gh:7:v1''] ''key'' None), Queue (Lease (2 * second) ''me'' 60 3),
      Budget (Reserve_budget 1 ''b1'' ''s1'' ''1'' 10 [(''org'', ''acme'', 20), (''role'', ''pm'', 15)])]"

lemma open_reachable: "reachable 3 id open_db"
  unfolding open_db_def by (rule reachable_calls [OF _ reachable.start]) (simp add: unconditional_def)

theorem orphan_recovery_is_complete_witness:
  "\<exists>y. delivery_row ''d1'' (snd (recover_orphan_session ''s1'' (Some ''d1'') (Some ''t9'') ''lost''
      (fold (store_run 3 id) orphan_calls open_db))) = Some y \<and> dv_state y = D_retry_wait"
proof -
  let ?d = "fold (store_run 3 id) orphan_calls open_db"
  have d: "reachable 3 id ?d" by (rule reachable_calls [OF _ open_reachable]) (simp add: orphan_calls_def unconditional_def)
  have "\<not> isl (fst (recover_orphan_session ''s1'' (Some ''d1'') (Some ''t9'') ''lost'' ?d))" by code_simp
  with orphan_recovery_is_complete [OF d, of "''s1''" "''d1''" "''t9''" "''lost''"] show ?thesis by (metis prod.collapse)
qed

text \<open>The exception of a call that runs in a transaction; calls of single statements and the
  settling of a budget, which charges before it raises, are not among them.\<close>

definition raised :: "'a result \<times> db \<Rightarrow> exc option" where
  "raised r = (case fst r of Inl e \<Rightarrow> Some e | Inr _ \<Rightarrow> None)"

fun transaction_error :: "int \<Rightarrow> store_event \<Rightarrow> db \<Rightarrow> exc option" where
  "transaction_error cap (Session (Create_session now u1 u2 org_id role dig al w ttl)) d = raised (create_session now u1 u2 org_id role dig al w ttl cap d)"
| "transaction_error cap (Session (Revoke_session i)) d = raised (revoke_session i d)"
| "transaction_error cap (Session (Finish_session i)) d = raised (finish_session i d)"
| "transaction_error cap (Session (Force_terminate now i x)) d = raised (force_terminate_session now i x d)"
| "transaction_error cap (Session (Reap_expired now i)) d = raised (reap_expired_session now i d)"
| "transaction_error cap (Session (Reserve_worker n1 n2 u i wt cum con)) d = raised (reserve_worker n1 n2 u i wt cum con cap d)"
| "transaction_error cap (Budget (Reserve_budget now u i epoch n bs)) d = raised (reserve_budget now u i epoch n bs d)"
| "transaction_error cap (Budget (Release_budget rid)) d = raised (release_budget rid d)"
| "transaction_error cap (Journal (Reserve_request now i k op h a)) d = raised (reserve_request now i k op h a d)"
| "transaction_error cap (Journal (Reserve_reconcile now u k sk op p)) d = raised (reserve_reconcile now u k sk op p d)"
| "transaction_error cap (Journal (Finish_reconcile now i st r)) d = raised (finish_reconcile now i st r d)"
| "transaction_error cap (Source (Finish_snapshot now sid c pc mx nw qf et er)) d = raised (finish_snapshot now sid c pc mx nw qf et er d)"
| "transaction_error cap (Queue (Finish_routing e role)) d = raised (finish_event_routing e role d)"
| "transaction_error cap (Queue (Enqueue now u role es k el)) d = raised (enqueue_delivery now u role es k el d)"
| "transaction_error cap (Queue (Lease now own secs m)) d = raised (lease_delivery now own secs m d)"
| "transaction_error cap (Queue (Finish_delivery now i own oc err el)) d = raised (finish_delivery now i own oc err el d)"
| "transaction_error cap (Queue (Release_hold now i el)) d = raised (release_budget_hold now i el d)"
| "transaction_error cap (Queue (Force_uncertain i err)) d = raised (force_delivery_uncertain i err d)"
| "transaction_error cap (Runtime (Recover_orphan i del el err)) d = raised (recover_orphan_session i del el err d)"
| "transaction_error cap (Runtime (Recover_prepared now w el err)) d = raised (recover_prepared_wake now w el err d)"
| "transaction_error cap _ d = None"

definition restores :: "db \<Rightarrow> 'a result \<times> db \<Rightarrow> bool" where
  "restores d r \<longleftrightarrow> raised r = None \<or> snd r = d"

lemma restores_immediate: "restores d (immediate f d)"
  by (auto simp: restores_def raised_def immediate_def split: sum.splits prod.splits)

lemma restores_raise: "restores d (Inl e, d)"
  by (simp add: restores_def)

lemma restores_if: "restores d a \<Longrightarrow> restores d b \<Longrightarrow> restores d (if c then a else b)"
  by simp

lemma restores_option: "restores d a \<Longrightarrow> (\<And>x. restores d (f x)) \<Longrightarrow> restores d (case v of None \<Rightarrow> a | Some x \<Rightarrow> f x)"
  by (simp split: option.split)

lemma restores_pair: "(\<And>x y. restores d (f x y)) \<Longrightarrow> restores d (case v of (x, y) \<Rightarrow> f x y)"
  by (simp split: prod.split)

lemma restoresD: "raised r = Some e \<Longrightarrow> restores d r \<Longrightarrow> snd r = d"
  by (simp add: restores_def)

lemmas restores_rules = restores_immediate restores_raise restores_if restores_option restores_pair

lemma transactions_restore:
  "restores d (create_session now u1 u2 org_id role dig al w ttl cap d)" "restores d (revoke_session i d)"
  "restores d (finish_session i d)" "restores d (force_terminate_session now i expired d)"
  "restores d (reap_expired_session now i d)" "restores d (reserve_worker n1 n2 u i wt cum con cap d)"
  "restores d (reserve_budget now u i epoch n bs d)" "restores d (release_budget rid d)"
  "restores d (reserve_request now i k op h a d)" "restores d (reserve_reconcile now u k sk op p d)"
  "restores d (finish_reconcile now i st r d)" "restores d (finish_snapshot now sid c pc mx nw qf et er d)"
  "restores d (finish_event_routing x tgt d)" "restores d (enqueue_delivery now u role es k el d)"
  "restores d (lease_delivery now own secs m d)" "restores d (finish_delivery now i own oc err2 el d)"
  "restores d (release_budget_hold now i el d)" "restores d (force_delivery_uncertain i err d)"
  "restores d (recover_orphan_session i del el err d)" "restores d (recover_prepared_wake now w2 el2 err d)"
  unfolding create_session_def revoke_session_def finish_session_def force_terminate_session_def
    reap_expired_session_def reserve_worker_def reserve_budget_def release_budget_def reserve_request_def
    reserve_reconcile_def finish_reconcile_def finish_snapshot_def finish_event_routing_def enqueue_delivery_def
    lease_delivery_def finish_delivery_def release_budget_hold_def force_delivery_uncertain_def
    recover_orphan_session_def recover_prepared_wake_def Let_def
  by (intro restores_rules)+

text \<open>A transactional call that raises leaves the database exactly as it was.\<close>

theorem raising_transaction_rolls_back:
  assumes "transaction_error cap e d = Some x"
  shows "store_run cap uuid5 e d = d"
  by (insert assms, cases rule: transaction_error.cases [of "(cap, e, d)"]; clarsimp; erule restoresD; rule transactions_restore)

theorem raising_transaction_rolls_back_witness:
  "transaction_error 1 (Session (Reserve_worker 1 1 ''a1'' ''s1'' ''code'' 2 1)) open_db = Some (StateError ''global active-agent cap reached'')
   \<and> store_run 1 id (Session (Reserve_worker 1 1 ''a1'' ''s1'' ''code'' 2 1)) open_db = open_db"
proof -
  have "transaction_error 1 (Session (Reserve_worker 1 1 ''a1'' ''s1'' ''code'' 2 1)) open_db = Some (StateError ''global active-agent cap reached'')"
    by code_simp
  with raising_transaction_rolls_back [OF this] show ?thesis by simp
qed

end
