(* ===== verification/Workers.thy ===== *)
theory Workers
  imports Sessions "HOL-Library.AList"
begin

text \<open>
  \<^verbatim>\<open>control/sjg_control/workers.py\<close>: path scopes, scoped copies between a parent workspace and a
  scratch directory, and \<open>WorkerSupervisor.run\<close>.

  A workspace is a finite tree: \<open>entries\<close> are the names in a directory. The launcher is a parameter
  that takes the scratch tree and gives what it printed or raised, the scratch tree that the worker
  left, the parent workspace as others left it meanwhile, and the store. Nothing else writes the
  workspace while files are copied, so the second walk of \<open>_parent_identity_matches\<close> meets the same
  directory. Owners, directory modes and the temporary name of an import are not modelled.
\<close>

section \<open>Workspaces\<close>

datatype node =
    Regular int string
  | Directory "(string \<times> node) list"
  | Symlink string
  | Special

type_synonym entries = "(string \<times> node) list"

record worker_result =
  wk_attempt_id :: string
  wk_worker_type :: string
  wk_output :: string
  wk_changed_paths :: "string list"

definition worker_path :: "json \<Rightarrow> string result" where
  "worker_path v =
     (case v of
        JStr raw \<Rightarrow> (if unsafe_path raw \<or> length raw > 255 then Inl (WorkerError (''unsafe worker path: '' @ repr_text raw))
                     else Inr raw)
      | _ \<Rightarrow> Inl (WorkerError ''worker paths must be strings''))"

definition paths_of :: "json \<Rightarrow> string list result" where
  "paths_of values =
     (case values of
        JList vs \<Rightarrow>
          (if length vs > 200 then Inl (WorkerError ''worker path scope exceeds 200 entries'')
           else bindE (mapE worker_path vs) (\<lambda>result.
             if \<not> distinct result then Inl (WorkerError ''worker path scopes must not contain duplicates'')
             else Inr (sort (remdups result))))
      | _ \<Rightarrow> Inl (WorkerError ''worker path scopes must be arrays''))"

section \<open>Walking to a parent directory\<close>

text \<open>\<open>_parent_fd\<close> without creation: \<open>None\<close> when a component is missing, otherwise the directory that
  holds the leaf. The path \<^verbatim>\<open>.\<close> has no parts, and \<open>parts[-1]\<close> raises.\<close>

definition unsafe_component :: "string \<Rightarrow> exc" where
  "unsafe_component relative = WorkerError (''worker path contains a symlink or unsafe component: '' @ relative)"

definition no_parts :: exc where
  "no_parts = IndexError ''tuple index out of range''"

fun parent_fd :: "string \<Rightarrow> string list \<Rightarrow> entries \<Rightarrow> (entries \<times> string) option result" where
  "parent_fd relative [] es = Inl no_parts"
| "parent_fd relative [leaf] es = Inr (Some (es, leaf))"
| "parent_fd relative (component # n # rest) es =
     (case map_of es component of
        None \<Rightarrow> Inr None
      | Some (Directory sub) \<Rightarrow> parent_fd relative (n # rest) sub
      | Some _ \<Rightarrow> Inl (unsafe_component relative))"

text \<open>The same walk for an operation that changes the directory of the leaf, with
  \<open>create\<close> making the missing directories.\<close>

fun with_parent :: "bool \<Rightarrow> string \<Rightarrow> string list \<Rightarrow> (string \<Rightarrow> entries \<Rightarrow> unit result \<times> entries) \<Rightarrow> entries
    \<Rightarrow> unit result \<times> entries" where
  "with_parent create relative [] act es = (Inl no_parts, es)"
| "with_parent create relative [leaf] act es = act leaf es"
| "with_parent create relative (component # n # rest) act es =
     (case map_of es component of
        None \<Rightarrow>
          if \<not> create then (Inr (), es)
          else let (r, sub) = with_parent create relative (n # rest) act [] in (r, AList.update component (Directory sub) es)
      | Some (Directory sub) \<Rightarrow>
          let (r, sub') = with_parent create relative (n # rest) act sub in (r, AList.update component (Directory sub') es)
      | Some _ \<Rightarrow> (Inl (unsafe_component relative), es))"

section \<open>Files\<close>

definition is_directory :: exc where
  "is_directory = OSError ''[Errno 21] Is a directory''"

text \<open>\<open>_regular_file_state\<close> and the reading half of \<open>_copy_scoped_input\<close>; wrapping a directory in
  a file object raises.\<close>

type_synonym file_state = "string \<times> nat"

definition absent :: file_state where
  "absent = (''absent'', 0)"

definition regular_file_state :: "(string \<Rightarrow> string) \<Rightarrow> entries \<Rightarrow> string \<Rightarrow> file_state result" where
  "regular_file_state sha root relative =
     bindE (parent_fd relative (posix_parts relative) root) (\<lambda>found.
       case found of
         None \<Rightarrow> Inr absent
       | Some (dir_entries, leaf) \<Rightarrow>
           (case map_of dir_entries leaf of
              None \<Rightarrow> Inr absent
            | Some (Regular mode data) \<Rightarrow> Inr (sha data, length data)
            | Some (Symlink _) \<Rightarrow> Inl (WorkerError (''worker path contains a symlink: '' @ relative))
            | Some (Directory _) \<Rightarrow> Inl is_directory
            | Some Special \<Rightarrow> Inl (WorkerError (''worker path is not a regular file: '' @ relative))))"

definition scoped_input :: "entries \<Rightarrow> string \<Rightarrow> (int \<times> string) option result" where
  "scoped_input root relative =
     bindE (parent_fd relative (posix_parts relative) root) (\<lambda>found.
       case found of
         None \<Rightarrow> Inr None
       | Some (dir_entries, leaf) \<Rightarrow>
           (case map_of dir_entries leaf of
              None \<Rightarrow> Inr None
            | Some (Regular mode data) \<Rightarrow> Inr (Some (mode, data))
            | Some (Symlink _) \<Rightarrow> Inl (WorkerError (''worker input is a symlink: '' @ relative))
            | Some (Directory _) \<Rightarrow> Inl is_directory
            | Some Special \<Rightarrow> Inl (WorkerError (''worker input is not a regular file: '' @ relative))))"

definition put_leaf :: "int \<Rightarrow> string \<Rightarrow> string \<Rightarrow> entries \<Rightarrow> unit result \<times> entries" where
  "put_leaf mode data leaf es =
     (case map_of es leaf of
        Some (Directory _) \<Rightarrow> (Inl is_directory, es)
      | _ \<Rightarrow> (Inr (), AList.update leaf (Regular mode data) es))"

text \<open>\<open>destination.parent.mkdir(parents=True, exist_ok=True)\<close> and the write below the scratch root.\<close>

definition copy_scoped_input :: "entries \<Rightarrow> string \<Rightarrow> entries \<Rightarrow> bool result \<times> entries" where
  "copy_scoped_input root relative scratch =
     (case scoped_input root relative of
        Inl e \<Rightarrow> (Inl e, scratch)
      | Inr None \<Rightarrow> (Inr False, scratch)
      | Inr (Some (mode, data)) \<Rightarrow>
          (case with_parent True relative (posix_parts relative) (put_leaf mode data) scratch of
             (Inl e, scratch') \<Rightarrow> (Inl e, scratch')
           | (Inr _, scratch') \<Rightarrow> (Inr True, scratch')))"

fun lookup :: "string list \<Rightarrow> entries \<Rightarrow> node option" where
  "lookup [] es = None"
| "lookup [n] es = map_of es n"
| "lookup (c # n # rest) es = (case map_of es c of Some (Directory sub) \<Rightarrow> lookup (n # rest) sub | _ \<Rightarrow> None)"

definition replace_regular_file :: "entries \<Rightarrow> string \<Rightarrow> entries \<Rightarrow> unit result \<times> entries" where
  "replace_regular_file scratch relative root =
     with_parent True relative (posix_parts relative) (\<lambda>leaf es.
       case lookup (posix_parts relative) scratch of
         Some (Regular mode data) \<Rightarrow> put_leaf mode data leaf es
       | None \<Rightarrow> (Inl (OSError ''[Errno 2] No such file or directory''), es)
       | Some (Symlink _) \<Rightarrow> (Inl (OSError ''[Errno 40] Too many levels of symbolic links''), es)
       | Some (Directory _) \<Rightarrow> (Inl is_directory, es)
       | Some Special \<Rightarrow> (Inl (WorkerError (''worker output is not a regular file: '' @ relative)), es)) root"

definition unlink_scoped :: "string \<Rightarrow> entries \<Rightarrow> unit result \<times> entries" where
  "unlink_scoped relative root =
     with_parent False relative (posix_parts relative) (\<lambda>leaf es.
       case map_of es leaf of
         None \<Rightarrow> (Inr (), es)
       | Some (Directory _) \<Rightarrow> (Inl (WorkerError (''worker output deletion targets a directory: '' @ relative)), es)
       | Some _ \<Rightarrow> (Inr (), AList.delete leaf es)) root"

section \<open>Inventories\<close>

text \<open>\<open>rglob\<close>: every entry below the root; links are listed and not followed.\<close>

fun tree_items :: "entries \<Rightarrow> (string list \<times> node) list" where
  "tree_items [] = []"
| "tree_items ((n, Directory sub) # es) =
     ([n], Directory sub) # map (\<lambda>(p, x). (n # p, x)) (tree_items sub) @ tree_items es"
| "tree_items ((n, x) # es) = ([n], x) # tree_items es"

type_synonym inventory = "(string \<times> file_state) list"

fun inventory_of :: "(string \<Rightarrow> string) \<Rightarrow> (string list \<times> node) list \<Rightarrow> inventory result" where
  "inventory_of sha [] = Inr []"
| "inventory_of sha ((p, Directory _) # is) = inventory_of sha is"
| "inventory_of sha ((p, Symlink _) # is) = Inl (WorkerError (''worker created a symlink: '' @ join ''/'' p))"
| "inventory_of sha ((p, Special) # is) = Inl (WorkerError (''worker created a non-regular file: '' @ join ''/'' p))"
| "inventory_of sha ((p, Regular mode data) # is) =
     bindE (inventory_of sha is) (\<lambda>r. Inr ((join ''/'' p, sha data, length data) # r))"

definition snapshot_tree :: "(string \<Rightarrow> string) \<Rightarrow> entries \<Rightarrow> inventory result" where
  "snapshot_tree sha root = inventory_of sha (sort_key fst (tree_items root))"

definition state_in :: "inventory \<Rightarrow> string \<Rightarrow> file_state" where
  "state_in listing relative = (case map_of listing relative of Some s \<Rightarrow> s | None \<Rightarrow> absent)"

definition changed_paths :: "inventory \<Rightarrow> inventory \<Rightarrow> string list" where
  "changed_paths before after =
     sort (filter (\<lambda>p. map_of before p \<noteq> map_of after p) (remdups (map fst before @ map fst after)))"

section \<open>The supervisor of workers\<close>

record worker_settings =
  luna_models :: "(string \<times> string) list"
  timeout_seconds :: int
  max_patch_bytes :: int
  max_output_bytes :: int
  worker_owned :: bool
  scratch_failure :: "exc option"

type_synonym launcher = "string \<Rightarrow> string \<Rightarrow> string \<Rightarrow> entries \<Rightarrow> string \<Rightarrow> int \<Rightarrow> entries \<Rightarrow> db
    \<Rightarrow> json result \<times> entries \<times> entries \<times> db"

fun copy_inputs :: "entries \<Rightarrow> string list \<Rightarrow> entries \<Rightarrow> unit result \<times> entries" where
  "copy_inputs root [] scratch = (Inr (), scratch)"
| "copy_inputs root (relative # ps) scratch =
     (case copy_scoped_input root relative scratch of
        (Inl e, scratch') \<Rightarrow> (Inl e, scratch')
      | (Inr _, scratch') \<Rightarrow> copy_inputs root ps scratch')"

definition check_parent :: "(string \<Rightarrow> string) \<Rightarrow> entries \<Rightarrow> inventory \<Rightarrow> string \<Rightarrow> unit result" where
  "check_parent sha root before relative =
     bindE (regular_file_state sha root relative) (\<lambda>state.
       if state \<noteq> state_in before relative
       then Inl (WorkerError (''worker import conflicted with a newer parent file: '' @ relative)) else Inr ())"

fun import_paths :: "entries \<Rightarrow> inventory \<Rightarrow> string list \<Rightarrow> entries \<Rightarrow> unit result \<times> entries" where
  "import_paths scratch after [] root = (Inr (), root)"
| "import_paths scratch after (relative # ps) root =
     (case (if relative \<notin> fst ` set after then unlink_scoped relative root else replace_regular_file scratch relative root) of
        (Inl e, root') \<Rightarrow> (Inl e, root')
      | (Inr _, root') \<Rightarrow> import_paths scratch after ps root')"

text \<open>From the second inventory to the imported files: what the worker left is checked against its
  scope, its size and the parent before any file is imported.\<close>

definition import_output ::
  "(string \<Rightarrow> string) \<Rightarrow> worker_settings \<Rightarrow> string list \<Rightarrow> inventory \<Rightarrow> entries \<Rightarrow> entries \<Rightarrow> string list result \<times> entries" where
  "import_output sha cfg write_paths before scratch root =
     (case snapshot_tree sha scratch of
        Inl e \<Rightarrow> (Inl e, root)
      | Inr after \<Rightarrow>
          let changed = changed_paths before after;
              forbidden = filter (\<lambda>p. p \<notin> set write_paths) changed in
          if forbidden \<noteq> []
          then (Inl (WorkerError (''worker changed paths outside its scope: '' @ join '', '' forbidden)), root)
          else if int (sum_list (map (\<lambda>p. snd (state_in after p)) changed)) > max_patch_bytes cfg
          then (Inl (WorkerError ''worker output exceeds the patch-size limit''), root)
          else (case forE (check_parent sha root before) changed of
                  Inl e \<Rightarrow> (Inl e, root)
                | Inr _ \<Rightarrow>
                    (case import_paths scratch after changed root of
                       (Inl e, root') \<Rightarrow> (Inl e, root')
                     | (Inr _, root') \<Rightarrow> (Inr changed, root'))))"

text \<open>The body of the \<open>try\<close> statement, and its \<open>except\<close> clause; \<open>stamp\<close> is SQLite's
  \<open>datetime('now')\<close>.\<close>

definition work ::
  "(string \<Rightarrow> string) \<Rightarrow> worker_settings \<Rightarrow> launcher \<Rightarrow> string \<Rightarrow> string \<Rightarrow> string \<Rightarrow> string \<Rightarrow> string \<Rightarrow> string list \<Rightarrow> string list
     \<Rightarrow> entries \<Rightarrow> db \<Rightarrow> worker_result result \<times> entries \<times> db" where
  "work sha cfg launch stamp attempt worker_type model task read_paths write_paths root d =
     (case copy_inputs root (sort (remdups (read_paths @ write_paths))) [] of
        (Inl e, _) \<Rightarrow> (Inl e, root, d)
      | (Inr _, scratch) \<Rightarrow>
      if worker_owned cfg \<and> list_ex (\<lambda>(p, x). case x of Symlink _ \<Rightarrow> True | _ \<Rightarrow> False) (tree_items scratch)
      then (Inl (WorkerError ''worker scratch contains a symlink before launch''), root, d)
      else
      (case snapshot_tree sha scratch of
        Inl e \<Rightarrow> (Inl e, root, d)
      | Inr before \<Rightarrow>
      (case launch worker_type model task scratch attempt (timeout_seconds cfg) root (start_attempt attempt d) of
        (Inl e, _, root', d') \<Rightarrow> (Inl e, root', d')
      | (Inr (JStr output), scratch', root', d') \<Rightarrow>
          (if int (length output) > max_output_bytes cfg
           then (Inl (WorkerError ''worker textual output exceeds the response-size limit''), root', d')
           else (case import_output sha cfg write_paths before scratch' root' of
                   (Inl e, root'') \<Rightarrow> (Inl e, root'', d')
                 | (Inr changed, root'') \<Rightarrow>
                     (Inr \<lparr>wk_attempt_id = attempt, wk_worker_type = worker_type, wk_output = output,
                           wk_changed_paths = changed\<rparr>, root'', succeed_attempt stamp attempt (sha output) d')))
      | (Inr _, _, root', d') \<Rightarrow>
          (Inl (WorkerError ''worker textual output exceeds the response-size limit''), root', d'))))"

text \<open>\<open>WorkerSupervisor.run\<close>. \<open>parent\<close> is the workspace directory, \<open>None\<close> when the path does not
  exist; resolving it, and then creating the scratch root and the scratch directory, happens after
  the worker is reserved and outside the \<open>try\<close> statement. \<open>scratch_failure\<close> is what \<open>mkdir\<close> or
  \<open>tempfile.mkdtemp\<close> raises, if one of them does.\<close>

definition run_worker ::
  "(string \<Rightarrow> string) \<Rightarrow> organization_policy \<Rightarrow> worker_settings \<Rightarrow> launcher \<Rightarrow> (nat \<Rightarrow> instant) \<Rightarrow> string \<Rightarrow> string
     \<Rightarrow> session \<Rightarrow> (string \<times> json) list \<Rightarrow> entries option \<Rightarrow> db \<Rightarrow> worker_result result \<times> entries option \<times> db" where
  "run_worker sha policy cfg launch clk uuid stamp sn arguments parent d =
     (case store_session (clk 0) (sn_session_id sn) d of
        Inl e \<Rightarrow> (Inl e, parent, d)
      | Inr bound_session \<Rightarrow>
      if bound_session \<noteq> sn
      then (Inl (WorkerError ''worker parent session does not match controller-owned state''), parent, d)
      else
      (case policy_role policy (sn_role sn) of
        Inl e \<Rightarrow> (Inl e, parent, d)
      | Inr role \<Rightarrow>
      let worker_type = str_or_empty (dget arguments ''type'') in
      if worker_type \<notin> rp_worker_types role
      then (Inl (WorkerError (''worker type '' @ repr_text worker_type @ '' is not allowed'')), parent, d)
      else
      (case dget arguments ''task'' of
        JStr task \<Rightarrow>
        if strip task = [] \<or> length task > 32768
        then (Inl (WorkerError ''worker task must be non-empty and at most 32 KiB''), parent, d)
        else
        (case map_of (luna_models cfg) worker_type of
          None \<Rightarrow> (Inl (WorkerError (''no sealed Luna model for worker type '' @ worker_type)), parent, d)
        | Some model \<Rightarrow>
        (case bindE (paths_of (py_or (dget arguments ''readPaths'') (JList []))) (\<lambda>read_paths.
                bindE (paths_of (py_or (dget arguments ''writePaths'') (JList []))) (\<lambda>write_paths.
                  if worker_type \<noteq> ''implementer'' \<and> write_paths \<noteq> [] then Inl (WorkerError (worker_type @ '' is read-only''))
                  else if worker_type = ''implementer'' \<and> write_paths = []
                  then Inl (WorkerError ''implementer requires declared write paths'')
                  else if \<not> set write_paths \<subseteq> set read_paths
                  then Inl (WorkerError ''every write path must also be declared as an input path'')
                  else Inr (read_paths, write_paths))) of
          Inl e \<Rightarrow> (Inl e, parent, d)
        | Inr (read_paths, write_paths) \<Rightarrow>
        (case reserve_worker (clk 1) (clk 2) uuid (sn_session_id sn) worker_type (rp_max_workers_per_wake role)
                (rp_max_workers_concurrent role) (op_global_max_agents policy) d of
          (Inl e, d1) \<Rightarrow> (Inl e, parent, d1)
        | (Inr attempt, d1) \<Rightarrow>
        (case parent of
          None \<Rightarrow> (Inl (OSError ''[Errno 2] No such file or directory''), parent, d1)
        | Some root \<Rightarrow>
        (case scratch_failure cfg of
          Some e \<Rightarrow> (Inl e, parent, d1)
        | None \<Rightarrow>
        (case work sha cfg launch stamp attempt worker_type model task read_paths write_paths root d1 of
          (Inl e, root', d2) \<Rightarrow> (Inl e, Some root', fail_attempt stamp attempt d2)
        | (Inr result, root', d2) \<Rightarrow> (Inr result, Some root', d2)))))))
      | _ \<Rightarrow> (Inl (WorkerError ''worker task must be non-empty and at most 32 KiB''), parent, d))))"

end
