(* ===== verification/Worker_Rules.thy ===== *)
theory Worker_Rules
  imports Workers "HOL-Library.Sublist"
begin

text \<open>
  What a worker run does to the parent workspace and to its attempt. The files of a tree are seen
  through \<open>file_at\<close>; the walks and edits of \<^verbatim>\<open>Workers\<close> are characterised by it, and the import of a
  worker's output is shown to be all or nothing.
\<close>

section \<open>Trees through their files\<close>

definition file_at :: "string list \<Rightarrow> entries \<Rightarrow> (int \<times> string) option" where
  "file_at p es = (case lookup p es of Some (Regular mode data) \<Rightarrow> Some (mode, data) | _ \<Rightarrow> None)"

definition state_at :: "(string \<Rightarrow> string) \<Rightarrow> string list \<Rightarrow> entries \<Rightarrow> file_state" where
  "state_at sha p es = (case file_at p es of Some (mode, data) \<Rightarrow> (sha data, length data) | None \<Rightarrow> absent)"

text \<open>Nothing stands in the way of writing a file: the components are directories or missing, and
  the leaf is a regular file or missing.\<close>

fun clear :: "string list \<Rightarrow> entries \<Rightarrow> bool" where
  "clear [] es = False"
| "clear [n] es = (case map_of es n of None \<Rightarrow> True | Some (Regular _ _) \<Rightarrow> True | _ \<Rightarrow> False)"
| "clear (c # n # rest) es = (case map_of es c of None \<Rightarrow> True | Some (Directory sub) \<Rightarrow> clear (n # rest) sub | _ \<Rightarrow> False)"

lemma file_at_simps [simp]:
  "file_at [] es = None"
  "file_at [n] es = (case map_of es n of Some (Regular mode data) \<Rightarrow> Some (mode, data) | _ \<Rightarrow> None)"
  "file_at (c # n # rest) es = (case map_of es c of Some (Directory sub) \<Rightarrow> file_at (n # rest) sub | _ \<Rightarrow> None)"
  by (simp_all add: file_at_def split: option.split node.split)

lemma parent_fd_clear:
  assumes "parent_fd relative p es = Inr found"
    and "\<And>sub leaf. found = Some (sub, leaf) \<Longrightarrow> map_of sub leaf = None \<or> (\<exists>m b. map_of sub leaf = Some (Regular m b))"
  shows "clear p es \<and> file_at p es = (case found of None \<Rightarrow> None
    | Some (sub, leaf) \<Rightarrow> (case map_of sub leaf of Some (Regular m b) \<Rightarrow> Some (m, b) | _ \<Rightarrow> None))"
  using assms
  by (induction relative p es rule: parent_fd.induct) (auto split: option.splits node.splits)

lemma regular_file_state_clear:
  assumes "regular_file_state sha root relative = Inr st"
  shows "clear (posix_parts relative) root \<and> st = state_at sha (posix_parts relative) root"
proof -
  from assms obtain found where f: "parent_fd relative (posix_parts relative) root = Inr found"
    by (auto simp: regular_file_state_def bindE_eq_Inr)
  have leaf: "map_of sub l = None \<or> (\<exists>m b. map_of sub l = Some (Regular m b))" if "found = Some (sub, l)" for sub l
    using assms f that by (auto simp: regular_file_state_def split: option.splits node.splits)
  from parent_fd_clear [OF f leaf] assms f show ?thesis
    by (auto simp: regular_file_state_def state_at_def split: option.splits prod.splits node.splits)
qed

text \<open>Two paths of which neither is below the other.\<close>

definition apart :: "string list \<Rightarrow> string list \<Rightarrow> bool" where
  "apart p q \<longleftrightarrow> \<not> prefix p q \<and> \<not> prefix q p"

lemma apart_Cons [simp]: "apart (c # p) (c # q) = apart p q"
  by (simp add: apart_def)

text \<open>Replacing one entry of the root.\<close>

lemma file_at_update:
  "file_at q (AList.update c x es) =
     (case q of [] \<Rightarrow> None
      | [n] \<Rightarrow> if n = c then (case x of Regular m b \<Rightarrow> Some (m, b) | _ \<Rightarrow> None) else file_at q es
      | c' # n # rest \<Rightarrow> if c' = c then (case x of Directory sub \<Rightarrow> file_at (n # rest) sub | _ \<Rightarrow> None) else file_at q es)"
  by (simp add: update_conv' split: list.split node.split)

lemma clear_update:
  "clear q (AList.update c x es) =
     (case q of [] \<Rightarrow> False
      | [n] \<Rightarrow> if n = c then (case x of Regular m b \<Rightarrow> True | _ \<Rightarrow> False) else clear q es
      | c' # n # rest \<Rightarrow> if c' = c then (case x of Directory sub \<Rightarrow> clear (n # rest) sub | _ \<Rightarrow> False) else clear q es)"
  by (simp add: update_conv' split: list.split node.split)

lemma file_at_empty [simp]: "file_at q [] = None"
  by (cases q rule: remdups_adj.cases) simp_all

lemma clear_empty [simp]: "clear q [] \<longleftrightarrow> q \<noteq> []"
  by (cases q rule: remdups_adj.cases) simp_all

lemma put_file:
  "clear p es \<Longrightarrow> \<exists>es'. with_parent True relative p (put_leaf mode data) es = (Inr (), es')
     \<and> (\<forall>q. file_at q es' = (if q = p then Some (mode, data) else file_at q es))
     \<and> (\<forall>q. apart p q \<longrightarrow> clear q es \<longrightarrow> clear q es')"
proof (induction p arbitrary: es)
  case (Cons c p)
  show ?case
  proof (cases p)
    case Nil
    have "with_parent True relative [c] (put_leaf mode data) es = (Inr (), AList.update c (Regular mode data) es)"
      using Cons.prems Nil by (auto simp: put_leaf_def split: option.splits node.splits)
    moreover have "file_at q (AList.update c (Regular mode data) es) = (if q = [c] then Some (mode, data) else file_at q es)" for q
      using Cons.prems Nil by (auto simp: file_at_update split: list.splits option.splits node.splits)
    moreover have "apart [c] q \<Longrightarrow> clear q es \<Longrightarrow> clear q (AList.update c (Regular mode data) es)" for q
      by (auto simp: clear_update apart_def split: list.splits)
    ultimately show ?thesis unfolding Nil by blast
  next
    case p: (Cons n rest)
    note prem = Cons.prems [unfolded p]
    define sub where "sub = (case map_of es c of Some (Directory s) \<Rightarrow> s | _ \<Rightarrow> [])"
    have "clear (n # rest) sub" using prem by (auto simp: sub_def split: option.splits node.splits)
    from Cons.IH [unfolded p, OF this] obtain sub' where
      s: "with_parent True relative (n # rest) (put_leaf mode data) sub = (Inr (), sub')"
        "\<And>q. file_at q sub' = (if q = n # rest then Some (mode, data) else file_at q sub)"
        "\<And>q. apart (n # rest) q \<Longrightarrow> clear q sub \<Longrightarrow> clear q sub'" by blast
    have "with_parent True relative (c # n # rest) (put_leaf mode data) es = (Inr (), AList.update c (Directory sub') es)"
      using prem s(1) by (auto simp: sub_def split: option.splits node.splits)
    moreover have "file_at q (AList.update c (Directory sub') es) = (if q = c # n # rest then Some (mode, data) else file_at q es)" for q
      using prem by (auto simp: file_at_update s(2) sub_def split: list.splits option.splits node.splits)
    moreover have "apart (c # n # rest) q \<Longrightarrow> clear q es \<Longrightarrow> clear q (AList.update c (Directory sub') es)" for q
      using prem s(3) by (auto simp: clear_update sub_def apart_def split: list.splits option.splits node.splits)
    ultimately show ?thesis unfolding p by blast
  qed
qed simp

text \<open>Deleting a file, or nothing when it is missing.\<close>

definition drop_leaf :: "string \<Rightarrow> string \<Rightarrow> entries \<Rightarrow> unit result \<times> entries" where
  "drop_leaf relative leaf es =
     (case map_of es leaf of
        None \<Rightarrow> (Inr (), es)
      | Some (Directory _) \<Rightarrow> (Inl (WorkerError (''worker output deletion targets a directory: '' @ relative)), es)
      | Some _ \<Rightarrow> (Inr (), AList.delete leaf es))"

lemma file_at_delete: "file_at q (AList.delete c es) = (case q of [] \<Rightarrow> None | c' # rest \<Rightarrow> if c' = c then None else file_at q es)"
  by (cases q rule: remdups_adj.cases) (simp_all add: delete_conv')

lemma clear_delete: "clear q (AList.delete c es) = (case q of [] \<Rightarrow> False | c' # rest \<Rightarrow> c' = c \<or> clear q es)"
  by (cases q rule: remdups_adj.cases) (auto simp: delete_conv')

lemma drop_file:
  "clear p es \<Longrightarrow> \<exists>es'. with_parent False relative p (drop_leaf relative) es = (Inr (), es')
     \<and> (\<forall>q. file_at q es' = (if q = p then None else file_at q es))
     \<and> (\<forall>q. clear q es \<longrightarrow> clear q es')"
proof (induction p es rule: clear.induct)
  case (2 n es)
  show ?case
  proof (cases "map_of es n")
    case None
    then have "\<forall>q. file_at q es = (if q = [n] then None else file_at q es)" by simp
    with None show ?thesis by (simp add: drop_leaf_def)
  next
    case (Some x)
    with 2 obtain m b where x: "x = Regular m b" by (auto split: node.splits)
    have "file_at q (AList.delete n es) = (if q = [n] then None else file_at q es)" for q
      using Some x by (cases q rule: remdups_adj.cases) (auto simp: delete_conv')
    moreover have "clear q es \<longrightarrow> clear q (AList.delete n es)" for q
      by (cases q) (auto simp: clear_delete)
    ultimately show ?thesis using Some x by (simp add: drop_leaf_def)
  qed
next
  case (3 c n rest es)
  show ?case
  proof (cases "map_of es c")
    case None
    then have "\<forall>q. file_at q es = (if q = c # n # rest then None else file_at q es)" by simp
    with None show ?thesis by simp
  next
    case (Some x)
    with 3(2) obtain sub where x: "x = Directory sub" by (auto split: node.splits)
    with 3 Some obtain sub' where
      s: "with_parent False relative (n # rest) (drop_leaf relative) sub = (Inr (), sub')"
        "\<And>q. file_at q sub' = (if q = n # rest then None else file_at q sub)"
        "\<And>q. clear q sub \<Longrightarrow> clear q sub'" by auto
    have "file_at q (AList.update c (Directory sub') es) = (if q = c # n # rest then None else file_at q es)" for q
      using Some x by (auto simp: file_at_update s(2) split: list.split)
    moreover have "clear q es \<Longrightarrow> clear q (AList.update c (Directory sub') es)" for q
      using Some x s(3) by (auto simp: clear_update split: list.splits)
    ultimately show ?thesis using Some x s(1) by simp
  qed
qed simp

section \<open>Inventories\<close>

text \<open>What the file system guarantees of a tree: names are not empty, not \<^verbatim>\<open>.\<close>, have no slash, and
  are distinct within a directory.\<close>

definition name_ok :: "string \<Rightarrow> bool" where
  "name_ok n \<longleftrightarrow> n \<noteq> [] \<and> n \<noteq> ''.'' \<and> CHR ''/'' \<notin> set n"

fun wf_tree :: "entries \<Rightarrow> bool" where
  "wf_tree [] = True"
| "wf_tree ((n, Directory sub) # es) = (name_ok n \<and> n \<notin> fst ` set es \<and> wf_tree sub \<and> wf_tree es)"
| "wf_tree ((n, x) # es) = (name_ok n \<and> n \<notin> fst ` set es \<and> wf_tree es)"

lemma tree_items_head: "(p, x) \<in> set (tree_items es) \<Longrightarrow> p \<noteq> [] \<and> hd p \<in> fst ` set es"
  by (induction es arbitrary: p x rule: tree_items.induct) auto

lemma lookup_leaf:
  assumes "n \<notin> fst ` set es" and "\<And>sub. x \<noteq> Directory sub"
  shows "lookup p ((n, x) # es) = (if p = [n] then Some x else lookup p es)"
proof -
  have "map_of es n = None" using assms(1) by (simp add: map_of_eq_None_iff)
  then show ?thesis using assms(2) by (cases p rule: remdups_adj.cases) (auto split: node.split)
qed

lemma tree_items_lookup:
  "wf_tree es \<Longrightarrow> (p, x) \<in> set (tree_items es) \<longleftrightarrow> lookup p es = Some x"
proof (induction es arbitrary: p x rule: tree_items.induct)
  case 1
  then show ?case by (cases p rule: remdups_adj.cases) simp_all
next
  case (2 n sub es)
  then have ih: "\<And>p x. (p, x) \<in> set (tree_items sub) \<longleftrightarrow> lookup p sub = Some x"
      "\<And>p x. (p, x) \<in> set (tree_items es) \<longleftrightarrow> lookup p es = Some x" and n: "n \<notin> fst ` set es" by auto
  have no: "(p, x) \<notin> set (tree_items es)" if "p \<noteq> []" "hd p = n" for p x
    using tree_items_head [of p x es] n that by auto
  have "map_of es n = None" using n by (simp add: map_of_eq_None_iff)
  show ?case
  proof (cases p rule: remdups_adj.cases)
    case 1
    then show ?thesis using tree_items_head [of "[]" x "(n, Directory sub) # es"] by auto
  next
    case (2 m)
    have "([m], x) \<in> (\<lambda>(p, x). (n # p, x)) ` set (tree_items sub) \<longleftrightarrow> False"
      using tree_items_head [of "[]" x sub] by auto
    then show ?thesis using 2 ih(2) [of "[m]" x] no [of "[m]" x] by auto
  next
    case (3 m k rest)
    then show ?thesis using ih(1) [of "k # rest" x] ih(2) [of "m # k # rest" x] no [of "m # k # rest" x] by auto
  qed
qed (auto simp: lookup_leaf map_of_eq_None_iff [THEN iffD2] dest: tree_items_head)

lemma wf_tree_names: "wf_tree es \<Longrightarrow> (p, x) \<in> set (tree_items es) \<Longrightarrow> p \<noteq> [] \<and> (\<forall>n\<in>set p. name_ok n)"
  by (induction es arbitrary: p x rule: tree_items.induct) auto

lemma parts_of_names:
  assumes "p \<noteq> []" and "\<forall>n\<in>set p. name_ok n"
  shows "posix_parts (join ''/'' p) = p"
proof -
  have s: "split_on (CHR ''/'') (join ''/'' p) = p"
    using assms by (intro split_on_join) (auto simp: name_ok_def)
  obtain c cs ns where p: "p = (c # cs) # ns" "c \<noteq> CHR ''/''"
    using assms by (cases p; cases "hd p") (auto simp: name_ok_def)
  then have "join ''/'' p = c # (cs @ (if ns = [] then [] else CHR ''/'' # join ''/'' ns))"
    by (cases ns) simp_all
  then have "posix_root (join ''/'' p) = []" using p(2) by (simp add: posix_root_def starts_with_def)
  moreover have "filter (\<lambda>n. n \<noteq> [] \<and> n \<noteq> ''.'') p = p" using assms(2) by (auto simp: name_ok_def intro!: filter_True)
  ultimately show ?thesis by (simp add: posix_parts_def posix_names_def s)
qed

lemma inventory_of_set:
  "inventory_of sha is = Inr listing \<Longrightarrow> set listing = {(join ''/'' p, sha b, length b) |p m b. (p, Regular m b) \<in> set is}"
proof (induction sha "is" arbitrary: listing rule: inventory_of.induct)
  case (5 sha p mode data "is")
  then obtain r where r: "inventory_of sha is = Inr r" "listing = (join ''/'' p, sha data, length data) # r"
    by (auto simp: bindE_eq_Inr)
  from "5.IH" [OF r(1)] show ?case unfolding r(2) by (simp only: list.set prod.inject insert_iff) blast
qed auto

lemma snapshot_files:
  assumes "wf_tree es" and "snapshot_tree sha es = Inr listing"
  shows "(k, st) \<in> set listing \<longleftrightarrow>
    (\<exists>p m b. k = join ''/'' p \<and> posix_parts k = p \<and> file_at p es = Some (m, b) \<and> st = (sha b, length b))"
proof -
  have s: "set listing = {(join ''/'' p, sha b, length b) |p m b. lookup p es = Some (Regular m b)}"
    using inventory_of_set [OF assms(2) [unfolded snapshot_tree_def]] tree_items_lookup [OF assms(1)] by simp
  have "posix_parts (join ''/'' p) = p" if "lookup p es = Some (Regular m b)" for p m b
    using wf_tree_names [OF assms(1)] tree_items_lookup [OF assms(1)] that parts_of_names by blast
  then show ?thesis unfolding s by (auto simp: file_at_def split: option.splits node.splits)
qed

lemma snapshot_map:
  assumes "wf_tree es" and "snapshot_tree sha es = Inr listing" and "k = join ''/'' (posix_parts k)"
  shows "map_of listing k = map_option (\<lambda>(m, b). (sha b, length b)) (file_at (posix_parts k) es)"
proof (cases "map_of listing k")
  case None
  then have "(k, st) \<notin> set listing" for st by (force simp: map_of_eq_None_iff)
  with snapshot_files [OF assms(1,2)] assms(3) have "file_at (posix_parts k) es \<noteq> Some (m, b)" for m b by blast
  then show ?thesis using None by (cases "file_at (posix_parts k) es") auto
next
  case (Some st)
  then have "(k, st) \<in> set listing" by (rule map_of_SomeD)
  with snapshot_files [OF assms(1,2)] Some show ?thesis by auto
qed

section \<open>The import\<close>

lemma unlink_scoped_clear:
  assumes "clear (posix_parts k) root"
  shows "\<exists>root'. unlink_scoped k root = (Inr (), root')
     \<and> (\<forall>q. file_at q root' = (if q = posix_parts k then None else file_at q root)) \<and> (\<forall>q. clear q root \<longrightarrow> clear q root')"
proof -
  have "unlink_scoped k root = with_parent False k (posix_parts k) (drop_leaf k) root"
    by (simp add: unlink_scoped_def drop_leaf_def [abs_def])
  with drop_file [OF assms] show ?thesis by simp
qed

lemma replace_clear:
  assumes "clear (posix_parts k) root" and "file_at (posix_parts k) scratch = Some (m, b)"
  shows "\<exists>root'. replace_regular_file scratch k root = (Inr (), root')
     \<and> (\<forall>q. file_at q root' = (if q = posix_parts k then Some (m, b) else file_at q root))
     \<and> (\<forall>q. apart (posix_parts k) q \<longrightarrow> clear q root \<longrightarrow> clear q root')"
proof -
  have "lookup (posix_parts k) scratch = Some (Regular m b)"
    using assms(2) by (auto simp: file_at_def split: option.splits node.splits)
  then have "replace_regular_file scratch k root = with_parent True k (posix_parts k) (put_leaf m b) root"
    by (simp add: replace_regular_file_def)
  with put_file [OF assms(1)] show ?thesis by simp
qed

lemma import_paths_clear:
  assumes "\<forall>k\<in>set ks. clear (posix_parts k) root"
    and "\<forall>k\<in>set ks. \<forall>l\<in>set ks. posix_parts k = posix_parts l \<or> apart (posix_parts k) (posix_parts l)"
    and "\<forall>k\<in>set ks. (k \<in> fst ` set after) = (file_at (posix_parts k) scratch \<noteq> None)"
    and "distinct (map posix_parts ks)"
  shows "\<exists>root'. import_paths scratch after ks root = (Inr (), root')
    \<and> (\<forall>q. file_at q root' = (if q \<in> posix_parts ` set ks then file_at q scratch else file_at q root))"
  using assms
proof (induction ks arbitrary: root)
  case (Cons k ks)
  let ?step = "if k \<notin> fst ` set after then unlink_scoped k root else replace_regular_file scratch k root"
  have clr: "clear (posix_parts k) root" using Cons.prems(1) by simp
  have "\<exists>root1. ?step = (Inr (), root1)
     \<and> (\<forall>q. file_at q root1 = (if q = posix_parts k then file_at q scratch else file_at q root))
     \<and> (\<forall>q. apart (posix_parts k) q \<longrightarrow> clear q root \<longrightarrow> clear q root1)"
  proof (cases "file_at (posix_parts k) scratch")
    case None
    then have "k \<notin> fst ` set after" using Cons.prems(3) by simp
    with unlink_scoped_clear [OF clr] None show ?thesis by auto
  next
    case (Some mb)
    then have "k \<in> fst ` set after" using Cons.prems(3) by simp
    with replace_clear [OF clr, of scratch "fst mb" "snd mb"] Some show ?thesis by auto
  qed
  then obtain root1 where step: "?step = (Inr (), root1)"
    and f1: "\<And>q. file_at q root1 = (if q = posix_parts k then file_at q scratch else file_at q root)"
    and c1: "\<And>q. apart (posix_parts k) q \<Longrightarrow> clear q root \<Longrightarrow> clear q root1" by blast
  have "\<forall>l\<in>set ks. clear (posix_parts l) root1"
  proof
    fix l assume l: "l \<in> set ks"
    then have "posix_parts l \<noteq> posix_parts k" using Cons.prems(4) by (metis distinct.simps(2) image_eqI list.set_map list.simps(9))
    with Cons.prems(2) l have "apart (posix_parts k) (posix_parts l)" by fastforce
    with c1 Cons.prems(1) l show "clear (posix_parts l) root1" by simp
  qed
  from Cons.IH [OF this] Cons.prems obtain root' where
    r: "import_paths scratch after ks root1 = (Inr (), root')"
      "\<And>q. file_at q root' = (if q \<in> posix_parts ` set ks then file_at q scratch else file_at q root1)" by auto
  have "import_paths scratch after (k # ks) root = (Inr (), root')" using step r(1) by (simp only: import_paths.simps) simp
  moreover have "file_at q root' = (if q \<in> posix_parts ` set (k # ks) then file_at q scratch else file_at q root)" for q
    using r(2) f1 by auto
  ultimately show ?case by blast
qed simp

text \<open>A file has nothing below it, and below a missing or regular leaf there is no clear way to a
  file that exists.\<close>

lemma strict_prefix_lookup:
  "file_at p es \<noteq> None \<Longrightarrow> strict_prefix p q \<Longrightarrow> file_at q es = None"
proof (induction p es arbitrary: q rule: clear.induct)
  case (2 n es)
  then obtain m r where "q = n # m # r" by (cases q rule: remdups_adj.cases) (auto simp: strict_prefix_def)
  with 2 show ?case by (auto split: option.splits node.splits)
next
  case (3 c n rest es)
  then obtain m r where q: "q = c # m # r" "strict_prefix (n # rest) (m # r)"
    by (cases q rule: remdups_adj.cases) (auto simp: strict_prefix_def)
  from "3.prems"(1) obtain sub where sub: "map_of es c = Some (Directory sub)" by (auto split: option.splits node.splits)
  then have "file_at (n # rest) sub \<noteq> None" using "3.prems"(1) by simp
  from "3.IH" [OF sub refl this q(2)] sub show ?case by (simp only: q file_at_simps option.case node.case)
qed simp

lemma clear_below:
  "clear p es \<Longrightarrow> clear q es \<Longrightarrow> strict_prefix p q \<Longrightarrow> file_at p es = None \<and> file_at q es = None"
proof (induction p es arbitrary: q rule: clear.induct)
  case (2 n es)
  then obtain m r where "q = n # m # r" by (cases q rule: remdups_adj.cases) (auto simp: strict_prefix_def)
  with 2 show ?case by (auto split: option.splits node.splits)
next
  case (3 c n rest es)
  then obtain m r where q: "q = c # m # r" "strict_prefix (n # rest) (m # r)"
    by (cases q rule: remdups_adj.cases) (auto simp: strict_prefix_def)
  show ?case
  proof (cases "map_of es c")
    case (Some x)
    with "3.prems"(1) obtain sub where x: "x = Directory sub" by (auto split: node.splits)
    have "clear (n # rest) sub" "clear (m # r) sub" using "3.prems" Some x q by simp_all
    from "3.IH" [OF Some x this q(2)] Some x show ?thesis by (simp only: q file_at_simps option.case node.case)
  qed (simp add: q)
qed simp

text \<open>The paths that an inventory lists are the canonical texts of paths in the tree.\<close>

lemma snapshot_canonical:
  assumes "wf_tree es" and "snapshot_tree sha es = Inr listing" and "k \<in> fst ` set listing"
  shows "k = join ''/'' (posix_parts k)"
proof -
  from assms(3) obtain st where "(k, st) \<in> set listing" by auto
  with snapshot_files [OF assms(1,2)] show ?thesis by blast
qed

lemma changed_canonical:
  assumes "wf_tree old" "snapshot_tree sha old = Inr before" "wf_tree new" "snapshot_tree sha new = Inr after"
    and "k \<in> set (changed_paths before after)"
  shows "k = join ''/'' (posix_parts k)" "map_of before k \<noteq> map_of after k"
  using assms snapshot_canonical [OF assms(1,2)] snapshot_canonical [OF assms(3,4)] by (auto simp: changed_paths_def)

lemma check_parent_ok: "check_parent sha root before k = Inr () \<longleftrightarrow> regular_file_state sha root k = Inr (state_in before k)"
  by (cases "regular_file_state sha root k") (auto simp: check_parent_def)

lemma snapshot_absent:
  assumes "wf_tree es" "snapshot_tree sha es = Inr listing" "k = join ''/'' (posix_parts k)" "\<And>x. sha x \<noteq> ''absent''"
    and "state_in listing k = absent"
  shows "map_of listing k = None"
proof (cases "map_of listing k")
  case (Some st)
  then have "(k, st) \<in> set listing" by (rule map_of_SomeD)
  with snapshot_files [OF assms(1,2)] obtain b where "st = (sha b, length b)" by blast
  with Some assms(4,5) show ?thesis by (simp add: state_in_def absent_def)
qed

lemma snapshot_lists:
  assumes "wf_tree es" "snapshot_tree sha es = Inr listing" "k = join ''/'' (posix_parts k)"
  shows "k \<in> fst ` set listing \<longleftrightarrow> file_at (posix_parts k) es \<noteq> None"
proof -
  have "k \<in> fst ` set listing \<longleftrightarrow> map_of listing k \<noteq> None" by (simp add: map_of_eq_None_iff)
  then show ?thesis unfolding snapshot_map [OF assms] by simp
qed

lemma changed_apart:
  assumes old: "wf_tree old" "snapshot_tree sha old = Inr before" and new: "wf_tree new" "snapshot_tree sha new = Inr after"
    and sha: "\<And>x. sha x \<noteq> ''absent''"
    and checked: "\<forall>k\<in>set (changed_paths before after). check_parent sha root before k = Inr ()"
    and k: "k \<in> set (changed_paths before after)" and l: "l \<in> set (changed_paths before after)"
  shows "\<not> strict_prefix (posix_parts k) (posix_parts l)"
proof
  assume pre: "strict_prefix (posix_parts k) (posix_parts l)"
  note canon = changed_canonical [OF old new]
  have st: "clear (posix_parts x) root \<and> state_in before x = state_at sha (posix_parts x) root"
    if "x \<in> set (changed_paths before after)" for x
    using checked that regular_file_state_clear [of sha root x] by (simp add: check_parent_ok)
  from clear_below [OF _ _ pre] st [OF k] st [OF l]
  have "state_in before k = absent" "state_in before l = absent" by (auto simp: state_at_def)
  then have "map_of before k = None" "map_of before l = None"
    using snapshot_absent [OF old canon(1) [OF k] sha] snapshot_absent [OF old canon(1) [OF l] sha] by blast+
  with canon(2) [OF k] canon(2) [OF l] have "map_of after k \<noteq> None" "map_of after l \<noteq> None" by auto
  then have "k \<in> fst ` set after" "l \<in> fst ` set after" by (simp_all add: map_of_eq_None_iff)
  then have "file_at (posix_parts k) new \<noteq> None" "file_at (posix_parts l) new \<noteq> None"
    using snapshot_lists [OF new canon(1) [OF k]] snapshot_lists [OF new canon(1) [OF l]] by blast+
  with strict_prefix_lookup [OF _ pre, of new] show False by simp
qed

lemma import_output_atomic:
  assumes old: "wf_tree old" "snapshot_tree sha old = Inr before" and new: "wf_tree new"
    and sha: "\<And>x. sha x \<noteq> ''absent''"
    and run: "import_output sha cfg write_paths before new root = (r, root')"
  shows "(\<exists>e. r = Inl e \<and> root' = root) \<or>
    (\<exists>changed after. r = Inr changed \<and> snapshot_tree sha new = Inr after \<and> changed = changed_paths before after
       \<and> set changed \<subseteq> set write_paths
       \<and> int (sum_list (map (\<lambda>k. snd (state_in after k)) changed)) \<le> max_patch_bytes cfg
       \<and> (\<forall>k\<in>set changed. regular_file_state sha root k = Inr (state_in before k))
       \<and> (\<forall>q. file_at q root' = (if q \<in> posix_parts ` set changed then file_at q new else file_at q root)))"
proof (cases "snapshot_tree sha new")
  case (Inl e)
  with run show ?thesis by (auto simp: import_output_def)
next
  case (Inr after)
  let ?ch = "changed_paths before after"
  show ?thesis
  proof (cases "set ?ch \<subseteq> set write_paths \<and> int (sum_list (map (\<lambda>k. snd (state_in after k)) ?ch)) \<le> max_patch_bytes cfg
      \<and> forE (check_parent sha root before) ?ch = Inr ()")
    case False
    then have "\<exists>e. r = Inl e \<and> root' = root"
      using run Inr by (cases "forE (check_parent sha root before) ?ch")
        (auto simp: import_output_def Let_def filter_empty_conv subset_iff split: if_splits)
    then show ?thesis ..
  next
    case True
    then have checked: "\<forall>k\<in>set ?ch. check_parent sha root before k = Inr ()" by (simp add: forE_Inr)
    note canon = changed_canonical [OF old new Inr]
    have ok: "\<forall>k\<in>set ?ch. regular_file_state sha root k = Inr (state_in before k)"
      using checked by (simp add: check_parent_ok)
    have clr: "\<forall>k\<in>set ?ch. clear (posix_parts k) root" using ok regular_file_state_clear by blast
    have inj: "k = l" if "k \<in> set ?ch" "l \<in> set ?ch" "posix_parts k = posix_parts l" for k l
      using canon(1) [OF that(1)] canon(1) [OF that(2)] that(3) by metis
    have dist: "distinct (map posix_parts ?ch)"
      unfolding distinct_map by (rule conjI, simp add: changed_paths_def, rule inj_onI, rule inj)
    have ap: "\<forall>k\<in>set ?ch. \<forall>l\<in>set ?ch. posix_parts k = posix_parts l \<or> apart (posix_parts k) (posix_parts l)"
      using changed_apart [OF old new Inr sha checked] unfolding apart_def strict_prefix_def by metis
    have mem: "\<forall>k\<in>set ?ch. (k \<in> fst ` set after) = (file_at (posix_parts k) new \<noteq> None)"
      using snapshot_lists [OF new Inr canon(1)] by blast
    from import_paths_clear [OF clr ap mem dist] obtain root1 where
      imp: "import_paths new after ?ch root = (Inr (), root1)"
      and f: "\<forall>q. file_at q root1 = (if q \<in> posix_parts ` set ?ch then file_at q new else file_at q root)" by blast
    have "filter (\<lambda>p. p \<notin> set write_paths) ?ch = []" using True by (auto simp: filter_empty_conv)
    with run Inr True imp have "r = Inr ?ch" "root' = root1" by (simp_all add: import_output_def Let_def)
    with True Inr ok f show ?thesis by blast
  qed
qed

section \<open>The scratch tree\<close>

lemma wf_tree_iff:
  "wf_tree es \<longleftrightarrow> distinct (map fst es) \<and> (\<forall>n x. (n, x) \<in> set es \<longrightarrow> name_ok n \<and> (\<forall>sub. x = Directory sub \<longrightarrow> wf_tree sub))"
  by (induction es rule: wf_tree.induct) auto

lemma wf_tree_update:
  assumes "wf_tree es" "name_ok n" "\<And>sub. x = Directory sub \<Longrightarrow> wf_tree sub"
  shows "wf_tree (AList.update n x es)"
proof -
  have "distinct (map fst es)" using assms(1) by (simp add: wf_tree_iff [of es])
  then have "set (AList.update n x es) \<subseteq> insert (n, x) (set es)"
    by (induction es) (auto split: if_splits)
  moreover have "distinct (map fst (AList.update n x es))"
    using \<open>distinct (map fst es)\<close> by (rule distinct_update)
  ultimately show ?thesis using assms unfolding wf_tree_iff [of es] wf_tree_iff [of "AList.update n x es"] by blast
qed

lemma put_wf:
  "wf_tree es \<Longrightarrow> \<forall>n\<in>set p. name_ok n \<Longrightarrow> wf_tree (snd (with_parent True relative p (put_leaf mode data) es))"
proof (induction p arbitrary: es)
  case (Cons c p)
  have name: "name_ok c" using Cons.prems(2) by simp
  show ?case
  proof (cases p)
    case Nil
    have "wf_tree (AList.update c (Regular mode data) es)" using Cons.prems(1) name by (rule wf_tree_update) simp
    with Nil show ?thesis using Cons.prems(1) by (auto simp: put_leaf_def split: option.split node.split)
  next
    case p: (Cons n rest)
    have sub: "wf_tree sub" if "map_of es c = Some (Directory sub)" for sub
      using Cons.prems(1) map_of_SomeD [OF that] by (simp add: wf_tree_iff [of es])
    have "wf_tree (snd (with_parent True relative (n # rest) (put_leaf mode data) sub))" if "wf_tree sub" for sub
      using Cons.IH [of sub] that Cons.prems(2) p by simp
    then have "wf_tree (AList.update c (Directory (snd (with_parent True relative (n # rest) (put_leaf mode data) sub))) es)"
      if "wf_tree sub" for sub using that Cons.prems(1) name by (intro wf_tree_update) auto
    then show ?thesis using Cons.prems(1) sub unfolding p
      by (auto simp: case_prod_beta split: option.split node.split)
  qed
qed simp

lemma safe_parts: "\<not> unsafe_path k \<Longrightarrow> n \<in> set (posix_parts k) \<Longrightarrow> name_ok n"
  by (auto simp: unsafe_path_def posix_parts_def posix_names_def name_ok_def dest: split_on_no_sep)

lemma copy_inputs_wf:
  "\<forall>k\<in>set ks. \<not> unsafe_path k \<Longrightarrow> wf_tree scratch \<Longrightarrow> wf_tree (snd (copy_inputs root ks scratch))"
proof (induction ks arbitrary: scratch)
  case (Cons k ks)
  have put: "wf_tree (snd (with_parent True k (posix_parts k) (put_leaf m b) scratch))" for m b
    using Cons.prems safe_parts by (intro put_wf) auto
  have "wf_tree (snd (copy_scoped_input root k scratch))"
  proof (cases "scoped_input root k")
    case (Inr v)
    show ?thesis
    proof (cases v)
      case (Some mb)
      then show ?thesis using Inr put [of "fst mb" "snd mb"]
        by (cases mb; cases "with_parent True k (posix_parts k) (put_leaf (fst mb) (snd mb)) scratch")
          (simp add: copy_scoped_input_def split: sum.split)
    qed (use Inr Cons.prems in \<open>simp add: copy_scoped_input_def\<close>)
  qed (use Cons.prems in \<open>simp add: copy_scoped_input_def\<close>)
  then show ?case using Cons.IH Cons.prems(1)
    by (cases "copy_scoped_input root k scratch") (simp split: sum.split)
qed simp

lemma paths_of_safe:
  assumes "paths_of v = Inr ks"
  shows "\<forall>k\<in>set ks. \<not> unsafe_path k \<and> length k \<le> 255" "sorted ks" "distinct ks" "length ks \<le> 200"
proof -
  from assms obtain vs rs where v: "v = JList vs" "length vs \<le> 200" "mapE worker_path vs = Inr rs" "ks = sort (remdups rs)" "distinct rs"
    by (auto simp: paths_of_def bindE_eq_Inr split: json.splits if_splits)
  have "list_all2 (\<lambda>x y. worker_path x = Inr y) vs rs" using v(3) by (simp add: mapE_Inr)
  then have "(\<forall>k\<in>set rs. \<not> unsafe_path k \<and> length k \<le> 255) \<and> length rs = length vs"
    by (induction rule: list_all2_induct) (auto simp: worker_path_def split: json.splits if_splits)
  with v show "\<forall>k\<in>set ks. \<not> unsafe_path k \<and> length k \<le> 255" "sorted ks" "distinct ks" "length ks \<le> 200"
    by (auto simp: distinct_remdups_id)
qed

section \<open>A worker run\<close>

text \<open>How a run of the reserved worker ends.\<close>

lemma work_cases:
  assumes "work sha cfg launch stamp attempt wt model task rs ws root d = (r, root', d')"
  obtains (unlaunched) e where "r = Inl e" "root' = root" "d' = d"
    | (launched) scratch before out scratch1 root1 d1 where
        "copy_inputs root (sort (remdups (rs @ ws))) [] = (Inr (), scratch)" "snapshot_tree sha scratch = Inr before"
        "launch wt model task scratch attempt (timeout_seconds cfg) root (start_attempt attempt d) = (out, scratch1, root1, d1)"
        "(\<exists>e. r = Inl e \<and> root' = root1 \<and> d' = d1)
         \<or> (\<exists>e. r = Inl e \<and> import_output sha cfg ws before scratch1 root1 = (Inl e, root') \<and> d' = d1)
         \<or> (\<exists>output changed. out = Inr (JStr output) \<and> int (length output) \<le> max_output_bytes cfg
              \<and> import_output sha cfg ws before scratch1 root1 = (Inr changed, root')
              \<and> r = Inr \<lparr>wk_attempt_id = attempt, wk_worker_type = wt, wk_output = output, wk_changed_paths = changed\<rparr>
              \<and> d' = succeed_attempt stamp attempt (sha output) d1)"
proof (cases "copy_inputs root (sort (remdups (rs @ ws))) []")
  case (Pair c scratch)
  show thesis
  proof (cases "c = Inr () \<and> \<not> (worker_owned cfg \<and> list_ex (\<lambda>(p, x). case x of Symlink _ \<Rightarrow> True | _ \<Rightarrow> False) (tree_items scratch))
      \<and> \<not> isl (snapshot_tree sha scratch)")
    case False
    then have "\<exists>e. r = Inl e \<and> root' = root \<and> d' = d"
      using assms Pair by (auto simp: work_def split: sum.splits if_splits)
    then show thesis using unlaunched by blast
  next
    case True
    then obtain before where b: "snapshot_tree sha scratch = Inr before" by (cases "snapshot_tree sha scratch") auto
    obtain out scratch1 root1 d1 where l: "launch wt model task scratch attempt (timeout_seconds cfg) root (start_attempt attempt d)
        = (out, scratch1, root1, d1)" by (metis prod_cases4)
    have "(\<exists>e. r = Inl e \<and> root' = root1 \<and> d' = d1)
         \<or> (\<exists>e. r = Inl e \<and> import_output sha cfg ws before scratch1 root1 = (Inl e, root') \<and> d' = d1)
         \<or> (\<exists>output changed. out = Inr (JStr output) \<and> int (length output) \<le> max_output_bytes cfg
              \<and> import_output sha cfg ws before scratch1 root1 = (Inr changed, root')
              \<and> r = Inr \<lparr>wk_attempt_id = attempt, wk_worker_type = wt, wk_output = output, wk_changed_paths = changed\<rparr>
              \<and> d' = succeed_attempt stamp attempt (sha output) d1)"
      using assms Pair True b l
      by (cases out) (auto simp: work_def split: json.splits if_splits prod.splits sum.splits)
    with launched [OF _ b l] Pair True show thesis by simp
  qed
qed

text \<open>C23: A worker's output is imported completely or not at all. When a run raises, the parent
  workspace is as it was or as others left it while the worker ran; when it returns, exactly the
  changed paths hold what the worker left, they lie in its write scope and within the size limit,
  and no file changed by others meanwhile was overwritten.\<close>

theorem worker_import_is_atomic:
  assumes sha: "\<And>x. sha x \<noteq> ''absent''"
    and fs: "\<And>a b c es f g h i. wf_tree (fst (snd (launch a b c es f g h i)))"
    and safe: "\<forall>k\<in>set rs \<union> set ws. \<not> unsafe_path k"
    and run: "work sha cfg launch stamp attempt wt model task rs ws root d = (r, root', d')"
  shows "(isl r \<and> (root' = root \<or> (\<exists>scratch x. root' = fst (snd (snd (launch wt model task scratch attempt (timeout_seconds cfg) root x))))))
    \<or> (\<exists>res scratch scratch1 root1 x d1 before. r = Inr res
         \<and> launch wt model task scratch attempt (timeout_seconds cfg) root x = (Inr (JStr (wk_output res)), scratch1, root1, d1)
         \<and> int (length (wk_output res)) \<le> max_output_bytes cfg
         \<and> snapshot_tree sha scratch = Inr before
         \<and> set (wk_changed_paths res) \<subseteq> set ws
         \<and> int (sum_list (map (\<lambda>k. snd (state_at sha (posix_parts k) scratch1)) (wk_changed_paths res))) \<le> max_patch_bytes cfg
         \<and> (\<forall>k\<in>set (wk_changed_paths res). regular_file_state sha root1 k = Inr (state_in before k))
         \<and> (\<forall>q. file_at q root' = (if q \<in> posix_parts ` set (wk_changed_paths res) then file_at q scratch1 else file_at q root1)))"
  using run
proof (cases rule: work_cases)
  case (unlaunched e)
  then show ?thesis by simp
next
  case (launched scratch before out scratch1 root1 d1)
  have old: "wf_tree scratch"
    using copy_inputs_wf [of "sort (remdups (rs @ ws))" "[]" root] safe launched(1) by auto
  have new: "wf_tree scratch1" using fs [of wt model task scratch attempt "timeout_seconds cfg" root "start_attempt attempt d"] launched(3) by simp
  have left: "root1 = fst (snd (snd (launch wt model task scratch attempt (timeout_seconds cfg) root (start_attempt attempt d))))"
    using launched(3) by simp
  from launched(4) consider (early) e where "r = Inl e" "root' = root1"
    | (refused) e where "r = Inl e" "import_output sha cfg ws before scratch1 root1 = (Inl e, root')"
    | (imported) report changed where "out = Inr (JStr report)" "int (length report) \<le> max_output_bytes cfg"
        "import_output sha cfg ws before scratch1 root1 = (Inr changed, root')"
        "r = Inr \<lparr>wk_attempt_id = attempt, wk_worker_type = wt, wk_output = report, wk_changed_paths = changed\<rparr>" by blast
  then show ?thesis
  proof cases
    case early
    then show ?thesis using left by auto
  next
    case refused
    then have "root' = root1" using import_output_atomic [OF old launched(2) new sha refused(2)] by auto
    then show ?thesis using left refused(1) by auto
  next
    case imported
    from import_output_atomic [OF old launched(2) new sha imported(3)] obtain after where
      a: "snapshot_tree sha scratch1 = Inr after" "changed = changed_paths before after" "set changed \<subseteq> set ws"
        "int (sum_list (map (\<lambda>k. snd (state_in after k)) changed)) \<le> max_patch_bytes cfg"
        "\<forall>k\<in>set changed. regular_file_state sha root1 k = Inr (state_in before k)"
        "\<forall>q. file_at q root' = (if q \<in> posix_parts ` set changed then file_at q scratch1 else file_at q root1)" by auto
    have "state_in after k = state_at sha (posix_parts k) scratch1" if "k \<in> set changed" for k
      using snapshot_map [OF new a(1) changed_canonical(1) [OF old launched(2) new a(1)]] that a(2)
      by (auto simp: state_in_def state_at_def split: option.splits)
    then have "map (\<lambda>k. snd (state_in after k)) changed = map (\<lambda>k. snd (state_at sha (posix_parts k) scratch1)) changed" by simp
    then have size: "int (sum_list (map (\<lambda>k. snd (state_at sha (posix_parts k) scratch1)) changed)) \<le> max_patch_bytes cfg"
      using a(4) by (simp only:)
    show ?thesis
      by (rule disjI2, rule exI [of _ "\<lparr>wk_attempt_id = attempt, wk_worker_type = wt, wk_output = report, wk_changed_paths = changed\<rparr>"],
          rule exI [of _ scratch], rule exI [of _ scratch1], rule exI [of _ root1], rule exI [of _ "start_attempt attempt d"],
          rule exI [of _ d1], rule exI [of _ before])
        (use a(3,5,6) imported launched(2,3) size in simp)
  qed
qed

text \<open>A worker that rewrites one file and deletes another.\<close>

definition sample_root :: entries where
  "sample_root = [(''a.txt'', Regular 420 ''old''), (''src'', Directory [(''b.txt'', Regular 420 ''gone'')])]"

definition sample_launch :: launcher where
  "sample_launch worker_type model prompt scratch attempt timeout root d =
     (Inr (JStr ''done''), [(''a.txt'', Regular 420 ''new''), (''src'', Directory [])], root, d)"

definition sample_settings :: worker_settings where
  "sample_settings = \<lparr>luna_models = [(''implementer'', ''luna'')], timeout_seconds = 900, max_patch_bytes = 100,
     max_output_bytes = 100, worker_owned = True, scratch_failure = None\<rparr>"

definition plain_sha :: "string \<Rightarrow> string" where
  "plain_sha x = CHR ''#'' # x"

theorem worker_import_is_atomic_witness:
  "\<exists>res. fst (work plain_sha sample_settings sample_launch ''t'' ''a1'' ''implementer'' ''luna'' ''fix'' [''a.txt'', ''src/b.txt'']
      [''a.txt'', ''src/b.txt''] sample_root empty_db) = Inr res \<and> set (wk_changed_paths res) \<subseteq> {''a.txt'', ''src/b.txt''}"
proof -
  let ?w = "work plain_sha sample_settings sample_launch ''t'' ''a1'' ''implementer'' ''luna'' ''fix'' [''a.txt'', ''src/b.txt'']
      [''a.txt'', ''src/b.txt''] sample_root empty_db"
  have sha: "\<And>x. plain_sha x \<noteq> ''absent''" by (simp add: plain_sha_def)
  have fs: "\<And>a b c es f g h i. wf_tree (fst (snd (sample_launch a b c es f g h i)))"
    by (simp add: sample_launch_def name_ok_def)
  have safe: "\<forall>k\<in>set [''a.txt'', ''src/b.txt''] \<union> set [''a.txt'', ''src/b.txt'']. \<not> unsafe_path k"
    by (simp add: unsafe_path_def posix_root_def posix_parts_def posix_names_def posix_str_def starts_with_def has_control_def)
  obtain r root' d' where w: "?w = (r, root', d')" by (metis prod_cases3)
  have "\<not> isl (fst ?w)" by code_simp
  with w have "\<not> isl r" by simp
  with worker_import_is_atomic [OF sha fs safe w] w show ?thesis by auto
qed

section \<open>The attempt of a run\<close>

text \<open>How a run ends: before a worker is reserved, without a workspace, or after the work.\<close>

lemma run_worker_cases:
  assumes "run_worker sha policy cfg launch clk uuid stamp sn arguments parent d = (r, parent', d')"
  obtains (refused) e where "r = Inl e" "parent' = parent" "d' = d"
    | (reserved) role :: role_policy and wt model task rs ws d1 where
        "reserve_worker (clk 1) (clk 2) uuid (sn_session_id sn) wt (rp_max_workers_per_wake role)
          (rp_max_workers_concurrent role) (op_global_max_agents policy) d = (Inr uuid, d1)"
        "\<forall>k\<in>set rs \<union> set ws. \<not> unsafe_path k" "set ws \<subseteq> set rs" "wt \<in> rp_worker_types role"
        "case parent of None \<Rightarrow> r = Inl (OSError ''[Errno 2] No such file or directory'') \<and> parent' = None \<and> d' = d1
         | Some root \<Rightarrow> (case scratch_failure cfg of
             Some e \<Rightarrow> r = Inl e \<and> parent' = Some root \<and> d' = d1
           | None \<Rightarrow> \<exists>q root' d2. work sha cfg launch stamp uuid wt model task rs ws root d1 = (q, root', d2) \<and> r = q
              \<and> parent' = Some root' \<and> d' = (if isl q then fail_attempt stamp uuid d2 else d2))"
proof -
  let ?wt = "str_or_empty (dget arguments ''type'')"
  let ?scopes = "bindE (paths_of (py_or (dget arguments ''readPaths'') (JList []))) (\<lambda>read_paths.
                bindE (paths_of (py_or (dget arguments ''writePaths'') (JList []))) (\<lambda>write_paths.
                  if ?wt \<noteq> ''implementer'' \<and> write_paths \<noteq> [] then Inl (WorkerError (?wt @ '' is read-only''))
                  else if ?wt = ''implementer'' \<and> write_paths = []
                  then Inl (WorkerError ''implementer requires declared write paths'')
                  else if \<not> set write_paths \<subseteq> set read_paths
                  then Inl (WorkerError ''every write path must also be declared as an input path'')
                  else Inr (read_paths, write_paths)))"
  have early: "r = Inl e \<and> parent' = parent \<and> d' = d \<Longrightarrow> thesis" for e using refused by blast
  show thesis
  proof (cases "\<exists>role task model rs ws. store_session (clk 0) (sn_session_id sn) d = Inr sn \<and> policy_role policy (sn_role sn) = Inr role
      \<and> ?wt \<in> rp_worker_types role \<and> dget arguments ''task'' = JStr task \<and> strip task \<noteq> [] \<and> length task \<le> 32768
      \<and> map_of (luna_models cfg) ?wt = Some model \<and> ?scopes = Inr (rs, ws)")
    case False
    then have "\<exists>e. r = Inl e \<and> parent' = parent \<and> d' = d"
      using assms by (auto simp: run_worker_def Let_def split: sum.split_asm if_split_asm json.split_asm option.split_asm prod.split_asm)
    then show thesis using refused by blast
  next
    case True
    then obtain role task model rs ws where g: "store_session (clk 0) (sn_session_id sn) d = Inr sn" "policy_role policy (sn_role sn) = Inr role"
      "?wt \<in> rp_worker_types role" "dget arguments ''task'' = JStr task" "strip task \<noteq> []" "length task \<le> 32768"
      "map_of (luna_models cfg) ?wt = Some model" "?scopes = Inr (rs, ws)" by blast
    have paths: "\<forall>k\<in>set rs \<union> set ws. \<not> unsafe_path k" "set ws \<subseteq> set rs"
      using g(8) paths_of_safe(1) by (auto simp: bindE_eq_Inr split: if_splits)
    let ?res = "reserve_worker (clk 1) (clk 2) uuid (sn_session_id sn) ?wt (rp_max_workers_per_wake role)
          (rp_max_workers_concurrent role) (op_global_max_agents policy) d"
    have eq: "run_worker sha policy cfg launch clk uuid stamp sn arguments parent d =
       (case ?res of
          (Inl e, d1) \<Rightarrow> (Inl e, parent, d1)
        | (Inr attempt, d1) \<Rightarrow>
        (case parent of
          None \<Rightarrow> (Inl (OSError ''[Errno 2] No such file or directory''), parent, d1)
        | Some root \<Rightarrow>
        (case scratch_failure cfg of
          Some e \<Rightarrow> (Inl e, parent, d1)
        | None \<Rightarrow>
        (case work sha cfg launch stamp attempt ?wt model task rs ws root d1 of
          (Inl e, root', d2) \<Rightarrow> (Inl e, Some root', fail_attempt stamp attempt d2)
        | (Inr result, root', d2) \<Rightarrow> (Inr result, Some root', d2)))))"
      unfolding run_worker_def using g by (simp add: Let_def)
    show thesis
    proof (cases ?res)
      case (Pair q d1)
      show thesis
      proof (cases q)
        case (Inl e)
        with Pair have "d1 = d" by (simp add: reserve_worker_def immediate_Inl)
        with Pair Inl assms show thesis unfolding eq by (intro refused) auto
      next
        case (Inr attempt)
        with Pair have res: "?res = (Inr attempt, d1)" by simp
        from res have [simp]: "attempt = uuid" by (rule reserve_worker_Inr)
        have "case parent of None \<Rightarrow> r = Inl (OSError ''[Errno 2] No such file or directory'') \<and> parent' = None \<and> d' = d1
         | Some root \<Rightarrow> (case scratch_failure cfg of
             Some e \<Rightarrow> r = Inl e \<and> parent' = Some root \<and> d' = d1
           | None \<Rightarrow> \<exists>q root' d2. work sha cfg launch stamp uuid ?wt model task rs ws root d1 = (q, root', d2) \<and> r = q
              \<and> parent' = Some root' \<and> d' = (if isl q then fail_attempt stamp uuid d2 else d2))"
        proof (cases parent)
          case (Some root)
          then show ?thesis using assms unfolding eq res
            by (cases "scratch_failure cfg"; cases "work sha cfg launch stamp uuid ?wt model task rs ws root d1")
              (auto split: sum.split_asm)
        next
          case None
          then show ?thesis using assms unfolding eq res by auto
        qed
        with res paths g(3) show thesis by (intro reserved [where wt = ?wt and role = role and model = model and task = task]) simp_all
      qed
    qed
  qed
qed

text \<open>The row that a run adds, and its updates: the rows of other attempts are untouched.\<close>

definition last_attempt :: "string \<Rightarrow> worker_attempt list \<Rightarrow> worker_attempt \<Rightarrow> db \<Rightarrow> bool" where
  "last_attempt i rows a d \<longleftrightarrow> i \<notin> wa_attempt_id ` set rows \<and> wa_attempt_id a = i \<and> worker_attempts d = rows @ [a]"

lemma last_attempt_reserve:
  assumes "reserve_worker now1 now2 u i wt cum con cap d = (Inr u, d')"
  obtains n where "last_attempt u (worker_attempts d) (new_attempt u i n wt (utcnow now2)) d'"
  using assms by (rule reserve_worker_Inr) (auto simp: insert_attempt_Inr last_attempt_def)

lemma update_where_others: "i \<notin> wa_attempt_id ` set rows \<Longrightarrow> update_where (\<lambda>r. wa_attempt_id r = i) f rows = rows"
  unfolding update_where_def by (rule map_idI) auto

lemma last_attempt_updates:
  assumes "last_attempt i rows a d"
  shows "last_attempt i rows (a\<lparr>wa_state := W_running\<rparr>) (start_attempt i d)"
    and "last_attempt i rows (a\<lparr>wa_state := W_failed, wa_finished_at := Some stamp\<rparr>) (fail_attempt stamp i d)"
    and "last_attempt i rows (a\<lparr>wa_state := W_succeeded, wa_finished_at := Some stamp, wa_artifact_sha256 := Some h\<rparr>)
      (succeed_attempt stamp i h d)"
  using update_where_others [of i rows] assms
  by (simp_all add: last_attempt_def start_attempt_def fail_attempt_def succeed_attempt_def update_where_def)

lemma work_attempts:
  assumes keeps: "\<And>a b c es f g h x. worker_attempts (snd (snd (snd (launch a b c es f g h x)))) = worker_attempts x"
    and "work sha cfg launch stamp i wt model task rs ws root d = (r, root', d')"
    and row: "last_attempt i rows a d"
  obtains (left) e s where "r = Inl e" "last_attempt i rows (a\<lparr>wa_state := s\<rparr>) d'"
    | (closed) w where "r = Inr w" "last_attempt i rows
        (a\<lparr>wa_state := W_succeeded, wa_finished_at := Some stamp, wa_artifact_sha256 := Some (sha (wk_output w))\<rparr>) d'"
  using assms(2)
proof (cases rule: work_cases)
  case (launched scratch before out scratch1 root1 d1)
  have "worker_attempts d1 = worker_attempts (start_attempt i d)"
    using keeps [of wt model task scratch i "timeout_seconds cfg" root "start_attempt i d"] launched(3) by simp
  with last_attempt_updates(1) [OF row] have d1: "last_attempt i rows (a\<lparr>wa_state := W_running\<rparr>) d1"
    by (simp add: last_attempt_def)
  from launched(4) last_attempt_updates(3) [OF d1] d1 show thesis by (auto intro: left closed)
next
  case (unlaunched e)
  with row show thesis by (intro left [of e "wa_state a"]) simp_all
qed

text \<open>C24: A run of a worker over an existing workspace, whose scratch directory can be created,
  either is refused and leaves the database as it was, or adds exactly one attempt row, of its own
  session, and leaves it finished: failed when the run raises, succeeded when it returns a result.
  All other attempts stay as they were, if the launcher does not write the attempts.\<close>

theorem worker_attempt_is_closed:
  assumes keeps: "\<And>a b c es f g h x. worker_attempts (snd (snd (snd (launch a b c es f g h x)))) = worker_attempts x"
    and scratch: "scratch_failure cfg = None"
    and run: "run_worker sha policy cfg launch clk uuid stamp sn arguments (Some root) d = (r, root', d')"
  shows "(isl r \<and> d' = d) \<or> (\<exists>a. worker_attempts d' = worker_attempts d @ [a] \<and> wa_attempt_id a = uuid
    \<and> wa_session_id a = sn_session_id sn \<and> wa_finished_at a = Some stamp \<and> wa_state a = (if isl r then W_failed else W_succeeded))"
  using run
proof (cases rule: run_worker_cases)
  case (refused e)
  then show ?thesis by simp
next
  case (reserved role wt model task rs ws d1)
  from reserved(5) scratch obtain root2 d2 where w: "work sha cfg launch stamp uuid wt model task rs ws root d1 = (r, root2, d2)"
    and d': "d' = (if isl r then fail_attempt stamp uuid d2 else d2)" by auto
  from reserved(1) obtain n where row: "last_attempt uuid (worker_attempts d) (new_attempt uuid (sn_session_id sn) n wt (utcnow (clk 2))) d1"
    by (rule last_attempt_reserve)
  from keeps w row show ?thesis
  proof (cases rule: work_attempts)
    case (left e s)
    with last_attempt_updates(2) [OF left(2), of stamp] d' show ?thesis by (auto simp: last_attempt_def)
  next
    case (closed res)
    with d' show ?thesis by (auto simp: last_attempt_def)
  qed
qed

text \<open>When the scratch directory cannot be created the run raises outside the error handling, and
  its attempt stays accepted.\<close>

lemma scratch_failure_strands_attempt:
  assumes "run_worker sha policy cfg launch clk uuid stamp sn arguments (Some root) d = (r, p, d')" and "d' \<noteq> d"
    and "scratch_failure cfg = Some e"
  shows "r = Inl e \<and> (\<exists>a. worker_attempts d' = worker_attempts d @ [a] \<and> wa_attempt_id a = uuid \<and> wa_state a = W_accepted)"
  using assms(1)
proof (cases rule: run_worker_cases)
  case (reserved role wt model task rs ws d1)
  from reserved(1) obtain n where "last_attempt uuid (worker_attempts d) (new_attempt uuid (sn_session_id sn) n wt (utcnow (clk 2))) d1"
    by (rule last_attempt_reserve)
  with reserved(5) assms(3) show ?thesis by (auto simp: last_attempt_def new_attempt_def)
qed (use assms(2) in simp)

definition busy_policy :: organization_policy where
  "busy_policy = \<lparr>op_org_id = ''acme'', op_principal_github = ''p'', op_repositories = [],
     op_roles = [(''developer'', \<lparr>rp_role = ''developer'', rp_worker_types = {''implementer''}, rp_max_workers_per_wake = 2,
       rp_max_workers_concurrent = 1, rp_repositories = {''org''}, rp_daily_token_budget = 10\<rparr>)],
     op_source_commit = [], op_control_version = [], op_source_tree_sha256 = [],
     op_organization_daily_token_budget = 20, op_global_max_agents = 5, op_policy_digest = ''digest'',
     op_protected_submission_paths = []\<rparr>"

definition busy_session :: session where
  "busy_session = new_session 0 ''s1'' ''w1'' ''acme'' ''developer'' ''digest'' {} None 60"

definition busy_db :: db where
  "busy_db = empty_db\<lparr>wake_sessions := [session_values (utc_text 0) busy_session,
       session_values (utc_text 0) (new_session 0 ''s0'' ''w0'' ''acme'' ''qa'' ''digest'' {} None 60)],
     worker_attempts := [new_attempt ''a0'' ''s0'' 1 ''reviewer'' (utc_text 0)]\<rparr>"

definition busy_arguments :: "(string \<times> json) list" where
  "busy_arguments = [(''type'', JStr ''implementer''), (''task'', JStr ''fix''),
     (''readPaths'', JList [JStr ''a.txt'', JStr ''src/b.txt'']), (''writePaths'', JList [JStr ''a.txt'', JStr ''src/b.txt''])]"

lemma busy_run:
  "run_worker plain_sha busy_policy sample_settings sample_launch (\<lambda>n. 1) ''a1'' ''t'' busy_session busy_arguments parent busy_db =
     (case reserve_worker 1 1 ''a1'' ''s1'' ''implementer'' 2 1 5 busy_db of
        (Inl e, d1) \<Rightarrow> (Inl e, parent, d1)
      | (Inr attempt, d1) \<Rightarrow>
      (case parent of
        None \<Rightarrow> (Inl (OSError ''[Errno 2] No such file or directory''), parent, d1)
      | Some root \<Rightarrow>
      (case work plain_sha sample_settings sample_launch ''t'' attempt ''implementer'' ''luna'' ''fix'' [''a.txt'', ''src/b.txt'']
              [''a.txt'', ''src/b.txt''] root d1 of
        (Inl e, root', d2) \<Rightarrow> (Inl e, Some root', fail_attempt ''t'' attempt d2)
      | (Inr result, root', d2) \<Rightarrow> (Inr result, Some root', d2))))"
proof -
  have s: "store_session 1 (sn_session_id busy_session) busy_db = Inr busy_session" by code_simp
  have r: "policy_role busy_policy (sn_role busy_session) = Inr (snd (hd (op_roles busy_policy)))" by code_simp
  have a: "str_or_empty (dget busy_arguments ''type'') = ''implementer''" "dget busy_arguments ''task'' = JStr ''fix''"
    "paths_of (py_or (dget busy_arguments ''readPaths'') (JList [])) = Inr [''a.txt'', ''src/b.txt'']"
    "paths_of (py_or (dget busy_arguments ''writePaths'') (JList [])) = Inr [''a.txt'', ''src/b.txt'']"
    "strip ''fix'' \<noteq> []" by code_simp+
  have i: "sn_session_id busy_session = ''s1''" by code_simp
  have f: "scratch_failure sample_settings = None" by (simp add: sample_settings_def)
  show ?thesis
    unfolding run_worker_def Let_def
    by (simp only: s r a f sum.case json.case option.case) (simp add: i busy_policy_def sample_settings_def)
qed

theorem worker_attempt_is_closed_witness:
  "map wa_state (worker_attempts (snd (snd (run_worker plain_sha busy_policy sample_settings sample_launch (\<lambda>n. 1) ''a1'' ''t''
     busy_session busy_arguments (Some sample_root) busy_db)))) = [W_accepted, W_succeeded]"
proof -
  let ?r = "run_worker plain_sha busy_policy sample_settings sample_launch (\<lambda>n. 1) ''a1'' ''t'' busy_session busy_arguments (Some sample_root) busy_db"
  have k: "\<And>a b c es f g h x. worker_attempts (snd (snd (snd (sample_launch a b c es f g h x)))) = worker_attempts x"
    by (simp add: sample_launch_def)
  have f: "scratch_failure sample_settings = None" by (simp add: sample_settings_def)
  have p: "\<not> isl (fst ?r)" unfolding busy_run by code_simp
  have b: "map wa_state (worker_attempts busy_db) = [W_accepted]" by code_simp
  have "?r = (fst ?r, fst (snd ?r), snd (snd ?r))" by simp
  from worker_attempt_is_closed [OF k f this] p b show ?thesis by auto
qed

text \<open>C40: The workspace is resolved after the worker is reserved and outside the error handling:
  when it is missing, the run raises and its attempt stays accepted.\<close>

theorem missing_workspace_strands_attempt:
  assumes "run_worker sha policy cfg launch clk uuid stamp sn arguments None d = (r, p, d')" and "d' \<noteq> d"
  shows "isl r \<and> (\<exists>a\<in>set (worker_attempts d'). wa_attempt_id a = uuid \<and> wa_session_id a = sn_session_id sn \<and> wa_state a = W_accepted)"
  using assms(1)
proof (cases rule: run_worker_cases)
  case (reserved role wt model task rs ws d1)
  from reserved(1) have "\<exists>a\<in>set (worker_attempts d1). wa_attempt_id a = uuid \<and> wa_session_id a = sn_session_id sn \<and> wa_state a = W_accepted"
    by (rule reserve_worker_Inr) (auto simp: insert_attempt_Inr new_attempt_def)
  with reserved(5) show ?thesis by simp
qed (use assms(2) in simp)

theorem missing_workspace_strands_attempt_witness:
  "\<exists>a\<in>set (worker_attempts (snd (snd (run_worker plain_sha busy_policy sample_settings sample_launch (\<lambda>n. 1) ''a1'' ''t''
      busy_session busy_arguments None busy_db)))). wa_attempt_id a = ''a1'' \<and> wa_state a = W_accepted"
proof -
  let ?r = "run_worker plain_sha busy_policy sample_settings sample_launch (\<lambda>n. 1) ''a1'' ''t'' busy_session busy_arguments None busy_db"
  have "length (worker_attempts (snd (snd ?r))) = 2" "length (worker_attempts busy_db) = 1" unfolding busy_run by code_simp+
  then have "snd (snd ?r) \<noteq> busy_db" by auto
  moreover have "?r = (fst ?r, fst (snd ?r), snd (snd ?r))" by simp
  ultimately show ?thesis using missing_workspace_strands_attempt by blast
qed

end
