(* ===== verification/Json.thy ===== *)
theory Json
  imports Values
begin

text \<open>
  \<open>json.loads\<close>: a parser for JSON texts, and the proof that it reads back what \<open>json.dumps\<close> wrote.

  The parser is the recursive descent of Python's decoder: white space between tokens, \<^verbatim>\<open>NaN\<close> and
  \<^verbatim>\<open>Infinity\<close> as numbers, the last of two equal keys, \<open>None\<close> for an invalid text. Reading a float is the
  parameter \<open>float_of\<close>: the representation and the truncation of the number that a decimal text denotes.
  The recursion depth of the interpreter is not modelled. Each nested value takes one unit of fuel,
  and the length of the text is enough fuel.
\<close>

section \<open>Text literals\<close>

text \<open>The UTF-8 bytes of a code point.\<close>

definition utf8_bytes :: "nat \<Rightarrow> string" where
  "utf8_bytes n = map char_of
     (if n < 128 then [n]
      else if n < 2048 then [192 + n div 64, 128 + n mod 64]
      else if n < 65536 then [224 + n div 4096, 128 + n div 64 mod 64, 128 + n mod 64]
      else [240 + n div 262144, 128 + n div 4096 mod 64, 128 + n div 64 mod 64, 128 + n mod 64])"

definition hex_value :: "char \<Rightarrow> nat option" where
  "hex_value c = (let n = of_char c :: nat in
     if 48 \<le> n \<and> n \<le> 57 then Some (n - 48)
     else if 97 \<le> n \<and> n \<le> 102 then Some (n - 87)
     else if 65 \<le> n \<and> n \<le> 70 then Some (n - 55) else None)"

definition hex4_value :: "char \<Rightarrow> char \<Rightarrow> char \<Rightarrow> char \<Rightarrow> nat option" where
  "hex4_value a b c d =
     (case (hex_value a, hex_value b, hex_value c, hex_value d) of
        (Some w, Some x, Some y, Some z) \<Rightarrow> Some (w * 4096 + x * 256 + y * 16 + z)
      | _ \<Rightarrow> None)"

definition simple_escape :: "char \<Rightarrow> char option" where
  "simple_escape c =
     (if c = CHR 34 \<or> c = CHR 92 \<or> c = CHR ''/'' then Some c
      else if c = CHR ''n'' then Some (CHR 10)
      else if c = CHR ''r'' then Some (CHR 13)
      else if c = CHR ''t'' then Some (CHR 9)
      else if c = CHR ''b'' then Some (CHR 8)
      else if c = CHR ''f'' then Some (CHR 12) else None)"

text \<open>The second half of a surrogate pair, when the text goes on with one.\<close>

fun low_surrogate :: "string \<Rightarrow> (nat \<times> string) option" where
  "low_surrogate (q # u # a # b # c # d # s) =
     (if q = CHR 92 \<and> u = CHR ''u''
      then (case hex4_value a b c d of
              Some m \<Rightarrow> (if 56320 \<le> m \<and> m < 57344 then Some (m - 56320, s) else None)
            | None \<Rightarrow> None)
      else None)"
| "low_surrogate _ = None"

lemma low_surrogate_length: "low_surrogate s = Some (m, t) \<Longrightarrow> length t < length s"
  by (induction s rule: low_surrogate.induct) (auto split: if_splits option.splits)

text \<open>The characters up to the closing quote.\<close>

function scan_text :: "string \<Rightarrow> (string \<times> string) option" where
  "scan_text [] = None"
| "scan_text (c # s) =
     (if c = CHR 34 then Some ([], s)
      else if (of_char c :: nat) < 32 then None
      else if c \<noteq> CHR 92 then map_option (apfst (Cons c)) (scan_text s)
      else (case s of
              [] \<Rightarrow> None
            | e # s1 \<Rightarrow>
                (if e = CHR ''u''
                 then (case s1 of
                         a # b # x # y # s2 \<Rightarrow>
                           (case hex4_value a b x y of
                              None \<Rightarrow> None
                            | Some n \<Rightarrow>
                                (if 55296 \<le> n \<and> n < 56320
                                 then (case low_surrogate s2 of
                                         Some (m, s3) \<Rightarrow> map_option (apfst (append (utf8_bytes (65536 + (n - 55296) * 1024 + m)))) (scan_text s3)
                                       | None \<Rightarrow> map_option (apfst (append (utf8_bytes n))) (scan_text s2))
                                 else map_option (apfst (append (utf8_bytes n))) (scan_text s2)))
                       | _ \<Rightarrow> None)
                 else (case simple_escape e of
                         None \<Rightarrow> None
                       | Some x \<Rightarrow> map_option (apfst (Cons x)) (scan_text s1)))))"
  by pat_completeness auto
termination
  by (relation "measure length") (auto dest: low_surrogate_length)

declare scan_text.simps(2) [simp del]

section \<open>Numbers\<close>

fun span_digits :: "string \<Rightarrow> string \<times> string" where
  "span_digits [] = ([], [])"
| "span_digits (c # s) = (if is_digit c then apfst (Cons c) (span_digits s) else ([], c # s))"

text \<open>\<^verbatim>\<open>(-?(?:0|[1-9]\d*))(\.\d+)?([eE][-+]?\d+)?\<close>\<close>

definition integer_part :: "string \<Rightarrow> (string \<times> string) option" where
  "integer_part s =
     (case s of
        [] \<Rightarrow> None
      | c # t \<Rightarrow> (if c = CHR ''0'' then Some ([c], t)
                  else if is_digit c then Some (span_digits s) else None))"

definition fraction_part :: "string \<Rightarrow> string \<times> string" where
  "fraction_part s =
     (case s of
        c # t \<Rightarrow> (if c = CHR ''.'' \<and> fst (span_digits t) \<noteq> [] then apfst (Cons c) (span_digits t) else ([], s))
      | [] \<Rightarrow> ([], s))"

definition exponent_part :: "string \<Rightarrow> string \<times> string" where
  "exponent_part s =
     (case s of
        c # t \<Rightarrow>
          (let (sign, u) = (case t of x # u \<Rightarrow> if x = CHR ''+'' \<or> x = CHR ''-'' then ([x], u) else ([], t) | [] \<Rightarrow> ([], t)) in
           if (c = CHR ''e'' \<or> c = CHR ''E'') \<and> fst (span_digits u) \<noteq> []
           then apfst (\<lambda>ds. c # sign @ ds) (span_digits u) else ([], s))
      | [] \<Rightarrow> ([], s))"

definition scan_number :: "(string \<Rightarrow> string \<times> int option) \<Rightarrow> string \<Rightarrow> (json \<times> string) option" where
  "scan_number float_of s =
     (let neg = (case s of c # _ \<Rightarrow> c = CHR ''-'' | [] \<Rightarrow> False);
          body = (if neg then tl s else s) in
      case integer_part body of
        None \<Rightarrow> None
      | Some (ds, s1) \<Rightarrow>
          (case fraction_part s1 of (fr, s2) \<Rightarrow>
          (case exponent_part s2 of (ex, s3) \<Rightarrow>
             (if fr = [] \<and> ex = []
              then Some (JInt ((if neg then - 1 else 1) * int (digits_value 0 ds)), s3)
              else (case float_of ((if neg then ''-'' else []) @ ds @ fr @ ex) of (r, t) \<Rightarrow> Some (JFloat r t, s3))))))"

section \<open>Values\<close>

fun skip_space :: "string \<Rightarrow> string" where
  "skip_space [] = []"
| "skip_space (c # s) = (if c \<in> {CHR 32, CHR 9, CHR 10, CHR 13} then skip_space s else c # s)"

definition literals :: "(string \<times> json) list" where
  "literals = [(''null'', JNull), (''true'', JBool True), (''false'', JBool False), (''NaN'', JFloat ''nan'' None),
     (''Infinity'', JFloat ''inf'' None), (''-Infinity'', JFloat ''-inf'' None)]"

definition scan_literal :: "string \<Rightarrow> (json \<times> string) option" where
  "scan_literal s = map_option (\<lambda>(t, v). (v, drop (length t) s)) (find (\<lambda>(t, v). starts_with t s) literals)"

text \<open>Inserting into a dictionary keeps the place of an existing key.\<close>

fun dict_of :: "(string \<times> json) list \<Rightarrow> (string \<times> json) list \<Rightarrow> (string \<times> json) list" where
  "dict_of acc [] = acc"
| "dict_of acc ((k, v) # kvs) =
     dict_of (if k \<in> fst ` set acc then map (\<lambda>(j, w). if j = k then (j, v) else (j, w)) acc else acc @ [(k, v)]) kvs"

fun scan_value :: "(string \<Rightarrow> string \<times> int option) \<Rightarrow> nat \<Rightarrow> string \<Rightarrow> (json \<times> string) option"
and scan_items :: "(string \<Rightarrow> string \<times> int option) \<Rightarrow> nat \<Rightarrow> string \<Rightarrow> (json list \<times> string) option"
and scan_members :: "(string \<Rightarrow> string \<times> int option) \<Rightarrow> nat \<Rightarrow> string \<Rightarrow> ((string \<times> json) list \<times> string) option" where
  "scan_value f 0 s = None"
| "scan_value f (Suc n) s =
     (case s of
        [] \<Rightarrow> None
      | c # t \<Rightarrow>
          (if c = CHR 34 then map_option (apfst JStr) (scan_text t)
           else if c = CHR ''['' then
             (case skip_space t of
                [] \<Rightarrow> None
              | x # u \<Rightarrow> if x = CHR '']'' then Some (JList [], u)
                         else map_option (apfst JList) (scan_items f n (x # u)))
           else if c = CHR ''{'' then
             (case skip_space t of
                [] \<Rightarrow> None
              | x # u \<Rightarrow> if x = CHR ''}'' then Some (JObj [], u)
                         else map_option (apfst (\<lambda>kvs. JObj (dict_of [] kvs))) (scan_members f n (x # u)))
           else (case scan_literal s of Some r \<Rightarrow> Some r | None \<Rightarrow> scan_number f s)))"
| "scan_items f 0 s = None"
| "scan_items f (Suc n) s =
     (case scan_value f n s of
        None \<Rightarrow> None
      | Some (v, t) \<Rightarrow>
          (case skip_space t of
             [] \<Rightarrow> None
           | c # u \<Rightarrow> if c = CHR '']'' then Some ([v], u)
                      else if c = CHR '','' then map_option (apfst (Cons v)) (scan_items f n (skip_space u)) else None))"
| "scan_members f 0 s = None"
| "scan_members f (Suc n) s =
     (case s of
        [] \<Rightarrow> None
      | q # t \<Rightarrow>
          (if q \<noteq> CHR 34 then None
           else (case scan_text t of
             None \<Rightarrow> None
           | Some (k, t1) \<Rightarrow>
               (case skip_space t1 of
                  [] \<Rightarrow> None
                | c # u \<Rightarrow>
                    (if c \<noteq> CHR '':'' then None
                     else (case scan_value f n (skip_space u) of
                       None \<Rightarrow> None
                     | Some (v, t2) \<Rightarrow>
                         (case skip_space t2 of
                            [] \<Rightarrow> None
                          | x # w \<Rightarrow> if x = CHR ''}'' then Some ([(k, v)], w)
                                     else if x = CHR '','' then map_option (apfst (Cons (k, v))) (scan_members f n (skip_space w))
                                     else None)))))))"

definition loads :: "(string \<Rightarrow> string \<times> int option) \<Rightarrow> string \<Rightarrow> json option" where
  "loads f s =
     (case scan_value f (2 * length s + 2) (skip_space s) of
        Some (v, t) \<Rightarrow> (if skip_space t = [] then Some v else None)
      | None \<Rightarrow> None)"

section \<open>Reading back text literals\<close>

definition scalar :: "nat \<Rightarrow> bool" where
  "scalar n \<longleftrightarrow> n < 1114112 \<and> \<not> (55296 \<le> n \<and> n < 57344)"

text \<open>Texts that are the UTF-8 form of a sequence of Unicode scalar values.\<close>

definition well_encoded :: "string \<Rightarrow> bool" where
  "well_encoded s \<longleftrightarrow> list_all scalar (utf8_points s) \<and> concat (map utf8_bytes (utf8_points s)) = s"

lemma hex_value_digit: "x < 16 \<Longrightarrow> hex_value (hex_digit x) = Some x"
  by (auto simp: hex_value_def hex_digit_def Let_def)

lemma char_points:
  "char_of (34::nat) = CHR 34" "char_of (92::nat) = CHR 92" "char_of (10::nat) = CHR 10" "char_of (13::nat) = CHR 13"
  "char_of (9::nat) = CHR 9" "char_of (8::nat) = CHR 8" "char_of (12::nat) = CHR 12" "char_of (48::nat) = CHR ''0''"
  by code_simp+

lemma hex4_value_digits:
  assumes "n < 65536"
  shows "hex4_value (hex_digit (n div 4096 mod 16)) (hex_digit (n div 256 mod 16)) (hex_digit (n div 16 mod 16))
    (hex_digit (n mod 16)) = Some n"
proof -
  have top: "n div 4096 mod 16 = n div 4096" "n div 4096 < 16" using assms by simp_all
  moreover have "n div 4096 * 4096 + n div 256 mod 16 * 256 + n div 16 mod 16 * 16 + n mod 16 = n"
  proof -
    have "a * 4096 + b * 256 + c * 16 + e = n" if "p * 16 + e = n" "q * 16 + c = p" "a * 16 + b = q" for a b c e p q :: nat
      using that by simp
    moreover have "n div 16 * 16 + n mod 16 = n" "n div 256 * 16 + n div 16 mod 16 = n div 16"
      "n div 4096 * 16 + n div 256 mod 16 = n div 256"
      using div_mult_mod_eq [of n 16] div_mult_mod_eq [of "n div 16" 16] div_mult_mod_eq [of "n div 256" 16]
      by (simp_all flip: div_mult2_eq)
    ultimately show ?thesis by blast
  qed
  ultimately show ?thesis by (simp add: hex4_value_def hex_value_digit)
qed

lemma scan_hex4:
  assumes "n < 65536" and "\<not> (55296 \<le> n \<and> n < 56320)"
  shows "scan_text (hex4 n @ s) = map_option (apfst (append (utf8_bytes n))) (scan_text s)"
  using hex4_value_digits [OF assms(1)] assms(2) by (auto simp: hex4_def scan_text.simps(2))

lemma scan_pair:
  assumes "n < 1024" and "m < 1024"
  shows "scan_text (hex4 (55296 + n) @ hex4 (56320 + m) @ s)
    = map_option (apfst (append (utf8_bytes (65536 + n * 1024 + m)))) (scan_text s)"
proof -
  have "low_surrogate (hex4 (56320 + m) @ s) = Some (m, s)"
    using hex4_value_digits [of "56320 + m"] assms(2) by (simp add: hex4_def)
  moreover have "hex4 (55296 + n) @ t = CHR 92 # CHR ''u'' # hex_digit ((55296 + n) div 4096 mod 16) #
     hex_digit ((55296 + n) div 256 mod 16) # hex_digit ((55296 + n) div 16 mod 16) # hex_digit ((55296 + n) mod 16) # t" for t
    by (simp add: hex4_def)
  ultimately show ?thesis
    using hex4_value_digits [of "55296 + n"] assms(1) by (simp add: scan_text.simps(2) del: append_assoc)
qed

lemma append_one: "(@) [c] = (#) c"
  by (rule ext) simp

lemma scan_point:
  assumes "scalar n"
  shows "scan_text (json_point n @ s) = map_option (apfst (append (utf8_bytes n))) (scan_text s)"
proof -
  consider (short) "n \<in> {34, 92, 10, 13, 9, 8, 12}" | (plain) "32 \<le> n" "n < 127" "n \<noteq> 34" "n \<noteq> 92"
    | (four) "n < 65536" "n \<notin> {34, 92, 10, 13, 9, 8, 12}" "\<not> (32 \<le> n \<and> n < 127)" | (pair) "65536 \<le> n" by fastforce
  then show ?thesis
  proof cases
    case short
    then consider "n = 34" | "n = 92" | "n = 10" | "n = 13" | "n = 9" | "n = 8" | "n = 12" by blast
    then show ?thesis
      by cases (simp_all add: json_point_def utf8_bytes_def scan_text.simps(2) simple_escape_def char_points append_one)
  next
    case plain
    then have same: "(of_char (char_of n :: char) :: nat) = n" by (simp add: take_bit_eq_mod)
    have "(of_char (CHR 34) :: nat) = 34" "(of_char (CHR 92) :: nat) = 92" by simp_all
    with same plain have "char_of n \<noteq> CHR 34" "char_of n \<noteq> CHR 92" by metis+
    with same plain show ?thesis
      by (auto simp: json_point_def utf8_bytes_def scan_text.simps(2) append_one)
  next
    case four
    then have "json_point n = hex4 n" by (auto simp: json_point_def)
    moreover have "\<not> (55296 \<le> n \<and> n < 56320)" using assms by (auto simp: scalar_def)
    ultimately show ?thesis using four(1) by (simp add: scan_hex4)
  next
    case pair
    with assms have "(n - 65536) div 1024 < 1024" by (simp add: scalar_def less_mult_imp_div_less)
    from scan_pair [OF this, of "(n - 65536) mod 1024" s] pair show ?thesis by (simp add: json_point_def)
  qed
qed

lemma scan_points:
  "list_all scalar ns \<Longrightarrow> scan_text (concat (map json_point ns) @ CHR 34 # rest) = Some (concat (map utf8_bytes ns), rest)"
  by (induction ns) (auto simp: scan_point scan_text.simps(2))

lemma scan_json_text:
  "well_encoded s \<Longrightarrow> json_text s @ rest = CHR 34 # t \<Longrightarrow> scan_text t = Some (s, rest)"
  using scan_points [of "utf8_points s" rest] by (auto simp: json_text_def well_encoded_def)

lemma json_text_Cons: "\<exists>t. json_text s @ rest = CHR 34 # t" by (simp add: json_text_def)

section \<open>Reading back numbers\<close>

text \<open>What follows a value inside an array or an object, or the end of the text.\<close>

definition stop :: "string \<Rightarrow> bool" where
  "stop rest \<longleftrightarrow> rest = [] \<or> hd rest \<in> {CHR '','', CHR '']'', CHR ''}''}"

lemma stop_simps [simp]: "stop []" "stop (CHR '','' # s)" "stop (CHR '']'' # s)" "stop (CHR ''}'' # s)"
  by (simp_all add: stop_def)

lemma span_digits_append:
  "(\<And>c. c \<in> set ds \<Longrightarrow> is_digit c) \<Longrightarrow> stop rest \<Longrightarrow> span_digits (ds @ rest) = (ds, rest)"
  by (induction ds) (cases rest, auto simp: stop_def is_digit_def)

lemma nat_text_zero: "hd (nat_text n) = CHR ''0'' \<Longrightarrow> n = 0"
proof (induction n rule: nat_text.induct)
  case (1 n)
  show ?case
  proof (cases "n < 10")
    case True
    with 1 have "digit_value (hd (nat_text n)) = n" by (subst nat_text.simps) simp
    with 1 show ?thesis by (simp add: digit_value_def)
  next
    case False
    with 1 have "n div 10 = 0" by (simp add: nat_text.simps [of n])
    with False show ?thesis by simp
  qed
qed

lemma integer_part_nat_text:
  assumes "stop rest"
  shows "integer_part (nat_text n @ rest) = Some (nat_text n, rest)"
proof (cases "nat_text n")
  case (Cons c cs)
  have digits: "x \<in> set (c # cs) \<Longrightarrow> is_digit x" for x using nat_text_digits [of x n] Cons by simp
  show ?thesis
  proof (cases "c = CHR ''0''")
    case True
    with nat_text_zero [of n] Cons have "n = 0" by simp
    then have "nat_text n = ''0''" by (simp add: nat_text.simps digit_char_def char_points)
    with Cons show ?thesis by (simp add: integer_part_def)
  next
    case False
    with digits [of c] span_digits_append [OF digits assms] Cons show ?thesis by (simp add: integer_part_def)
  qed
qed simp

lemma stop_parts: "stop rest \<Longrightarrow> fraction_part rest = ([], rest)" "stop rest \<Longrightarrow> exponent_part rest = ([], rest)"
  by (auto simp: stop_def fraction_part_def exponent_part_def split: list.split prod.split)

lemma scan_int_text:
  assumes "stop rest"
  shows "scan_number f (int_text i @ rest) = Some (JInt i, rest)"
proof -
  obtain c cs where c: "nat_text (nat i) = c # cs" "is_digit c"
    using nat_text_digits [of _ "nat i"] by (cases "nat_text (nat i)") auto
  then have "c \<noteq> CHR ''-''" by (auto simp: is_digit_def)
  with c show ?thesis
    using integer_part_nat_text [OF assms, of "nat i"] integer_part_nat_text [OF assms, of "nat (- i)"] stop_parts [OF assms]
      digits_value_nat_text [of "nat i"] digits_value_nat_text [of "nat (- i)"]
    by (auto simp: scan_number_def int_text_def Let_def)
qed

lemma int_text_head: "\<exists>c t. int_text i = c # t \<and> (is_digit c \<or> c = CHR ''-'' \<and> t \<noteq> [] \<and> is_digit (hd t))"
proof -
  have "\<exists>c t. nat_text n = c # t \<and> is_digit c" for n
    using nat_text_digits [of _ n] by (cases "nat_text n") auto
  from this [of "nat i"] this [of "nat (- i)"] show ?thesis by (auto simp: int_text_def)
qed

lemma scan_literal_int: "scan_literal (int_text i @ rest) = None"
proof -
  obtain c t where c: "int_text i = c # t" "is_digit c \<or> c = CHR ''-'' \<and> t \<noteq> [] \<and> is_digit (hd t)"
    using int_text_head by blast
  then have "c \<notin> {CHR ''n'', CHR ''t'', CHR ''f'', CHR ''N'', CHR ''I''}" by (auto simp: is_digit_def)
  moreover from c have "c = CHR ''-'' \<Longrightarrow> hd (t @ rest) \<noteq> CHR ''I''" by (auto simp: is_digit_def)
  ultimately have "\<not> starts_with w (int_text i @ rest)" if "w \<in> fst ` set literals" for w
    using that c(1) by (cases "t @ rest") (auto simp: literals_def starts_with_def)
  then have "find (\<lambda>(w, v). starts_with w (int_text i @ rest)) literals = None"
    by (force simp: find_None_iff)
  then show ?thesis by (simp add: scan_literal_def)
qed

section \<open>Reading back values\<close>

text \<open>Values that the decoder reads back: texts are well encoded, keys are distinct, and the only
  floats are the three that are written as words. What is read back has its keys in order.\<close>

fun plain_json :: "json \<Rightarrow> bool" where
  "plain_json (JFloat r t) = ((r, t) \<in> {(''nan'', None), (''inf'', None), (''-inf'', None)})"
| "plain_json (JStr s) = well_encoded s"
| "plain_json (JList vs) = (\<forall>v\<in>set vs. plain_json v)"
| "plain_json (JObj kvs) = (distinct (map fst kvs) \<and> (\<forall>kv\<in>set kvs. well_encoded (fst kv) \<and> plain_json (snd kv)))"
| "plain_json _ = True"

fun canonical :: "json \<Rightarrow> json" where
  "canonical (JList vs) = JList (map canonical vs)"
| "canonical (JObj kvs) = JObj (sort_key fst (map (\<lambda>kv. (fst kv, canonical (snd kv))) kvs))"
| "canonical v = v"

lemma sort_key_map_pairs:
  fixes kvs :: "('k::linorder \<times> 'a) list"
  shows "sort_key fst (map (\<lambda>kv. (fst kv, g (snd kv))) kvs) = map (\<lambda>kv. (fst kv, g (snd kv))) (sort_key fst kvs)"
proof -
  have "insort_key fst (fst kv, g (snd kv)) (map (\<lambda>kv. (fst kv, g (snd kv))) xs)
      = map (\<lambda>kv. (fst kv, g (snd kv))) (insort_key fst kv xs)" for kv :: "'k \<times> 'a" and xs
    by (induction xs) auto
  then show ?thesis by (induction kvs) simp_all
qed

definition member_text :: "string \<times> json \<Rightarrow> string" where
  "member_text kv = json_text (fst kv) @ '':'' @ dumps (snd kv)"

lemma length_member_text: "length (member_text kv) = length (json_text (fst kv)) + 1 + length (dumps (snd kv))"
  by (simp add: member_text_def)

lemma dumps_object: "dumps (JObj kvs) = ''{'' @ join '','' (map member_text (sort_key fst kvs)) @ ''}''"
  by (simp add: sort_key_map_pairs comp_def member_text_def [abs_def])

lemma dumps_head: "\<exists>c t. dumps v @ rest = c # t \<and> c \<notin> {CHR 32, CHR 9, CHR 10, CHR 13, CHR '']'', CHR ''}''}"
  if "plain_json v"
proof (cases v)
  case (JInt i)
  obtain c t where "int_text i = c # t" "is_digit c \<or> c = CHR ''-''" using int_text_head by blast
  with JInt show ?thesis by (auto simp: is_digit_def)
qed (use that in \<open>auto simp: json_text_def\<close>)

lemma skip_head: "c \<notin> {CHR 32, CHR 9, CHR 10, CHR 13} \<Longrightarrow> skip_space (c # t) = c # t"
  by simp

lemma skip_dumps: "plain_json v \<Longrightarrow> skip_space (dumps v @ rest) = dumps v @ rest"
  using dumps_head [of v rest] by (metis insertI1 insertI2 insert_iff skip_head)

lemma skip_stop: "stop rest \<Longrightarrow> skip_space rest = rest"
  by (cases rest) (auto simp: stop_def)

lemma length_dumps: "plain_json v \<Longrightarrow> 0 < length (dumps v)"
  using dumps_head [of v "[]"] by auto

definition reads :: "(string \<Rightarrow> string \<times> int option) \<Rightarrow> json \<Rightarrow> bool" where
  "reads f v \<longleftrightarrow> (\<forall>n rest. stop rest \<longrightarrow> length (dumps v) < n \<longrightarrow> scan_value f n (dumps v @ rest) = Some (canonical v, rest))"

lemma scan_items_read:
  assumes "vs \<noteq> []" and "\<And>v. v \<in> set vs \<Longrightarrow> plain_json v \<and> reads f v"
    and "length (join '','' (map dumps vs)) + 1 < n"
  shows "scan_items f n (join '','' (map dumps vs) @ CHR '']'' # rest) = Some (map canonical vs, rest)"
  using assms
proof (induction vs arbitrary: n rule: list_nonempty_induct)
  case (single v)
  then obtain m where n: "n = Suc m" by (cases n) auto
  from single have "scan_value f m (dumps v @ CHR '']'' # rest) = Some (canonical v, CHR '']'' # rest)"
    by (simp add: reads_def n)
  then show ?case by (simp add: n)
next
  case (cons v vs)
  then obtain m where n: "n = Suc m" by (cases n) auto
  obtain w ws where vs: "vs = w # ws" using cons.hyps by (cases vs) auto
  have len: "length (join '','' (map dumps (v # vs))) = length (dumps v) + 1 + length (join '','' (map dumps vs))"
    by (simp add: vs)
  have "scan_value f m (dumps v @ CHR '','' # s) = Some (canonical v, CHR '','' # s)" for s
    using cons.prems len by (simp add: reads_def n)
  moreover have "skip_space (join '','' (map dumps vs) @ CHR '']'' # rest) = join '','' (map dumps vs) @ CHR '']'' # rest"
  proof (cases ws)
    case Nil
    then show ?thesis using cons.prems(1) [of w] by (simp add: vs skip_dumps)
  next
    case (Cons x xs)
    then show ?thesis using cons.prems(1) [of w] by (simp add: vs skip_dumps)
  qed
  moreover have "scan_items f m (join '','' (map dumps vs) @ CHR '']'' # rest) = Some (map canonical vs, rest)"
    using cons.IH [of m] cons.prems len length_dumps [of v] by (auto simp: n)
  ultimately show ?case by (simp add: n vs)
qed

lemma skip_member: "skip_space (member_text kv @ s) = member_text kv @ s"
  by (simp add: member_text_def json_text_def)

lemma scan_members_read:
  assumes "kvs \<noteq> []" and "\<And>kv. kv \<in> set kvs \<Longrightarrow> well_encoded (fst kv) \<and> plain_json (snd kv) \<and> reads f (snd kv)"
    and "length (join '','' (map member_text kvs)) + 1 < n"
  shows "scan_members f n (join '','' (map member_text kvs) @ CHR ''}'' # rest)
    = Some (map (\<lambda>kv. (fst kv, canonical (snd kv))) kvs, rest)"
  using assms
proof (induction kvs arbitrary: n rule: list_nonempty_induct)
  case (single kv)
  then obtain m where n: "n = Suc m" by (cases n) auto
  obtain t where t: "json_text (fst kv) @ CHR '':'' # dumps (snd kv) @ CHR ''}'' # rest = CHR 34 # t" using json_text_Cons by blast
  from single have "scan_value f m (dumps (snd kv) @ CHR ''}'' # rest) = Some (canonical (snd kv), CHR ''}'' # rest)"
    by (simp add: reads_def n member_text_def)
  with single scan_json_text [OF _ t] show ?case
    by (simp add: n member_text_def t skip_dumps)
next
  case (cons kv kvs)
  then obtain m where n: "n = Suc m" by (cases n) auto
  obtain w ws where kvs: "kvs = w # ws" using cons.hyps by (cases kvs) auto
  let ?tail = "join '','' (map member_text kvs) @ CHR ''}'' # rest"
  have len: "length (join '','' (map member_text (kv # kvs))) = length (member_text kv) + 1 + length (join '','' (map member_text kvs))"
    by (simp add: kvs)
  obtain t where t: "json_text (fst kv) @ CHR '':'' # dumps (snd kv) @ CHR '','' # ?tail = CHR 34 # t" using json_text_Cons by blast
  have "scan_value f m (dumps (snd kv) @ CHR '','' # ?tail) = Some (canonical (snd kv), CHR '','' # ?tail)"
    using cons.prems len by (simp add: reads_def n length_member_text)
  moreover have "skip_space ?tail = ?tail" by (cases ws) (simp_all add: kvs skip_member)
  moreover have "scan_members f m ?tail = Some (map (\<lambda>kv. (fst kv, canonical (snd kv))) kvs, rest)"
    using cons.IH [of m] cons.prems len by (auto simp: n length_member_text)
  moreover have "join '','' (map member_text (kv # kvs)) @ CHR ''}'' # rest = CHR 34 # t"
    using t by (simp add: kvs member_text_def)
  ultimately show ?case using cons.prems(1) [of kv] scan_json_text [OF _ t] by (simp add: n skip_dumps)
qed

lemma dict_of_distinct: "distinct (map fst (acc @ kvs)) \<Longrightarrow> dict_of acc kvs = acc @ kvs"
proof (induction kvs arbitrary: acc)
  case (Cons kv kvs)
  obtain k v where kv: "kv = (k, v)" by (cases kv)
  then have "k \<notin> fst ` set acc" using Cons.prems by auto
  with Cons kv show ?case by simp
qed simp

lemma dumps_reads: "plain_json v \<Longrightarrow> reads f v"
proof (induction v)
  case (JFloat r t)
  then show ?case
    by (auto simp: reads_def gr0_conv_Suc less_iff_Suc_add scan_literal_def literals_def starts_with_def)
next
  case (JInt i)
  obtain c t where c: "int_text i = c # t" "is_digit c \<or> c = CHR ''-''" using int_text_head by blast
  then have "c \<notin> {CHR 34, CHR ''['', CHR ''{''}" by (auto simp: is_digit_def)
  then have "scan_value f (Suc m) (int_text i @ rest) = scan_number f (int_text i @ rest)" for m rest
    using scan_literal_int [of i rest] c(1) by simp
  then show ?case by (auto simp: reads_def scan_int_text less_iff_Suc_add)
next
  case (JStr s)
  show ?case unfolding reads_def
  proof (intro allI impI)
    fix n rest assume "stop rest" "length (dumps (JStr s)) < n"
    then obtain m where n: "n = Suc m" by (cases n) auto
    obtain t where "json_text s @ rest = CHR 34 # t" using json_text_Cons by blast
    with JStr scan_json_text [of s rest t] show "scan_value f n (dumps (JStr s) @ rest) = Some (canonical (JStr s), rest)"
      by (simp add: n)
  qed
next
  case (JList vs)
  show ?case unfolding reads_def
  proof (intro allI impI)
    fix n rest assume a: "stop rest" "length (dumps (JList vs)) < n"
    then obtain m where n: "n = Suc m" by (cases n) auto
    show "scan_value f n (dumps (JList vs) @ rest) = Some (canonical (JList vs), rest)"
    proof (cases vs)
      case (Cons v ws)
      have items: "scan_items f m (join '','' (map dumps vs) @ CHR '']'' # rest) = Some (map canonical vs, rest)"
        by (rule scan_items_read) (use JList a Cons n in auto)
      obtain c t where "dumps v @ s = c # t @ s" "c \<notin> {CHR 32, CHR 9, CHR 10, CHR 13, CHR '']'', CHR ''}''}" for s
        using dumps_head [of v "[]"] JList.prems Cons by auto
      then obtain c t where c: "join '','' (map dumps vs) @ CHR '']'' # rest = c # t"
        "c \<notin> {CHR 32, CHR 9, CHR 10, CHR 13, CHR '']'', CHR ''}''}" using Cons by (cases ws) auto
      then show ?thesis using items by (simp add: n)
    qed (simp add: n)
  qed
next
  case (JObj kvs)
  show ?case unfolding reads_def
  proof (intro allI impI)
    fix n rest assume a: "stop rest" "length (dumps (JObj kvs)) < n"
    then obtain m where n: "n = Suc m" by (cases n) auto
    let ?k = "sort_key fst kvs"
    show "scan_value f n (dumps (JObj kvs) @ rest) = Some (canonical (JObj kvs), rest)"
    proof (cases "kvs = []")
      case False
      then have ne: "?k \<noteq> []" by (metis length_0_conv length_sort)
      have all: "well_encoded (fst kv) \<and> plain_json (snd kv) \<and> reads f (snd kv)" if "kv \<in> set ?k" for kv
        using that JObj.prems JObj.IH [of kv "snd kv"] by (simp add: prod_set_defs)
      from ne obtain kv ws where k: "?k = kv # ws" by (cases ?k) auto
      have items: "scan_members f m (join '','' (map member_text ?k) @ CHR ''}'' # rest)
          = Some (map (\<lambda>kv. (fst kv, canonical (snd kv))) ?k, rest)"
        by (rule scan_members_read [OF ne all]) (use a n in \<open>simp_all add: dumps_object del: dumps_with.simps\<close>)
      obtain t where t: "join '','' (map member_text ?k) @ CHR ''}'' # rest = CHR 34 # t"
        by (cases ws) (auto simp: k member_text_def json_text_def)
      have "distinct (map fst (map (\<lambda>kv. (fst kv, canonical (snd kv))) ?k))" using JObj.prems by (simp add: comp_def distinct_map)
      then have "dict_of [] (map (\<lambda>kv. (fst kv, canonical (snd kv))) ?k) = map (\<lambda>kv. (fst kv, canonical (snd kv))) ?k"
        using dict_of_distinct [of "[]"] by simp
      with items t show ?thesis by (simp add: n dumps_object sort_key_map_pairs del: dumps_with.simps)
    qed (simp add: n)
  qed
qed (auto simp: reads_def less_iff_Suc_add scan_literal_def literals_def starts_with_def)

lemma loads_dumps: "plain_json v \<Longrightarrow> loads f (dumps v) = Some (canonical v)"
  using dumps_reads [of v f] skip_dumps [of v "[]"]
  unfolding reads_def loads_def by (simp add: stop_def del: scan_value.simps)

end
