(* ===== verification/Host.thy ===== *)
theory Host
  imports Runtime Json
begin

text \<open>
  \<^verbatim>\<open>control/sjg_control/host_process.py\<close>: the identity of a process, its termination, the token usage in
  its output, and \<open>HostProviderLauncher\<close>.

  What the operating system and the child process do are parameters: a \<open>host_probe\<close> is what reading the
  identity of a process gives, a \<open>group_probe\<close> what happens while its group is signalled, a \<open>child\<close> what
  one launched process does. Building the command line and the sealed settings of the provider is the
  parameter \<open>prepare\<close>, which may raise.
\<close>

section \<open>Words and lines\<close>

text \<open>\<open>str.split()\<close>\<close>

function split_words :: "string \<Rightarrow> string \<Rightarrow> string list" where
  "split_words acc s =
     (case s of
        [] \<Rightarrow> (if acc = [] then [] else [rev acc])
      | c # t \<Rightarrow>
          (if space_len wide_spaces s = 0 then split_words (c # acc) t
           else (if acc = [] then [] else [rev acc]) @ split_words [] (drop (space_len wide_spaces s) s)))"
  by pat_completeness auto
termination
  by (relation "measure (\<lambda>(acc, s). length s)") auto

declare split_words.simps [simp del]

text \<open>\<open>str.splitlines()\<close>: the length of the line break at the start of a text.\<close>

definition break_len :: "string \<Rightarrow> nat" where
  "break_len s =
     (if starts_with [CHR 13, CHR 10] s then 2
      else (case s of
              [] \<Rightarrow> 0
            | c # _ \<Rightarrow>
                (let n = of_char c :: nat in
                 if (10 \<le> n \<and> n \<le> 13) \<or> (28 \<le> n \<and> n \<le> 30) then 1
                 else if starts_with (map char_of [194, 133 :: nat]) s then 2
                 else if starts_with (map char_of [226, 128, 168 :: nat]) s \<or> starts_with (map char_of [226, 128, 169 :: nat]) s
                 then 3 else 0)))"

function split_lines :: "string \<Rightarrow> string \<Rightarrow> string list" where
  "split_lines acc s =
     (case s of
        [] \<Rightarrow> (if acc = [] then [] else [rev acc])
      | c # t \<Rightarrow>
          (if break_len s = 0 then split_lines (c # acc) t else rev acc # split_lines [] (drop (break_len s) s)))"
  by pat_completeness auto
termination
  by (relation "measure (\<lambda>(acc, s). length s)") auto

declare split_lines.simps [simp del]

section \<open>Processes\<close>

record process_result =
  ps_output :: string
  ps_error :: string
  ps_returncode :: int
  ps_tokens :: "int option"
  ps_output_sha256 :: string

text \<open>\<open>hp_stat\<close>: the text of \<^verbatim>\<open>/proc/<pid>/stat\<close> when that is a file; \<open>hp_ps\<close>: output and return code of
  \<^verbatim>\<open>ps\<close>.\<close>

record host_probe =
  hp_stat :: "string result option"
  hp_boot :: "string result"
  hp_ps :: "(string \<times> int) result"

definition after_paren :: "string \<Rightarrow> string" where
  "after_paren raw = drop 1 (if CHR '')'' \<in> set raw then rev (takeWhile (\<lambda>c. c \<noteq> CHR '')'') (rev raw)) else raw)"

definition process_birth_token :: "int \<Rightarrow> host_probe \<Rightarrow> string result" where
  "process_birth_token pid p =
     (if pid \<le> 0 then Inl (HostProcessError ''process id must be positive'')
      else (case hp_stat p of
        Some stat \<Rightarrow>
          (let birth = bindE stat (\<lambda>raw.
                 let parts = split_words [] (after_paren raw) in
                 if length parts \<le> 19 then Inl (IndexError ''list index out of range'')
                 else bindE (hp_boot p) (\<lambda>boot. Inr (''linux:'' @ strip boot @ '':'' @ parts ! 19))) in
           case birth of Inr t \<Rightarrow> Inr t
           | Inl _ \<Rightarrow> Inl (HostProcessError ''cannot establish Linux process birth identity''))
      | None \<Rightarrow>
          (case hp_ps p of
             Inl _ \<Rightarrow> Inl (HostProcessError ''cannot establish process birth identity'')
           | Inr (out, rc) \<Rightarrow>
               (let v = join '' '' (split_words [] out) in
                if rc \<noteq> 0 \<or> v = []
                then Inl (HostProcessError ''process disappeared before its birth identity was recorded'')
                else Inr (''posix:'' @ v)))))"

datatype signalled = Delivered | No_such_process | Not_permitted

text \<open>\<open>gp_polls\<close>: what signal 0 gives, every 50 ms until the grace period ends.\<close>

record group_probe =
  gp_before :: host_probe
  gp_term :: signalled
  gp_polls :: "signalled list"
  gp_after :: host_probe
  gp_kill :: signalled

definition not_permitted :: exc where
  "not_permitted = OSError ''[Errno 1] Operation not permitted''"

fun poll_gone :: "signalled list \<Rightarrow> bool result" where
  "poll_gone [] = Inr False"
| "poll_gone (Delivered # ps) = poll_gone ps"
| "poll_gone (No_such_process # ps) = Inr True"
| "poll_gone (Not_permitted # ps) = Inl not_permitted"

definition terminate_group :: "int \<Rightarrow> string \<Rightarrow> group_probe \<Rightarrow> bool result" where
  "terminate_group pid birth_token g =
     (case process_birth_token pid (gp_before g) of
        Inl _ \<Rightarrow> Inr True
      | Inr t \<Rightarrow>
          if t \<noteq> birth_token then Inr False
          else (case gp_term g of
            No_such_process \<Rightarrow> Inr True
          | Not_permitted \<Rightarrow> Inl not_permitted
          | Delivered \<Rightarrow>
              bindE (poll_gone (gp_polls g)) (\<lambda>gone.
                if gone then Inr True
                else (case process_birth_token pid (gp_after g) of
                  Inl _ \<Rightarrow> Inr True
                | Inr t' \<Rightarrow>
                    if t' \<noteq> birth_token then Inr False
                    else (case gp_kill g of Not_permitted \<Rightarrow> Inl not_permitted | _ \<Rightarrow> Inr True)))))"

section \<open>Token usage\<close>

text \<open>Decoding a line: \<open>limits\<close> gives the exception on texts that \<open>json.loads\<close> refuses with something
  else than \<open>JSONDecodeError\<close> (a \<open>RecursionError\<close> for deep nesting, a \<open>ValueError\<close> for integers of more than
  4300 digits); \<open>Inr None\<close> is \<open>JSONDecodeError\<close>.\<close>

definition decode :: "(string \<Rightarrow> exc option) \<Rightarrow> (string \<Rightarrow> string \<times> int option) \<Rightarrow> string \<Rightarrow> json option result" where
  "decode limits float_of line = (case limits line of Some e \<Rightarrow> Inl e | None \<Rightarrow> Inr (loads float_of line))"

definition count_of :: "json \<Rightarrow> int option" where
  "count_of v =
     (case v of JInt i \<Rightarrow> if 0 \<le> i then Some i else None
      | JBool b \<Rightarrow> Some (if b then 1 else 0)
      | _ \<Rightarrow> None)"

definition object_usage :: "(string \<times> json) list \<Rightarrow> int list" where
  "object_usage item =
     (case count_of (dget item ''total_tokens'') of
        Some t \<Rightarrow> [t]
      | None \<Rightarrow>
          (case (count_of (dget item ''input_tokens''), count_of (dget item ''output_tokens'')) of
             (Some i, Some k) \<Rightarrow> [i + k]
           | _ \<Rightarrow> []))"

definition nested_objects :: "(string \<times> json) list \<Rightarrow> string \<Rightarrow> (string \<times> json) list list" where
  "nested_objects v key =
     (case dget v key of
        JObj nested \<Rightarrow> nested # (case dget nested ''usage'' of JObj usage \<Rightarrow> [usage] | _ \<Rightarrow> [])
      | _ \<Rightarrow> [])"

definition line_usage :: "json option \<Rightarrow> int list" where
  "line_usage v =
     (case v of
        Some (JObj kvs) \<Rightarrow> concat (map object_usage
           (kvs # concat (map (nested_objects kvs) [''usage'', ''result'', ''turn'', ''message''])))
      | _ \<Rightarrow> [])"

definition extract_usage ::
  "(string \<Rightarrow> exc option) \<Rightarrow> (string \<Rightarrow> string \<times> int option) \<Rightarrow> string \<Rightarrow> string \<Rightarrow> int option result" where
  "extract_usage limits float_of provider output_text =
     bindE (mapE (decode limits float_of) (split_lines [] output_text)) (\<lambda>values.
       let candidates = concat (map line_usage values) in
       if provider \<notin> {''codex-cli'', ''claude-cli''} then Inl (HostProcessError ''unsupported provider usage format'')
       else Inr (if candidates = [] then None else Some (Max (set candidates))))"

section \<open>Launching\<close>

record host_settings =
  hs_provider :: string
  hs_worker_models :: "(string \<times> string) list"
  hs_euid :: int
  hs_egid :: int
  hs_agent_uid :: int
  hs_agent_gid :: int

definition agent_process_identity :: "host_settings \<Rightarrow> (int \<times> int) option result" where
  "agent_process_identity cfg =
     (if hs_euid cfg = 0 then Inr (Some (hs_agent_uid cfg, hs_agent_gid cfg))
      else if hs_agent_uid cfg \<noteq> hs_euid cfg \<or> hs_agent_gid cfg \<noteq> hs_egid cfg
      then Inl (HostProcessError ''only root may launch the configured separate agent identity'')
      else Inr None)"

text \<open>How a child ends: within its time, beyond it, or with output that \<open>communicate\<close> cannot decode as text
  (also the output that is left after a timeout); then \<open>_run\<close> raises before it finishes the process row.\<close>

datatype ending =
    Completed string string int
  | Overran group_probe int
  | Undecodable string

record child =
  ch_pid :: "int option"
  ch_birth :: host_probe
  ch_pgid :: "int result"
  ch_killed :: int
  ch_ending :: ending

text \<open>From the start of the process to \<open>on_started\<close>.\<close>

definition start_child ::
  "instant \<Rightarrow> unit op \<Rightarrow> unit op \<Rightarrow> string \<Rightarrow> string \<Rightarrow> string \<Rightarrow> string option \<Rightarrow> int \<Rightarrow> child \<Rightarrow> string op" where
  "start_child now on_spawned on_started session_id process_key kind worker_attempt_id pid c d =
     (case on_spawned d of
        (Inl e, d1) \<Rightarrow> (Inl e, d1)
      | (Inr _, d1) \<Rightarrow>
          (case process_birth_token pid (ch_birth c) of
             Inl e \<Rightarrow> (Inl e, d1)
           | Inr birth \<Rightarrow>
               (case ch_pgid c of
                  Inl e \<Rightarrow> (Inl e, d1)
                | Inr pgid \<Rightarrow>
                    (case record_process now process_key session_id worker_attempt_id kind pid pgid birth d1 of
                       (Inl e, d2) \<Rightarrow> (Inl e, d2)
                     | (Inr _, d2) \<Rightarrow>
                         (case on_started d2 of
                            (Inl e, d3) \<Rightarrow> (Inl e, d3)
                          | (Inr _, d3) \<Rightarrow> (Inr birth, d3))))))"

text \<open>\<open>HostProviderLauncher._run\<close>\<close>

definition run_child ::
  "(string \<Rightarrow> string) \<Rightarrow> (string \<Rightarrow> exc option) \<Rightarrow> (string \<Rightarrow> string \<times> int option) \<Rightarrow> host_settings \<Rightarrow> (nat \<Rightarrow> instant)
     \<Rightarrow> unit op \<Rightarrow> unit op \<Rightarrow> string \<Rightarrow> string \<Rightarrow> string \<Rightarrow> string option \<Rightarrow> child \<Rightarrow> process_result op" where
  "run_child sha limits float_of cfg clk on_spawned on_started session_id process_key kind worker_attempt_id c d =
     (case agent_process_identity cfg of
        Inl e \<Rightarrow> (Inl e, d)
      | Inr _ \<Rightarrow>
      (case ch_pid c of
        None \<Rightarrow> (Inl (HostProcessError ''provider process failed before start''), d)
      | Some pid \<Rightarrow>
      (case start_child (clk 0) on_spawned on_started session_id process_key kind worker_attempt_id pid c d of
        (Inl e, d1) \<Rightarrow> (Inl e, snd (finish_process (clk 1) process_key ''terminated'' (Some (ch_killed c)) d1))
      | (Inr birth, d1) \<Rightarrow>
      (case ch_ending c of
        Overran g rc \<Rightarrow>
          (case terminate_group pid birth g of
             Inl e \<Rightarrow> (Inl e, d1)
           | Inr terminated \<Rightarrow>
               (case finish_process (clk 1) process_key (if terminated then ''terminated'' else ''uncertain'') (Some rc) d1 of
                  (Inl e, d2) \<Rightarrow> (Inl e, d2)
                | (Inr _, d2) \<Rightarrow> (Inl (TimeoutError ''provider process exceeded its commissioned timeout''), d2)))
      | Undecodable text \<Rightarrow> (Inl (ValueError text), d1)
      | Completed out err rc \<Rightarrow>
          (case finish_process (clk 1) process_key ''exited'' (Some rc) d1 of
             (Inl e, d2) \<Rightarrow> (Inl e, d2)
           | (Inr _, d2) \<Rightarrow>
               (case extract_usage limits float_of (hs_provider cfg) out of
                  Inl e \<Rightarrow> (Inl e, d2)
                | Inr tokens \<Rightarrow> (Inr \<lparr>ps_output = out, ps_error = err, ps_returncode = rc, ps_tokens = tokens,
                                    ps_output_sha256 = sha out\<rparr>, d2)))))))"

section \<open>Workers and their usage\<close>

record meter =
  mt_usage :: "(string \<times> int) list"
  mt_uncertain :: "string set"

definition usage_of :: "string \<Rightarrow> meter \<Rightarrow> int" where
  "usage_of session_id m = (case map_of (mt_usage m) session_id of None \<Rightarrow> 0 | Some n \<Rightarrow> n)"

definition doubt_usage :: "string \<Rightarrow> meter \<Rightarrow> meter" where
  "doubt_usage session_id m = m\<lparr>mt_uncertain := insert session_id (mt_uncertain m)\<rparr>"

definition add_usage :: "string \<Rightarrow> int \<Rightarrow> meter \<Rightarrow> meter" where
  "add_usage session_id n m =
     m\<lparr>mt_usage := (session_id, usage_of session_id m + n) # filter (\<lambda>u. fst u \<noteq> session_id) (mt_usage m)\<rparr>"

definition host_run_worker ::
  "(string \<Rightarrow> string) \<Rightarrow> (string \<Rightarrow> exc option) \<Rightarrow> (string \<Rightarrow> string \<times> int option) \<Rightarrow> host_settings \<Rightarrow> (string \<Rightarrow> unit result)
     \<Rightarrow> (nat \<Rightarrow> instant) \<Rightarrow> child \<Rightarrow> string \<Rightarrow> string \<Rightarrow> meter \<Rightarrow> db \<Rightarrow> string result \<times> meter \<times> db" where
  "host_run_worker sha limits float_of cfg prepare clk c worker_type attempt m d =
     (case find (\<lambda>r. wa_attempt_id r = attempt) (worker_attempts d) of
        None \<Rightarrow> (Inl (WorkerError ''worker attempt is absent from controller state''), m, d)
      | Some row \<Rightarrow>
      (let session_id = wa_session_id row in
       case bindE (prepare worker_type) (\<lambda>_.
              if worker_type \<notin> fst ` set (hs_worker_models cfg) then Inl (KeyError (repr_text worker_type)) else Inr ()) of
        Inl e \<Rightarrow> (Inl e, m, d)
      | Inr _ \<Rightarrow>
      (case run_child sha limits float_of cfg clk (\<lambda>d. (Inr (), d)) (\<lambda>d. (Inr (), d)) session_id (''worker:'' @ attempt) ''worker''
              (Some attempt) c d of
        (Inl (HostProcessError t), d1) \<Rightarrow> (Inl (WorkerError t), doubt_usage session_id m, d1)
      | (Inl (TimeoutError t), d1) \<Rightarrow> (Inl (WorkerError t), doubt_usage session_id m, d1)
      | (Inl e, d1) \<Rightarrow> (Inl e, m, d1)
      | (Inr result, d1) \<Rightarrow>
          (case ps_tokens result of
             None \<Rightarrow> (Inl (WorkerError ''worker provider failed or returned no trustworthy usage record''), doubt_usage session_id m, d1)
           | Some n \<Rightarrow>
               ((if ps_returncode result \<noteq> 0 then Inl (WorkerError ''worker provider returned failure'')
                 else Inr (ps_output result)), add_usage session_id n m, d1)))))"

definition take_worker_usage :: "string \<Rightarrow> meter \<Rightarrow> int option \<times> meter" where
  "take_worker_usage session_id m =
     (let popped = m\<lparr>mt_usage := filter (\<lambda>u. fst u \<noteq> session_id) (mt_usage m)\<rparr> in
      if session_id \<in> mt_uncertain m
      then (None, popped\<lparr>mt_uncertain := mt_uncertain m - {session_id}\<rparr>)
      else (Some (usage_of session_id m), popped))"

section \<open>Ending a session's processes\<close>

fun terminate_rows ::
  "(process_runtime \<Rightarrow> group_probe) \<Rightarrow> (nat \<Rightarrow> instant) \<Rightarrow> nat \<Rightarrow> process_runtime list \<Rightarrow> bool \<Rightarrow> bool op" where
  "terminate_rows probe clk n [] complete d = (Inr complete, d)"
| "terminate_rows probe clk n (row # rows) complete d =
     (case terminate_group (pr_pid row) (pr_birth_token row) (probe row) of
        Inl e \<Rightarrow> (Inl e, d)
      | Inr terminated \<Rightarrow>
          terminate_rows probe clk (Suc n) rows (complete \<and> terminated)
            (snd (finish_process (clk n) (pr_process_key row) (if terminated then ''terminated'' else ''uncertain'') None d)))"

definition terminate_session :: "(process_runtime \<Rightarrow> group_probe) \<Rightarrow> (nat \<Rightarrow> instant) \<Rightarrow> string \<Rightarrow> bool op" where
  "terminate_session probe clk session_id d =
     terminate_rows probe clk 0 (active_processes (Some session_id) d) True d"

end
