(* ===== verification/Broker.thy ===== *)
theory Broker
  imports Sessions Requests
begin

text \<open>
  \<^verbatim>\<open>control/sjg_control/broker.py\<close>: validation, idempotent dispatch and the handling of every
  exception class. The backend is a parameter: \<open>facts_of\<close> reads GitHub and \<open>execute\<close> performs the
  operation; both may raise, and \<open>execute\<close> may write the store. \<open>sha\<close> is SHA-256 and \<open>clk n\<close> the
  \<open>n\<close>-th clock reading of one call.
\<close>

type_synonym backend_facts = "string \<Rightarrow> json \<Rightarrow> facts result"
type_synonym backend_execute = "string \<Rightarrow> json \<Rightarrow> session \<Rightarrow> string \<Rightarrow> json op"

definition REQUEST_ID :: re where
  "REQUEST_ID = seqs [Cls is_alnum,
     rep 15 (Cls (\<lambda>c. is_alnum c \<or> c \<in> set ''._:-'')), rep_upto 112 (Cls (\<lambda>c. is_alnum c \<or> c \<in> set ''._:-''))]"

definition reply :: "string \<Rightarrow> (string \<times> json) list \<Rightarrow> json" where
  "reply status more_fields = JObj ([(''schema'', JStr ''sjg.response/v1''), (''status'', JStr status)] @ more_fields)"

definition error_reply :: "string \<Rightarrow> string \<Rightarrow> json" where
  "error_reply status m = reply status [(''error'', JStr m)]"

definition arguments_digest :: "(string \<Rightarrow> string) \<Rightarrow> json \<Rightarrow> string" where
  "arguments_digest sha arguments = sha (dumps arguments)"

definition local_operations :: "string set" where
  "local_operations = READ_OPERATIONS \<union> REPOSITORY_OPERATIONS \<union> WORKER_OPERATIONS"

text \<open>The body of the \<open>try\<close> statement: what it returns or raises, the session once it is bound,
  the flag \<open>applying\<close>, and the store.\<close>

record attempt =
  at_result :: "json result"
  at_session :: "session option"
  at_applying :: bool
  at_store :: db

definition stopped :: "json result \<Rightarrow> session option \<Rightarrow> bool \<Rightarrow> db \<Rightarrow> attempt" where
  "stopped r sn applying d = \<lparr>at_result = r, at_session = sn, at_applying = applying, at_store = d\<rparr>"

text \<open>From the call of the backend to the end of the body.\<close>

definition run_backend ::
  "(string \<Rightarrow> string) \<Rightarrow> backend_execute \<Rightarrow> (nat \<Rightarrow> instant) \<Rightarrow> session \<Rightarrow> string \<Rightarrow> string \<Rightarrow> json \<Rightarrow> db \<Rightarrow> attempt" where
  "run_backend sha execute clk sn key operation arguments d =
     (case execute operation arguments sn key d of
        (Inl e, d1) \<Rightarrow> stopped (Inl e) (Some sn) True d1
      | (Inr result, d1) \<Rightarrow>
          let response = reply ''ok'' [(''result'', result)];
              d2 = snd (finish_request (clk 3) key ''succeeded'' response d1) in
          stopped (Inr response) (Some sn) True
            (audit (clk 4) (Some sn) operation ''allowed'' (JObj [(''result'', result)])
              (Some (arguments_digest sha arguments)) d2))"

text \<open>Everything before the call of the backend: \<open>Inl\<close> when the body ends here.\<close>

definition admit ::
  "(string \<Rightarrow> string) \<Rightarrow> organization_policy \<Rightarrow> backend_facts \<Rightarrow> (nat \<Rightarrow> instant)
     \<Rightarrow> string \<Rightarrow> string \<Rightarrow> string \<Rightarrow> json \<Rightarrow> db \<Rightarrow> attempt + session \<times> db" where
  "admit sha policy facts_of clk session_id key operation arguments d =
     (let digest = arguments_digest sha arguments in
      case store_session (clk 0) session_id d of
        Inl e \<Rightarrow> Inl (stopped (Inl e) None False d)
      | Inr sn \<Rightarrow>
      (case validate_request policy sn operation arguments of
        Inl e \<Rightarrow> Inl (stopped (Inl e) (Some sn) False d)
      | Inr _ \<Rightarrow>
      (case prior_request session_id key operation digest d of
        Inl e \<Rightarrow> Inl (stopped (Inl e) (Some sn) False d)
      | Inr (Some prior) \<Rightarrow> Inl (stopped (Inr prior) (Some sn) False d)
      | Inr None \<Rightarrow>
      (case (if operation \<in> local_operations then Inr default_facts else facts_of operation arguments) of
        Inl e \<Rightarrow> Inl (stopped (Inl e) (Some sn) False d)
      | Inr facts \<Rightarrow>
      (case authorize sha policy sn operation arguments (Some facts) of
        Inl e \<Rightarrow> Inl (stopped (Inl e) (Some sn) False d)
      | Inr _ \<Rightarrow>
      (case reserve_request (clk 1) session_id key operation digest arguments d of
        (Inl e, d1) \<Rightarrow> Inl (stopped (Inl e) (Some sn) False d1)
      | (Inr (Some prior), d1) \<Rightarrow> Inl (stopped (Inr prior) (Some sn) False d1)
      | (Inr None, d1) \<Rightarrow>
      (case mark_request_applying (clk 2) key d1 of
        (Inl e, d2) \<Rightarrow> Inl (stopped (Inl e) (Some sn) False d2)
      | (Inr _, d2) \<Rightarrow> Inr (sn, d2))))))))"

definition dispatch ::
  "(string \<Rightarrow> string) \<Rightarrow> organization_policy \<Rightarrow> backend_facts \<Rightarrow> backend_execute \<Rightarrow> (nat \<Rightarrow> instant)
     \<Rightarrow> string \<Rightarrow> string \<Rightarrow> string \<Rightarrow> json \<Rightarrow> db \<Rightarrow> attempt" where
  "dispatch sha policy facts_of execute clk session_id key operation arguments d =
     (case admit sha policy facts_of clk session_id key operation arguments d of
        Inl a \<Rightarrow> a
      | Inr (sn, d2) \<Rightarrow> run_backend sha execute clk sn key operation arguments d2)"

text \<open>The \<open>except\<close> clauses.\<close>

definition recover ::
  "(string \<Rightarrow> string) \<Rightarrow> (nat \<Rightarrow> instant) \<Rightarrow> string \<Rightarrow> string \<Rightarrow> json \<Rightarrow> exc \<Rightarrow> session option \<Rightarrow> bool \<Rightarrow> db
     \<Rightarrow> json \<times> db" where
  "recover sha clk key operation arguments e sn applying d =
     (case e of
        AuthorizationError m \<Rightarrow>
          (let response = error_reply ''denied'' m;
               d1 = (if applying then snd (finish_request (clk 3) key ''failed'' response d) else d) in
           (response, audit (clk 4) sn operation ''denied'' (JObj [(''error'', JStr m)])
              (Some (arguments_digest sha arguments)) d1))
      | StateError m \<Rightarrow> (error_reply ''conflict'' m, d)
      | TimeoutError m \<Rightarrow>
          (if applying then
             (let response = error_reply ''indeterminate'' m in
              (response, snd (finish_request (clk 3) key ''verify_pending'' response d)))
           else (error_reply ''retryable'' m, d))
      | _ \<Rightarrow>
          (if \<not> applying \<or> operation \<in> READ_OPERATIONS \<or> operation = ''repo.status''
           then (error_reply ''retryable'' (exc_text e), snd (abandon_read_request key d))
           else (let response = error_reply ''indeterminate'' (''mutation outcome requires verification: '' @ exc_text e) in
                 (response, snd (finish_request (clk 3) key ''verify_pending'' response d)))))"

definition handle ::
  "(string \<Rightarrow> string) \<Rightarrow> organization_policy \<Rightarrow> backend_facts \<Rightarrow> backend_execute \<Rightarrow> (nat \<Rightarrow> instant)
     \<Rightarrow> string \<Rightarrow> (string \<times> json) list \<Rightarrow> db \<Rightarrow> json \<times> db" where
  "handle sha policy facts_of execute clk session_id request d =
     (let operation = str_or_empty (dget request ''operation'');
          key = str_or_empty (dget request ''idempotency_key'');
          arguments = dget request ''arguments'' in
      if dget request ''schema'' \<noteq> JStr ''sjg.request/v1'' \<or> \<not> fullmatch REQUEST_ID key
      then (error_reply ''denied'' ''invalid request schema or idempotency key'', d)
      else if (case arguments of JObj _ \<Rightarrow> False | _ \<Rightarrow> True)
      then (error_reply ''denied'' ''arguments must be an object'', d)
      else let a = dispatch sha policy facts_of execute clk session_id key operation arguments d in
        (case at_result a of
           Inr response \<Rightarrow> (response, at_store a)
         | Inl e \<Rightarrow> recover sha clk key operation arguments e (at_session a) (at_applying a) (at_store a)))"

section \<open>What the journal holds when the backend runs\<close>

lemma request_row_mem: "request_row k d = Some r \<Longrightarrow> r \<in> set (broker_requests d) \<and> br_idempotency_key r = k"
  by (auto simp: request_row_def dest!: find_SomeD)

lemma request_row_None: "request_row k d = None \<longleftrightarrow> k \<notin> br_idempotency_key ` set (broker_requests d)"
  by (auto simp: request_row_def find_None_iff)

text \<open>After a fresh reservation and its marking, the row of the key is the request in state
  \<^verbatim>\<open>applying\<close> and every other row is as before.\<close>

lemma reserve_then_apply:
  assumes "reserve_request now1 i k op h a d = (Inr None, d1)"
  shows "\<exists>d2. mark_request_applying now2 k d1 = (Inr (), d2)
    \<and> d2 = d\<lparr>broker_requests := broker_requests d @
        [(new_request (utcnow now1) i k op h (dumps a))\<lparr>br_state := R_applying, br_updated_at := utcnow now2\<rparr>]\<rparr>
    \<and> request_row k d = None"
proof -
  from assms have none: "request_row k d = None"
    and d1: "d1 = d\<lparr>broker_requests := broker_requests d @ [new_request (utcnow now1) i k op h (dumps a)]\<rparr>"
    by (auto simp: reserve_request_def immediate_Inr split: option.splits if_splits)
  from none have k: "\<And>r. r \<in> set (broker_requests d) \<Longrightarrow> br_idempotency_key r \<noteq> k" by (auto simp: request_row_None)
  then have "count_where (\<lambda>r. br_idempotency_key r = k \<and> br_state r = R_reserved) (broker_requests d) = 0"
    by (simp add: row_simps)
  moreover from this have "update_where (\<lambda>r. br_idempotency_key r = k \<and> br_state r = R_reserved) f (broker_requests d)
      = broker_requests d" for f by (rule update_where_none)
  ultimately show ?thesis using none
    by (simp add: d1 mark_request_applying_def Let_def new_request_def update_where_def)
qed

definition written_ahead :: "(string \<Rightarrow> string) \<Rightarrow> organization_policy \<Rightarrow> string \<Rightarrow> json \<Rightarrow> session \<Rightarrow> string \<Rightarrow> db \<Rightarrow> bool" where
  "written_ahead sha policy operation arguments sn key d \<longleftrightarrow>
     (\<exists>row. request_row key d = Some row \<and> br_state row = R_applying \<and> br_response_json row = None
        \<and> br_operation row = operation \<and> br_arguments_json row = dumps arguments
        \<and> br_arguments_hash row = arguments_digest sha arguments)
     \<and> (\<exists>facts. authorize sha policy sn operation arguments (Some facts) = Inr ())
     \<and> (\<exists>ws\<in>set (wake_sessions d). active_session ws \<and> ws_role ws = sn_role sn \<and> ws_session_id ws = sn_session_id sn)"

lemma store_session_Inr:
  assumes "store_session now i d = Inr sn"
  obtains ws where "ws \<in> set (wake_sessions d)" "active_session ws" "utcnow now < ws_expires_at ws" "ws_session_id ws = i"
    "sn = \<lparr>sn_session_id = ws_session_id ws, sn_wake_id = ws_wake_id ws, sn_org_id = ws_org_id ws, sn_role = ws_role ws,
      sn_policy_digest = ws_policy_digest ws, sn_workspace_aliases = ws_workspace_aliases ws, sn_expires_at = ws_expires_at ws\<rparr>"
  using assms by (auto simp: store_session_def not_le split: option.splits if_splits dest!: find_SomeD)

lemma applying_row:
  assumes "reserve_request now1 i k op (arguments_digest sha a) a d = (Inr None, d1)"
    and "mark_request_applying now2 k d1 = (Inr (), d2)" and "store_session now0 i d = Inr sn"
    and "authorize sha policy sn op a (Some f) = Inr ()"
  shows "written_ahead sha policy op a sn k d2"
proof -
  from reserve_then_apply [OF assms(1), of now2] assms(2)
  have d2: "d2 = d\<lparr>broker_requests := broker_requests d @ [(new_request (utcnow now1) i k op (arguments_digest sha a) (dumps a))
      \<lparr>br_state := R_applying, br_updated_at := utcnow now2\<rparr>]\<rparr>" and "request_row k d = None" by auto
  then have "request_row k d2 = Some ((new_request (utcnow now1) i k op (arguments_digest sha a) (dumps a))
      \<lparr>br_state := R_applying, br_updated_at := utcnow now2\<rparr>)"
    by (simp add: request_row_def find_append_key new_request_def)
  moreover obtain ws where "ws \<in> set (wake_sessions d)" "active_session ws" "ws_role ws = sn_role sn" "ws_session_id ws = sn_session_id sn"
    using assms(3) by (rule store_session_Inr) auto
  ultimately show ?thesis using assms(4) d2 by (auto simp: written_ahead_def new_request_def)
qed

definition applying_request :: "(string \<Rightarrow> string) \<Rightarrow> (nat \<Rightarrow> instant) \<Rightarrow> string \<Rightarrow> string \<Rightarrow> string \<Rightarrow> json \<Rightarrow> broker_request" where
  "applying_request sha clk i k op a = (new_request (utcnow (clk 1)) i k op (arguments_digest sha a) (dumps a))
     \<lparr>br_state := R_applying, br_updated_at := utcnow (clk 2)\<rparr>"

definition journalled :: "(string \<Rightarrow> string) \<Rightarrow> (nat \<Rightarrow> instant) \<Rightarrow> string \<Rightarrow> string \<Rightarrow> string \<Rightarrow> json \<Rightarrow> db \<Rightarrow> db" where
  "journalled sha clk i k op a d = d\<lparr>broker_requests := broker_requests d @ [applying_request sha clk i k op a]\<rparr>"

text \<open>A request whose key is free either stops before the journal is written, or is admitted to
  the backend on the database in which it is journalled; a bound key is never admitted.\<close>

lemma admit_fresh:
  assumes "request_row k d = None"
  shows "(\<exists>e sn. admit sha policy facts_of clk i k op a d = Inl (stopped (Inl e) sn False d))
    \<or> (\<exists>sn. store_session (clk 0) i d = Inr sn \<and> validate_request policy sn op a = Inr ()
        \<and> written_ahead sha policy op a sn k (journalled sha clk i k op a d)
        \<and> admit sha policy facts_of clk i k op a d = Inr (sn, journalled sha clk i k op a d))"
proof -
  let ?D = "admit sha policy facts_of clk i k op a d"
  have prior: "prior_request i k op (arguments_digest sha a) d = Inr None" using assms by (simp add: prior_request_def)
  have one: "(\<exists>e. reserve_request (clk 1) i k op (arguments_digest sha a) a d = (Inl e, d))
      \<or> (\<exists>d1. reserve_request (clk 1) i k op (arguments_digest sha a) a d = (Inr None, d1))"
    using assms by (auto simp: reserve_request_def immediate_def)
  show ?thesis
  proof (cases "\<exists>sn f. store_session (clk 0) i d = Inr sn \<and> validate_request policy sn op a = Inr ()
      \<and> (if op \<in> local_operations then Inr default_facts else facts_of op a) = Inr f
      \<and> authorize sha policy sn op a (Some f) = Inr ()")
    case True
    then obtain sn f where sn: "store_session (clk 0) i d = Inr sn" "validate_request policy sn op a = Inr ()"
      "(if op \<in> local_operations then Inr default_facts else facts_of op a) = Inr f"
      "authorize sha policy sn op a (Some f) = Inr ()" by blast
    from one show ?thesis
    proof (elim disjE exE)
      fix e assume "reserve_request (clk 1) i k op (arguments_digest sha a) a d = (Inl e, d)"
      then have "?D = Inl (stopped (Inl e) (Some sn) False d)" using sn prior by (simp add: admit_def Let_def)
      then show ?thesis by blast
    next
      fix d1 assume r: "reserve_request (clk 1) i k op (arguments_digest sha a) a d = (Inr None, d1)"
      from reserve_then_apply [OF r, of "clk 2"]
      have m: "mark_request_applying (clk 2) k d1 = (Inr (), journalled sha clk i k op a d)"
        by (auto simp: journalled_def applying_request_def)
      have "written_ahead sha policy op a sn k (journalled sha clk i k op a d)"
        using applying_row [OF r m sn(1) sn(4)] .
      moreover have "?D = Inr (sn, journalled sha clk i k op a d)"
        using sn prior r m by (simp add: admit_def Let_def)
      ultimately show ?thesis using sn by blast
    qed
  next
    case False
    define F where "F = (if op \<in> local_operations then Inr default_facts else facts_of op a)"
    have "\<exists>e sn. ?D = Inl (stopped (Inl e) sn False d)"
    proof (cases "store_session (clk 0) i d")
      case (Inr sn)
      then show ?thesis
        using False prior unfolding F_def [symmetric]
        by (cases "validate_request policy sn op a"; cases F) (auto simp: admit_def Let_def F_def [symmetric] split: sum.split)
    qed (auto simp: admit_def Let_def)
    then show ?thesis by blast
  qed
qed

lemma admit_bound:
  assumes "request_row k d = Some row"
  shows "\<exists>r sn. admit sha policy facts_of clk i k op a d = Inl (stopped r sn False d)"
  using assms by (simp add: admit_def Let_def prior_request_def split: sum.split) blast

lemma admit_written_ahead:
  assumes "admit sha policy facts_of clk i k op a d = Inr (sn, d2)"
  shows "written_ahead sha policy op a sn k d2"
proof (cases "request_row k d")
  case None
  from admit_fresh [OF None, of sha policy facts_of clk i op a] assms show ?thesis by auto
next
  case (Some row)
  from admit_bound [OF Some, of sha policy facts_of clk i op a] assms show ?thesis by auto
qed

section \<open>Replay\<close>

text \<open>A request whose key is bound to a recorded response is answered from the journal.\<close>

lemma dispatch_replay:
  assumes "request_row k d = Some row" and "br_session_id row = i" "br_operation row = op"
    "br_arguments_hash row = arguments_digest sha a"
    and "store_session (clk 0) i d = Inr sn" and "validate_request policy sn op a = Inr ()"
  shows "dispatch sha policy facts_of execute clk i k op a d =
    stopped (Inr (case br_response_json row of Some r \<Rightarrow> r | None \<Rightarrow> outcome_unknown)) (Some sn) False d"
  using assms by (simp add: dispatch_def admit_def Let_def prior_request_def)

text \<open>The parts of a request that \<open>handle\<close> reads, when the request is well formed.\<close>

definition well_formed :: "(string \<times> json) list \<Rightarrow> string \<Rightarrow> string \<Rightarrow> (string \<times> json) list \<Rightarrow> bool" where
  "well_formed request op k a \<longleftrightarrow> dget request ''schema'' = JStr ''sjg.request/v1'' \<and> fullmatch REQUEST_ID k
     \<and> str_or_empty (dget request ''operation'') = op \<and> str_or_empty (dget request ''idempotency_key'') = k
     \<and> dget request ''arguments'' = JObj a"

lemma handle_well_formed:
  assumes "well_formed request op k a"
  shows "handle sha policy facts_of execute clk i request d =
    (let x = dispatch sha policy facts_of execute clk i k op (JObj a) d in
     case at_result x of Inr response \<Rightarrow> (response, at_store x)
     | Inl e \<Rightarrow> recover sha clk k op (JObj a) e (at_session x) (at_applying x) (at_store x))"
  using assms by (simp add: handle_def well_formed_def Let_def)

lemma finish_request_row:
  assumes "terminal_request_state st = Some s"
  shows "request_row k (snd (finish_request now k st response d))
    = map_option (\<lambda>r. r\<lparr>br_state := s, br_response_json := Some response, br_updated_at := utcnow now\<rparr>) (request_row k d)"
proof -
  have "find (\<lambda>r. br_idempotency_key r = k) (update_where (\<lambda>r. br_idempotency_key r = k)
      (\<lambda>r. r\<lparr>br_state := s, br_response_json := Some response, br_updated_at := utcnow now\<rparr>) xs)
     = map_option (\<lambda>r. r\<lparr>br_state := s, br_response_json := Some response, br_updated_at := utcnow now\<rparr>)
        (find (\<lambda>r. br_idempotency_key r = k) xs)" for xs by (induction xs) auto
  then show ?thesis using assms by (simp add: finish_request_def request_row_def)
qed

lemma finish_request_tables [simp]:
  "wake_sessions (snd (finish_request now k st response d)) = wake_sessions d"
  "worker_attempts (snd (finish_request now k st response d)) = worker_attempts d"
  by (simp_all add: finish_request_def split: option.split)

lemma audit_tables [simp]:
  "wake_sessions (audit now sn op dec det h d) = wake_sessions d"
  "broker_requests (audit now sn op dec det h d) = broker_requests d"
  "request_row k (audit now sn op dec det h d) = request_row k d"
  by (simp_all add: audit_def request_row_def)

lemma abandon_store:
  "snd (abandon_read_request k d) = d\<lparr>broker_requests :=
     filter (\<lambda>r. \<not> (br_idempotency_key r = k \<and> br_operation r \<in> set abandoned_operations)) (broker_requests d)\<rparr>"
  by (simp add: abandon_read_request_def Let_def)

lemma abandon_tables [simp]: "wake_sessions (snd (abandon_read_request k d)) = wake_sessions d"
  by (simp add: abandon_store)

lemma terminal_request_states [simp]:
  "terminal_request_state ''succeeded'' = Some R_succeeded" "terminal_request_state ''failed'' = Some R_failed"
  "terminal_request_state ''verify_pending'' = Some R_verify_pending"
  by (simp_all add: terminal_request_state_def)

lemma journalled_row:
  "request_row k d = None \<Longrightarrow> request_row k (journalled sha clk i k op a d) = Some (applying_request sha clk i k op a)"
  by (simp add: journalled_def request_row_def find_append_key applying_request_def new_request_def)

lemma journalled_tables [simp]: "wake_sessions (journalled sha clk i k op a d) = wake_sessions d"
  by (simp add: journalled_def)

text \<open>The journal row after a reply was recorded.\<close>

definition recorded :: "broker_request \<Rightarrow> json \<Rightarrow> broker_request \<Rightarrow> bool" where
  "recorded row resp row' \<longleftrightarrow> (\<exists>s u. row' = row\<lparr>br_state := s, br_response_json := Some resp, br_updated_at := u\<rparr>
     \<and> s \<in> {R_succeeded, R_failed, R_verify_pending})"

lemma recordedI [simp]:
  "s \<in> {R_succeeded, R_failed, R_verify_pending} \<Longrightarrow>
     recorded row resp (row\<lparr>br_state := s, br_response_json := Some resp, br_updated_at := u\<rparr>)"
  by (auto simp: recorded_def)

text \<open>What the broker relies on in its backend: running an operation leaves the journal and the
  sessions to the broker.\<close>

lemma stopped_simps [simp]:
  "at_result (stopped r sn ap d) = r" "at_session (stopped r sn ap d) = sn" "at_applying (stopped r sn ap d) = ap"
  "at_store (stopped r sn ap d) = d"
  by (simp_all add: stopped_def)

lemma READ_OPERATIONS_abandoned: "READ_OPERATIONS = set abandoned_operations"
  by (auto simp: READ_OPERATIONS_def abandoned_operations_def)

lemma abandoned_row_gone:
  assumes "distinct (map br_idempotency_key (broker_requests d))" and "request_row k d = Some row"
    and "br_operation row \<in> READ_OPERATIONS"
  shows "request_row k (snd (abandon_read_request k d)) = None"
proof -
  have "r = row" if "r \<in> set (broker_requests d)" "br_idempotency_key r = k" for r
    using that assms(1) request_row_mem [OF assms(2)] by (metis distinct_map inj_onD)
  then show ?thesis using assms(3)
    by (auto simp: request_row_None abandon_store READ_OPERATIONS_abandoned)
qed

text \<open>A request that stops before the journal is written leaves its key free.\<close>

lemma early_unrecorded:
  assumes "request_row k d = None"
  shows "request_row k (snd (recover sha clk k op a e sn False d)) = None"
  using assms by (auto simp: recover_def Let_def request_row_None abandon_store split: exc.split)

locale broker_backend =
  fixes execute :: backend_execute
  assumes keeps_journal: "broker_requests (snd (execute op a sn k d)) = broker_requests d"
    and keeps_sessions: "wake_sessions (snd (execute op a sn k d)) = wake_sessions d"
begin

lemma keeps_row: "request_row k' (snd (execute op a sn k d)) = request_row k' d"
  by (simp add: request_row_def keeps_journal)

lemma recover_sessions:
  "wake_sessions (snd (recover sha clk k op a e sn applying d)) = wake_sessions d"
  by (simp add: recover_def Let_def split: exc.split)

lemma handle_run_sessions:
  assumes "x = run_backend sha execute clk sn k op a d"
    and "(case at_result x of Inr response \<Rightarrow> (response, at_store x)
       | Inl e \<Rightarrow> recover sha clk k op a e (at_session x) (at_applying x) (at_store x)) = (resp, d')"
  shows "wake_sessions d' = wake_sessions d"
proof (cases "execute op a sn k d")
  case (Pair res d1)
  then have d1: "wake_sessions d1 = wake_sessions d" using keeps_sessions [of op a sn k d] by simp
  show ?thesis
  proof (cases res)
    case (Inl e)
    with Pair assms have "d' = snd (recover sha clk k op a e (Some sn) True d1)" by (simp add: run_backend_def)
    with d1 recover_sessions show ?thesis by simp
  next
    case (Inr result)
    with Pair assms d1 show ?thesis by (auto simp: run_backend_def Let_def)
  qed
qed

text \<open>After the backend ran, the journal row of the request is the applying row with the reply
  that the broker gives, whenever a reply was recorded at all.\<close>

lemma run_backend_row:
  assumes keys: "distinct (map br_idempotency_key (broker_requests d))"
    and row: "request_row k d = Some row" "br_operation row = op"
    and x: "x = run_backend sha execute clk sn k op a d"
    and h: "(case at_result x of Inr response \<Rightarrow> (response, at_store x)
       | Inl e \<Rightarrow> recover sha clk k op a e (at_session x) (at_applying x) (at_store x)) = (resp, d')"
    and after: "request_row k d' = Some row'"
  shows "(\<exists>m. fst (execute op a sn k d) = Inl (StateError m) \<and> row' = row \<and> resp = error_reply ''conflict'' m)
    \<or> recorded row resp row'"
proof -
  obtain res d1 where ex: "execute op a sn k d = (res, d1)" by (metis prod.exhaust)
  with keeps_row [of k op a sn k d] row have r1: "request_row k d1 = Some row" by simp
  have gone: "request_row k (snd (abandon_read_request k d1)) = None" if "op \<in> READ_OPERATIONS"
  proof -
    have "broker_requests d1 = broker_requests d" using ex keeps_journal [of op a sn k d] by simp
    then show ?thesis using abandoned_row_gone [of d1 k row] keys r1 row(2) that by simp
  qed
  show ?thesis
  proof (cases res)
    case (Inr result)
    with ex x h r1 after show ?thesis
      by (auto simp: run_backend_def stopped_def Let_def finish_request_row)
  next
    case (Inl e)
    with ex x have xx: "at_result x = Inl e" "at_applying x" "at_store x = d1" "at_session x = Some sn"
      by (simp_all add: run_backend_def stopped_def)
    from h have h: "recover sha clk k op a e (Some sn) True d1 = (resp, d')" by (simp add: xx)
    show ?thesis
    proof (cases "\<exists>m. e = StateError m")
      case True
      with h after r1 ex Inl show ?thesis by (auto simp: recover_def)
    next
      case False
      show ?thesis
      proof (cases "op \<in> READ_OPERATIONS \<or> op = ''repo.status''")
        case True
        then have "op \<in> READ_OPERATIONS" by (auto simp: READ_OPERATIONS_def)
        with False h after r1 gone show ?thesis
          by (cases e) (auto simp: recover_def Let_def finish_request_row)
      next
        case no: False
        with False h after r1 show ?thesis
          by (cases e) (auto simp: recover_def Let_def finish_request_row)
      qed
    qed
  qed
qed

text \<open>Once a request has run and its reply is recorded, the same request is answered with that
  reply from the journal, whatever the backend would do now, while the session is live.\<close>

lemma replay_recorded:
  assumes keys: "distinct (map br_idempotency_key (broker_requests d))"
    and wf: "well_formed request op k a" and free: "request_row k d = None"
    and first: "handle sha policy facts_of execute clk i request d = (resp, d')"
    and after: "request_row k d' = Some row'" "br_response_json row' \<noteq> None"
    and live: "store_session (clk' 0) i d' = Inr sn'"
  shows "handle sha policy facts_of' execute' clk' i request d' = (resp, d')"
proof -
  let ?j = "journalled sha clk i k op (JObj a) d"
  let ?x = "dispatch sha policy facts_of execute clk i k op (JObj a) d"
  from first have h: "(case at_result ?x of Inr response \<Rightarrow> (response, at_store ?x)
     | Inl e \<Rightarrow> recover sha clk k op (JObj a) e (at_session ?x) (at_applying ?x) (at_store ?x)) = (resp, d')"
    by (simp add: handle_well_formed [OF wf] Let_def)
  consider (early) e sn where "?x = stopped (Inl e) sn False d"
    | (run) sn where "store_session (clk 0) i d = Inr sn" "validate_request policy sn op (JObj a) = Inr ()"
        "?x = run_backend sha execute clk sn k op (JObj a) ?j"
    using admit_fresh [OF free, of sha policy facts_of clk i op "JObj a"] by (fastforce simp: dispatch_def)
  then show ?thesis
  proof cases
    case early
    with h have "recover sha clk k op (JObj a) e sn False d = (resp, d')" by simp
    then have "request_row k d' = None" using early_unrecorded [OF free] by (metis snd_conv)
    with after show ?thesis by simp
  next
    case run
    have keys': "distinct (map br_idempotency_key (broker_requests ?j))"
      using keys free by (auto simp: journalled_def applying_request_def new_request_def request_row_None)
    have rj: "request_row k ?j = Some (applying_request sha clk i k op (JObj a))" using journalled_row [OF free] .
    have op: "br_operation (applying_request sha clk i k op (JObj a)) = op" by (simp add: applying_request_def new_request_def)
    have row': "recorded (applying_request sha clk i k op (JObj a)) resp row'"
      using run_backend_row [OF keys' rj op run(3) h after(1)] after(2)
      by (auto simp: applying_request_def new_request_def)
    have "wake_sessions d' = wake_sessions d" using handle_run_sessions [OF run(3) h] by simp
    with run(1) live have "sn' = sn" by (auto simp: store_session_def split: option.splits if_splits)
    with run(2) row' live have "dispatch sha policy facts_of' execute' clk' i k op (JObj a) d' = stopped (Inr resp) (Some sn) False d'"
      using dispatch_replay [OF after(1), of i op sha "JObj a" clk' sn' policy facts_of' execute']
      by (auto simp: applying_request_def new_request_def recorded_def)
    then show ?thesis by (simp add: handle_well_formed [OF wf] stopped_def)
  qed
qed

text \<open>A \<open>StateError\<close> of the backend is answered as a conflict but leaves the request applying
  without a recorded reply, so every later attempt is answered as indeterminate.\<close>

lemma state_error_strands:
  assumes wf: "well_formed request op k a" and free: "request_row k d = None"
    and ran: "dispatch sha policy facts_of execute clk i k op (JObj a) d
       = run_backend sha execute clk sn k op (JObj a) (journalled sha clk i k op (JObj a) d)"
    and sn: "store_session (clk 0) i d = Inr sn" "validate_request policy sn op (JObj a) = Inr ()"
    and err: "fst (execute op (JObj a) sn k (journalled sha clk i k op (JObj a) d)) = Inl (StateError m)"
    and h: "handle sha policy facts_of execute clk i request d = (resp, d')"
    and live: "store_session (clk' 0) i d' = Inr sn'"
  shows "resp = error_reply ''conflict'' m" "request_row k d' = Some (applying_request sha clk i k op (JObj a))"
    "handle sha policy facts_of' execute' clk' i request d' = (outcome_unknown, d')"
proof -
  let ?j = "journalled sha clk i k op (JObj a) d"
  obtain d1 where ex: "execute op (JObj a) sn k ?j = (Inl (StateError m), d1)"
    using err by (metis fst_conv prod.exhaust)
  with h ran show resp: "resp = error_reply ''conflict'' m"
    by (simp add: handle_well_formed [OF wf] Let_def run_backend_def stopped_def recover_def)
  have d': "d' = d1" using h ran ex
    by (simp add: handle_well_formed [OF wf] Let_def run_backend_def stopped_def recover_def)
  with ex keeps_row [of k op "JObj a" sn k ?j] journalled_row [OF free]
  show row: "request_row k d' = Some (applying_request sha clk i k op (JObj a))" by simp
  have "wake_sessions d' = wake_sessions d" using ex d' keeps_sessions [of op "JObj a" sn k ?j] by simp
  with sn(1) live have "sn' = sn" by (auto simp: store_session_def split: option.splits if_splits)
  then have "dispatch sha policy facts_of' execute' clk' i k op (JObj a) d' = stopped (Inr outcome_unknown) (Some sn) False d'"
    using dispatch_replay [OF row, of i op sha "JObj a" clk' sn' policy facts_of' execute'] sn(2) live
    by (simp add: applying_request_def new_request_def)
  then show "handle sha policy facts_of' execute' clk' i request d' = (outcome_unknown, d')"
    by (simp add: handle_well_formed [OF wf] stopped_def)
qed

end

section \<open>The backend runs only authorized and journalled requests\<close>

lemma handle_cong:
  assumes "\<And>op a sn k d. written_ahead sha policy op a sn k d \<Longrightarrow> execute op a sn k d = execute' op a sn k d"
  shows "handle sha policy facts_of execute clk i request d = handle sha policy facts_of execute' clk i request d"
proof -
  have "dispatch sha policy facts_of execute clk i k op a d = dispatch sha policy facts_of execute' clk i k op a d" for k op a
  proof (cases "admit sha policy facts_of clk i k op a d")
    case (Inr p)
    then obtain sn d2 where p: "admit sha policy facts_of clk i k op a d = Inr (sn, d2)" by (cases p) auto
    from assms [OF admit_written_ahead [OF p]] show ?thesis by (simp add: dispatch_def p run_backend_def)
  qed (simp add: dispatch_def)
  then show ?thesis by (simp add: handle_def Let_def)
qed

end
