(* ===== verification/Control.thy ===== *)
theory Control
  imports Worker_Rules Host Broker
begin

text \<open>
  \<^verbatim>\<open>control/sjg_control/control_backend.py\<close>: the backend of the broker, composed of the worker
  supervisor and the GitHub backend, with the provider launcher of \<^verbatim>\<open>host_process.py\<close> as the launcher of
  workers.

  The two methods of the GitHub backend are parameters here: \<open>gh_facts\<close> and \<open>gh_execute\<close>. Neither touches the
  store. \<open>workspace_for\<close> names the workspace of a role and an alias, and \<open>workspaces\<close> holds the directories.
\<close>

type_synonym gh_execute = "string \<Rightarrow> json \<Rightarrow> session \<Rightarrow> string \<Rightarrow> json result"

record worker_site =
  st_settings :: worker_settings
  st_launch :: launcher
  st_uuid :: string
  st_stamp :: string
  st_workspace_for :: "session \<Rightarrow> string \<Rightarrow> string result"

definition control_facts :: "backend_facts \<Rightarrow> backend_facts" where
  "control_facts gh_facts operation arguments =
     (if operation = ''worker.run'' then Inr default_facts else gh_facts operation arguments)"

definition worker_reply :: "worker_result \<Rightarrow> json" where
  "worker_reply r = JObj [(''attempt_id'', JStr (wk_attempt_id r)), (''worker_type'', JStr (wk_worker_type r)),
     (''output'', JStr (wk_output r)), (''changed_paths'', JList (map JStr (wk_changed_paths r)))]"

fun object_members :: "json \<Rightarrow> (string \<times> json) list" where
  "object_members (JObj kvs) = kvs"
| "object_members _ = []"

definition alias_of :: "json \<Rightarrow> string" where
  "alias_of arguments = py_str (py_or (dget (object_members arguments) ''repository'') (JStr ''org''))"

text \<open>\<open>ControlBackend.execute\<close>, with the workspaces that it leaves.\<close>

definition control_run ::
  "(string \<Rightarrow> string) \<Rightarrow> organization_policy \<Rightarrow> backend_facts \<Rightarrow> gh_execute \<Rightarrow> worker_site \<Rightarrow> (nat \<Rightarrow> instant) \<Rightarrow> string \<Rightarrow> json
     \<Rightarrow> session \<Rightarrow> string \<Rightarrow> (string \<Rightarrow> entries option) \<Rightarrow> db \<Rightarrow> json result \<times> (string \<Rightarrow> entries option) \<times> db" where
  "control_run sha policy gh_facts gh_execute site clk operation arguments sn key workspaces d =
     (if operation = ''worker.run'' then
        (case st_workspace_for site sn (alias_of arguments) of
           Inl e \<Rightarrow> (Inl e, workspaces, d)
         | Inr path \<Rightarrow>
             (case run_worker sha policy (st_settings site) (st_launch site) clk (st_uuid site) (st_stamp site) sn
                     (object_members arguments) (workspaces path) d of
                (Inl e, parent, d') \<Rightarrow> (Inl e, workspaces(path := parent), d')
              | (Inr r, parent, d') \<Rightarrow> (Inr (worker_reply r), workspaces(path := parent), d')))
      else
        (case (if operation \<in> PM_OPERATIONS \<union> PR_OPERATIONS
               then bindE (gh_facts operation arguments) (\<lambda>facts. authorize sha policy sn operation arguments (Some facts))
               else Inr ()) of
           Inl e \<Rightarrow> (Inl e, workspaces, d)
         | Inr _ \<Rightarrow> (gh_execute operation arguments sn key, workspaces, d)))"

definition control_execute ::
  "(string \<Rightarrow> string) \<Rightarrow> organization_policy \<Rightarrow> backend_facts \<Rightarrow> gh_execute \<Rightarrow> worker_site \<Rightarrow> (nat \<Rightarrow> instant)
     \<Rightarrow> (string \<Rightarrow> entries option) \<Rightarrow> backend_execute" where
  "control_execute sha policy gh_facts gh_execute site clk workspaces operation arguments sn key d =
     (case control_run sha policy gh_facts gh_execute site clk operation arguments sn key workspaces d of
        (r, _, d') \<Rightarrow> (r, d'))"

section \<open>Launchers\<close>

text \<open>What the supervisor of workers relies on in a launcher: it leaves the attempts, the journal and
  the sessions of the store alone.\<close>

locale worker_launcher =
  fixes launch :: launcher
  assumes keeps_attempts: "worker_attempts (snd (snd (snd (launch wt model task scratch a timeout root d)))) = worker_attempts d"
    and keeps_requests: "broker_requests (snd (snd (snd (launch wt model task scratch a timeout root d)))) = broker_requests d"
    and keeps_wakes: "wake_sessions (snd (snd (snd (launch wt model task scratch a timeout root d)))) = wake_sessions d"
begin

lemma work_keeps:
  assumes "work sha cfg launch stamp a wt model task rs ws root d = (r, root', d')"
  shows "broker_requests d' = broker_requests d \<and> wake_sessions d' = wake_sessions d"
  using assms
proof (cases rule: work_cases)
  case (launched scratch before out scratch1 root1 d1)
  from launched(3) have "broker_requests d1 = broker_requests d" "wake_sessions d1 = wake_sessions d"
    using keeps_requests [of wt model task scratch a "timeout_seconds cfg" root "start_attempt a d"]
      keeps_wakes [of wt model task scratch a "timeout_seconds cfg" root "start_attempt a d"]
    by (simp_all add: start_attempt_def)
  with launched(4) show ?thesis by (auto simp: succeed_attempt_def)
qed simp

lemma run_worker_keeps:
  assumes "run_worker sha policy cfg launch clk u stamp sn arguments parent d = (r, parent', d')"
  shows "broker_requests d' = broker_requests d \<and> wake_sessions d' = wake_sessions d"
  using assms
proof (cases rule: run_worker_cases)
  case (reserved role wt model task rs ws d1)
  from reserved(1) have d1: "broker_requests d1 = broker_requests d \<and> wake_sessions d1 = wake_sessions d"
    by (rule reserve_worker_Inr) (auto simp: insert_attempt_Inr)
  show ?thesis
  proof (cases "\<exists>root. parent = Some root \<and> scratch_failure cfg = None")
    case True
    with reserved(5) obtain root q root' d2 where w: "work sha cfg launch stamp u wt model task rs ws root d1 = (q, root', d2)"
      and d': "d' = (if isl q then fail_attempt stamp u d2 else d2)" by auto
    from work_keeps [OF w] d1 show ?thesis unfolding d' by (simp add: fail_attempt_def)
  qed (use reserved(5) d1 in \<open>auto split: option.split_asm\<close>)
qed simp

lemma execute_keeps:
  "broker_requests (snd (control_execute sha policy ghf ghe (site\<lparr>st_launch := launch\<rparr>) clk ws op a sn k d)) = broker_requests d
   \<and> wake_sessions (snd (control_execute sha policy ghf ghe (site\<lparr>st_launch := launch\<rparr>) clk ws op a sn k d)) = wake_sessions d"
proof (cases "op = ''worker.run''")
  case True
  then show ?thesis
    using run_worker_keeps
    by (auto simp: control_execute_def control_run_def split: sum.split prod.split)
qed (auto simp: control_execute_def control_run_def split: sum.split)

end

text \<open>\<open>HostProviderLauncher.run_worker\<close> as a launcher; \<open>leaves\<close> is what the worker leaves in its scratch
  directory and what others leave in the workspace meanwhile.\<close>

definition host_launch ::
  "(string \<Rightarrow> string) \<Rightarrow> (string \<Rightarrow> exc option) \<Rightarrow> (string \<Rightarrow> string \<times> int option) \<Rightarrow> host_settings \<Rightarrow> (string \<Rightarrow> unit result)
     \<Rightarrow> (nat \<Rightarrow> instant) \<Rightarrow> child \<Rightarrow> meter \<Rightarrow> (entries \<Rightarrow> entries \<Rightarrow> entries \<times> entries) \<Rightarrow> launcher" where
  "host_launch sha limits float_of cfg prepare clk c m leaves worker_type model task scratch attempt timeout root d =
     (case host_run_worker sha limits float_of cfg prepare clk c worker_type attempt m d of
        (r, _, d') \<Rightarrow> (map_sum id JStr r, fst (leaves scratch root), snd (leaves scratch root), d'))"

lemma finish_process_keeps:
  "worker_attempts (snd (finish_process now k st x d)) = worker_attempts d"
  "broker_requests (snd (finish_process now k st x d)) = broker_requests d"
  "wake_sessions (snd (finish_process now k st x d)) = wake_sessions d"
  by (simp_all add: finish_process_def Let_def split: option.split)

lemma record_process_keeps:
  "worker_attempts (snd (record_process now k i a kd p g b d)) = worker_attempts d"
  "broker_requests (snd (record_process now k i a kd p g b d)) = broker_requests d"
  "wake_sessions (snd (record_process now k i a kd p g b d)) = wake_sessions d"
  by (simp_all add: record_process_def split: option.split)

definition same_control :: "db \<Rightarrow> db \<Rightarrow> bool" where
  "same_control d d' \<longleftrightarrow> worker_attempts d' = worker_attempts d \<and> broker_requests d' = broker_requests d
     \<and> wake_sessions d' = wake_sessions d"

lemma same_control_finish: "same_control d x \<Longrightarrow> same_control d (snd (finish_process now k st y x))"
  by (simp add: same_control_def finish_process_keeps)

lemma start_child_same:
  assumes "start_child now (\<lambda>d. (Inr (), d)) (\<lambda>d. (Inr (), d)) i k kd a pid c d = (r, d')"
  shows "same_control d d'"
proof (cases "process_birth_token pid (ch_birth c)"; cases "ch_pgid c")
  fix birth pgid assume *: "process_birth_token pid (ch_birth c) = Inr birth" "ch_pgid c = Inr pgid"
  then have "d' = snd (record_process now k i a kd pid pgid birth d)"
    using assms by (cases "record_process now k i a kd pid pgid birth d") (simp add: start_child_def split: sum.split_asm)
  then show ?thesis by (simp add: same_control_def record_process_keeps)
qed (use assms in \<open>auto simp: start_child_def same_control_def\<close>)

lemma run_child_same:
  assumes "run_child sha limits f cfg clk (\<lambda>d. (Inr (), d)) (\<lambda>d. (Inr (), d)) i k kd a c d = (r, d')"
  shows "same_control d d'"
proof (cases "agent_process_identity cfg"; cases "ch_pid c")
  fix x pid assume *: "agent_process_identity cfg = Inr x" "ch_pid c = Some pid"
  obtain q d1 where s: "start_child (clk 0) (\<lambda>d. (Inr (), d)) (\<lambda>d. (Inr (), d)) i k kd a pid c d = (q, d1)"
    by (cases "start_child (clk 0) (\<lambda>d. (Inr (), d)) (\<lambda>d. (Inr (), d)) i k kd a pid c d")
  note one = start_child_same [OF s]
  let ?f = "\<lambda>st y. finish_process (clk 1) k st y d1"
  have "d' = d1 \<or> (\<exists>st y. d' = snd (?f st y))"
  proof (cases q)
    case (Inl e)
    with assms * s show ?thesis by (auto simp: run_child_def)
  next
    case (Inr birth)
    show ?thesis
    proof (cases "ch_ending c")
      case (Completed out err rc)
      then have "d' = snd (?f ''exited'' (Some rc))"
        using assms * s Inr by (cases "?f ''exited'' (Some rc)") (simp add: run_child_def split: sum.split_asm)
      then show ?thesis by blast
    next
      case (Undecodable reason)
      with assms * s Inr show ?thesis by (simp add: run_child_def)
    next
      case (Overran g rc)
      show ?thesis
      proof (cases "terminate_group pid birth g")
        case (Inr t)
        then have "d' = snd (?f (if t then ''terminated'' else ''uncertain'') (Some rc))"
          using assms * s \<open>q = Inr birth\<close> Overran
          by (cases "?f (if t then ''terminated'' else ''uncertain'') (Some rc)") (simp add: run_child_def split: sum.split_asm)
        then show ?thesis by blast
      qed (use assms * s \<open>q = Inr birth\<close> Overran in \<open>simp add: run_child_def\<close>)
    qed
  qed
  with one same_control_finish show ?thesis by blast
qed (use assms in \<open>auto simp: run_child_def same_control_def\<close>)

lemma host_run_worker_same:
  assumes "host_run_worker sha limits f cfg prepare clk c wt a m d = (r, m', d')"
  shows "same_control d d'"
proof -
  have "d' = d \<or> (\<exists>i r1. run_child sha limits f cfg clk (\<lambda>d. (Inr (), d)) (\<lambda>d. (Inr (), d)) i (''worker:'' @ a) ''worker'' (Some a) c d = (r1, d'))"
    using assms
    by (auto simp: host_run_worker_def Let_def split: option.split_asm sum.split_asm prod.split_asm exc.split_asm)
  then show ?thesis using run_child_same by (auto simp: same_control_def)
qed

interpretation host: worker_launcher "host_launch sha limits f cfg prepare clk c m leaves"
  for sha limits f cfg prepare clk c m leaves
proof
  fix wt model task scratch a timeout root d
  obtain r m' d' where h: "host_run_worker sha limits f cfg prepare clk c wt a m d = (r, m', d')" by (metis prod_cases3)
  from host_run_worker_same [OF this]
  show "worker_attempts (snd (snd (snd (host_launch sha limits f cfg prepare clk c m leaves wt model task scratch a timeout root d)))) = worker_attempts d"
    "broker_requests (snd (snd (snd (host_launch sha limits f cfg prepare clk c m leaves wt model task scratch a timeout root d)))) = broker_requests d"
    "wake_sessions (snd (snd (snd (host_launch sha limits f cfg prepare clk c m leaves wt model task scratch a timeout root d)))) = wake_sessions d"
    by (simp_all add: host_launch_def h same_control_def)
qed

text \<open>The backend that the supervisor builds for a wake keeps what the broker relies on.\<close>

definition host_execute ::
  "(string \<Rightarrow> string) \<Rightarrow> (string \<Rightarrow> exc option) \<Rightarrow> (string \<Rightarrow> string \<times> int option) \<Rightarrow> host_settings \<Rightarrow> (string \<Rightarrow> unit result)
     \<Rightarrow> child \<Rightarrow> meter \<Rightarrow> (entries \<Rightarrow> entries \<Rightarrow> entries \<times> entries) \<Rightarrow> organization_policy \<Rightarrow> backend_facts \<Rightarrow> gh_execute
     \<Rightarrow> worker_site \<Rightarrow> (nat \<Rightarrow> instant) \<Rightarrow> (string \<Rightarrow> entries option) \<Rightarrow> backend_execute" where
  "host_execute sha limits f cfg prepare c m leaves policy ghf ghe site clk ws =
     control_execute sha policy ghf ghe (site\<lparr>st_launch := host_launch sha limits f cfg prepare clk c m leaves\<rparr>) clk ws"

interpretation control: broker_backend "host_execute sha limits f cfg prepare c m leaves policy ghf ghe site clk ws"
  for sha limits f cfg prepare c m leaves policy ghf ghe site clk ws
  by unfold_locales (simp_all add: host_execute_def host.execute_keeps)

end
