(* ===== verification/Control_Rules.thy ===== *)
theory Control_Rules
  imports Control
begin

text \<open>
  What holds of a request from the broker to the backend and back.
\<close>

section \<open>Requests reach the backend only when authorized and journalled\<close>


definition status_policy :: organization_policy where
  "status_policy = \<lparr>op_org_id = ''acme'', op_principal_github = ''p'',
     op_repositories = [(''org'', \<lparr>repo_alias = ''org'', repo_slug = ''acme/org'', repo_default_branch = ''main''\<rparr>)],
     op_roles = [(''governance-reviewer'', \<lparr>rp_role = ''governance-reviewer'', rp_worker_types = {}, rp_max_workers_per_wake = 2,
       rp_max_workers_concurrent = 1, rp_repositories = {''org''}, rp_daily_token_budget = 10\<rparr>)],
     op_source_commit = [], op_control_version = [], op_source_tree_sha256 = [],
     op_organization_daily_token_budget = 20, op_global_max_agents = 5, op_policy_digest = ''digest'',
     op_protected_submission_paths = []\<rparr>"

definition status_db :: db where
  "status_db = empty_db\<lparr>wake_sessions :=
     [session_values ''t'' \<lparr>sn_session_id = ''s'', sn_wake_id = ''w'', sn_org_id = ''acme'', sn_role = ''governance-reviewer'',
        sn_policy_digest = ''digest'', sn_workspace_aliases = {''org''}, sn_expires_at = ''9''\<rparr>]\<rparr>"

definition status_request :: "(string \<times> json) list" where
  "status_request = [(''schema'', JStr ''sjg.request/v1''), (''operation'', JStr ''repo.status''),
     (''idempotency_key'', JStr ''request-00000001''), (''arguments'', JObj [])]"

definition status_backend :: backend_execute where
  "status_backend op a sn k d = (Inr (JObj [(''repository'', JStr ''acme/org'')]), d)"


lemma status_request_wf: "well_formed status_request ''repo.status'' ''request-00000001'' []"
  by code_simp



section \<open>Replays\<close>

text \<open>C26: Once a request has run and its reply is recorded, repeating the request gives the same reply
  from the journal and changes nothing, whatever GitHub, the workers or the backend would do now, as
  long as its session is live.\<close>

theorem recorded_reply_is_replayed:
  assumes "distinct (map br_idempotency_key (broker_requests d))" and "well_formed request op k a" and "request_row k d = None"
    and "handle sha policy facts_of (host_execute hsha limits f cfg prepare c m leaves policy ghf ghe site wclk ws) clk i request d = (resp, d')"
    and "request_row k d' = Some row'" and "br_response_json row' \<noteq> None" and "store_session (clk' 0) i d' = Inr sn'"
  shows "handle sha policy facts_of' execute' clk' i request d' = (resp, d')"
  by (rule control.replay_recorded [OF assms(1-6)]) (rule assms(7))

definition status_site :: worker_site where
  "status_site = \<lparr>st_settings = \<lparr>luna_models = [], timeout_seconds = 1, max_patch_bytes = 1, max_output_bytes = 1, worker_owned = False, scratch_failure = None\<rparr>,
     st_launch = (\<lambda>wt model task scratch a timeout root d. (Inl (WorkerError ''none''), scratch, root, d)), st_uuid = ''u'',
     st_stamp = ''t'', st_workspace_for = (\<lambda>_ _. Inr ''/w'')\<rparr>"

definition status_ghe :: gh_execute where
  "status_ghe op a sn k = Inr (JObj [(''repository'', JStr ''acme/org'')])"

definition status_execute :: backend_execute where
  "status_execute = host_execute (\<lambda>_. ''h'') (\<lambda>_. None) (\<lambda>t. (t, None))
     \<lparr>hs_provider = ''codex-cli'', hs_worker_models = [], hs_euid = 0, hs_egid = 0, hs_agent_uid = 1, hs_agent_gid = 1\<rparr> (\<lambda>_. Inr ())
     \<lparr>ch_pid = None, ch_birth = \<lparr>hp_stat = None, hp_boot = Inr [], hp_ps = Inr ([], 1)\<rparr>, ch_pgid = Inr 1, ch_killed = 0,
       ch_ending = Completed [] [] 0\<rparr> \<lparr>mt_usage = [], mt_uncertain = {}\<rparr> (\<lambda>a b. (a, b)) status_policy (\<lambda>_ _. Inr default_facts)
     status_ghe status_site (\<lambda>_. 0) (\<lambda>_. None)"

lemma status_execute_eq: "status_execute ''repo.status'' a sn k d = (Inr (JObj [(''repository'', JStr ''acme/org'')]), d)"
  by (simp add: status_execute_def host_execute_def control_execute_def control_run_def PM_OPERATIONS_def PR_OPERATIONS_def status_ghe_def)

abbreviation answered :: "json \<times> db" where
  "answered \<equiv> handle (\<lambda>_. ''h'') status_policy (\<lambda>_ _. Inr default_facts) status_execute (\<lambda>_. 0) ''s'' status_request status_db"

lemma answered_eq: "answered = handle (\<lambda>_. ''h'') status_policy (\<lambda>_ _. Inr default_facts) status_backend (\<lambda>_. 0) ''s'' status_request status_db"
  unfolding handle_well_formed [OF status_request_wf] dispatch_def
  by (simp add: run_backend_def status_execute_eq status_backend_def split: sum.split)

theorem recorded_reply_is_replayed_witness:
  "handle (\<lambda>_. ''h'') status_policy (\<lambda>_ _. Inl (GitHubError ''down'')) (\<lambda>op a sn k d. (Inl (GitHubError ''down''), empty_db)) (\<lambda>_. 0) ''s''
     status_request (snd answered) = (reply ''ok'' [(''result'', JObj [(''repository'', JStr ''acme/org'')])], snd answered)"
proof -
  have "distinct (map br_idempotency_key (broker_requests status_db))" "request_row ''request-00000001'' status_db = None" by code_simp+
  note free = this
  have f: "fst answered = reply ''ok'' [(''result'', JObj [(''repository'', JStr ''acme/org'')])]" unfolding answered_eq by code_simp
  have r: "map_option (\<lambda>r. br_response_json r \<noteq> None) (request_row ''request-00000001'' (snd answered)) = Some True" unfolding answered_eq by code_simp
  then obtain row where row: "request_row ''request-00000001'' (snd answered) = Some row" "br_response_json row \<noteq> None" by auto
  have "map_sum (\<lambda>_. ()) sn_session_id (store_session 0 ''s'' (snd answered)) = Inr ''s''" unfolding answered_eq by code_simp
  then obtain sn where sn: "store_session 0 ''s'' (snd answered) = Inr sn" by (cases "store_session 0 ''s'' (snd answered)") auto
  have run: "answered = (fst answered, snd answered)" by simp
  from recorded_reply_is_replayed [OF free(1) status_request_wf free(2) run [unfolded status_execute_def] row [unfolded status_execute_def],
      of "\<lambda>_. 0" sn "\<lambda>_ _. Inl (GitHubError ''down'')" "\<lambda>op a sn k d. (Inl (GitHubError ''down''), empty_db)"] sn
  show ?thesis unfolding f [symmetric] status_execute_def [symmetric] by simp
qed

text \<open>A \<open>StateError\<close> that the backend raises while a request is applying is answered as a conflict and not
  recorded: the request stays applying, and every later attempt is answered as indeterminate.\<close>

lemma state_error_strands_request:
  assumes "well_formed request op k a" and "request_row k d = None"
    and "dispatch sha policy facts_of (host_execute hsha limits f cfg prepare c m leaves policy ghf ghe site wclk ws) clk i k op (JObj a) d
       = run_backend sha (host_execute hsha limits f cfg prepare c m leaves policy ghf ghe site wclk ws) clk sn k op (JObj a)
           (journalled sha clk i k op (JObj a) d)"
    and "store_session (clk 0) i d = Inr sn" "validate_request policy sn op (JObj a) = Inr ()"
    and "fst (host_execute hsha limits f cfg prepare c m leaves policy ghf ghe site wclk ws op (JObj a) sn k
       (journalled sha clk i k op (JObj a) d)) = Inl (StateError msg)"
    and "handle sha policy facts_of (host_execute hsha limits f cfg prepare c m leaves policy ghf ghe site wclk ws) clk i request d = (resp, d')"
    and "store_session (clk' 0) i d' = Inr sn'"
  shows "resp = error_reply ''conflict'' msg \<and> request_row k d' = Some (applying_request sha clk i k op (JObj a))
    \<and> handle sha policy facts_of' execute' clk' i request d' = (outcome_unknown, d')"
  using control.state_error_strands [OF assms(1-7), of clk' sn'] assms(8) by blast

end
