(* ===== verification/Protocol.thy ===== *)
theory Protocol
  imports Json Broker
begin

text \<open>
  \<^verbatim>\<open>control/sjg_control/protocol.py\<close> and \<^verbatim>\<open>control/sjg_control/server.py\<close>: length-prefixed JSON messages,
  the loop that collects a message from a stream socket, and the loop of \<open>SessionServer.serve\<close>.

  A connection is the list of segments in which the peer's bytes arrive before it closes; no segment
  is empty, since an empty read means the end. \<open>json.loads\<close> takes UTF-8 here; the UTF-16 and UTF-32
  texts that it also guesses are not modelled.
\<close>

section \<open>Framing\<close>

definition MAX_MESSAGE :: nat where
  "MAX_MESSAGE = 1024 * 1024"

text \<open>\<open>struct.pack("!I", n)\<close> and \<open>struct.unpack\<close>.\<close>

definition pack_u32 :: "nat \<Rightarrow> string" where
  "pack_u32 n = map char_of [n div 16777216 mod 256, n div 65536 mod 256, n div 256 mod 256, n mod 256]"

definition unpack_u32 :: "string \<Rightarrow> nat" where
  "unpack_u32 s = foldl (\<lambda>n c. n * 256 + of_char c) 0 s"

definition encode_message :: "(string \<times> json) list \<Rightarrow> string result" where
  "encode_message v =
     (let body = dumps (JObj v) in
      if length body > MAX_MESSAGE
      then Inl (ProtocolError ''request exceeds the one-megabyte protocol limit'')
      else Inr (pack_u32 (length body) @ body))"

type_synonym segments = "string list"

text \<open>\<open>connection.recv(size)\<close>\<close>

fun recv :: "nat \<Rightarrow> segments \<Rightarrow> string \<times> segments" where
  "recv want [] = ([], [])"
| "recv want (c # cs) = (if length c \<le> want then (c, cs) else (take want c, drop want c # cs))"

lemma recv_length: "length (fst (recv want conn)) \<le> want"
  by (cases conn) auto

lemma recv_concat: "fst (recv want conn) @ concat (snd (recv want conn)) = concat conn"
  by (cases conn) (simp_all flip: append_assoc)

lemma recv_open: "[] \<notin> set conn \<Longrightarrow> [] \<notin> set (snd (recv want conn))"
  by (cases conn) auto

lemma recv_progress: "[] \<notin> set conn \<Longrightarrow> conn \<noteq> [] \<Longrightarrow> 0 < want \<Longrightarrow> fst (recv want conn) \<noteq> []"
  by (cases conn) auto

text \<open>\<open>_read_exact\<close>: the loop ends because every pass adds at least one byte.\<close>

function read_exact :: "nat \<Rightarrow> string \<Rightarrow> segments \<Rightarrow> string result \<times> segments" where
  "read_exact want chunks conn =
     (if length chunks < want
      then (case recv (want - length chunks) conn of
              (chunk, conn') \<Rightarrow>
                if chunk = [] then (Inl (ProtocolError ''connection closed before the complete message arrived''), conn')
                else read_exact want (chunks @ chunk) conn')
      else (Inr chunks, conn))"
  by pat_completeness auto
termination
proof (relation "measure (\<lambda>(want, chunks, conn). want - length chunks)", goal_cases)
  case (2 want chunks conn chunk conn')
  then show ?case by (cases chunk) auto
qed simp

declare read_exact.simps [simp del]

text \<open>What \<open>bytes.decode\<close> accepts.\<close>

definition decodable :: "string \<Rightarrow> bool" where
  "decodable s \<longleftrightarrow> list_all (\<lambda>n. n < 1114112) (utf8_points s) \<and> concat (map utf8_bytes (utf8_points s)) = s"

definition receive_message ::
  "(string \<Rightarrow> string \<times> int option) \<Rightarrow> segments \<Rightarrow> (string \<times> json) list result \<times> segments" where
  "receive_message float_of conn =
     (case read_exact 4 [] conn of
        (Inl e, conn1) \<Rightarrow> (Inl e, conn1)
      | (Inr header, conn1) \<Rightarrow>
          let want = unpack_u32 header in
          if want > MAX_MESSAGE
          then (Inl (ProtocolError ''message exceeds the one-megabyte protocol limit''), conn1)
          else (case read_exact want [] conn1 of
                  (Inl e, conn2) \<Rightarrow> (Inl e, conn2)
                | (Inr body, conn2) \<Rightarrow>
                    ((if \<not> decodable body then Inl (ValueError ''invalid start byte'')
                      else (case loads float_of body of
                              None \<Rightarrow> Inl (ProtocolError ''message is not valid JSON'')
                            | Some (JObj v) \<Rightarrow> Inr v
                            | Some _ \<Rightarrow> Inl (ProtocolError ''message must be a JSON object''))), conn2)))"

section \<open>The server of one wake\<close>

text \<open>A connection that arrives: who the peer is, what it sends, and whether it still takes the
  answer. \<open>serve_one\<close> gives the answer; \<open>serve\<close> answers the connections that arrive before the server is
  stopped, at most \<open>limit\<close> of them, and gives what it raised, the answers sent and the store. \<open>broker\<close> is
  \<open>Broker.handle\<close> for the session of the server; its first argument counts the connections.\<close>

record peer =
  pe_uid :: "int result"
  pe_sends :: segments
  pe_listens :: bool

definition serve_one ::
  "(string \<Rightarrow> string \<times> int option) \<Rightarrow> int \<Rightarrow> ((string \<times> json) list \<Rightarrow> db \<Rightarrow> json \<times> db) \<Rightarrow> peer \<Rightarrow> db \<Rightarrow> json \<times> db" where
  "serve_one float_of expected_uid broker p d =
     (case pe_uid p of
        Inl e \<Rightarrow> (error_reply ''retryable'' (''protocol failure: '' @ exc_text e), d)
      | Inr uid \<Rightarrow>
          if uid \<noteq> expected_uid
          then (error_reply ''denied'' ''Unix-socket peer identity does not match this wake'', d)
          else (case fst (receive_message float_of (pe_sends p)) of
                  Inl e \<Rightarrow> (error_reply ''retryable'' (''protocol failure: '' @ exc_text e), d)
                | Inr request \<Rightarrow> broker request d))"

fun members_of :: "json \<Rightarrow> (string \<times> json) list" where
  "members_of (JObj kvs) = kvs"
| "members_of _ = []"

fun serve ::
  "(string \<Rightarrow> string \<times> int option) \<Rightarrow> int \<Rightarrow> (nat \<Rightarrow> (string \<times> json) list \<Rightarrow> db \<Rightarrow> json \<times> db) \<Rightarrow> nat option
     \<Rightarrow> nat \<Rightarrow> peer list \<Rightarrow> db \<Rightarrow> unit result \<times> string list \<times> db" where
  "serve float_of expected_uid broker limit handled [] d = (Inr (), [], d)"
| "serve float_of expected_uid broker limit handled (p # ps) d =
     (if (case limit of None \<Rightarrow> False | Some n \<Rightarrow> n \<le> handled) then (Inr (), [], d)
      else (case serve_one float_of expected_uid (broker handled) p d of
              (response, d') \<Rightarrow>
                (case encode_message (members_of response) of
                   Inl e \<Rightarrow> (Inl e, [], d')
                 | Inr bytes \<Rightarrow>
                     (if \<not> pe_listens p then (Inl (OSError ''[Errno 32] Broken pipe''), [], d')
                      else (case serve float_of expected_uid broker limit (Suc handled) ps d' of
                              (r, sent, d'') \<Rightarrow> (r, bytes # sent, d''))))))"

definition serve_session ::
  "(string \<Rightarrow> string \<times> int option) \<Rightarrow> int \<Rightarrow> (string \<Rightarrow> string) \<Rightarrow> organization_policy \<Rightarrow> backend_facts \<Rightarrow> backend_execute
     \<Rightarrow> (nat \<Rightarrow> nat \<Rightarrow> instant) \<Rightarrow> string \<Rightarrow> nat option \<Rightarrow> peer list \<Rightarrow> db \<Rightarrow> unit result \<times> string list \<times> db" where
  "serve_session float_of expected_uid sha policy facts_of execute clk session_id limit ps d =
     serve float_of expected_uid (\<lambda>n. handle sha policy facts_of execute (clk n) session_id) limit 0 ps d"

section \<open>Messages survive the stream\<close>

lemma unpack_pack: "n < 4294967296 \<Longrightarrow> unpack_u32 (pack_u32 n) = n"
proof -
  assume n: "n < 4294967296"
  have "((a * 256 + b) * 256 + c) * 256 + e = n"
    if "p * 256 + e = n" "q * 256 + c = p" "a * 256 + b = q" for a b c e p q :: nat
    using that by simp
  moreover have "n div 256 * 256 + n mod 256 = n" "n div 65536 * 256 + n div 256 mod 256 = n div 256"
    "n div 16777216 * 256 + n div 65536 mod 256 = n div 65536"
    using div_mult_mod_eq [of n 256] div_mult_mod_eq [of "n div 256" 256] div_mult_mod_eq [of "n div 65536" 256]
    by (simp_all flip: div_mult2_eq)
  ultimately have "((n div 16777216 * 256 + n div 65536 mod 256) * 256 + n div 256 mod 256) * 256 + n mod 256 = n" by blast
  moreover have "n div 16777216 mod 256 = n div 16777216" using n by simp
  ultimately show ?thesis by (simp add: unpack_u32_def pack_u32_def take_bit_eq_mod)
qed

lemma read_exact_concat:
  assumes "[] \<notin> set conn" and "concat conn = s @ later" and "length chunks + length s = want"
  shows "\<exists>conn'. read_exact want chunks conn = (Inr (chunks @ s), conn') \<and> concat conn' = later \<and> [] \<notin> set conn'"
  using assms
proof (induction want chunks conn arbitrary: s rule: read_exact.induct)
  case (1 want chunks conn)
  show ?case
  proof (cases "length chunks < want")
    case False
    with 1(4) have "length s = 0" by linarith
    then have "s = []" by simp
    with False 1 show ?thesis by (simp add: read_exact.simps [of want chunks])
  next
    case True
    obtain chunk conn' where r: "recv (want - length chunks) conn = (chunk, conn')" by (cases "recv (want - length chunks) conn")
    from True 1(3,4) have "conn \<noteq> []" by auto
    with recv_progress [OF 1(2), of "want - length chunks"] True r have ne: "chunk \<noteq> []" by simp
    have len: "length chunk \<le> length s" using recv_length [of "want - length chunks" conn] r 1(4) by simp
    have "chunk @ concat conn' = s @ later" using recv_concat [of "want - length chunks" conn] r 1(3) by simp
    with len have s: "s = chunk @ drop (length chunk) s" and later: "concat conn' = drop (length chunk) s @ later"
      by (metis append_eq_append_conv_if append_take_drop_id, simp add: append_eq_append_conv_if)
    have "\<exists>conn''. read_exact want (chunks @ chunk) conn' = (Inr ((chunks @ chunk) @ drop (length chunk) s), conn'')
        \<and> concat conn'' = later \<and> [] \<notin> set conn''"
      using 1(1) [OF True r [symmetric] ne, of "drop (length chunk) s"] recv_open [OF 1(2), of "want - length chunks"] r later len 1(4)
      by simp
    with s True r ne show ?thesis by (simp add: read_exact.simps [of want chunks])
  qed
qed

lemma ascii_decodable: "list_all (\<lambda>c. (of_char c :: nat) < 128) s \<Longrightarrow> decodable s"
proof -
  have "list_all (\<lambda>c. (of_char c :: nat) < 128) s \<Longrightarrow> utf8_points s = map of_char s" by (induction s) auto
  moreover have "list_all (\<lambda>c. (of_char c :: nat) < 128) s \<Longrightarrow> concat (map utf8_bytes (map of_char s)) = s"
    by (induction s) (auto simp: utf8_bytes_def)
  ultimately show "list_all (\<lambda>c. (of_char c :: nat) < 128) s \<Longrightarrow> decodable s"
    by (auto simp: decodable_def list_all_iff)
qed

abbreviation ascii :: "string \<Rightarrow> bool" where
  "ascii s \<equiv> list_all (\<lambda>c. (of_char c :: nat) < 128) s"

lemma ascii_join: "ascii sep \<Longrightarrow> list_all ascii xs \<Longrightarrow> ascii (join sep xs)"
  by (induction sep xs rule: join.induct) auto

lemma ascii_hex: "x < 16 \<Longrightarrow> (of_char (hex_digit x) :: nat) < 128"
  by (auto simp: hex_digit_def take_bit_eq_mod)

lemma ascii_json_text: "ascii (json_text s)"
proof -
  have "ascii (json_point n)" for n by (auto simp: json_point_def hex4_def ascii_hex take_bit_eq_mod)
  then show ?thesis by (simp add: json_text_def list_all_iff)
qed

lemma ascii_int_text: "ascii (int_text i)"
proof -
  have "is_digit c \<Longrightarrow> (of_char c :: nat) < 128" for c by (simp add: is_digit_def Let_def)
  then have "ascii (nat_text n)" for n by (simp add: list_all_iff nat_text_digits)
  then show ?thesis by (simp add: int_text_def)
qed

lemma ascii_dumps: "plain_json v \<Longrightarrow> ascii (dumps v)"
proof (induction v)
  case (JList vs)
  then have "list_all ascii (map dumps vs)" by (auto simp: list_all_iff)
  then show ?case by (simp add: ascii_join)
next
  case (JObj kvs)
  then have "ascii (member_text kv)" if "kv \<in> set kvs" for kv
    using that by (cases kv) (auto simp: member_text_def ascii_json_text prod_set_defs)
  then have "list_all ascii (map member_text (sort_key fst kvs))" by (simp add: list_all_iff)
  then show ?case unfolding dumps_object by (simp add: ascii_join)
qed (auto simp: ascii_json_text ascii_int_text)

lemma encode_message_Inr:
  assumes "encode_message v = Inr bytes"
  shows "bytes = pack_u32 (length (dumps (JObj v))) @ dumps (JObj v)" "length (dumps (JObj v)) \<le> MAX_MESSAGE"
  using assms by (auto simp: encode_message_def Let_def split: if_splits simp del: dumps_with.simps)

lemma receive_encoded:
  assumes "plain_json (JObj v)" and "encode_message v = Inr bytes" and "[] \<notin> set conn" and "concat conn = bytes @ later"
  shows "\<exists>conn'. receive_message float_of conn = (Inr (members_of (canonical (JObj v))), conn') \<and> concat conn' = later \<and> [] \<notin> set conn'"
proof -
  let ?b = "dumps (JObj v)"
  note e = encode_message_Inr [OF assms(2)]
  have "length (pack_u32 (length ?b)) = 4" by (simp add: pack_u32_def)
  then obtain c1 where c1: "read_exact 4 [] conn = (Inr (pack_u32 (length ?b)), c1)" "concat c1 = ?b @ later" "[] \<notin> set c1"
    using read_exact_concat [OF assms(3), of "pack_u32 (length ?b)" "?b @ later" "[]" 4] assms(4) e(1) by auto
  have want: "unpack_u32 (pack_u32 (length ?b)) = length ?b" using e(2) by (intro unpack_pack) (simp add: MAX_MESSAGE_def)
  obtain c2 where c2: "read_exact (length ?b) [] c1 = (Inr ?b, c2)" "concat c2 = later" "[] \<notin> set c2"
    using read_exact_concat [OF c1(3,2), of "[]" "length ?b"] by auto
  have "decodable ?b" "loads float_of ?b = Some (canonical (JObj v))"
    using ascii_decodable [OF ascii_dumps [OF assms(1)]] loads_dumps [OF assms(1)] by blast+
  then show ?thesis
    using c1(1) c2 e(2) want by (simp add: receive_message_def Let_def del: dumps_with.simps)
qed

end
