(* ===== verification/Polling.thy ===== *)
theory Polling
  imports Events
begin

text \<open>
  \<^verbatim>\<open>control/sjg_control/delivery.py\<close>: polling one source into a snapshot of the store.

  The source is the parameter \<open>fetch\<close>: the page, or the exception, that call \<open>n\<close> of \<open>fetch_page\<close> gives for a
  watermark, a cursor and an etag. \<open>fromiso\<close> is \<open>datetime.fromisoformat\<close>. A source may hand out
  cursors for ever, so the loop has fuel: one unit per page, and \<open>None\<close> when it runs out.
\<close>

section \<open>Events and watermarks\<close>

definition SOURCE_IDS :: "string list" where
  "SOURCE_IDS = [''org-issues'', ''org-comments'', ''product-issues'', ''product-comments'', ''product-workflow-runs'']"

record page =
  pg_items :: "(string \<times> json) list list"
  pg_next_cursor :: "string option"
  pg_etag :: "string option"

record poll_result =
  pl_source_id :: string
  pl_complete :: bool
  pl_page_count :: nat
  pl_inserted :: nat
  pl_watermark :: string
  pl_error :: "string option"

definition item_value :: "(string \<times> json) list \<Rightarrow> string \<Rightarrow> json result" where
  "item_value item k = (case map_of item k of None \<Rightarrow> Inl (KeyError (repr_text k)) | Some v \<Rightarrow> Inr v)"

definition event_identity :: "string \<Rightarrow> (string \<times> json) list \<Rightarrow> (string \<times> string \<times> string) result" where
  "event_identity source_id item =
     (let updated = str_or_empty (py_or (dget item ''updated_at'') (dget item ''created_at'')) in
      if ends_with ''comments'' source_id
      then bindE (item_value item ''id'') (\<lambda>v. Inr (py_str v, py_str v @ '':'' @ updated, updated))
      else if ends_with ''workflow-runs'' source_id
      then bindE (item_value item ''id'') (\<lambda>v.
             let external = py_str v;
                 attempt = py_str (py_or (dget item ''run_attempt'') (JInt 1)) in
             Inr (external, join '':'' [external, attempt, str_or_empty (dget item ''status''),
                    str_or_empty (dget item ''conclusion''), updated], updated))
      else bindE (item_value item ''number'') (\<lambda>v. Inr (py_str v, py_str v @ '':'' @ updated, updated)))"

definition query_fingerprint :: "(string \<Rightarrow> string) \<Rightarrow> string \<Rightarrow> string \<Rightarrow> string" where
  "query_fingerprint sha source_id watermark = sha (source_id @ CHR 0x00 # watermark)"

text \<open>What \<open>datetime.fromisoformat\<close> makes of a text.\<close>

datatype moment = Unreadable | Naive | Aware instant

definition zulu_offset :: "string \<Rightarrow> string" where
  "zulu_offset s = concat (map (\<lambda>c. if c = CHR ''Z'' then ''+00:00'' else [c]) s)"

definition overlap_watermark :: "(string \<Rightarrow> moment) \<Rightarrow> string \<Rightarrow> int \<Rightarrow> string result" where
  "overlap_watermark fromiso watermark seconds =
     (if seconds < 0 then Inl (ValueError ''checkpoint overlap must not be negative'')
      else (case fromiso (zulu_offset watermark) of
              Unreadable \<Rightarrow> Inl (ValueError (''invalid ISO-8601 source watermark: '' @ repr_text watermark))
            | Naive \<Rightarrow> Inl (ValueError ''source watermark must include a timezone'')
            | Aware t \<Rightarrow>
                (if t - seconds * second < 0 then Inl (OverflowError ''date value out of range'')
                 else Inr (utc_text (t - seconds * second)))))"

section \<open>Polling\<close>

fun exc_class :: "exc \<Rightarrow> string" where
  "exc_class (StateError _) = ''StateError''"
| "exc_class (AuthorizationError _) = ''AuthorizationError''"
| "exc_class (PolicyError _) = ''PolicyError''"
| "exc_class (RoutingError _) = ''RoutingError''"
| "exc_class (WorkerError _) = ''WorkerError''"
| "exc_class (GitHubError _) = ''GitHubError''"
| "exc_class (GovernanceError _) = ''GovernanceError''"
| "exc_class (SupervisorError _) = ''SupervisorError''"
| "exc_class (SourceError _) = ''SourceError''"
| "exc_class (ProtocolError _) = ''ProtocolError''"
| "exc_class (HostConfigError _) = ''HostConfigError''"
| "exc_class (HostProcessError _) = ''HostProcessError''"
| "exc_class (ServiceError _) = ''ServiceError''"
| "exc_class (TimeoutError _) = ''TimeoutError''"
| "exc_class (IntegrityError _) = ''IntegrityError''"
| "exc_class (ValueError _) = ''ValueError''"
| "exc_class (TypeError _) = ''TypeError''"
| "exc_class (KeyError _) = ''KeyError''"
| "exc_class (IndexError _) = ''IndexError''"
| "exc_class (OverflowError _) = ''OverflowError''"
| "exc_class (RecursionError _) = ''RecursionError''"
| "exc_class (OSError _) = ''OSError''"
| "exc_class (AttributeError _) = ''AttributeError''"

type_synonym fetch = "nat \<Rightarrow> string \<Rightarrow> string option \<Rightarrow> string option \<Rightarrow> page result"

text \<open>The inner loop over the items of a page; the second component is the greatest occurrence time
  so far.\<close>

fun stage_items ::
  "(string \<Rightarrow> string) \<Rightarrow> string \<Rightarrow> string \<Rightarrow> (string \<times> json) list list \<Rightarrow> string \<Rightarrow> db \<Rightarrow> unit result \<times> string \<times> db" where
  "stage_items uuid5 snapshot_id source_id [] maximum d = (Inr (), maximum, d)"
| "stage_items uuid5 snapshot_id source_id (item # items) maximum d =
     (case event_identity source_id item of
        Inl e \<Rightarrow> (Inl e, maximum, d)
      | Inr (external, version, occurred) \<Rightarrow>
          if occurred = [] then (Inl (ValueError (source_id @ '' event has no occurrence timestamp'')), maximum, d)
          else (case stage_observation uuid5 snapshot_id source_id external version occurred (JObj item) d of
                  (Inl e, d') \<Rightarrow> (Inl e, max maximum occurred, d')
                | (Inr _, d') \<Rightarrow> stage_items uuid5 snapshot_id source_id items (max maximum occurred) d'))"

record collected =
  co_outcome :: "unit result"
  co_pages :: nat
  co_maximum :: string
  co_etag :: "string option"
  co_store :: db

definition etag_or :: "string option \<Rightarrow> string option \<Rightarrow> string option" where
  "etag_or new old = (case new of None \<Rightarrow> old | Some e \<Rightarrow> if e = [] then old else new)"

fun collect ::
  "(string \<Rightarrow> string) \<Rightarrow> string \<Rightarrow> string \<Rightarrow> fetch \<Rightarrow> string \<Rightarrow> string option \<Rightarrow> nat \<Rightarrow> nat \<Rightarrow> string option \<Rightarrow> string \<Rightarrow> string option
     \<Rightarrow> db \<Rightarrow> collected option" where
  "collect uuid5 snapshot_id source_id fetch query etag 0 pages cursor maximum final_etag d = None"
| "collect uuid5 snapshot_id source_id fetch query etag (Suc fuel) pages cursor maximum final_etag d =
     (case fetch pages query cursor (if pages = 0 then etag else None) of
        Inl e \<Rightarrow> Some \<lparr>co_outcome = Inl e, co_pages = pages, co_maximum = maximum, co_etag = final_etag, co_store = d\<rparr>
      | Inr page \<Rightarrow>
          (let final_etag' = etag_or (pg_etag page) final_etag in
           case stage_items uuid5 snapshot_id source_id (pg_items page) maximum d of
             (Inl e, maximum', d') \<Rightarrow>
               Some \<lparr>co_outcome = Inl e, co_pages = Suc pages, co_maximum = maximum', co_etag = final_etag', co_store = d'\<rparr>
           | (Inr _, maximum', d') \<Rightarrow>
               (case pg_next_cursor page of
                  None \<Rightarrow> Some \<lparr>co_outcome = Inr (), co_pages = Suc pages, co_maximum = maximum', co_etag = final_etag',
                                co_store = d'\<rparr>
                | Some c \<Rightarrow> collect uuid5 snapshot_id source_id fetch query etag fuel (Suc pages) (Some c) maximum'
                              final_etag' d')))"

definition reusable_etag :: "(string \<Rightarrow> string) \<Rightarrow> source_checkpoint \<Rightarrow> string \<Rightarrow> string option" where
  "reusable_etag sha row query =
     (if sc_query_fingerprint row = Some (query_fingerprint sha (sc_source_id row) query)
         \<and> (case sc_last_complete_snapshot_id row of None \<Rightarrow> False | Some i \<Rightarrow> i \<noteq> [])
      then sc_etag row else None)"

text \<open>The end of \<open>poll_source\<close>: the \<open>except\<close> clause, or the publication. The new fingerprint is computed
  before the call of \<open>finish_snapshot\<close> and outside the \<open>try\<close> statement.\<close>

definition conclude ::
  "(string \<Rightarrow> string) \<Rightarrow> (string \<Rightarrow> moment) \<Rightarrow> instant \<Rightarrow> string \<Rightarrow> string \<Rightarrow> source_checkpoint \<Rightarrow> collected
     \<Rightarrow> poll_result result \<times> db" where
  "conclude sha fromiso now snapshot_id source_id row c =
     (case co_outcome c of
        Inl e \<Rightarrow>
          (case finish_snapshot now snapshot_id False (int (co_pages c)) (Some (co_maximum c)) None None None
                  (Some (exc_class e @ '': '' @ exc_text e)) (co_store c) of
             (Inl e', d') \<Rightarrow> (Inl e', d')
           | (Inr _, d') \<Rightarrow> (Inr \<lparr>pl_source_id = source_id, pl_complete = False, pl_page_count = co_pages c, pl_inserted = 0,
                pl_watermark = sc_watermark row, pl_error = Some (exc_text e)\<rparr>, d'))
      | Inr _ \<Rightarrow>
          (case overlap_watermark fromiso (co_maximum c) (sc_overlap_seconds row) of
             Inl e \<Rightarrow> (Inl e, co_store c)
           | Inr next_query \<Rightarrow>
               (case finish_snapshot now snapshot_id True (int (co_pages c)) (Some (co_maximum c)) (Some (co_maximum c))
                       (Some (query_fingerprint sha source_id next_query)) (co_etag c) None (co_store c) of
                  (Inl e, d') \<Rightarrow> (Inl e, d')
                | (Inr published, d') \<Rightarrow> (Inr \<lparr>pl_source_id = source_id, pl_complete = True, pl_page_count = co_pages c,
                     pl_inserted = published, pl_watermark = co_maximum c, pl_error = None\<rparr>, d'))))"

definition poll_source ::
  "(string \<Rightarrow> string) \<Rightarrow> (string \<Rightarrow> string) \<Rightarrow> (string \<Rightarrow> moment) \<Rightarrow> (nat \<Rightarrow> instant) \<Rightarrow> string \<Rightarrow> nat \<Rightarrow> string \<Rightarrow> fetch \<Rightarrow> string
     \<Rightarrow> db \<Rightarrow> (poll_result result \<times> db) option" where
  "poll_source sha uuid5 fromiso clk uuid fuel source_id fetch initial_watermark d =
     (if source_id \<notin> set SOURCE_IDS then Some (Inl (ValueError (''unknown source id: '' @ source_id)), d)
      else (case checkpoint source_id initial_watermark d of
              (None, d1) \<Rightarrow> Some (Inl (TypeError ''NoneType object is not subscriptable''), d1)
            | (Some row, d1) \<Rightarrow>
      (case overlap_watermark fromiso (sc_watermark row) (sc_overlap_seconds row) of
         Inl e \<Rightarrow> Some (Inl e, d1)
       | Inr query \<Rightarrow>
      (case begin_snapshot (clk 0) uuid source_id d1 of
         (Inl e, d2) \<Rightarrow> Some (Inl e, d2)
       | (Inr snapshot_id, d2) \<Rightarrow>
           map_option (conclude sha fromiso (clk 1) snapshot_id source_id row)
             (collect uuid5 snapshot_id source_id fetch query (reusable_etag sha row query) fuel 0 None
               (sc_watermark row) None d2)))))"

definition route_key :: "(string \<Rightarrow> string) \<Rightarrow> string \<Rightarrow> string list \<Rightarrow> string" where
  "route_key sha role event_ids = sha (dumps (JList [JStr role, JList (map JStr (sort event_ids))]))"

section \<open>What collecting stages\<close>

text \<open>The pages that the source hands out, up to the first exception, the last page or the end of
  the fuel.\<close>

fun pages_read :: "fetch \<Rightarrow> string \<Rightarrow> string option \<Rightarrow> nat \<Rightarrow> nat \<Rightarrow> string option \<Rightarrow> page list" where
  "pages_read fetch query etag 0 pages cursor = []"
| "pages_read fetch query etag (Suc fuel) pages cursor =
     (case fetch pages query cursor (if pages = 0 then etag else None) of
        Inl _ \<Rightarrow> []
      | Inr page \<Rightarrow> page # (case pg_next_cursor page of None \<Rightarrow> [] | Some c \<Rightarrow> pages_read fetch query etag fuel (Suc pages) (Some c)))"

text \<open>Collecting touches only the staged events, and only adds some.\<close>

definition staged_more :: "db \<Rightarrow> db \<Rightarrow> bool" where
  "staged_more d d' \<longleftrightarrow> (\<exists>es. d' = d\<lparr>snapshot_events := snapshot_events d @ es\<rparr>)"

lemma staged_more_refl: "staged_more d d"
  by (auto simp: staged_more_def intro: exI [of _ "[]"])

lemma staged_more_trans: "staged_more d d' \<Longrightarrow> staged_more d' d'' \<Longrightarrow> staged_more d d''"
  by (auto simp: staged_more_def)

lemma staged_moreD:
  assumes "staged_more d d'"
  shows "observed_events d' = observed_events d" "source_checkpoints d' = source_checkpoints d"
    "source_snapshots d' = source_snapshots d" "set (snapshot_events d) \<subseteq> set (snapshot_events d')"
    "snapshot_row i d' = snapshot_row i d"
  using assms by (auto simp: staged_more_def snapshot_row_def)

lemma stage_observation_more:
  assumes "stage_observation uuid5 sid src ext ver occ payload d = (r, d')"
  shows "staged_more d d'"
  using assms staged_more_refl [of d]
  by (auto simp: stage_observation_def staged_more_def Let_def split: option.splits if_splits)

text \<open>An item is staged when the snapshot holds an event with its id.\<close>

definition staged :: "(string \<Rightarrow> string) \<Rightarrow> string \<Rightarrow> string \<Rightarrow> db \<Rightarrow> (string \<times> json) list \<Rightarrow> string \<Rightarrow> bool" where
  "staged uuid5 sid src d item maximum \<longleftrightarrow>
     (\<exists>ext ver occ. event_identity src item = Inr (ext, ver, occ) \<and> occ \<le> maximum
        \<and> (\<exists>e\<in>set (snapshot_events d). se_snapshot_id e = sid \<and> se_event_id e = uuid5 (event_name src ext ver)))"

lemma staged_mono: "staged uuid5 sid src d item m \<Longrightarrow> staged_more d d' \<Longrightarrow> m \<le> m' \<Longrightarrow> staged uuid5 sid src d' item m'"
  unfolding staged_def using staged_moreD(4) [of d d'] by (meson order_trans subset_iff)

lemma stage_observation_staged:
  assumes "stage_observation uuid5 sid src ext ver occ payload d = (Inr r, d')"
  shows "\<exists>e\<in>set (snapshot_events d'). se_snapshot_id e = sid \<and> se_event_id e = uuid5 (event_name src ext ver)"
  using assms by (auto simp: stage_observation_def Let_def list_ex_iff split: option.splits if_splits)

lemma stage_items_more:
  assumes "stage_items uuid5 sid src items m d = (r, m', d')"
  shows "staged_more d d'" "m \<le> m'"
  using assms
proof (induction items arbitrary: m d)
  case (Cons item items)
  {
    case 1
    with Cons.IH show ?case
      by (fastforce simp: staged_more_refl split: sum.splits prod.splits if_splits
        dest: stage_observation_more intro: staged_more_trans)
  next
    case 2
    with Cons.IH show ?case by (fastforce split: sum.splits prod.splits if_splits)
  }
qed (auto simp: staged_more_refl)

lemma stage_items_staged:
  assumes "stage_items uuid5 sid src items m d = (Inr (), m', d')" and "item \<in> set items"
  shows "staged uuid5 sid src d' item m'"
  using assms
proof (induction items arbitrary: m d)
  case (Cons x items)
  from Cons.prems(1) obtain ext ver occ r d1 where x: "event_identity src x = Inr (ext, ver, occ)"
    and st: "stage_observation uuid5 sid src ext ver occ (JObj x) d = (Inr r, d1)"
    and rest: "stage_items uuid5 sid src items (max m occ) d1 = (Inr (), m', d')"
    by (auto split: sum.splits prod.splits if_splits)
  show ?case
  proof (cases "item \<in> set items")
    case False
    with Cons.prems(2) have "item = x" by simp
    moreover have "staged uuid5 sid src d1 x (max m occ)"
      unfolding staged_def using x stage_observation_staged [OF st] by auto
    ultimately show ?thesis using staged_mono stage_items_more [OF rest] by blast
  qed (use Cons.IH [OF rest] in blast)
qed simp

lemma collect_more:
  assumes "collect uuid5 sid src fetch q et fuel n c m fe d = Some r"
  shows "staged_more d (co_store r) \<and> m \<le> co_maximum r"
  using assms
proof (induction fuel arbitrary: n c m fe d)
  case (Suc fuel)
  show ?case
  proof (cases "fetch n q c (if n = 0 then et else None)")
    case (Inr page)
    obtain o1 m1 d1 where s: "stage_items uuid5 sid src (pg_items page) m d = (o1, m1, d1)" by (metis prod_cases3)
    note more = stage_items_more [OF s]
    show ?thesis
    proof (cases "isl o1 \<or> pg_next_cursor page = None")
      case True
      with Suc.prems Inr s more show ?thesis by (cases o1) (auto simp: Let_def)
    next
      case False
      then obtain c1 where "pg_next_cursor page = Some c1" "\<not> isl o1" by auto
      with Suc.prems Inr s
      have "collect uuid5 sid src fetch q et fuel (Suc n) (Some c1) m1 (etag_or (pg_etag page) fe) d1 = Some r"
        by (cases o1) (auto simp: Let_def)
      from Suc.IH [OF this] more show ?thesis by (meson order_trans staged_more_trans)
    qed
  qed (use Suc.prems in \<open>auto simp: staged_more_refl\<close>)
qed simp

lemma collect_staged:
  assumes "collect uuid5 sid src fetch q et fuel n c m fe d = Some r" and "co_outcome r = Inr ()"
    and "p \<in> set (pages_read fetch q et fuel n c)" and "item \<in> set (pg_items p)"
  shows "staged uuid5 sid src (co_store r) item (co_maximum r)"
  using assms(1,3)
proof (induction fuel arbitrary: n c m fe d)
  case (Suc fuel)
  from Suc.prems(1) assms(2) obtain page where f: "fetch n q c (if n = 0 then et else None) = Inr page"
    by (cases "fetch n q c (if n = 0 then et else None)") auto
  obtain o1 m1 d1 where s: "stage_items uuid5 sid src (pg_items page) m d = (o1, m1, d1)" by (metis prod_cases3)
  with Suc.prems(1) assms(2) f have o1: "o1 = Inr ()" by (cases o1) (auto simp: Let_def)
  note here = stage_items_staged [OF s [unfolded o1]]
  show ?case
  proof (cases "pg_next_cursor page")
    case None
    with Suc.prems f s o1 assms(4) here show ?thesis by (auto simp: Let_def)
  next
    case (Some c1)
    with Suc.prems(1) f s o1
    have r: "collect uuid5 sid src fetch q et fuel (Suc n) (Some c1) m1 (etag_or (pg_etag page) fe) d1 = Some r"
      by (simp add: Let_def)
    from Suc.prems(2) f Some have "p = page \<or> p \<in> set (pages_read fetch q et fuel (Suc n) (Some c1))" by simp
    then show ?thesis
    proof
      assume "p = page"
      with here assms(4) collect_more [OF r] show ?thesis by (blast intro: staged_mono)
    qed (rule Suc.IH [OF r])
  qed
qed simp

text \<open>Where the staged events of a snapshot come from.\<close>

definition read_from :: "(string \<Rightarrow> string) \<Rightarrow> string \<Rightarrow> (string \<times> json) list \<Rightarrow> snapshot_event \<Rightarrow> bool" where
  "read_from uuid5 src item e \<longleftrightarrow> event_identity src item = Inr (se_external_id e, se_version_key e, se_occurred_at e)
     \<and> se_source_id e = src \<and> se_event_id e = uuid5 (event_name src (se_external_id e) (se_version_key e))
     \<and> se_payload e = JObj item"

definition staged_from :: "(string \<Rightarrow> string) \<Rightarrow> string \<Rightarrow> string \<Rightarrow> (string \<times> json) list set \<Rightarrow> db \<Rightarrow> bool" where
  "staged_from uuid5 sid src items d \<longleftrightarrow>
     (\<forall>e\<in>set (snapshot_events d). se_snapshot_id e = sid \<longrightarrow> (\<exists>item\<in>items. read_from uuid5 src item e))"

lemma stage_observation_from:
  assumes "stage_observation uuid5 sid src ext ver occ (JObj item) d = (r, d')" and "staged_from uuid5 sid src items d"
    and "event_identity src item = Inr (ext, ver, occ)" and "item \<in> items"
  shows "staged_from uuid5 sid src items d'"
proof -
  let ?e = "\<lparr>se_snapshot_id = sid, se_event_id = uuid5 (event_name src ext ver), se_source_id = src, se_external_id = ext,
    se_version_key = ver, se_occurred_at = occ, se_payload = JObj item\<rparr>"
  have "d' = d \<or> d' = d\<lparr>snapshot_events := snapshot_events d @ [?e]\<rparr>"
    using assms(1) by (simp add: stage_observation_def Let_def split: option.splits if_splits)
  moreover have "\<exists>item\<in>items. read_from uuid5 src item ?e"
    using assms(3,4) by (intro bexI [of _ item]) (simp_all add: read_from_def)
  ultimately show ?thesis using assms(2) unfolding staged_from_def by (elim disjE) simp_all
qed

lemma stage_items_from:
  assumes "stage_items uuid5 sid src xs m d = (r, m', d')" and "staged_from uuid5 sid src items d" and "set xs \<subseteq> items"
  shows "staged_from uuid5 sid src items d'"
  using assms
proof (induction xs arbitrary: m d)
  case (Cons x xs)
  then show ?case
    by (fastforce split: sum.splits prod.splits if_splits dest: stage_observation_from)
qed simp

lemma collect_from:
  assumes "collect uuid5 sid src fetch q et fuel n c m fe d = Some r" and "staged_from uuid5 sid src items d"
    and "\<And>p. p \<in> set (pages_read fetch q et fuel n c) \<Longrightarrow> set (pg_items p) \<subseteq> items"
  shows "staged_from uuid5 sid src items (co_store r)"
  using assms
proof (induction fuel arbitrary: n c m fe d)
  case (Suc fuel)
  show ?case
  proof (cases "fetch n q c (if n = 0 then et else None)")
    case (Inr page)
    obtain o1 m1 d1 where s: "stage_items uuid5 sid src (pg_items page) m d = (o1, m1, d1)" by (metis prod_cases3)
    from Suc.prems(3) [of page] Inr have "set (pg_items page) \<subseteq> items" by simp
    note d1 = stage_items_from [OF s Suc.prems(2) this]
    show ?thesis
    proof (cases "isl o1 \<or> pg_next_cursor page = None")
      case True
      with Suc.prems(1) Inr s d1 show ?thesis by (cases o1) (auto simp: Let_def)
    next
      case False
      then obtain c1 where c1: "pg_next_cursor page = Some c1" "\<not> isl o1" by auto
      with Suc.prems(1) Inr s
      have "collect uuid5 sid src fetch q et fuel (Suc n) (Some c1) m1 (etag_or (pg_etag page) fe) d1 = Some r"
        by (cases o1) (auto simp: Let_def)
      from Suc.IH [OF this d1] Suc.prems(3) Inr c1 show ?thesis by simp
    qed
  qed (use Suc.prems in auto)
qed simp

text \<open>Collecting ends when every next cursor is nearer to the end than the cursor it was asked with.\<close>

lemma collect_returns:
  fixes rank :: "string option \<Rightarrow> nat"
  assumes "\<And>n q c e p c'. fetch n q c e = Inr p \<Longrightarrow> pg_next_cursor p = Some c' \<Longrightarrow> rank (Some c') < rank c"
    and "rank c < fuel"
  shows "\<exists>r. collect uuid5 sid src fetch q et fuel n c mx fe d = Some r"
  using assms(2)
proof (induction fuel arbitrary: n c mx fe d)
  case (Suc fuel)
  show ?case
  proof (cases "\<exists>p c'. fetch n q c (if n = 0 then et else None) = Inr p \<and> pg_next_cursor p = Some c'")
    case True
    then obtain p c' where p: "fetch n q c (if n = 0 then et else None) = Inr p" "pg_next_cursor p = Some c'" by blast
    from assms(1) [OF p] Suc.prems have "rank (Some c') < fuel" by linarith
    then have IH: "\<exists>r. collect uuid5 sid src fetch q et fuel (Suc n) (Some c') mx' fe' d' = Some r" for mx' fe' d' by (rule Suc.IH)
    obtain o1 m1 d1 where st: "stage_items uuid5 sid src (pg_items p) mx d = (o1, m1, d1)" by (metis prod_cases3)
    show ?thesis
    proof (cases o1)
      case (Inr u)
      with p st IH [of m1 "etag_or (pg_etag p) fe" d1] show ?thesis by (simp add: Let_def)
    qed (use p st in \<open>simp add: Let_def\<close>)
  next
    case False
    show ?thesis
    proof (cases "fetch n q c (if n = 0 then et else None)")
      case (Inr p)
      with False have "pg_next_cursor p = None" by auto
      with Inr show ?thesis by (simp add: Let_def split: sum.split prod.split)
    qed simp
  qed
qed simp

end
