(* ===== verification/Routing.thy ===== *)
theory Routing
  imports Polling Policy
begin

text \<open>
  \<^verbatim>\<open>control/sjg_control/routing.py\<close>: compilation of the wake rules and routing of an event to one role.
  The rules file is its bytes, or not a regular file; \<open>safe_load\<close> is the YAML loader.
\<close>

section \<open>Rules\<close>

definition MATCH_FIELDS :: "string list" where
  "MATCH_FIELDS = [''kind'', ''repo'', ''label'', ''workflow'', ''conclusion'', ''pr_state'']"

definition KINDS :: "string list" where
  "KINDS = [''issue'', ''pr'', ''comment'', ''run'']"

definition PR_STATES :: "string list" where
  "PR_STATES = [''open'', ''merged'', ''closed'']"

record wake_rule =
  wl_match :: "(string \<times> string) list"
  wl_wake :: string

record routed_event =
  ev_kind :: string
  ev_repository :: string
  ev_labels :: "string list"
  ev_workflow :: "string option"
  ev_conclusion :: "string option"
  ev_pr_state :: "string option"

datatype rules_file = Not_regular | Rules_bytes string

definition wake_rules_digest :: "(string \<Rightarrow> string) \<Rightarrow> rules_file \<Rightarrow> string result" where
  "wake_rules_digest sha path =
     (case path of Not_regular \<Rightarrow> Inl (RoutingError ''wake rules must be a regular non-symlink file'')
      | Rules_bytes bytes \<Rightarrow> Inr (sha bytes))"

definition WORKFLOW_RE :: re where
  "WORKFLOW_RE = seqs [plus (Cls (\<lambda>c. is_alnum c \<or> c \<in> set ''_.-'')), lit ''.y'', opt (lit ''a''), lit ''ml'']"

definition rule_error :: "nat \<Rightarrow> string \<Rightarrow> exc" where
  "rule_error index what = RoutingError (''wake rule '' @ nat_text index @ what)"

fun normalized_match :: "nat \<Rightarrow> (string \<times> json) list \<Rightarrow> (string \<times> string) list result" where
  "normalized_match index [] = Inr []"
| "normalized_match index ((k, v) # kvs) =
     (case v of
        JStr s \<Rightarrow> (if s = [] \<or> has_control s then Inl (rule_error index ('' has an invalid '' @ k @ '' value''))
                   else bindE (normalized_match index kvs) (\<lambda>rest. Inr ((k, s) # rest)))
      | _ \<Rightarrow> Inl (rule_error index ('' has an invalid '' @ k @ '' value'')))"

definition field_ok :: "(string \<times> string) list \<Rightarrow> string \<Rightarrow> (string \<Rightarrow> bool) \<Rightarrow> bool" where
  "field_ok m k P \<longleftrightarrow> (case map_of m k of None \<Rightarrow> True | Some v \<Rightarrow> P v)"

definition finish_rule :: "organization_policy \<Rightarrow> nat \<Rightarrow> string \<Rightarrow> (string \<times> string) list \<Rightarrow> wake_rule result" where
  "finish_rule policy index wake normalized =
     (if \<not> field_ok normalized ''kind'' (\<lambda>v. v \<in> set KINDS) then Inl (rule_error index '' has an invalid kind'')
      else if \<not> field_ok normalized ''repo'' (\<lambda>v. v \<in> fst ` set (op_repositories policy))
      then Inl (rule_error index '' has an unknown repository alias'')
      else if \<not> field_ok normalized ''pr_state'' (\<lambda>v. v \<in> set PR_STATES)
      then Inl (rule_error index '' has an invalid pull-request state'')
      else if \<not> field_ok normalized ''workflow'' (fullmatch WORKFLOW_RE)
      then Inl (rule_error index '' has an invalid workflow filename'')
      else if wake \<noteq> ''from-label'' \<and> wake \<notin> fst ` set (op_roles policy)
      then Inl (rule_error index '' targets an unknown role'')
      else Inr \<lparr>wl_match = normalized, wl_wake = wake\<rparr>)"

definition compile_rule :: "organization_policy \<Rightarrow> nat \<Rightarrow> json \<Rightarrow> wake_rule result" where
  "compile_rule policy index raw =
     (case raw of
        JObj kvs \<Rightarrow>
          if set (dkeys kvs) \<noteq> {''match'', ''wake''} then Inl (rule_error index '' must contain exactly match and wake'')
          else (case dget kvs ''match'' of
            JObj m \<Rightarrow>
              if m = [] \<or> \<not> set (dkeys m) \<subseteq> set MATCH_FIELDS then Inl (rule_error index '' has invalid match fields'')
              else bindE (normalized_match index m) (finish_rule policy index (py_str (dget kvs ''wake'')))
          | _ \<Rightarrow> Inl (rule_error index '' has invalid match fields''))
      | _ \<Rightarrow> Inl (rule_error index '' must contain exactly match and wake''))"

fun compile_rules :: "organization_policy \<Rightarrow> nat \<Rightarrow> json list \<Rightarrow> wake_rule list result" where
  "compile_rules policy index [] = Inr []"
| "compile_rules policy index (raw # rs) =
     bindE (compile_rule policy index raw) (\<lambda>r. bindE (compile_rules policy (Suc index) rs) (\<lambda>rest. Inr (r # rest)))"

definition DIGEST_RE :: re where
  "DIGEST_RE = rep 64 (Cls is_hex)"

definition rules_of :: "organization_policy \<Rightarrow> json \<Rightarrow> wake_rule list result" where
  "rules_of policy data =
     (case data of
        JObj kvs \<Rightarrow>
          if set (dkeys kvs) \<noteq> {''rules''} then Inl (RoutingError ''wake rules must contain only a rules list'')
          else (case dget kvs ''rules'' of
            JList raws \<Rightarrow>
              bindE (compile_rules policy 0 raws) (\<lambda>compiled.
                if compiled = [] then Inl (RoutingError ''at least one wake rule is required'') else Inr compiled)
          | _ \<Rightarrow> Inl (RoutingError ''wake rules must contain only a rules list''))
      | _ \<Rightarrow> Inl (RoutingError ''wake rules must contain only a rules list''))"

definition load_wake_rules ::
  "(string \<Rightarrow> string) \<Rightarrow> (string \<Rightarrow> json result) \<Rightarrow> rules_file \<Rightarrow> organization_policy \<Rightarrow> string \<Rightarrow> wake_rule list result" where
  "load_wake_rules sha safe_load path policy expected_sha256 =
     (if \<not> fullmatch DIGEST_RE expected_sha256 then Inl (RoutingError ''commissioned wake-rule digest is invalid'')
      else bindE (wake_rules_digest sha path) (\<lambda>digest.
        if digest \<noteq> expected_sha256 then Inl (RoutingError ''wake rules differ from the commissioned digest'')
        else (case safe_load (case path of Rules_bytes bytes \<Rightarrow> bytes | Not_regular \<Rightarrow> []) of
                Inl e \<Rightarrow> Inl (RoutingError (''wake rules are unreadable or invalid: '' @ exc_text e))
              | Inr data \<Rightarrow> rules_of policy data)))"

section \<open>Events\<close>

definition label_name :: "json \<Rightarrow> string list" where
  "label_name item =
     (case (case item of JObj kvs \<Rightarrow> dget kvs ''name'' | _ \<Rightarrow> item) of
        JStr s \<Rightarrow> if s = [] then [] else [s]
      | _ \<Rightarrow> [])"

definition labels_of :: "json \<Rightarrow> string list" where
  "labels_of v = (case v of JList items \<Rightarrow> remdups (concat (map label_name items)) | _ \<Rightarrow> [])"

definition basename :: "string \<Rightarrow> string" where
  "basename path = last (split_on CHR ''/'' path)"

definition nonempty :: "string \<Rightarrow> string option" where
  "nonempty s = (if s = [] then None else Some s)"

definition routed :: "string \<Rightarrow> string \<Rightarrow> string list \<Rightarrow> routed_event" where
  "routed kind repository labels =
     \<lparr>ev_kind = kind, ev_repository = repository, ev_labels = labels, ev_workflow = None, ev_conclusion = None, ev_pr_state = None\<rparr>"

definition normalize_event :: "string \<Rightarrow> json \<Rightarrow> routed_event result" where
  "normalize_event source_id payload =
     (if source_id \<notin> set SOURCE_IDS then Inl (RoutingError (''unknown event source: '' @ source_id))
      else (case payload of
        JObj p \<Rightarrow>
          let repository = (if starts_with ''org-'' source_id then ''org'' else ''product'') in
          if ends_with ''workflow-runs'' source_id then
            (let raw_path = takeWhile (\<lambda>c. c \<noteq> CHR ''@'')
                   (str_or_empty (py_or (dget p ''path'') (dget p ''_sjg_workflow_path''))) in
             Inr ((routed ''run'' repository [])\<lparr>
               ev_workflow := (if raw_path = [] then None else Some (basename raw_path)),
               ev_conclusion := nonempty (str_or_empty (dget p ''conclusion''))\<rparr>))
          else if ends_with ''comments'' source_id then
            (case dget p ''_sjg_parent'' of
               JObj parent \<Rightarrow> Inr (routed ''comment'' repository (labels_of (dget parent ''labels'')))
             | _ \<Rightarrow> Inl (RoutingError ''comment event lacks complete parent enrichment''))
          else if \<not> truthy (dget p ''pull_request'') then Inr (routed ''issue'' repository (labels_of (dget p ''labels'')))
          else
            (let merged = (case dget p ''_sjg_pull_request'' of JObj pull \<Rightarrow> dget pull ''merged_at'' \<noteq> JNull | _ \<Rightarrow> False);
                 state = str_or_empty (dget p ''state'') in
             Inr ((routed ''pr'' repository (labels_of (dget p ''labels'')))\<lparr>
               ev_pr_state := Some (if merged then ''merged'' else if state = ''open'' then ''open'' else ''closed'')\<rparr>))
      | _ \<Rightarrow> Inl (RoutingError ''event payload must be an object'')))"

definition field_value :: "routed_event \<Rightarrow> string \<Rightarrow> string option" where
  "field_value ev k =
     (case map_of [(''kind'', Some (ev_kind ev)), (''repo'', Some (ev_repository ev)), (''workflow'', ev_workflow ev),
        (''conclusion'', ev_conclusion ev), (''pr_state'', ev_pr_state ev)] k of None \<Rightarrow> None | Some v \<Rightarrow> v)"

definition field_matches :: "routed_event \<Rightarrow> string \<Rightarrow> string \<Rightarrow> bool" where
  "field_matches ev k v \<longleftrightarrow> (if k = ''label'' then v \<in> set (ev_labels ev) else field_value ev k = Some v)"

fun rule_matches :: "routed_event \<Rightarrow> (string \<times> string) list \<Rightarrow> bool" where
  "rule_matches ev [] = True"
| "rule_matches ev ((k, expected) # kvs) =
     (if field_matches ev k expected then rule_matches ev kvs else False)"

definition labelled_roles :: "routed_event \<Rightarrow> organization_policy \<Rightarrow> string list" where
  "labelled_roles ev policy =
     sort (remdups (filter (\<lambda>r. r \<in> fst ` set (op_roles policy))
       (map (drop 5) (filter (starts_with ''role:'') (ev_labels ev)))))"

fun route_event :: "routed_event \<Rightarrow> wake_rule list \<Rightarrow> organization_policy \<Rightarrow> string option" where
  "route_event ev [] policy = None"
| "route_event ev (rule # rules) policy =
     (if \<not> rule_matches ev (wl_match rule) then route_event ev rules policy
      else if wl_wake rule \<noteq> ''from-label'' then Some (wl_wake rule)
      else (case labelled_roles ev policy of [r] \<Rightarrow> Some r | _ \<Rightarrow> None))"

section \<open>What compiled rules guarantee\<close>

text \<open>A compiled rule: known fields, distinct from the empty match, and a target that is a role of the
  policy or the label of the event.\<close>

definition rule_ok :: "organization_policy \<Rightarrow> wake_rule \<Rightarrow> bool" where
  "rule_ok policy r \<longleftrightarrow> wl_match r \<noteq> [] \<and> fst ` set (wl_match r) \<subseteq> set MATCH_FIELDS
     \<and> (\<forall>v\<in>snd ` set (wl_match r). v \<noteq> [] \<and> \<not> has_control v)
     \<and> (wl_wake r = ''from-label'' \<or> wl_wake r \<in> fst ` set (op_roles policy))"

lemma normalized_match_Inr:
  assumes "normalized_match index m = Inr n"
  shows "map fst n = map fst m" "\<forall>v\<in>snd ` set n. v \<noteq> [] \<and> \<not> has_control v"
  using assms
proof (induction m arbitrary: n)
  case (Cons kv m)
  obtain k v where kv: "kv = (k, v)" by (cases kv)
  {
    case 1
    with Cons.IH(1) show ?case by (auto simp: kv bindE_eq_Inr split: json.splits if_splits)
  next
    case 2
    with Cons.IH(2) show ?case by (fastforce simp: kv bindE_eq_Inr split: json.splits if_splits)
  }
qed auto

lemma compile_rule_ok: "compile_rule policy index raw = Inr r \<Longrightarrow> rule_ok policy r"
proof -
  assume a: "compile_rule policy index raw = Inr r"
  then obtain kvs m where m: "raw = JObj kvs" "dget kvs ''match'' = JObj m" "m \<noteq> []" "set (dkeys m) \<subseteq> set MATCH_FIELDS"
    by (auto simp: compile_rule_def split: json.splits if_splits)
  with a have "bindE (normalized_match index m) (finish_rule policy index (py_str (dget kvs ''wake''))) = Inr r"
    by (simp add: compile_rule_def split: if_splits)
  then obtain n where n: "normalized_match index m = Inr n" and f: "finish_rule policy index (py_str (dget kvs ''wake'')) n = Inr r"
    by (rule bindE_InrE)
  from f have r: "wl_match r = n" "wl_wake r = ''from-label'' \<or> wl_wake r \<in> fst ` set (op_roles policy)"
    unfolding finish_rule_def by (auto split: if_split_asm intro: rev_image_eqI)
  from normalized_match_Inr [OF n] have "fst ` set n = set (dkeys m)" "n \<noteq> []"
    using m(3) by (metis dkeys_def list.set_map, metis map_is_Nil_conv)
  with normalized_match_Inr(2) [OF n] m r show "rule_ok policy r" by (simp add: rule_ok_def)
qed

lemma compile_rules_ok: "compile_rules policy index raws = Inr rules \<Longrightarrow> list_all (rule_ok policy) rules"
  by (induction raws arbitrary: index rules) (auto simp: bindE_eq_Inr compile_rule_ok)

lemma rules_of_ok: "rules_of policy data = Inr rules \<Longrightarrow> list_all (rule_ok policy) rules \<and> rules \<noteq> []"
proof -
  assume a: "rules_of policy data = Inr rules"
  then obtain kvs where data: "data = JObj kvs" by (cases data) (simp_all add: rules_of_def)
  with a obtain raws where "dget kvs ''rules'' = JList raws"
    by (cases "dget kvs ''rules''") (simp_all add: rules_of_def split: if_split_asm)
  with a data have "bindE (compile_rules policy 0 raws) (\<lambda>compiled.
      if compiled = [] then Inl (RoutingError ''at least one wake rule is required'') else Inr compiled) = Inr rules"
    unfolding rules_of_def by (simp split: if_split_asm)
  then obtain c where "compile_rules policy 0 raws = Inr c"
    and "(if c = [] then Inl (RoutingError ''at least one wake rule is required'') else Inr c) = Inr rules"
    by (rule bindE_InrE)
  then show ?thesis using compile_rules_ok by (cases "c = []") auto
qed

lemma load_wake_rules_ok:
  assumes "load_wake_rules sha safe_load path policy digest = Inr rules"
  shows "list_all (rule_ok policy) rules" "rules \<noteq> []" "\<exists>bytes. path = Rules_bytes bytes \<and> sha bytes = digest"
proof -
  from assms obtain x where d: "wake_rules_digest sha path = Inr x" "x = digest"
    and r: "\<exists>data. rules_of policy data = Inr rules"
    by (auto simp: load_wake_rules_def bindE_eq_Inr split: if_split_asm sum.splits)
  from r rules_of_ok show "list_all (rule_ok policy) rules" "rules \<noteq> []" by blast+
  from d show "\<exists>bytes. path = Rules_bytes bytes \<and> sha bytes = digest"
    by (auto simp: wake_rules_digest_def split: rules_file.splits)
qed

lemma rule_matches_iff: "rule_matches ev m \<longleftrightarrow> list_all (\<lambda>(k, v). field_matches ev k v) m"
  by (induction m) (auto split: if_split_asm)

lemma labelled_roles_set:
  "set (labelled_roles ev policy) = {r \<in> fst ` set (op_roles policy). ''role:'' @ r \<in> set (ev_labels ev)}"
proof -
  have "r \<in> drop 5 ` {l \<in> set (ev_labels ev). starts_with ''role:'' l} \<longleftrightarrow> ''role:'' @ r \<in> set (ev_labels ev)" for r
    by (force simp: starts_with_iff image_iff)
  then show ?thesis by (auto simp: labelled_roles_def)
qed

text \<open>The first rule that matches decides.\<close>

lemma route_event_first:
  "route_event ev rules policy =
    (case find (\<lambda>r. rule_matches ev (wl_match r)) rules of
       None \<Rightarrow> None
     | Some r \<Rightarrow> if wl_wake r \<noteq> ''from-label'' then Some (wl_wake r)
                else (case labelled_roles ev policy of [x] \<Rightarrow> Some x | _ \<Rightarrow> None))"
  by (induction rules) auto

lemma labelled_single:
  "(case labelled_roles ev policy of [x] \<Rightarrow> Some x | _ \<Rightarrow> None) = Some r
   \<longleftrightarrow> {q \<in> fst ` set (op_roles policy). ''role:'' @ q \<in> set (ev_labels ev)} = {r}"
proof -
  have d: "distinct (labelled_roles ev policy)" by (simp add: labelled_roles_def)
  have "set xs = {r} \<longleftrightarrow> xs = [r]" if "distinct xs" for xs :: "string list"
  proof
    assume "set xs = {r}"
    with that show "xs = [r]"
      by (cases xs; cases "tl xs") auto
  qed simp
  with d have "set (labelled_roles ev policy) = {r} \<longleftrightarrow> labelled_roles ev policy = [r]" by blast
  then show ?thesis unfolding labelled_roles_set by (auto split: list.splits)
qed

end
