(* ===== verification/Comm_Rules.thy ===== *)
theory Comm_Rules
  imports Protocol Routing
begin

text \<open>
  What holds of messages on a socket, of the server of a wake, of polling a source, and of
  routing an event.
\<close>

section \<open>Messages\<close>

text \<open>C34: A message that is encoded, sent and received in any segmentation arrives unchanged up to
  the order of its keys, and what follows it stays in the stream for the next read.\<close>

theorem message_roundtrip:
  assumes "plain_json (JObj v)" and "encode_message v = Inr bytes" and "[] \<notin> set conn" and "concat conn = bytes @ later"
  shows "\<exists>v' conn'. receive_message float_of conn = (Inr v', conn') \<and> concat conn' = later
    \<and> set v' = (\<lambda>(k, x). (k, canonical x)) ` set v \<and> sorted (map fst v') \<and> length v' = length v"
proof -
  obtain conn' where "receive_message float_of conn = (Inr (members_of (canonical (JObj v))), conn')" "concat conn' = later"
    using receive_encoded [OF assms, of float_of] by blast
  moreover have "set (members_of (canonical (JObj v))) = (\<lambda>(k, x). (k, canonical x)) ` set v"
    by (simp add: case_prod_beta)
  moreover have "sorted (map fst (members_of (canonical (JObj v))))" "length (members_of (canonical (JObj v))) = length v"
    by simp_all
  ultimately show ?thesis by blast
qed

definition ping :: "(string \<times> json) list" where
  "ping = [(''b'', JInt 7), (''a'', JStr ''x'')]"

lemma ping_chars: "char_of (97::nat) = CHR ''a''" "char_of (98::nat) = CHR ''b''" "char_of (120::nat) = CHR ''x''"
  "char_of (55::nat) = CHR ''7''"
  by code_simp+

lemma ping_facts: "plain_json (JObj ping)" "dumps (JObj ping) = ''{\"a\":\"x\",\"b\":7}''"
  by (simp_all add: ping_def well_encoded_def scalar_def utf8_bytes_def json_text_def json_point_def char_points ping_chars
    int_text_def nat_text.simps digit_char_def)

theorem message_roundtrip_witness:
  "\<exists>v' conn'. receive_message (\<lambda>t. (t, None)) (map (\<lambda>c. [c]) (pack_u32 15 @ ''{\"a\":\"x\",\"b\":7}'' @ ''next'')) = (Inr v', conn')
    \<and> concat conn' = ''next'' \<and> set v' = {(''a'', JStr ''x''), (''b'', JInt 7)} \<and> sorted (map fst v') \<and> length v' = 2"
proof -
  have e: "encode_message ping = Inr (pack_u32 15 @ ''{\"a\":\"x\",\"b\":7}'')"
  proof -
    have "length ''{\"a\":\"x\",\"b\":7}'' = 15" by simp
    then show ?thesis unfolding encode_message_def ping_facts Let_def by (simp only: MAX_MESSAGE_def) simp
  qed
  have c: "concat (map (\<lambda>c. [c]) s) = s" for s :: string by (induction s) simp_all
  have "(\<lambda>(k, x). (k, canonical x)) ` set ping = {(''a'', JStr ''x''), (''b'', JInt 7)}" "length ping = 2"
    by (auto simp: ping_def)
  with message_roundtrip [OF ping_facts(1) e, of "map (\<lambda>c. [c]) (pack_u32 15 @ ''{\"a\":\"x\",\"b\":7}'' @ ''next'')" "''next''"
      "\<lambda>t. (t, None)"] show ?thesis
    unfolding c by auto
qed

text \<open>An answer that does not fit a message, or a peer that is gone, ends the server of the wake: no
  later connection is answered.\<close>

lemma oversized_reply_stops_server:
  assumes "serve_one float_of uid (broker 0) p d = (response, d')" and "encode_message (members_of response) = Inl e"
  shows "serve float_of uid broker None 0 (p # ps) d = (Inl e, [], d')"
  using assms by simp

section \<open>Polling\<close>











text \<open>C36: Polling a source ends. When every next cursor that the source hands out is nearer to its
  end than the cursor it was asked with, as measured by any rank on cursors, the rank of the start is
  a bound on the pages left, and one unit of fuel more gives a result.\<close>

theorem poll_returns:
  fixes rank :: "string option \<Rightarrow> nat"
  assumes "\<And>n q c e p c'. fetch n q c e = Inr p \<Longrightarrow> pg_next_cursor p = Some c' \<Longrightarrow> rank (Some c') < rank c"
  shows "\<exists>r d'. poll_source sha uuid5 fromiso clk uuid (Suc (rank None)) src fetch w d = Some (r, d')"
proof -
  let ?fuel = "Suc (rank None)"
  have c: "\<exists>r. collect uuid5 sid src fetch q et ?fuel 0 None mx fe x = Some r" for sid q et mx fe x
    by (rule collect_returns [of fetch rank]) (use assms in auto)
  then obtain C where "collect uuid5 sid src fetch q et ?fuel 0 None mx fe x = Some (C sid q et mx fe x)" for sid q et mx fe x
    by metis
  then have "\<exists>y. poll_source sha uuid5 fromiso clk uuid ?fuel src fetch w d = Some y"
    unfolding poll_source_def by (simp split: prod.split sum.split option.split del: collect.simps)
  then show ?thesis by auto
qed

definition two_page_source :: fetch where
  "two_page_source n query cursor etag =
     (if cursor = None then Inr \<lparr>pg_items = [[(''number'', JInt 7), (''updated_at'', JStr ''2026-01-02T00:00:00Z'')]],
        pg_next_cursor = Some ''2'', pg_etag = None\<rparr>
      else Inr \<lparr>pg_items = [[(''number'', JInt 8), (''updated_at'', JStr ''2026-01-01T12:00:00Z'')]],
        pg_next_cursor = None, pg_etag = Some ''e''\<rparr>)"

theorem poll_returns_witness:
  "\<exists>r d'. poll_source id id (\<lambda>_. Aware 0) (\<lambda>_. 0) ''s'' (Suc 1) ''org-issues'' two_page_source ''2026-01-01T00:00:00Z'' empty_db = Some (r, d')"
proof -
  let ?rank = "\<lambda>c :: string option. if c = None then 1 else 0 :: nat"
  have "?rank (Some c') < ?rank c" if "two_page_source n q c e = Inr p" "pg_next_cursor p = Some c'" for n q c e p c'
    using that by (auto simp: two_page_source_def split: if_split_asm)
  from poll_returns [of two_page_source ?rank, OF this] show ?thesis by simp
qed




section \<open>Routing\<close>

lemma find_first: "find P xs = Some x \<longleftrightarrow> (\<exists>before after. xs = before @ x # after \<and> list_all (\<lambda>y. \<not> P y) before \<and> P x)"
proof
  show "find P xs = Some x \<Longrightarrow> \<exists>before after. xs = before @ x # after \<and> list_all (\<lambda>y. \<not> P y) before \<and> P x"
  proof (induction xs)
    case (Cons a xs)
    show ?case
    proof (cases "P a")
      case True
      with Cons.prems show ?thesis by (auto intro: exI [of _ "[]"])
    next
      case False
      with Cons obtain before after where "xs = before @ x # after" "list_all (\<lambda>y. \<not> P y) before" "P x" by auto
      with False show ?thesis by (intro exI [of _ "a # before"] exI [of _ after]) simp
    qed
  qed simp
next
  assume "\<exists>before after. xs = before @ x # after \<and> list_all (\<lambda>y. \<not> P y) before \<and> P x"
  then obtain before after where x: "xs = before @ x # after" "list_all (\<lambda>y. \<not> P y) before" "P x" by blast
  from x(2,3) show "find P xs = Some x" unfolding x(1) by (induction before) auto
qed

text \<open>C37: An event is routed by the first rule all of whose fields match it, and only to a role of
  the policy: the role that the rule names, or the one policy role among the labels of the event; an
  event with no or several such labels goes nowhere. Rules load only from a file with the
  commissioned digest.\<close>

theorem routing_is_first_match:
  assumes "load_wake_rules sha safe_load path policy digest = Inr rules"
  shows "(\<exists>bytes. path = Rules_bytes bytes \<and> sha bytes = digest) \<and> rules \<noteq> []
    \<and> (route_event ev rules policy = Some role \<longleftrightarrow>
        (\<exists>before rule after. rules = before @ rule # after
          \<and> list_all (\<lambda>r. \<not> list_all (\<lambda>(k, v). field_matches ev k v) (wl_match r)) before
          \<and> list_all (\<lambda>(k, v). field_matches ev k v) (wl_match rule)
          \<and> role \<in> fst ` set (op_roles policy)
          \<and> (if wl_wake rule = ''from-label''
             then {q \<in> fst ` set (op_roles policy). ''role:'' @ q \<in> set (ev_labels ev)} = {role}
             else wl_wake rule = role)))"
proof -
  note ok = load_wake_rules_ok [OF assms]
  let ?m = "\<lambda>r. rule_matches ev (wl_match r)"
  have known: "wl_wake rule = ''from-label'' \<or> wl_wake rule \<in> fst ` set (op_roles policy)" if "find ?m rules = Some rule" for rule
    using that ok(1) by (auto dest!: find_SomeD simp: list_all_iff rule_ok_def)
  have "route_event ev rules policy = Some role \<longleftrightarrow> (\<exists>rule. find ?m rules = Some rule \<and> role \<in> fst ` set (op_roles policy)
      \<and> (if wl_wake rule = ''from-label''
         then {q \<in> fst ` set (op_roles policy). ''role:'' @ q \<in> set (ev_labels ev)} = {role} else wl_wake rule = role))"
    using known unfolding route_event_first by (cases "find ?m rules") (auto simp: labelled_single)
  then show ?thesis using ok(2,3) unfolding find_first rule_matches_iff by blast
qed

definition routing_policy :: organization_policy where
  "routing_policy = \<lparr>op_org_id = ''o'', op_principal_github = ''p'', op_repositories = [],
     op_roles = [(''delivery-engineer'', \<lparr>rp_role = ''delivery-engineer'', rp_worker_types = {}, rp_max_workers_per_wake = 1,
       rp_max_workers_concurrent = 1, rp_repositories = {}, rp_daily_token_budget = 1\<rparr>)],
     op_source_commit = [], op_control_version = [], op_source_tree_sha256 = [], op_organization_daily_token_budget = 1,
     op_global_max_agents = 1, op_policy_digest = [], op_protected_submission_paths = []\<rparr>"

definition sample_rules :: json where
  "sample_rules = JObj [(''rules'', JList
     [JObj [(''match'', JObj [(''kind'', JStr ''run'')]), (''wake'', JStr ''delivery-engineer'')],
      JObj [(''match'', JObj [(''kind'', JStr ''issue'')]), (''wake'', JStr ''from-label'')]])]"

definition sample_digest :: string where
  "sample_digest = replicate 64 (CHR ''a'')"

lemma sample_rules_load:
  "load_wake_rules (\<lambda>_. sample_digest) (\<lambda>_. Inr sample_rules) (Rules_bytes ''r'') routing_policy sample_digest
    = Inr [\<lparr>wl_match = [(''kind'', ''run'')], wl_wake = ''delivery-engineer''\<rparr>,
           \<lparr>wl_match = [(''kind'', ''issue'')], wl_wake = ''from-label''\<rparr>]"
proof -
  have "fullmatch DIGEST_RE sample_digest" by (simp add: DIGEST_RE_def sample_digest_def fullmatch_rep_Cls is_hex_def list_all_iff)
  moreover have "rules_of routing_policy sample_rules = Inr [\<lparr>wl_match = [(''kind'', ''run'')], wl_wake = ''delivery-engineer''\<rparr>,
      \<lparr>wl_match = [(''kind'', ''issue'')], wl_wake = ''from-label''\<rparr>]" by code_simp
  ultimately show ?thesis by (simp add: load_wake_rules_def wake_rules_digest_def)
qed

theorem routing_is_first_match_witness:
  "route_event (routed ''issue'' ''org'' [''bug'', ''role:delivery-engineer''])
     [\<lparr>wl_match = [(''kind'', ''run'')], wl_wake = ''delivery-engineer''\<rparr>,
      \<lparr>wl_match = [(''kind'', ''issue'')], wl_wake = ''from-label''\<rparr>] routing_policy = Some ''delivery-engineer''"
proof -
  let ?ev = "routed ''issue'' ''org'' [''bug'', ''role:delivery-engineer'']"
  let ?r1 = "\<lparr>wl_match = [(''kind'', ''run'')], wl_wake = ''delivery-engineer''\<rparr>"
  let ?r2 = "\<lparr>wl_match = [(''kind'', ''issue'')], wl_wake = ''from-label''\<rparr>"
  have "\<not> list_all (\<lambda>(k, v). field_matches ?ev k v) (wl_match ?r1)" "list_all (\<lambda>(k, v). field_matches ?ev k v) (wl_match ?r2)"
    by (simp_all add: field_matches_def field_value_def routed_def)
  moreover have "fst ` set (op_roles routing_policy) = {''delivery-engineer''}" by (simp add: routing_policy_def)
  moreover have "{q \<in> {''delivery-engineer''}. ''role:'' @ q \<in> set (ev_labels ?ev)} = {''delivery-engineer''}"
    by (auto simp: routed_def)
  ultimately show ?thesis
    using routing_is_first_match [OF sample_rules_load, of ?ev "''delivery-engineer''"]
    by (intro iffD2 [OF routing_is_first_match [OF sample_rules_load, THEN conjunct2, THEN conjunct2]]
          exI [of _ "[?r1]"] exI [of _ ?r2] exI [of _ "[]"]) simp
qed

end
