(* ===== verification/Host_Rules.thy ===== *)
theory Host_Rules
  imports Host
begin

text \<open>
  What holds of the processes of a session: ending them leaves none running in the store, and what a
  launch leaves behind.
\<close>

section \<open>Ending the processes of a session\<close>

definition outcome :: "(process_runtime \<Rightarrow> group_probe) \<Rightarrow> process_runtime \<Rightarrow> bool result" where
  "outcome probe row = terminate_group (pr_pid row) (pr_birth_token row) (probe row)"

definition closing :: "(process_runtime \<Rightarrow> group_probe) \<Rightarrow> process_runtime \<Rightarrow> string \<Rightarrow> process_runtime \<Rightarrow> process_runtime" where
  "closing probe row t r = r\<lparr>pr_state := (if outcome probe row = Inr True then P_terminated else P_uncertain),
     pr_finished_at := Some t, pr_exit_code := None\<rparr>"

lemma closing_simps [simp]:
  "pr_state (closing probe row t r) = (if outcome probe row = Inr True then P_terminated else P_uncertain)"
  "pr_process_key (closing probe row t r) = pr_process_key r"
  by (simp_all add: closing_def)

text \<open>A process row before and after the rows of a list were ended.\<close>

definition ended :: "(process_runtime \<Rightarrow> group_probe) \<Rightarrow> process_runtime list \<Rightarrow> process_runtime \<Rightarrow> process_runtime \<Rightarrow> bool" where
  "ended probe rows r r' \<longleftrightarrow>
     (if pr_state r = P_running \<and> pr_process_key r \<in> pr_process_key ` set rows
      then (\<exists>row\<in>set rows. \<exists>t. pr_process_key row = pr_process_key r \<and> r' = closing probe row t r)
      else r' = r)"

lemma finish_process_rows:
  assumes "terminal_process_state st = Some s"
  shows "process_runtimes (snd (finish_process now k st x d)) =
    update_where (\<lambda>r. pr_process_key r = k \<and> pr_state r = P_running)
      (\<lambda>r. r\<lparr>pr_state := s, pr_finished_at := Some (utcnow now), pr_exit_code := x\<rparr>) (process_runtimes d)"
  using assms by (simp add: finish_process_def Let_def)

lemma terminal_process_states [simp]:
  "terminal_process_state ''exited'' = Some P_exited" "terminal_process_state ''terminated'' = Some P_terminated"
  "terminal_process_state ''uncertain'' = Some P_uncertain"
  by (simp_all add: terminal_process_state_def)

lemma finish_one:
  assumes "outcome probe row = Inr b"
  shows "list_all2 (ended probe [row]) (process_runtimes d)
    (process_runtimes (snd (finish_process now (pr_process_key row) (if b then ''terminated'' else ''uncertain'') None d)))"
  using assms by (cases b) (auto simp: finish_process_rows update_where_def list_all2_map2 ended_def closing_def list_all2_same)

lemma ended_Cons:
  assumes "ended probe [row] r r1" and "ended probe rows r1 r'" and "pr_process_key row \<notin> pr_process_key ` set rows"
  shows "ended probe (row # rows) r r'"
proof (cases "pr_state r = P_running \<and> pr_process_key r = pr_process_key row")
  case True
  with assms(1) obtain t where r1: "r1 = closing probe row t r" by (auto simp: ended_def)
  then have "pr_state r1 \<noteq> P_running" by simp
  with assms(2) have "r' = r1" by (simp add: ended_def)
  with True r1 show ?thesis unfolding ended_def by (auto intro: bexI [of _ row])
next
  case False
  with assms(1) have "r1 = r" by (auto simp: ended_def split: if_splits)
  with assms(2) False show ?thesis unfolding ended_def by (cases "pr_process_key r = pr_process_key row") (auto split: if_splits)
qed

lemma terminate_rows_ends:
  assumes "terminate_rows probe clk n rows complete d = (Inr c, d')" and "distinct (map pr_process_key rows)"
  shows "list_all2 (ended probe rows) (process_runtimes d) (process_runtimes d')
    \<and> (c \<longleftrightarrow> complete \<and> (\<forall>row\<in>set rows. outcome probe row = Inr True))"
  using assms
proof (induction rows arbitrary: n complete d)
  case Nil
  then show ?case by (auto simp: list_all2_same ended_def)
next
  case (Cons row rows)
  from Cons.prems(1) obtain b where b: "outcome probe row = Inr b"
    by (auto simp: outcome_def split: sum.splits)
  let ?d1 = "snd (finish_process (clk n) (pr_process_key row) (if b then ''terminated'' else ''uncertain'') None d)"
  from Cons.prems(1) b have "terminate_rows probe clk (Suc n) rows (complete \<and> b) ?d1 = (Inr c, d')"
    by (simp add: outcome_def)
  note IH = Cons.IH [OF this] and first = finish_one [OF b, of d "clk n"]
  from Cons.prems(2) have new: "pr_process_key row \<notin> pr_process_key ` set rows" by simp
  have comb: "ended probe [row] x y \<Longrightarrow> ended probe rows y z \<Longrightarrow> ended probe (row # rows) x z" for x y z
    using ended_Cons new by blast
  from Cons.prems(2) IH have "list_all2 (ended probe rows) (process_runtimes ?d1) (process_runtimes d')" by auto
  from list_all2_trans [OF comb first this]
  have "list_all2 (ended probe (row # rows)) (process_runtimes d) (process_runtimes d')" .
  with IH Cons.prems(2) b show ?case by auto
qed

lemma active_processes_set:
  "set (active_processes (Some i) d) = {r \<in> set (process_runtimes d). pr_state r = P_running \<and> pr_session_id r = i}"
proof -
  have "pr_kind r = Worker_process \<or> pr_kind r = Parent_process" for r :: process_runtime by (cases "pr_kind r") auto
  then show ?thesis by (auto simp: active_processes_def Let_def)
qed

lemma active_processes_distinct:
  assumes "distinct (map pr_process_key (process_runtimes d))"
  shows "distinct (map pr_process_key (active_processes s d))"
proof -
  have part: "distinct (map pr_process_key (filter Q (sort_key pr_started_at (filter P (process_runtimes d)))))" for P Q
    using assms by (intro distinct_map_filter) (simp add: distinct_map inj_on_def)
  have "xa = xb" if "xa \<in> set (process_runtimes d)" "xb \<in> set (process_runtimes d)" "pr_process_key xa = pr_process_key xb" for xa xb
    using key_unique [OF assms] that by blast
  then have "pr_kind xa = pr_kind xb"
    if "xa \<in> set (process_runtimes d)" "xb \<in> set (process_runtimes d)" "pr_process_key xa = pr_process_key xb" for xa xb
    using that by blast
  note same_kind = this
  have "pr_process_key ` set (filter (\<lambda>r. pr_kind r = Worker_process) (sort_key pr_started_at (filter P (process_runtimes d))))
    \<inter> pr_process_key ` set (filter (\<lambda>r. pr_kind r = Parent_process) (sort_key pr_started_at (filter P (process_runtimes d)))) = {}" for P
  proof (rule equals0I)
    fix k assume "k \<in> pr_process_key ` set (filter (\<lambda>r. pr_kind r = Worker_process) (sort_key pr_started_at (filter P (process_runtimes d))))
      \<inter> pr_process_key ` set (filter (\<lambda>r. pr_kind r = Parent_process) (sort_key pr_started_at (filter P (process_runtimes d))))"
    then obtain xa xb where "xa \<in> set (process_runtimes d)" "pr_kind xa = Worker_process" "pr_process_key xa = k"
      "xb \<in> set (process_runtimes d)" "pr_kind xb = Parent_process" "pr_process_key xb = k" by auto
    with same_kind [of xa xb] show False by simp
  qed
  then show ?thesis unfolding active_processes_def Let_def map_append distinct_append set_map using part by blast
qed

text \<open>What the probes of a group show. Gone: no birth identity could be read for its leader, before the
  first signal or after the polls (the code takes that for a process that disappeared), or a signal,
  sent while the identity was the recorded one, met no such process. Killed: the leader kept its
  identity and answered every poll of the grace period, and \<open>SIGKILL\<close> was delivered to the group.\<close>

definition outlived :: "group_probe \<Rightarrow> bool" where
  "outlived g \<longleftrightarrow> gp_term g = Delivered \<and> list_all (\<lambda>s. s = Delivered) (gp_polls g)"

definition found_gone :: "int \<Rightarrow> string \<Rightarrow> group_probe \<Rightarrow> bool" where
  "found_gone pid birth g \<longleftrightarrow>
     isl (process_birth_token pid (gp_before g))
     \<or> process_birth_token pid (gp_before g) = Inr birth
       \<and> (gp_term g = No_such_process
          \<or> gp_term g = Delivered \<and> No_such_process \<in> set (gp_polls g)
            \<and> Not_permitted \<notin> set (takeWhile (\<lambda>s. s \<noteq> No_such_process) (gp_polls g))
          \<or> outlived g \<and> (isl (process_birth_token pid (gp_after g))
              \<or> process_birth_token pid (gp_after g) = Inr birth \<and> gp_kill g = No_such_process))"

definition was_killed :: "int \<Rightarrow> string \<Rightarrow> group_probe \<Rightarrow> bool" where
  "was_killed pid birth g \<longleftrightarrow> process_birth_token pid (gp_before g) = Inr birth \<and> outlived g
     \<and> process_birth_token pid (gp_after g) = Inr birth \<and> gp_kill g = Delivered"

lemma poll_gone_True: "poll_gone ps = Inr True \<longleftrightarrow>
    No_such_process \<in> set ps \<and> Not_permitted \<notin> set (takeWhile (\<lambda>s. s \<noteq> No_such_process) ps)"
  by (induction ps rule: poll_gone.induct) auto

lemma poll_gone_False: "poll_gone ps = Inr False \<longleftrightarrow> list_all (\<lambda>s. s = Delivered) ps"
  by (induction ps rule: poll_gone.induct) auto

lemma terminate_group_True:
  "terminate_group pid birth g = Inr True \<longleftrightarrow> found_gone pid birth g \<or> was_killed pid birth g"
proof (cases "process_birth_token pid (gp_before g) = Inr birth \<and> gp_term g = Delivered")
  case True
  then show ?thesis
    by (cases "poll_gone (gp_polls g)"; cases "process_birth_token pid (gp_after g)"; cases "gp_kill g")
      (auto simp: terminate_group_def found_gone_def was_killed_def outlived_def poll_gone_True [symmetric]
        poll_gone_False [symmetric])
next
  case False
  then show ?thesis
    by (cases "process_birth_token pid (gp_before g)"; cases "gp_term g")
      (auto simp: terminate_group_def found_gone_def was_killed_def outlived_def)
qed

definition group_ended :: "(process_runtime \<Rightarrow> group_probe) \<Rightarrow> process_runtime \<Rightarrow> bool" where
  "group_ended probe r \<longleftrightarrow> found_gone (pr_pid r) (pr_birth_token r) (probe r) \<or> was_killed (pr_pid r) (pr_birth_token r) (probe r)"

lemma outcome_True: "outcome probe r = Inr True \<longleftrightarrow> group_ended probe r"
  unfolding outcome_def group_ended_def by (rule terminate_group_True)

text \<open>C38: Ending a session leaves none of its processes running in the store: a process becomes
  terminated when its group was found gone (no readable birth identity, or no such process) or
  \<open>SIGKILL\<close> was delivered to it, and uncertain otherwise;
  the rows of other sessions and of finished processes are untouched, and the call reports success
  exactly when each group of the session was found gone or killed.\<close>

theorem ended_session_is_quiet:
  assumes keys: "distinct (map pr_process_key (process_runtimes d))" and run: "terminate_session probe clk i d = (Inr c, d')"
  shows "active_processes (Some i) d' = []
    \<and> list_all2 (\<lambda>r r'. if pr_state r = P_running \<and> pr_session_id r = i
         then pr_process_key r' = pr_process_key r
           \<and> pr_state r' = (if group_ended probe r then P_terminated else P_uncertain)
         else r' = r) (process_runtimes d) (process_runtimes d')
    \<and> (c \<longleftrightarrow> (\<forall>r\<in>set (active_processes (Some i) d). group_ended probe r))"
proof -
  let ?rows = "active_processes (Some i) d"
  let ?Q = "\<lambda>r r'. if pr_state r = P_running \<and> pr_session_id r = i
     then pr_process_key r' = pr_process_key r \<and> pr_state r' = (if group_ended probe r then P_terminated else P_uncertain)
     else r' = r"
  note e = terminate_rows_ends [OF run [unfolded terminate_session_def] active_processes_distinct [OF keys]]
  have one: "row = r" if "row \<in> set ?rows" "r \<in> set (process_runtimes d)" "pr_process_key row = pr_process_key r" for row r
    using key_unique [OF keys, of row r] that by (simp add: active_processes_set)
  have q: "?Q r r'" if "r \<in> set (process_runtimes d)" "ended probe ?rows r r'" for r r'
  proof (cases "pr_state r = P_running \<and> pr_session_id r = i")
    case True
    with that(1) have "pr_process_key r \<in> pr_process_key ` set ?rows" by (simp add: active_processes_set)
    with that(2) True obtain row t where row: "row \<in> set ?rows" "pr_process_key row = pr_process_key r"
      and r': "r' = closing probe row t r" unfolding ended_def by auto
    from one [OF row(1) that(1) row(2)] True r' show ?thesis by (simp add: outcome_True)
  next
    case False
    then have "r \<notin> set ?rows" by (auto simp: active_processes_set)
    then have "pr_process_key r \<notin> pr_process_key ` set ?rows" using one [OF _ that(1)] by (metis imageE)
    with that(2) False show ?thesis by (simp add: ended_def)
  qed
  have all: "list_all2 ?Q (process_runtimes d) (process_runtimes d')"
    using e q by (blast intro: list.rel_mono_strong)
  have "r' \<notin> set (active_processes (Some i) d')" for r'
  proof
    assume a: "r' \<in> set (active_processes (Some i) d')"
    then obtain k where k: "k < length (process_runtimes d')" "process_runtimes d' ! k = r'"
      by (auto simp: active_processes_set in_set_conv_nth)
    from list_all2_nthD2 [OF all k(1)] have "?Q (process_runtimes d ! k) r'" unfolding k(2) .
    with a show False by (simp add: active_processes_set split: if_split_asm)
  qed
  then have "active_processes (Some i) d' = []" by (metis list.set_intros(1) neq_Nil_conv)
  with all e show ?thesis by (simp add: outcome_True)
qed

definition quiet_probe :: host_probe where
  "quiet_probe = \<lparr>hp_stat = Some (Inl (OSError ''gone'')), hp_boot = Inr [], hp_ps = Inr ([], 1)\<rparr>"

definition ending_probe :: group_probe where
  "ending_probe = \<lparr>gp_before = quiet_probe, gp_term = Delivered, gp_polls = [Delivered, No_such_process],
     gp_after = quiet_probe, gp_kill = Delivered\<rparr>"

definition process_row :: "string \<Rightarrow> string \<Rightarrow> process_kind \<Rightarrow> int \<Rightarrow> string \<Rightarrow> process_runtime" where
  "process_row key session_id kind pid birth =
     \<lparr>pr_process_key = key, pr_session_id = session_id, pr_worker_attempt_id = None, pr_kind = kind, pr_pid = pid, pr_pgid = pid,
      pr_birth_token = birth, pr_state = P_running, pr_started_at = ''t'', pr_finished_at = None, pr_exit_code = None\<rparr>"

definition running_db :: db where
  "running_db = empty_db\<lparr>process_runtimes :=
     [process_row ''parent:s'' ''s'' Parent_process 7 ''posix:Mon Jan 5'', process_row ''worker:a'' ''s'' Worker_process 8 ''posix:other'',
      process_row ''parent:q'' ''q'' Parent_process 9 ''posix:Mon Jan 5'']\<rparr>"

theorem ended_session_is_quiet_witness:
  "fst (terminate_session (\<lambda>_. ending_probe) (\<lambda>_. 0) ''s'' running_db) = Inr True
   \<and> active_processes (Some ''s'') (snd (terminate_session (\<lambda>_. ending_probe) (\<lambda>_. 0) ''s'' running_db)) = []"
proof -
  have f: "fst (terminate_session (\<lambda>_. ending_probe) (\<lambda>_. 0) ''s'' running_db) = Inr True" by code_simp
  have k: "distinct (map pr_process_key (process_runtimes running_db))" by code_simp
  from ended_session_is_quiet [OF k, of "\<lambda>_. ending_probe" "\<lambda>_. 0" "''s''" True] f show ?thesis by (metis prod.collapse)
qed

section \<open>Signals\<close>

text \<open>A group is reported as not ended exactly when the process id had passed to another process.\<close>

lemma terminate_group_False:
  assumes "terminate_group pid birth g = Inr False"
  shows "\<exists>t. t \<noteq> birth \<and> (process_birth_token pid (gp_before g) = Inr t \<or> process_birth_token pid (gp_after g) = Inr t)"
  using assms by (auto simp: terminate_group_def bindE_eq_Inr split: sum.splits if_splits signalled.splits)

section \<open>Usage of a worker\<close>

text \<open>A worker run that the operating system started either adds the tokens that the provider reported
  to the session, or marks the usage of the session as uncertain, or lets another exception through;
  the last leaves no trace in the meter.\<close>

lemma worker_usage_cases:
  assumes "host_run_worker sha limits float_of cfg prepare clk c wt attempt m d = (r, m', d')"
  obtains (added) i n where "m' = add_usage i n m" "0 \<le> n"
  | (doubted) i t where "m' = doubt_usage i m" "r = Inl (WorkerError t)"
  | (raised) e where "m' = m" "r = Inl e"
proof -
  have pos: "0 \<le> n" if "run_child sha limits float_of cfg clk s1 s2 i k kd a c d = (Inr res, x)" "ps_tokens res = Some n" for s1 s2 i k kd a res x n
  proof -
    from that obtain out where "extract_usage limits float_of (hs_provider cfg) out = Inr (Some n)"
      by (auto simp: run_child_def split: sum.splits option.splits prod.splits ending.splits)
    then obtain cs where cs: "n = Max (set (concat (map line_usage cs)))" "concat (map line_usage cs) \<noteq> []"
      by (auto simp: extract_usage_def bindE_eq_Inr Let_def split: if_splits)
    have obj: "0 \<le> y" if "y \<in> set (object_usage it)" for y it
      using that by (auto simp: object_usage_def count_of_def split: option.splits json.splits if_splits)
    have "0 \<le> y" if "y \<in> set (concat (map line_usage cs))" for y
      using that obj by (fastforce simp: line_usage_def split: option.splits json.splits)
    moreover have "n \<in> set (concat (map line_usage cs))" unfolding cs(1) using cs(2) by (intro Max_in) auto
    ultimately show ?thesis by blast
  qed
  show thesis
    using assms pos added doubted raised
    by (auto simp: host_run_worker_def Let_def split: option.splits sum.splits prod.splits exc.splits)
qed

end
