(* ===== verification/Effects.thy ===== *)
theory Effects
  imports Store
begin

text \<open>
  Sequencing of calls that may raise, over any state: the shape of \<open>try\<close> statements and of calls one after the
  other, as the supervisor writes them. An action maps a state to its result and the state afterwards; the store
  operations are the actions over \<open>db\<close>. \<open>runs\<close> is the closure of the store's calls, and an action that is built from store calls
  moves the database along it.
\<close>

type_synonym ('s, 'a) act = "'s \<Rightarrow> 'a result \<times> 's"

section \<open>Sequencing\<close>

definition returning :: "'a \<Rightarrow> ('s, 'a) act" where
  "returning x s = (Inr x, s)"

definition raising :: "exc \<Rightarrow> ('s, 'a) act" where
  "raising e s = (Inl e, s)"

definition checked :: "'a result \<Rightarrow> ('s, 'a) act" where
  "checked r s = (r, s)"

definition assigning :: "('s \<Rightarrow> 's) \<Rightarrow> ('s, unit) act" where
  "assigning f s = (Inr (), f s)"

definition reading :: "('s \<Rightarrow> 'a) \<Rightarrow> ('s, 'a) act" where
  "reading f s = (Inr (f s), s)"

definition andthen :: "('s, 'a) act \<Rightarrow> ('a \<Rightarrow> ('s, 'b) act) \<Rightarrow> ('s, 'b) act" where
  "andthen m f s = (case m s of (Inl e, s') \<Rightarrow> (Inl e, s') | (Inr x, s') \<Rightarrow> f x s')"

definition recovering :: "('s, 'a) act \<Rightarrow> (exc \<Rightarrow> ('s, 'a) act) \<Rightarrow> ('s, 'a) act" where
  "recovering m h s = (case m s of (Inl e, s') \<Rightarrow> h e s' | (Inr x, s') \<Rightarrow> (Inr x, s'))"

definition is_state_error :: "exc \<Rightarrow> bool" where
  "is_state_error e = (case e of StateError _ \<Rightarrow> True | _ \<Rightarrow> False)"

text \<open>\<open>try: m except StateError: pass\<close>\<close>

definition ignoring_state_error :: "('s, unit) act \<Rightarrow> ('s, unit) act" where
  "ignoring_state_error m = recovering m (\<lambda>e. if is_state_error e then returning () else raising e)"

definition provided :: "bool \<Rightarrow> ('s, unit) act \<Rightarrow> ('s, unit) act" where
  "provided b m = (if b then m else returning ())"

fun each :: "('a \<Rightarrow> ('s, 'b) act) \<Rightarrow> 'a list \<Rightarrow> ('s, 'b list) act" where
  "each f [] = returning []"
| "each f (x # xs) = andthen (f x) (\<lambda>y. andthen (each f xs) (\<lambda>ys. returning (y # ys)))"

text \<open>An operation on one component of the state.\<close>

definition zoom :: "('s \<Rightarrow> 't) \<Rightarrow> ('t \<Rightarrow> 's \<Rightarrow> 's) \<Rightarrow> ('t, 'a) act \<Rightarrow> ('s, 'a) act" where
  "zoom get put m s = (case m (get s) of (r, t) \<Rightarrow> (r, put t s))"

lemma andthen_Inr: "andthen m f s = (Inr y, s'') \<longleftrightarrow> (\<exists>x s'. m s = (Inr x, s') \<and> f x s' = (Inr y, s''))"
  by (auto simp: andthen_def split: sum.splits prod.splits)

lemma andthen_Inl:
  "andthen m f s = (Inl e, s'') \<longleftrightarrow> m s = (Inl e, s'') \<or> (\<exists>x s'. m s = (Inr x, s') \<and> f x s' = (Inl e, s''))"
  by (auto simp: andthen_def split: sum.splits prod.splits)

lemma recovering_Inr:
  "recovering m h s = (Inr y, s'') \<longleftrightarrow> m s = (Inr y, s'') \<or> (\<exists>e s'. m s = (Inl e, s') \<and> h e s' = (Inr y, s''))"
  by (auto simp: recovering_def split: sum.splits prod.splits)

lemma recovering_Inl:
  "recovering m h s = (Inl e, s'') \<longleftrightarrow> (\<exists>e' s'. m s = (Inl e', s') \<and> h e' s' = (Inl e, s''))"
  by (auto simp: recovering_def split: sum.splits prod.splits)

lemma returning_iff [simp]: "returning x s = (r, s') \<longleftrightarrow> r = Inr x \<and> s' = s"
  by (auto simp: returning_def)

lemma raising_iff [simp]: "raising e s = (r, s') \<longleftrightarrow> r = Inl e \<and> s' = s"
  by (auto simp: raising_def)

lemma checked_iff [simp]: "checked r s = (r', s') \<longleftrightarrow> r' = r \<and> s' = s"
  by (auto simp: checked_def)

lemma assigning_iff [simp]: "assigning f s = (r, s') \<longleftrightarrow> r = Inr () \<and> s' = f s"
  by (auto simp: assigning_def)

lemma reading_iff [simp]: "reading f s = (r, s') \<longleftrightarrow> r = Inr (f s) \<and> s' = s"
  by (auto simp: reading_def)

lemma ignoring_Inr:
  "ignoring_state_error m s = (Inr y, s') \<longleftrightarrow> m s = (Inr (), s') \<or> (\<exists>e. m s = (Inl e, s') \<and> is_state_error e)"
  by (auto simp: ignoring_state_error_def recovering_Inr split: if_splits)

lemmas act_simps = andthen_Inr andthen_Inl recovering_Inr recovering_Inl

section \<open>Relations that an action respects\<close>

text \<open>A reflexive and transitive relation that the parts of an action respect is respected by the action.\<close>

definition stepping :: "('s \<Rightarrow> 's \<Rightarrow> bool) \<Rightarrow> ('s, 'a) act \<Rightarrow> bool" where
  "stepping R m \<longleftrightarrow> (\<forall>s. R s (snd (m s)))"

locale steps =
  fixes R :: "'s \<Rightarrow> 's \<Rightarrow> bool"
  assumes refl: "R s s" and trans: "R s t \<Longrightarrow> R t u \<Longrightarrow> R s u"
begin

lemma stepping_returning [intro]: "stepping R (returning x)"
  by (simp add: stepping_def returning_def refl)

lemma stepping_raising [intro]: "stepping R (raising e)"
  by (simp add: stepping_def raising_def refl)

lemma stepping_checked [intro]: "stepping R (checked r)"
  by (simp add: stepping_def checked_def refl)

lemma stepping_andthen [intro]:
  assumes "stepping R m" and "\<And>x. stepping R (f x)"
  shows "stepping R (andthen m f)"
  unfolding stepping_def
proof
  fix s
  show "R s (snd (andthen m f s))"
  proof (cases "m s")
    case (Pair r t)
    with assms(1) have "R s t" unfolding stepping_def by (metis snd_conv)
    then show ?thesis using assms(2) Pair trans
      by (cases r) (auto simp: andthen_def stepping_def)
  qed
qed

lemma stepping_recovering [intro]:
  assumes "stepping R m" and "\<And>e. stepping R (h e)"
  shows "stepping R (recovering m h)"
  unfolding stepping_def
proof
  fix s
  show "R s (snd (recovering m h s))"
  proof (cases "m s")
    case (Pair r t)
    with assms(1) have "R s t" unfolding stepping_def by (metis snd_conv)
    then show ?thesis using assms(2) Pair trans
      by (cases r) (auto simp: recovering_def stepping_def)
  qed
qed

lemma stepping_ignoring [intro]: "stepping R m \<Longrightarrow> stepping R (ignoring_state_error m)"
  unfolding ignoring_state_error_def by (intro stepping_recovering) auto

lemma stepping_provided [intro]: "stepping R m \<Longrightarrow> stepping R (provided b m)"
  by (auto simp: provided_def)

lemma stepping_if [intro]: "stepping R m \<Longrightarrow> stepping R n \<Longrightarrow> stepping R (if b then m else n)"
  by simp

lemma stepping_option [intro]:
  "stepping R m \<Longrightarrow> (\<And>x. stepping R (f x)) \<Longrightarrow> stepping R (case v of None \<Rightarrow> m | Some x \<Rightarrow> f x)"
  by (cases v) auto

lemma stepping_sum [intro]:
  "(\<And>x. stepping R (f x)) \<Longrightarrow> (\<And>y. stepping R (g y)) \<Longrightarrow> stepping R (case v of Inl x \<Rightarrow> f x | Inr y \<Rightarrow> g y)"
  by (cases v) auto

lemma stepping_reading [intro]: "stepping R (reading f)"
  by (simp add: stepping_def reading_def refl)

lemma stepping_assigning: "(\<And>s. R s (f s)) \<Longrightarrow> stepping R (assigning f)"
  by (simp add: stepping_def assigning_def)

lemma stepping_pure [intro]: "stepping R (\<lambda>s. (f s, s))"
  by (simp add: stepping_def refl)

lemma stepping_pairD: "stepping R m \<Longrightarrow> m s = (r, s') \<Longrightarrow> R s s'"
  by (metis stepping_def snd_conv)

lemma stepping_each [intro]: "(\<And>x. stepping R (f x)) \<Longrightarrow> stepping R (each f xs)"
  by (induction xs) auto

end

section \<open>Store calls\<close>

definition store_step :: "int \<Rightarrow> (string \<Rightarrow> string) \<Rightarrow> db \<Rightarrow> db \<Rightarrow> bool" where
  "store_step cap uuid5 d d' \<longleftrightarrow> (\<exists>e. admissible e d \<and> d' = store_run cap uuid5 e d)"

definition runs :: "int \<Rightarrow> (string \<Rightarrow> string) \<Rightarrow> db \<Rightarrow> db \<Rightarrow> bool" where
  "runs cap uuid5 = (store_step cap uuid5)\<^sup>*\<^sup>*"

lemma runs_refl: "runs cap uuid5 d d"
  by (simp add: runs_def)

lemma runs_trans: "runs cap uuid5 d d' \<Longrightarrow> runs cap uuid5 d' d'' \<Longrightarrow> runs cap uuid5 d d''"
  by (simp add: runs_def)

lemma runs_reachable:
  assumes "runs cap uuid5 d d'" and "reachable cap uuid5 d"
  shows "reachable cap uuid5 d'"
  using assms(1) unfolding runs_def
  by induction (auto simp: assms(2) store_step_def intro: reachable.call)

interpretation store_calls: steps "runs cap uuid5" for cap uuid5
  by unfold_locales (rule runs_refl, rule runs_trans)

lemma runs_call:
  assumes "admissible e d"
  shows "runs cap uuid5 d (store_run cap uuid5 e d)"
proof -
  have "store_step cap uuid5 d (store_run cap uuid5 e d)" using assms by (auto simp: store_step_def)
  then show ?thesis unfolding runs_def by (rule r_into_rtranclp)
qed

lemma runs_session: "starts_live e d \<Longrightarrow> runs cap uuid5 d (session_run cap e d)"
  using runs_call [of "Session e" d cap uuid5] by (simp add: admissible_def)

lemma runs_budget: "runs cap uuid5 d (budget_run e d)"
  using runs_call [of "Budget e" d cap uuid5] by (simp add: admissible_def)

lemma runs_journal: "runs cap uuid5 d (journal_run e d)"
  using runs_call [of "Journal e" d cap uuid5] by (simp add: admissible_def)

lemma runs_source: "runs cap uuid5 d (source_run uuid5 e d)"
  using runs_call [of "Source e" d cap uuid5] by (simp add: admissible_def)

lemma runs_queue: "runs cap uuid5 d (queue_run e d)"
  using runs_call [of "Queue e" d cap uuid5] by (simp add: admissible_def)

lemma runs_runtime: "runs cap uuid5 d (runtime_run e d)"
  using runs_call [of "Runtime e" d cap uuid5] by (simp add: admissible_def)

text \<open>The operations as actions.\<close>

lemma calls_session:
  "stepping (runs cap uuid5) (create_session now u1 u2 org_id role dig al w ttl cap)"
  "stepping (runs cap uuid5) (revoke_session i)"
  "stepping (runs cap uuid5) (finish_session i)"
  "stepping (runs cap uuid5) (force_terminate_session now i expired)"
  "stepping (runs cap uuid5) (reserve_worker now1 now2 u i wt m n cap)"
  using runs_session [where cap = cap and e = "Create_session now u1 u2 org_id role dig al w ttl"]
    runs_session [where cap = cap and e = "Revoke_session i"]
    runs_session [where cap = cap and e = "Finish_session i"]
    runs_session [where cap = cap and e = "Force_terminate now i expired"]
    runs_session [where cap = cap and e = "Reserve_worker now1 now2 u i wt m n"]
  by (simp_all add: stepping_def starts_live_def)

lemma calls_budget:
  "stepping (runs cap uuid5) (reserve_budget now u i epoch n buckets)"
  "stepping (runs cap uuid5) (settle_budget rid n)"
  "stepping (runs cap uuid5) (mark_budget_uncertain rid)"
  using runs_budget [where e = "Reserve_budget now u i epoch n buckets"] runs_budget [where e = "Settle_budget rid n"]
    runs_budget [where e = "Mark_uncertain rid"]
  by (simp_all add: stepping_def)

lemma calls_journal:
  "stepping (runs cap uuid5) (reserve_request now i k op h a)"
  "stepping (runs cap uuid5) (mark_request_applying now k)"
  "stepping (runs cap uuid5) (abandon_read_request k)"
  "stepping (runs cap uuid5) (finish_request now k st r)"
  "runs cap uuid5 d (audit now sn op dec det hash d)"
  using runs_journal [where e = "Reserve_request now i k op h a"] runs_journal [where e = "Mark_applying now k"]
    runs_journal [where e = "Abandon_read k"] runs_journal [where e = "Finish_request now k st r"]
    runs_journal [where e = "Audit now sn op dec det hash"]
  by (simp_all add: stepping_def)

lemma calls_source:
  "runs cap uuid5 d (snd (checkpoint s w d))"
  "stepping (runs cap uuid5) (begin_snapshot now u s)"
  "stepping (runs cap uuid5) (stage_observation uuid5 sid s e v t p)"
  "stepping (runs cap uuid5) (finish_snapshot now sid c pc mx nw qf et er)"
  "stepping (runs cap uuid5) (set_supervisor_value now key val)"
  using runs_source [where e = "Checkpoint s w"] runs_source [where e = "Begin_snapshot now u s"]
    runs_source [where e = "Stage_observation sid s e v t p"] runs_source [where e = "Finish_snapshot now sid c pc mx nw qf et er"]
    runs_source [where e = "Set_value now key val"]
  by (simp_all add: stepping_def)

lemma calls_queue:
  "stepping (runs cap uuid5) (finish_event_routing e role_of)"
  "stepping (runs cap uuid5) (enqueue_delivery now u role es k el)"
  "stepping (runs cap uuid5) (lease_delivery now own secs m)"
  "stepping (runs cap uuid5) (start_delivery ts i own)"
  "stepping (runs cap uuid5) (finish_delivery now i own oc err el)"
  "stepping (runs cap uuid5) (force_delivery_uncertain i detail)"
  using runs_queue [where e = "Finish_routing e role_of"] runs_queue [where e = "Enqueue now u role es k el"]
    runs_queue [where e = "Lease now own secs m"] runs_queue [where e = "Start_delivery ts i own"]
    runs_queue [where e = "Finish_delivery now i own oc err el"] runs_queue [where e = "Force_uncertain i detail"]
  by (simp_all add: stepping_def)

lemma calls_runtime:
  "stepping (runs cap uuid5) (prepare_wake now sn del rid sock reason)"
  "stepping (runs cap uuid5) (mark_wake_running w)"
  "stepping (runs cap uuid5) (finish_wake now w st h err)"
  "stepping (runs cap uuid5) (record_process now pk i a kind pid pgid tok)"
  "stepping (runs cap uuid5) (finish_process now pk st code)"
  "stepping (runs cap uuid5) (recover_orphan_session i del el detail)"
  "stepping (runs cap uuid5) (recover_prepared_wake now w elg detail)"
  "runs cap uuid5 d (doubt_wake now i d)"
  using runs_runtime [where e = "Prepare_wake now sn del rid sock reason"] runs_runtime [where e = "Mark_wake_running w"]
    runs_runtime [where e = "Finish_wake now w st h err"] runs_runtime [where e = "Record_process now pk i a kind pid pgid tok"]
    runs_runtime [where e = "Finish_process now pk st code"] runs_runtime [where e = "Recover_orphan i del el detail"]
    runs_runtime [where e = "Recover_prepared now w elg detail"] runs_runtime [where e = "Doubt_wake now i"]
  by (simp_all add: stepping_def)

lemmas calls = calls_session calls_budget calls_journal(1-4) calls_source(2-5) calls_queue calls_runtime(1-7)

end
