(* ===== verification/Ticks.thy ===== *)
theory Ticks
  imports Supervisor
begin

text \<open>
  \<^verbatim>\<open>control/sjg_control/supervisor.py\<close>, the operations of the owner: \<open>_terminate_wake\<close>, \<open>pause\<close>, \<open>resume\<close>,
  \<open>recover\<close>, \<open>status\<close> and \<open>tick\<close>. The deliveries that a tick leased run in threads of their own; here they run
  one after the other, and what happens between the calls of one of them is in its \<open>wi_early\<close> and \<open>wi_meanwhile\<close>.
\<close>

section \<open>Ending wakes\<close>

definition terminate_wake ::
  "(process_runtime \<Rightarrow> group_probe) \<Rightarrow> (nat \<Rightarrow> instant) \<Rightarrow> string \<Rightarrow> string \<Rightarrow> bool op" where
  "terminate_wake probe clk reason session_id =
     andthen (terminate_session probe (\<lambda>n. clk (Suc n)) session_id) (\<lambda>terminated.
     andthen (reading (\<lambda>d. find (\<lambda>r. wr_session_id r = session_id) (wake_runtimes d))) (\<lambda>found.
     case found of
       None \<Rightarrow> returning terminated
     | Some wake \<Rightarrow>
         if terminated then
           andthen (case wr_delivery_id wake of None \<Rightarrow> returning ()
                    | Some i \<Rightarrow> provided (i \<noteq> []) (ignoring_state_error (force_delivery_uncertain i reason))) (\<lambda>_.
           andthen (force_terminate_session (clk 0) session_id False) (\<lambda>_. returning True))
         else andthen (assigning (doubt_wake (clk 0) session_id)) (\<lambda>_. returning False)))"

record pause_summary =
  pa_terminated_wakes :: nat
  pa_uncertain :: nat

definition pause ::
  "(process_runtime \<Rightarrow> group_probe) \<Rightarrow> instant \<Rightarrow> (string \<Rightarrow> nat \<Rightarrow> instant) \<Rightarrow> pause_summary op" where
  "pause probe now clk =
     andthen (set_supervisor_value now ''paused'' (JBool True)) (\<lambda>_.
     andthen (reading (map (wr_session_id \<circ> fst) \<circ> active_wakes)) (\<lambda>active.
     andthen (each (\<lambda>i. terminate_wake probe (clk i) ''operator pause'' i) active) (\<lambda>ended.
       returning \<lparr>pa_terminated_wakes = length (filter id ended), pa_uncertain = length (filter Not ended)\<rparr>)))"

definition resume :: "instant \<Rightarrow> unit op" where
  "resume now = set_supervisor_value now ''paused'' (JBool False)"

text \<open>One wake of the list that \<open>recover\<close> has read: whether it was recovered.\<close>

definition recover_wake ::
  "(process_runtime \<Rightarrow> group_probe) \<Rightarrow> (nat \<Rightarrow> instant) \<Rightarrow> wake_runtime \<Rightarrow> bool op" where
  "recover_wake probe clk wake =
     andthen (reading (\<lambda>d. list_ex (\<lambda>r. pr_session_id r = wr_session_id wake) (process_runtimes d))) (\<lambda>has_process.
       if wr_state wake = K_prepared \<and> \<not> has_process
       then andthen (recover_prepared_wake (clk 1) (wr_wake_id wake) (retry_time (clk 0)) ''supervisor stopped before provider start'')
              (\<lambda>_. returning True)
       else terminate_wake probe clk ''supervisor restart recovery'' (wr_session_id wake))"

record recovery_summary =
  rv_recovered :: nat
  rv_uncertain :: nat

definition supervisor_recover ::
  "(process_runtime \<Rightarrow> group_probe) \<Rightarrow> (string \<Rightarrow> nat \<Rightarrow> instant) \<Rightarrow> recovery_summary op" where
  "supervisor_recover probe clk =
     andthen (reading (map ws_session_id \<circ> orphan_sessions)) (\<lambda>orphans.
     andthen (reading (map fst \<circ> active_wakes)) (\<lambda>wakes.
     andthen (each (\<lambda>i. recover_orphan_session i None None ''supervisor stopped before wake preparation'') orphans) (\<lambda>_.
     andthen (each (\<lambda>w. recover_wake probe (clk (wr_session_id w)) w) wakes) (\<lambda>ended.
       returning \<lparr>rv_recovered = length orphans + length (filter id ended), rv_uncertain = length (filter Not ended)\<rparr>))))"

record status_summary =
  su_mode :: string
  su_paused :: bool
  su_active_wakes :: nat
  su_uncertain_wakes :: nat
  su_active_sessions :: nat
  su_queued_deliveries :: nat
  su_uncertain_deliveries :: nat
  su_dead_letters :: nat
  su_pending_verifications :: nat
  su_policy_digest :: string
  su_control_version :: string

definition supervisor_status :: "supervisor_settings \<Rightarrow> organization_policy \<Rightarrow> db \<Rightarrow> status_summary" where
  "supervisor_status cfg policy d =
     \<lparr>su_mode = sp_mode cfg, su_paused = truthy (supervisor_value ''paused'' (JBool False) d),
      su_active_wakes = count_where open_wake (wake_runtimes d),
      su_uncertain_wakes = count_where (\<lambda>r. wr_state r = K_uncertain) (wake_runtimes d),
      su_active_sessions = count_where active_session (wake_sessions d),
      su_queued_deliveries = count_where (\<lambda>r. dv_state r \<in> {D_queued, D_retry_wait, D_budget_hold}) (deliveries d),
      su_uncertain_deliveries = count_where (\<lambda>r. dv_state r = D_uncertain) (deliveries d),
      su_dead_letters = count_where (\<lambda>r. dv_state r = D_dead_letter) (deliveries d),
      su_pending_verifications = count_where (\<lambda>r. br_state r = R_verify_pending) (broker_requests d)
        + count_where (\<lambda>r. rc_state r = C_verify_pending) (reconcile_operations d),
      su_policy_digest = op_policy_digest policy, su_control_version = op_control_version policy\<rparr>"

section \<open>Polling, routing and queueing\<close>

text \<open>The polls of the five sources; a poll whose page loop does not end is \<open>None\<close>.\<close>

fun poll_all ::
  "(string \<Rightarrow> db \<Rightarrow> (poll_result result \<times> db) option) \<Rightarrow> string list \<Rightarrow> db \<Rightarrow> (poll_result list result \<times> db) option" where
  "poll_all poll [] d = Some (Inr [], d)"
| "poll_all poll (src # srcs) d =
     (case poll src d of
        None \<Rightarrow> None
      | Some (Inl e, d') \<Rightarrow> Some (Inl e, d')
      | Some (Inr r, d') \<Rightarrow>
          (case poll_all poll srcs d' of
             None \<Rightarrow> None
           | Some (Inl e, d'') \<Rightarrow> Some (Inl e, d'')
           | Some (Inr rs, d'') \<Rightarrow> Some (Inr (r # rs), d'')))"

definition route_observed :: "organization_policy \<Rightarrow> wake_rule list \<Rightarrow> observed_event \<Rightarrow> bool op" where
  "route_observed policy rules row =
     andthen (checked (case normalize_event (oe_source_id row) (oe_payload row) of
                Inr ev \<Rightarrow> Inr (route_event ev rules policy)
              | Inl (RoutingError _) \<Rightarrow> Inr None
              | Inl e \<Rightarrow> Inl e)) (\<lambda>role.
     andthen (finish_event_routing (oe_event_id row) role) (\<lambda>_. returning (role \<noteq> None)))"

definition pending_by_role :: "organization_policy \<Rightarrow> db \<Rightarrow> (string \<times> string list) list result" where
  "pending_by_role policy d =
     bindE (mapE (\<lambda>role. bindE (pending_routes role MAX_EVENTS_PER_WAKE d) (\<lambda>rows. Inr (role, map fst rows)))
              (sort (map fst (op_roles policy)))) (\<lambda>found. Inr (filter (\<lambda>p. snd p \<noteq> []) found))"

record tick_inputs =
  ti_busy :: bool
  ti_fuel :: nat
  ti_fetch :: "string \<Rightarrow> fetch"
  ti_clk :: "string \<Rightarrow> nat \<Rightarrow> instant"
  ti_uuid :: "string \<Rightarrow> string"
  ti_lease_clk :: "nat \<Rightarrow> instant"
  ti_wake :: "delivery \<Rightarrow> wake_inputs"

definition enqueue_role ::
  "(string \<Rightarrow> string) \<Rightarrow> tick_inputs \<Rightarrow> string \<times> string list \<Rightarrow> (string \<times> string) op" where
  "enqueue_role sha ti p =
     andthen (enqueue_delivery (ti_clk ti (fst p) 0) (ti_uuid ti (fst p)) (fst p) (snd p) (route_key sha (fst p) (snd p)) None)
       (\<lambda>i. returning (i, fst p))"

record tick_summary =
  tk_preview :: bool
  tk_paused :: bool
  tk_sources :: "poll_result list"
  tk_routed :: nat
  tk_ignored :: nat
  tk_planned :: "(string \<times> string) list"
  tk_wakes :: "wake_report list"

definition route_and_queue ::
  "(string \<Rightarrow> string) \<Rightarrow> organization_policy \<Rightarrow> wake_rule list \<Rightarrow> tick_inputs \<Rightarrow> bool \<Rightarrow> poll_result list \<Rightarrow> tick_summary op" where
  "route_and_queue sha policy rules ti shadow polled =
     andthen (\<lambda>d. (unrouted_events 500 d, d)) (\<lambda>rows.
     andthen (each (route_observed policy rules) rows) (\<lambda>flags.
     andthen (\<lambda>d. (pending_by_role policy d, d)) (\<lambda>pending.
     andthen (each (enqueue_role sha ti) pending) (\<lambda>queued.
       returning \<lparr>tk_preview = shadow, tk_paused = False, tk_sources = polled, tk_routed = length (filter id flags),
         tk_ignored = length (filter Not flags), tk_planned = queued, tk_wakes = []\<rparr>))))"

definition tick_plan ::
  "(string \<Rightarrow> string) \<Rightarrow> (string \<Rightarrow> string) \<Rightarrow> (string \<Rightarrow> moment) \<Rightarrow> supervisor_settings \<Rightarrow> organization_policy \<Rightarrow> wake_rule list
     \<Rightarrow> tick_inputs \<Rightarrow> bool \<Rightarrow> db \<Rightarrow> (tick_summary result \<times> db) option" where
  "tick_plan sha uuid5 fromiso cfg policy rules ti shadow d =
     (if truthy (supervisor_value ''paused'' (JBool False) d)
      then Some (Inr \<lparr>tk_preview = shadow, tk_paused = True, tk_sources = [], tk_routed = 0, tk_ignored = 0, tk_planned = [],
                   tk_wakes = []\<rparr>, d)
      else (case poll_all (\<lambda>src. poll_source sha uuid5 fromiso (ti_clk ti src) (ti_uuid ti src) (ti_fuel ti) src (ti_fetch ti src)
                    (sp_initial_watermark cfg)) SOURCE_IDS d of
              None \<Rightarrow> None
            | Some (Inl e, d') \<Rightarrow> Some (Inl e, d')
            | Some (Inr polled, d') \<Rightarrow> Some (route_and_queue sha policy rules ti shadow polled d')))"

section \<open>Leasing\<close>

text \<open>\<open>for _index in range(max_wakes)\<close>: the remaining rounds, and what was leased so far.\<close>

fun lease_loop ::
  "supervisor_settings \<Rightarrow> (nat \<Rightarrow> instant) \<Rightarrow> int \<Rightarrow> nat \<Rightarrow> delivery list \<Rightarrow> delivery list op" where
  "lease_loop cfg clk limit 0 leased = returning leased"
| "lease_loop cfg clk limit (Suc n) leased =
     andthen (lease_delivery (clk (3 * n)) (sp_owner cfg) (sp_delivery_lease_seconds cfg) 3) (\<lambda>found.
     case found of
       None \<Rightarrow> returning leased
     | Some dv \<Rightarrow>
         if dv_role dv \<in> dv_role ` set leased then
           andthen (finish_delivery (clk (3 * n + 2)) (dv_delivery_id dv) (sp_owner cfg) ''retry''
                      (Some ''role already selected for this tick'') (Some (retry_time (clk (3 * n + 1))))) (\<lambda>_.
             lease_loop cfg clk limit n leased)
         else if int (length (leased @ [dv])) \<ge> limit then returning (leased @ [dv])
         else lease_loop cfg clk limit n (leased @ [dv]))"

section \<open>A tick\<close>

fun run_all :: "('a \<Rightarrow> ('s, 'b) act) \<Rightarrow> 'a list \<Rightarrow> 's \<Rightarrow> 'b result list \<times> 's" where
  "run_all f [] s = ([], s)"
| "run_all f (x # xs) s =
     (case f x s of (r, s') \<Rightarrow> (case run_all f xs s' of (rs, s'') \<Rightarrow> (r # rs, s'')))"

definition py_take :: "int \<Rightarrow> 'a list \<Rightarrow> 'a list" where
  "py_take n xs = take (nat (if n < 0 then int (length xs) + n else n)) xs"

definition tick_live ::
  "(string \<Rightarrow> string) \<Rightarrow> (string \<Rightarrow> exc option) \<Rightarrow> (string \<Rightarrow> string \<times> int option) \<Rightarrow> supervisor_settings \<Rightarrow> organization_policy
     \<Rightarrow> tick_inputs \<Rightarrow> int \<Rightarrow> tick_summary \<Rightarrow> (frame, tick_summary) act" where
  "tick_live sha limits float_of cfg policy ti max_wakes summary =
     andthen (on_store (lease_loop cfg (ti_lease_clk ti)
                (min max_wakes (min (op_global_max_agents policy) (int (length (op_roles policy))))) (nat max_wakes) [])) (\<lambda>leased.
     andthen (\<lambda>s. case run_all (\<lambda>dv. run_delivery sha limits float_of cfg policy (ti_wake ti dv) dv) leased s of
                (rs, s') \<Rightarrow> (mapE id rs, s')) (\<lambda>reports.
       returning (summary\<lparr>tk_planned := [], tk_wakes := reports\<rparr>)))"

definition tick ::
  "(string \<Rightarrow> string) \<Rightarrow> (string \<Rightarrow> string) \<Rightarrow> (string \<Rightarrow> moment) \<Rightarrow> (string \<Rightarrow> exc option) \<Rightarrow> (string \<Rightarrow> string \<times> int option)
     \<Rightarrow> supervisor_settings \<Rightarrow> organization_policy \<Rightarrow> wake_rule list \<Rightarrow> tick_inputs \<Rightarrow> bool \<Rightarrow> int \<Rightarrow> frame
     \<Rightarrow> (tick_summary result \<times> frame) option" where
  "tick sha uuid5 fromiso limits float_of cfg policy rules ti preview max_wakes s =
     (if ti_busy ti then Some (Inl (SupervisorError ''a supervisor tick is already running''), s)
      else let shadow = (preview \<or> sp_mode cfg = ''shadow'') in
      case tick_plan sha uuid5 fromiso cfg policy rules ti shadow (fr_store s) of
        None \<Rightarrow> None
      | Some (r, d) \<Rightarrow>
          if shadow then Some (map_sum id (\<lambda>t. t\<lparr>tk_planned := py_take max_wakes (tk_planned t)\<rparr>) r, s)
          else (case r of
                  Inl e \<Rightarrow> Some (Inl e, s\<lparr>fr_store := d\<rparr>)
                | Inr t \<Rightarrow> if tk_paused t then Some (Inr t, s\<lparr>fr_store := d\<rparr>)
                    else Some (tick_live sha limits float_of cfg policy ti max_wakes t (s\<lparr>fr_store := d\<rparr>))))"

end
