(* ===== verification/Calls.thy ===== *)
theory Calls
  imports Ticks Protocol
begin

text \<open>
  Every operation of the supervisor, the host launcher, the polling and the broker is built from calls of the store: it moves the
  database along \<open>runs\<close>, so a reachable database stays reachable and all invariants of the store hold after it.
\<close>

lemmas store_moves = store_calls.stepping_andthen store_calls.stepping_recovering store_calls.stepping_ignoring store_calls.stepping_provided
  store_calls.stepping_if store_calls.stepping_option store_calls.stepping_sum store_calls.stepping_reading store_calls.stepping_each
  store_calls.stepping_returning store_calls.stepping_raising store_calls.stepping_checked

section \<open>Processes\<close>

lemma finish_process_runs: "runs cap uuid5 d (snd (finish_process now k st x d))"
  using calls_runtime(5) by (auto simp: stepping_def)

lemma start_child_runs:
  assumes "stepping (runs cap uuid5) spawned" and "stepping (runs cap uuid5) started"
  shows "stepping (runs cap uuid5) (start_child now spawned started i k kind a pid c)"
proof -
  have "start_child now spawned started i k kind a pid c = andthen spawned (\<lambda>_.
      andthen (checked (process_birth_token pid (ch_birth c))) (\<lambda>birth. andthen (checked (ch_pgid c)) (\<lambda>pgid.
      andthen (record_process now k i a kind pid pgid birth) (\<lambda>_. andthen started (\<lambda>_. returning birth)))))"
    by (rule ext) (simp add: start_child_def andthen_def checked_def returning_def split: sum.split prod.split)
  then show ?thesis by (simp only:) (intro store_moves assms calls_runtime)
qed

lemma pair_runs: "(\<And>x y. stepping R (f x y)) \<Longrightarrow> stepping R (case p of (x, y) \<Rightarrow> f x y)"
  by (cases p) auto

lemma ending_runs:
  "(\<And>x y z. stepping R (f x y z)) \<Longrightarrow> (\<And>g n. stepping R (h g n)) \<Longrightarrow> (\<And>t. stepping R (k t))
    \<Longrightarrow> stepping R (case e of Completed x y z \<Rightarrow> f x y z | Overran g n \<Rightarrow> h g n | Undecodable t \<Rightarrow> k t)"
  by (cases e) auto

lemma run_child_runs:
  assumes "stepping (runs cap uuid5) spawned" and "stepping (runs cap uuid5) started"
  shows "stepping (runs cap uuid5) (run_child sha limits f cfg clk spawned started i k kind a c)"
proof -
  let ?finish = "\<lambda>st x. finish_process (clk 1) k st x"
  have "run_child sha limits f cfg clk spawned started i k kind a c =
    andthen (checked (agent_process_identity cfg)) (\<lambda>_.
      case ch_pid c of None \<Rightarrow> raising (HostProcessError ''provider process failed before start'')
      | Some pid \<Rightarrow> andthen (recovering (start_child (clk 0) spawned started i k kind a pid c)
            (\<lambda>e d. (Inl e, snd (?finish ''terminated'' (Some (ch_killed c)) d)))) (\<lambda>birth.
          case ch_ending c of
            Overran g rc \<Rightarrow> andthen (checked (terminate_group pid birth g)) (\<lambda>t.
              andthen (?finish (if t then ''terminated'' else ''uncertain'') (Some rc)) (\<lambda>_.
                raising (TimeoutError ''provider process exceeded its commissioned timeout'')))
          | Undecodable t \<Rightarrow> raising (ValueError t)
          | Completed out err rc \<Rightarrow> andthen (?finish ''exited'' (Some rc)) (\<lambda>_.
              andthen (checked (extract_usage limits f (hs_provider cfg) out)) (\<lambda>tokens.
                returning \<lparr>ps_output = out, ps_error = err, ps_returncode = rc, ps_tokens = tokens, ps_output_sha256 = sha out\<rparr>))))"
    by (rule ext) (simp add: run_child_def andthen_def recovering_def checked_def raising_def returning_def
        split: sum.split prod.split option.split ending.split)
  moreover have "stepping (runs cap uuid5) (\<lambda>d. (Inl e, snd (?finish ''terminated'' x d)))" for e :: exc and x
    using finish_process_runs by (simp add: stepping_def)
  ultimately show ?thesis
    by (simp only:) (intro store_moves start_child_runs assms calls_runtime ending_runs)
qed

lemma terminate_rows_runs: "runs cap uuid5 d (snd (terminate_rows probe clk n rows complete d))"
proof (induction rows arbitrary: n complete d)
  case (Cons row rows)
  show ?case
  proof (cases "terminate_group (pr_pid row) (pr_birth_token row) (probe row)")
    case (Inr t)
    then show ?thesis by (simp add: runs_trans [OF finish_process_runs Cons.IH])
  qed (simp add: runs_refl)
qed (simp add: runs_refl)

lemma terminate_session_runs: "stepping (runs cap uuid5) (terminate_session probe clk i)"
  by (simp add: stepping_def terminate_session_def terminate_rows_runs)

section \<open>The supervisor\<close>

definition store_runs :: "int \<Rightarrow> (string \<Rightarrow> string) \<Rightarrow> frame \<Rightarrow> frame \<Rightarrow> bool" where
  "store_runs cap uuid5 s s' \<longleftrightarrow> runs cap uuid5 (fr_store s) (fr_store s')"

interpretation frame_calls: steps "store_runs cap uuid5" for cap uuid5
  by unfold_locales (auto simp: store_runs_def runs_refl intro: runs_trans)

lemma on_store_runs: "stepping (runs cap uuid5) m \<Longrightarrow> stepping (store_runs cap uuid5) (on_store m)"
  by (auto simp: stepping_def on_store_def zoom_def store_runs_def split: prod.split) (metis snd_conv)

lemma for_delivery_runs: "(\<And>i. stepping (runs cap uuid5) (f i)) \<Longrightarrow> stepping (store_runs cap uuid5) (for_delivery x f)"
  by (auto simp: for_delivery_def intro: on_store_runs split: option.split)

lemma locals_runs: "(\<And>s. fr_store (f s) = fr_store s) \<Longrightarrow> stepping (store_runs cap uuid5) (assigning f)"
  by (rule frame_calls.stepping_assigning) (simp add: store_runs_def runs_refl)

lemma take_usage_runs: "stepping (store_runs cap uuid5) (take_usage i)"
  by (simp add: stepping_def take_usage_def store_runs_def runs_refl split: prod.split)

lemmas supervisor_calls = on_store_runs for_delivery_runs locals_runs take_usage_runs terminate_session_runs
  frame_calls.stepping_andthen frame_calls.stepping_recovering frame_calls.stepping_ignoring frame_calls.stepping_provided
  frame_calls.stepping_if frame_calls.stepping_option frame_calls.stepping_sum frame_calls.stepping_reading
  frame_calls.stepping_returning frame_calls.stepping_raising frame_calls.stepping_checked
  store_moves

text \<open>What runs beside the supervisor during a wake only calls the store.\<close>

definition quiet_inputs :: "int \<Rightarrow> (string \<Rightarrow> string) \<Rightarrow> wake_inputs \<Rightarrow> bool" where
  "quiet_inputs cap uuid5 inp \<longleftrightarrow> (\<forall>d. runs cap uuid5 d (wi_early inp d) \<and> runs cap uuid5 d (wi_meanwhile inp d))"

lemma wake_begin_runs:
  "op_global_max_agents policy = cap \<Longrightarrow> stepping (store_runs cap uuid5) (wake_begin cfg policy inp role del reason)"
  unfolding wake_begin_def budget_refused_def by (intro supervisor_calls calls | simp)+

lemma wake_launch_runs:
  assumes "quiet_inputs cap uuid5 inp"
  shows "stepping (store_runs cap uuid5) (wake_launch sha limits f cfg inp role events del reason sn)"
proof -
  have "stepping (runs cap uuid5) (\<lambda>d. (Inr (), wi_early inp d))" "stepping (runs cap uuid5) (assigning (wi_meanwhile inp))"
    using assms by (auto simp: stepping_def assigning_def quiet_inputs_def)
  then show ?thesis
    unfolding wake_launch_def host_run_parent_def on_started_def
    by (intro supervisor_calls calls run_child_runs | simp)+
qed

lemma wake_settle_runs: "stepping (store_runs cap uuid5) (wake_settle cfg inp role del sn rid result)"
  unfolding wake_settle_def wake_complete_def Let_def
  by (intro supervisor_calls calls pair_runs)

lemma wake_failed_runs: "stepping (store_runs cap uuid5) (wake_failed cfg inp role del e)"
  unfolding wake_failed_def stop_started_def stop_unstarted_def
  by (intro supervisor_calls calls pair_runs)

lemma run_wake_runs:
  assumes "op_global_max_agents policy = cap" and "quiet_inputs cap uuid5 inp"
  shows "stepping (store_runs cap uuid5) (run_wake sha limits f cfg policy inp role events del reason)"
proof -
  have "stepping (store_runs cap uuid5) (recovering (wake_body sha limits f cfg policy inp role events del reason) (wake_failed cfg inp role del))"
    unfolding wake_body_def
    by (auto intro!: frame_calls.stepping_recovering frame_calls.stepping_andthen frame_calls.stepping_sum frame_calls.stepping_returning
      wake_begin_runs [OF assms(1)] wake_launch_runs [OF assms(2)] wake_settle_runs wake_failed_runs)
  from this [unfolded stepping_def, rule_format, of "s\<lparr>fr_session := None, fr_reservation := None, fr_started := False\<rparr>" for s]
  show ?thesis by (simp add: stepping_def run_wake_def store_runs_def)
qed

lemma run_all_runs:
  assumes "\<And>x. x \<in> set xs \<Longrightarrow> stepping (store_runs cap uuid5) (f x)"
  shows "store_runs cap uuid5 s (snd (run_all f xs s))"
  using assms
proof (induction xs arbitrary: s)
  case (Cons x xs)
  obtain r s1 where one: "f x s = (r, s1)" by (cases "f x s")
  then have "store_runs cap uuid5 s s1" using Cons.prems [of x] frame_calls.stepping_pairD by simp
  moreover have "store_runs cap uuid5 s1 (snd (run_all f xs s1))" using Cons.IH Cons.prems by simp
  ultimately show ?case using one frame_calls.trans by (auto split: prod.split)
qed (simp add: frame_calls.refl)

section \<open>Owner operations\<close>

lemma doubt_wake_runs: "stepping (runs cap uuid5) (assigning (doubt_wake now i))"
  by (rule store_calls.stepping_assigning) (rule calls_runtime)

lemma terminate_wake_runs: "stepping (runs cap uuid5) (terminate_wake probe clk reason i)"
  unfolding terminate_wake_def by (intro store_moves calls terminate_session_runs doubt_wake_runs)

lemma pause_runs: "stepping (runs cap uuid5) (pause probe now clk)"
  unfolding pause_def by (intro store_moves calls terminate_wake_runs)

lemma resume_runs: "stepping (runs cap uuid5) (resume now)"
  unfolding resume_def by (rule calls)

lemma recover_runs: "stepping (runs cap uuid5) (supervisor_recover probe clk)"
  unfolding supervisor_recover_def recover_wake_def by (intro store_moves calls terminate_wake_runs)

section \<open>Ticks\<close>

lemma stage_items_runs:
  "stage_items uuid5 sid src items m d = (r, m', d') \<Longrightarrow> runs cap uuid5 d d'"
proof (induction items arbitrary: m d)
  case (Cons item items)
  have st: "runs cap uuid5 d (snd (stage_observation uuid5 sid src e v t p d))" for e v t p
    using calls_source(3) by (auto simp: stepping_def)
  from Cons.prems Cons.IH st show ?case
    by (auto simp: runs_refl split: sum.splits prod.splits if_splits) (metis runs_trans snd_conv)+
qed (simp add: runs_refl)

lemma collect_runs:
  assumes "collect uuid5 sid src fetch q et fuel n c m fe d = Some r"
  shows "runs cap uuid5 d (co_store r)"
  using assms
proof (induction fuel arbitrary: n c m fe d)
  case (Suc fuel)
  show ?case
  proof (cases "fetch n q c (if n = 0 then et else None)")
    case (Inr page)
    obtain o1 m1 d1 where s: "stage_items uuid5 sid src (pg_items page) m d = (o1, m1, d1)" by (metis prod_cases3)
    note one = stage_items_runs [OF s, of cap]
    show ?thesis
    proof (cases "isl o1 \<or> pg_next_cursor page = None")
      case True
      with Suc.prems Inr s one show ?thesis by (cases o1) (auto simp: Let_def)
    next
      case False
      then obtain c1 where "pg_next_cursor page = Some c1" "\<not> isl o1" by auto
      with Suc.prems Inr s
      have "collect uuid5 sid src fetch q et fuel (Suc n) (Some c1) m1 (etag_or (pg_etag page) fe) d1 = Some r"
        by (cases o1) (auto simp: Let_def)
      from runs_trans [OF one Suc.IH [OF this]] show ?thesis .
    qed
  qed (use Suc.prems in \<open>auto simp: runs_refl\<close>)
qed simp

lemma conclude_runs: "runs cap uuid5 (co_store c) (snd (conclude sha fromiso now sid src row c))"
proof -
  have f: "runs cap uuid5 d (snd (finish_snapshot now sid b pc mx nw qf et er d))" for b pc mx nw qf et er d
    using calls_source(4) by (auto simp: stepping_def)
  have f': "finish_snapshot now sid b pc mx nw qf et er d = (r, d') \<Longrightarrow> runs cap uuid5 d d'" for b pc mx nw qf et er d r d'
    using f by (metis snd_conv)
  show ?thesis
    by (auto simp: conclude_def runs_refl split: sum.split prod.split dest: f')
qed

lemma poll_source_runs:
  assumes "poll_source sha uuid5 fromiso clk uuid fuel src fetch w d = Some (r, d')"
  shows "runs cap uuid5 d d'"
proof (cases "src \<in> set SOURCE_IDS")
  case True
  obtain row d1 where c: "checkpoint src w d = (row, d1)" by (cases "checkpoint src w d")
  then have one: "runs cap uuid5 d d1" using calls_source(1) [where s = src and w = w and d = d] by simp
  show ?thesis
  proof (cases "\<exists>x query. row = Some x \<and> overlap_watermark fromiso (sc_watermark x) (sc_overlap_seconds x) = Inr query")
    case False
    then have "d' = d1" using assms True c by (auto simp: poll_source_def split: option.split_asm sum.split_asm)
    with one show ?thesis by simp
  next
    case t: True
    then obtain x query where x: "row = Some x" "overlap_watermark fromiso (sc_watermark x) (sc_overlap_seconds x) = Inr query" by blast
    obtain b d2 where b: "begin_snapshot (clk 0) uuid src d1 = (b, d2)" by (cases "begin_snapshot (clk 0) uuid src d1")
    then have two: "runs cap uuid5 d1 d2" using store_calls.stepping_pairD [OF calls_source(2)] by blast
    show ?thesis
    proof (cases b)
      case (Inl e)
      with assms True c x b have "d' = d2" by (simp add: poll_source_def)
      with one two runs_trans show ?thesis by blast
    next
      case (Inr sid)
      with assms True c x b obtain q where
        q: "collect uuid5 sid src fetch query (reusable_etag sha x query) fuel 0 None (sc_watermark x) None d2 = Some q"
        and e: "conclude sha fromiso (clk 1) sid src x q = (r, d')"
        by (auto simp: poll_source_def)
      from collect_runs [OF q] conclude_runs [where c = q] e have "runs cap uuid5 d2 d'" by (metis runs_trans snd_conv)
      with one two runs_trans show ?thesis by blast
    qed
  qed
qed (use assms in \<open>simp add: poll_source_def runs_refl\<close>)

lemma poll_all_runs:
  assumes "\<And>x d r d'. poll x d = Some (r, d') \<Longrightarrow> runs cap uuid5 d d'" and "poll_all poll xs d = Some (r, d')"
  shows "runs cap uuid5 d d'"
  using assms(2)
proof (induction xs arbitrary: d r)
  case (Cons x xs)
  from Cons.prems obtain r1 d1 where p: "poll x d = Some (r1, d1)" by (cases "poll x d") auto
  have one: "runs cap uuid5 d d1" using assms(1) [OF p] .
  show ?case
  proof (cases r1)
    case (Inr y)
    with Cons.prems p obtain r2 where "poll_all poll xs d1 = Some (r2, d')"
      by (auto split: option.split_asm sum.split_asm)
    from Cons.IH [OF this] one show ?thesis by (rule runs_trans [rotated])
  qed (use Cons.prems p one in simp)
qed (simp add: runs_refl)

lemma route_and_queue_runs: "stepping (runs cap uuid5) (route_and_queue sha policy rules ti shadow polled)"
  unfolding route_and_queue_def route_observed_def enqueue_role_def
  by (intro store_moves store_calls.stepping_pure calls)

lemma tick_plan_runs:
  assumes "tick_plan sha uuid5 fromiso cfg policy rules ti shadow d = Some (r, d')"
  shows "runs cap uuid5 d d'"
proof (cases "truthy (supervisor_value ''paused'' (JBool False) d)")
  case False
  let ?poll = "\<lambda>src. poll_source sha uuid5 fromiso (ti_clk ti src) (ti_uuid ti src) (ti_fuel ti) src (ti_fetch ti src) (sp_initial_watermark cfg)"
  from assms False obtain p d1 where p: "poll_all ?poll SOURCE_IDS d = Some (p, d1)"
    by (cases "poll_all ?poll SOURCE_IDS d") (auto simp: tick_plan_def)
  have one: "runs cap uuid5 d d1" using poll_all_runs [OF poll_source_runs p] .
  show ?thesis
  proof (cases p)
    case (Inr polled)
    with assms False p have "route_and_queue sha policy rules ti shadow polled d1 = (r, d')" by (simp add: tick_plan_def)
    with one show ?thesis using store_calls.stepping_pairD [OF route_and_queue_runs] runs_trans by blast
  qed (use assms False p one in \<open>simp add: tick_plan_def\<close>)
qed (use assms in \<open>simp add: tick_plan_def runs_refl\<close>)

lemma lease_loop_runs: "stepping (runs cap uuid5) (lease_loop cfg clk limit n leased)"
proof (induction n arbitrary: leased)
  case (Suc n)
  then show ?case by (simp only: lease_loop.simps) (intro store_moves calls)
qed (simp add: store_calls.stepping_returning)

lemma tick_runs:
  assumes "op_global_max_agents policy = cap" and "\<And>dv. quiet_inputs cap uuid5 (ti_wake ti dv)"
    and "tick sha uuid5 fromiso limits f cfg policy rules ti preview n s = Some (r, s')"
  shows "store_runs cap uuid5 s s'"
proof (cases "ti_busy ti")
  case False
  let ?shadow = "preview \<or> sp_mode cfg = ''shadow''"
  from assms(3) False obtain p d where p: "tick_plan sha uuid5 fromiso cfg policy rules ti ?shadow (fr_store s) = Some (p, d)"
    by (cases "tick_plan sha uuid5 fromiso cfg policy rules ti ?shadow (fr_store s)") (auto simp: tick_def)
  have one: "store_runs cap uuid5 s (s\<lparr>fr_store := d\<rparr>)" using tick_plan_runs [OF p] by (simp add: store_runs_def)
  have "stepping (store_runs cap uuid5) (run_delivery sha limits f cfg policy (ti_wake ti dv) dv)" for dv
    using run_wake_runs [OF assms(1,2)] by (simp add: run_delivery_def stepping_def)
  then have all: "stepping (store_runs cap uuid5) (\<lambda>s. case run_all (\<lambda>dv. run_delivery sha limits f cfg policy (ti_wake ti dv) dv) xs s of
       (rs, s') \<Rightarrow> (mapE id rs, s'))" for xs
    using run_all_runs [where xs = xs and f = "\<lambda>dv. run_delivery sha limits f cfg policy (ti_wake ti dv) dv"]
    by (simp add: stepping_def case_prod_beta)
  have live: "stepping (store_runs cap uuid5) (tick_live sha limits f cfg policy ti n t)" for t
    unfolding tick_live_def
    by (intro frame_calls.stepping_andthen on_store_runs lease_loop_runs all frame_calls.stepping_returning)
  show ?thesis
  proof (cases ?shadow)
    case True
    with assms(3) False p have "s' = s" by (auto simp: tick_def Let_def)
    then show ?thesis by (simp add: frame_calls.refl)
  next
    case False
    show ?thesis
    proof (cases "s' = s\<lparr>fr_store := d\<rparr>")
      case other: False
      with assms(3) False \<open>\<not> ti_busy ti\<close> p obtain t where "tick_live sha limits f cfg policy ti n t (s\<lparr>fr_store := d\<rparr>) = (r, s')"
        by (cases p) (auto simp: tick_def Let_def split: if_splits)
      with live one show ?thesis using frame_calls.stepping_pairD frame_calls.trans by blast
    qed (use one in simp)
  qed
qed (use assms(3) in \<open>simp add: tick_def frame_calls.refl\<close>)

section \<open>The session server\<close>

lemma start_attempt_runs:
  assumes "reserve_worker now1 now2 u i wt m n k d = (Inr u, d1)"
  shows "runs cap uuid5 d1 (start_attempt u d1)"
proof -
  have "starts_live (Start_attempt u) d1"
    using assms by (rule reserve_worker_Inr) (auto simp: insert_attempt_Inr starts_live_def list_all_iff)
  from runs_session [OF this, of cap uuid5] show ?thesis by simp
qed

lemma end_attempt_runs:
  "runs cap uuid5 d (fail_attempt stamp a d)" "runs cap uuid5 d (succeed_attempt stamp a h d)"
  using runs_session [where cap = cap and e = "Fail_attempt stamp a" and d = d]
    runs_session [where cap = cap and e = "Succeed_attempt stamp a h" and d = d]
  by (simp_all add: starts_live_def)

lemma run_worker_runs:
  assumes cap: "op_global_max_agents policy = cap"
    and launch: "\<And>wt model task scratch a t root d. runs cap uuid5 d (snd (snd (snd (launch wt model task scratch a t root d))))"
    and "run_worker sha policy cfg launch clk u stamp sn arguments parent d = (r, parent', d')"
  shows "runs cap uuid5 d d'"
  using assms(3)
proof (cases rule: run_worker_cases)
  case (reserved role wt model task rs ws d1)
  have one: "runs cap uuid5 d d1" using store_calls.stepping_pairD [OF calls_session(5) reserved(1) [unfolded cap]] .
  show ?thesis
  proof (cases "\<exists>root. parent = Some root \<and> scratch_failure cfg = None")
    case True
    with reserved(5) obtain root q root' d2 where w: "work sha cfg launch stamp u wt model task rs ws root d1 = (q, root', d2)"
      and d': "d' = (if isl q then fail_attempt stamp u d2 else d2)" by auto
    from w have "runs cap uuid5 d1 d2"
    proof (cases rule: work_cases)
      case (launched scratch before out scratch1 root1 d3)
      have "runs cap uuid5 d1 (start_attempt u d1)" using start_attempt_runs [OF reserved(1)] .
      moreover have "runs cap uuid5 (start_attempt u d1) d3" using launch launched(3) by (metis snd_conv)
      moreover have "runs cap uuid5 d3 d2" using launched(4) end_attempt_runs(2) runs_refl by blast
      ultimately show ?thesis using runs_trans by blast
    qed (simp add: runs_refl)
    moreover have "runs cap uuid5 d2 d'" unfolding d' by (simp add: end_attempt_runs runs_refl)
    ultimately show ?thesis using one runs_trans by blast
  qed (use reserved(5) one in \<open>auto split: option.split_asm\<close>)
qed (simp add: runs_refl)

lemma host_launch_runs:
  "runs cap uuid5 d (snd (snd (snd (host_launch sha limits f cfg prepare clk c m leaves wt model task scratch a t root d))))"
proof -
  obtain r m' d' where h: "host_run_worker sha limits f cfg prepare clk c wt a m d = (r, m', d')" by (metis prod_cases3)
  then have "d' = d \<or> (\<exists>i r1. run_child sha limits f cfg clk (\<lambda>d. (Inr (), d)) (\<lambda>d. (Inr (), d)) i (''worker:'' @ a) ''worker'' (Some a) c d = (r1, d'))"
    by (auto simp: host_run_worker_def Let_def split: option.split_asm sum.split_asm prod.split_asm exc.split_asm)
  moreover have "stepping (runs cap uuid5) (run_child sha limits f cfg clk (\<lambda>d. (Inr (), d)) (\<lambda>d. (Inr (), d)) i k kind (Some a) c)" for i k kind
    by (intro run_child_runs store_calls.stepping_pure)
  ultimately have "runs cap uuid5 d d'" using store_calls.stepping_pairD runs_refl by metis
  then show ?thesis by (simp add: host_launch_def h)
qed

lemma host_execute_runs:
  assumes "op_global_max_agents policy = cap"
  shows "stepping (runs cap uuid5) (host_execute sha limits f cfg prepare c m leaves policy ghf ghe site clk ws op a sn k)"
  unfolding stepping_def
proof
  fix d
  show "runs cap uuid5 d (snd (host_execute sha limits f cfg prepare c m leaves policy ghf ghe site clk ws op a sn k d))"
  proof (cases "op = ''worker.run''")
    case True
    with run_worker_runs [OF assms host_launch_runs] show ?thesis
      by (auto simp: host_execute_def control_execute_def control_run_def runs_refl split: sum.split prod.split)
  qed (auto simp: host_execute_def control_execute_def control_run_def runs_refl split: sum.split)
qed

lemma journalled_runs:
  assumes "request_row k d = None" and "store_session (clk 0) i d = Inr sn"
  shows "runs cap uuid5 d (journalled sha clk i k op a d)"
proof -
  have "list_ex (\<lambda>s. ws_session_id s = i) (wake_sessions d)"
    using assms(2) by (auto simp: store_session_def list_ex_iff split: option.split_asm dest!: find_SomeD)
  then obtain d1 where r: "reserve_request (clk 1) i k op (arguments_digest sha a) a d = (Inr None, d1)"
    using assms(1) by (auto simp: reserve_request_def immediate_def)
  from reserve_then_apply [OF r, of "clk 2"]
  have m: "mark_request_applying (clk 2) k d1 = (Inr (), journalled sha clk i k op a d)"
    by (auto simp: journalled_def applying_request_def)
  show ?thesis
    using store_calls.stepping_pairD [OF calls_journal(1) r] store_calls.stepping_pairD [OF calls_journal(2) m] runs_trans by blast
qed

lemma finish_request_runs: "runs cap uuid5 x (snd (finish_request t k st y x))" "runs cap uuid5 x (snd (abandon_read_request k x))"
  using calls_journal(3,4) by (auto simp: stepping_def)

lemma finished_audit_runs: "runs cap uuid5 x (audit t sn op v de h (snd (finish_request t' k st y x)))"
  by (rule runs_trans [OF finish_request_runs(1) calls_journal(5)])

lemma dispatch_runs:
  assumes "\<And>op a sn k. stepping (runs cap uuid5) (execute op a sn k)"
  shows "runs cap uuid5 d (at_store (dispatch sha policy facts_of execute clk i k op a d))"
proof -
  have admitted: "runs cap uuid5 d (case admit sha policy facts_of clk i k op a d of Inl x \<Rightarrow> at_store x | Inr (sn, d2) \<Rightarrow> d2)"
  proof (cases "request_row k d")
    case None
    from admit_fresh [OF None, of sha policy facts_of clk i op a] show ?thesis
      by (auto simp: stopped_def runs_refl journalled_runs [OF None])
  next
    case (Some row)
    from admit_bound [OF Some, of sha policy facts_of clk i op a] show ?thesis by (auto simp: stopped_def runs_refl)
  qed
  have "runs cap uuid5 x (at_store (run_backend sha execute clk sn k op a x))" for sn x
  proof -
    obtain r x1 where e: "execute op a sn k x = (r, x1)" by (cases "execute op a sn k x")
    then have "runs cap uuid5 x x1" using assms store_calls.stepping_pairD by blast
    moreover have "runs cap uuid5 x1 (audit t sn' o' v de h (snd (finish_request t' k st y x1)))" for t sn' o' v de h t' st y
      by (rule finished_audit_runs)
    ultimately show ?thesis using e by (auto simp: run_backend_def stopped_def Let_def split: sum.split intro: runs_trans)
  qed
  then have b: "runs cap uuid5 x y \<Longrightarrow> runs cap uuid5 x (at_store (run_backend sha execute clk sn k op a y))" for sn x y
    using runs_trans by blast
  show ?thesis
  proof (cases "admit sha policy facts_of clk i k op a d")
    case (Inr p)
    with admitted b show ?thesis by (cases p) (simp add: dispatch_def)
  qed (use admitted in \<open>simp add: dispatch_def\<close>)
qed

lemma handle_runs:
  assumes "\<And>op a sn k. stepping (runs cap uuid5) (execute op a sn k)"
  shows "runs cap uuid5 d (snd (handle sha policy facts_of execute clk i request d))"
proof -
  have dis: "runs cap uuid5 d (at_store (dispatch sha policy facts_of execute clk i k op a d))" for k op a
    by (rule dispatch_runs) (rule assms)
  have r: "runs cap uuid5 x (snd (recover sha clk k op a e sn ap x))" for k op a e sn ap x
    by (cases e) (auto simp: recover_def Let_def runs_refl finish_request_runs finished_audit_runs calls_journal(5))
  show ?thesis
    using dis runs_trans [OF dis r]
    by (auto simp: handle_def Let_def runs_refl split: sum.split)
qed

lemma serve_runs:
  assumes "\<And>n request d. runs cap uuid5 d (snd (broker n request d))"
  shows "runs cap uuid5 d (snd (snd (serve float_of uid broker limit handled ps d)))"
proof (induction ps arbitrary: handled d)
  case (Cons p ps)
  obtain y d1 where o: "serve_one float_of uid (broker handled) p d = (y, d1)" by (cases "serve_one float_of uid (broker handled) p d")
  have one: "runs cap uuid5 d d1"
    using o assms [of d handled] by (auto simp: serve_one_def runs_refl split: sum.split_asm if_split_asm) (metis snd_conv)
  show ?case using o one Cons.IH [of d1 "Suc handled"]
    by (auto simp: runs_refl split: sum.split prod.split intro: runs_trans)
qed (simp add: runs_refl)

text \<open>\<open>serve_wake\<close> of \<open>_run_wake\<close>: the server of a session over the broker, the control backend and the host
  launcher. The \<open>n\<close>-th request meets the \<open>n\<close>-th site, child, clock and workspaces.\<close>

definition serve_wake ::
  "(string \<Rightarrow> string) \<Rightarrow> (string \<Rightarrow> exc option) \<Rightarrow> (string \<Rightarrow> string \<times> int option) \<Rightarrow> host_settings \<Rightarrow> (string \<Rightarrow> unit result)
     \<Rightarrow> (nat \<Rightarrow> child) \<Rightarrow> (nat \<Rightarrow> meter) \<Rightarrow> (nat \<Rightarrow> entries \<Rightarrow> entries \<Rightarrow> entries \<times> entries) \<Rightarrow> organization_policy \<Rightarrow> backend_facts
     \<Rightarrow> gh_execute \<Rightarrow> (nat \<Rightarrow> worker_site) \<Rightarrow> (nat \<Rightarrow> nat \<Rightarrow> instant) \<Rightarrow> (nat \<Rightarrow> string \<Rightarrow> entries option) \<Rightarrow> string \<Rightarrow> peer list
     \<Rightarrow> db \<Rightarrow> unit result \<times> string list \<times> db" where
  "serve_wake sha limits float_of cfg prepare child_of meters leaves policy ghf ghe sites clk workspaces session_id =
     serve float_of (hs_agent_uid cfg) (\<lambda>n. handle sha policy (control_facts ghf)
       (host_execute sha limits float_of cfg prepare (child_of n) (meters n) (leaves n) policy ghf ghe (sites n) (clk n) (workspaces n))
       (clk n) session_id) None 0"

lemma serve_wake_runs:
  assumes "op_global_max_agents policy = cap"
  shows "runs cap uuid5 d (snd (snd (serve_wake sha limits f cfg prepare c m leaves policy ghf ghe sites clk ws i ps d)))"
  unfolding serve_wake_def by (intro serve_runs handle_runs host_execute_runs assms)

end
