(* ===== verification/Wake_Rules.thy ===== *)
theory Wake_Rules
  imports Calls Store_Invariants
begin

text \<open>
  What a wake leaves behind: whatever happens on the way, a wake that reports has let go of its delivery and of its reservation,
  and it reports success only when the delivery has succeeded.
\<close>

section \<open>Letting go\<close>

definition let_go :: "string \<Rightarrow> db \<Rightarrow> bool" where
  "let_go i d \<longleftrightarrow> (\<forall>r\<in>set (deliveries d). dv_delivery_id r = i \<longrightarrow> \<not> held r)"

definition unreserved :: "string \<Rightarrow> db \<Rightarrow> bool" where
  "unreserved rid d \<longleftrightarrow> (\<forall>b\<in>set (budget_reservations d). bv_reservation_id b = rid \<longrightarrow> bv_state b \<noteq> B_active)"

lemma let_go_cong: "deliveries d' = deliveries d \<Longrightarrow> let_go i d' = let_go i d"
  by (simp add: let_go_def)

lemma unreserved_cong: "budget_reservations d' = budget_reservations d \<Longrightarrow> unreserved rid d' = unreserved rid d"
  by (simp add: unreserved_def)

lemma count_held: "distinct (map key rows) \<Longrightarrow> count_where (\<lambda>r. key r = k \<and> P r) rows \<noteq> 1 \<Longrightarrow> r \<in> set rows \<Longrightarrow> key r = k \<Longrightarrow> \<not> P r"
  using count_key_le_1 [of key rows k P] count_where_pos [of "\<lambda>r. key r = k \<and> P r" rows]
  by (metis One_nat_def less_Suc0 nat_less_le)

lemma finish_delivery_Inr:
  assumes "finish_delivery now i own oc err el d = (Inr x, d')"
  shows "let_go i d'" "budget_reservations d' = budget_reservations d" "wake_runtimes d' = wake_runtimes d"
    "oc = ''succeeded'' \<Longrightarrow> \<exists>r\<in>set (deliveries d'). dv_delivery_id r = i \<and> dv_state r = D_succeeded"
proof -
  from assms obtain st rt where t: "delivery_targets oc = Some (st, rt)"
    by (auto simp: finish_delivery_def split: option.split_asm)
  have st: "st \<noteq> D_leased \<and> st \<noteq> D_running" "oc = ''succeeded'' \<Longrightarrow> st = D_succeeded"
    using t by (auto simp: delivery_targets_def split: if_splits)
  from assms t obtain row f where row: "delivery_row i d = Some row"
    and d': "d' = set_routes rt i (set_delivery f i d)" and f: "\<And>r. dv_state (f r) = st \<and> dv_delivery_id (f r) = dv_delivery_id r"
    by (auto simp: finish_delivery_def immediate_Inr Let_def split: option.split_asm if_split_asm)
  show "let_go i d'" "budget_reservations d' = budget_reservations d" "wake_runtimes d' = wake_runtimes d"
    using st(1) f by (simp_all add: d' let_go_def set_routes_def set_delivery_def ball_update_where held_def)
  have "row \<in> set (deliveries d)" "dv_delivery_id row = i" using row by (auto simp: delivery_row_def dest: find_SomeD)
  then have "f row \<in> set (deliveries d')" using f by (auto simp: d' set_routes_def set_delivery_def set_update_where)
  moreover assume "oc = ''succeeded''"
  ultimately show "\<exists>r\<in>set (deliveries d'). dv_delivery_id r = i \<and> dv_state r = D_succeeded"
    using f st(2) \<open>dv_delivery_id row = i\<close> by metis
qed

lemma force_uncertain_lets_go:
  assumes "delivery_inv d" and "force_delivery_uncertain i err d = (x, d')"
  shows "let_go i d'" "budget_reservations d' = budget_reservations d" "isl x \<Longrightarrow> is_state_error (projl x)"
proof -
  let ?P = "\<lambda>r. dv_delivery_id r = i \<and> (dv_state r = D_leased \<or> dv_state r = D_running)"
  show "let_go i d'"
  proof (cases "count_where ?P (deliveries d) = 1")
    case True
    then have "d' = set_routes T_manual_review i (d\<lparr>deliveries := update_where ?P (\<lambda>r. r\<lparr>dv_state := D_uncertain,
        dv_lease_owner := None, dv_lease_until := None, dv_last_error := Some err\<rparr>) (deliveries d)\<rparr>)"
      using assms(2) by (simp add: force_delivery_uncertain_def immediate_def)
    then show ?thesis by (simp add: let_go_def held_def set_routes_def ball_update_where)
  next
    case False
    then have "d' = d" using assms(2) by (auto simp: force_delivery_uncertain_def Let_def immediate_def)
    then show ?thesis
      using count_held [OF delivery_ids [OF assms(1)] False] by (auto simp: let_go_def held_def)
  qed
  show "budget_reservations d' = budget_reservations d" "isl x \<Longrightarrow> is_state_error (projl x)"
    using assms(2) by (auto simp: force_delivery_uncertain_def Let_def immediate_def set_routes_def is_state_error_def split: if_splits)
qed

lemma mark_uncertain_unreserves:
  assumes "mark_budget_uncertain rid d = (x, d')"
  shows "unreserved rid d'" "deliveries d' = deliveries d" "isl x \<Longrightarrow> is_state_error (projl x)"
proof -
  let ?P = "\<lambda>r. bv_reservation_id r = rid \<and> bv_state r = B_active"
  have d': "d' = d\<lparr>budget_reservations := update_where ?P (\<lambda>r. r\<lparr>bv_state := B_uncertain\<rparr>) (budget_reservations d)\<rparr>"
    using assms by (simp add: mark_budget_uncertain_def Let_def split: if_split_asm)
  show "unreserved rid d'" "deliveries d' = deliveries d" by (simp_all add: d' unreserved_def ball_update_where)
  show "isl x \<Longrightarrow> is_state_error (projl x)"
    using assms by (auto simp: mark_budget_uncertain_def Let_def is_state_error_def split: if_split_asm)
qed

lemma settle_unreserves:
  assumes "settle_budget rid n d = (Inr x, d')"
  shows "unreserved rid d'" "wake_runtimes d' = wake_runtimes d"
proof -
  have fold_frame: "g (fold f ks z) = g z" if "\<And>k z. g (f k z) = g z" for g :: "db \<Rightarrow> 'z" and f :: "bucket_key \<Rightarrow> db \<Rightarrow> db" and ks z
    using that by (induction ks arbitrary: z) auto
  from assms obtain reserved ks where "d' = set_reservation B_settled rid (fold (adjust_bucket (- reserved) n) ks d)"
    by (auto simp: settle_budget_def immediate_def Let_def split: option.splits if_splits sum.splits prod.splits)
  then show "unreserved rid d'" "wake_runtimes d' = wake_runtimes d"
    by (simp_all add: unreserved_def set_reservation_def ball_update_where fold_frame adjust_bucket_def)
qed

lemma finish_wake_frame:
  "deliveries (snd (finish_wake now w st h err d)) = deliveries d"
  "budget_reservations (snd (finish_wake now w st h err d)) = budget_reservations d"
  by (simp_all add: finish_wake_def Let_def split: option.split)

lemma finish_session_frame:
  "deliveries (snd (finish_session i d)) = deliveries d" "budget_reservations (snd (finish_session i d)) = budget_reservations d"
  by (simp_all add: finish_session_def snd_immediate)

lemma force_terminate_keeps:
  assumes "force_terminate_session now i x d = (r, d')"
  shows "deliveries d' = deliveries d" "unreserved rid d \<Longrightarrow> unreserved rid d'"
  using assms
  by (auto simp: force_terminate_session_def immediate_def terminate_wakes_def doubt_reservations_def fail_live_attempts_def
      close_session_def unreserved_def set_update_where split: option.splits if_splits)

lemma give_back_lets_go:
  assumes "budget_inv d" and "give_back i del t e d = Inr d'"
    and "\<And>b. b \<in> set (budget_reservations d) \<Longrightarrow> bv_reservation_id b = rid \<Longrightarrow> bv_session_id b = i"
  shows "unreserved rid d'" "del = Some j \<Longrightarrow> let_go j d'"
proof -
  from assms(2) obtain d1 where d1: "release_reservation_for i d = Inr d1"
    and d': "(case del of None \<Rightarrow> Inr d1 | Some j \<Rightarrow> retry_leased_delivery j t e d1) = Inr d'"
    by (auto simp: give_back_def bindE_eq_Inr)
  have same: "budget_reservations d' = budget_reservations d1" using d' retry_leased_tables(4) by (auto split: option.splits)
  from release_reservation_for_inv(3) [OF assms(1) d1] have "unreserved rid d1"
  proof
    assume "d1 = d \<and> i \<notin> bv_session_id ` set (budget_reservations d)"
    with assms(3) show ?thesis by (auto simp: unreserved_def)
  next
    assume "\<exists>r\<in>set (budget_reservations d). bv_session_id r = i \<and> bv_state r = B_active \<and> d1 = settle_effect d r 0 B_released"
    then obtain b where b: "b \<in> set (budget_reservations d)" "bv_session_id b = i" "d1 = settle_effect d b 0 B_released" by blast
    have "distinct (map bv_session_id (budget_reservations d))" using assms(1) by (simp add: budget_inv_def reservations_ok_def)
    then have "x = b" if "x \<in> set (budget_reservations d)" "bv_reservation_id x = rid" for x
      using key_unique [of bv_session_id, OF _ that(1) b(1)] assms(3) [OF that] b(2) by simp
    then show ?thesis
      unfolding b(3) settle_effect_def unreserved_def by (simp add: ball_update_where) metis
  qed
  with same show "unreserved rid d'" by (simp add: unreserved_def)
  assume "del = Some j"
  with d' have "retry_leased_delivery j t e d1 = Inr d'" by simp
  then have "d' = set_routes T_queued j (set_delivery (\<lambda>r. r\<lparr>dv_state := D_retry_wait, dv_eligible_at := t,
      dv_lease_owner := None, dv_lease_until := None, dv_last_error := Some e\<rparr>) j d1)"
    by (auto simp: retry_leased_delivery_def split: option.splits if_splits)
  then show "let_go j d'" by (simp add: let_go_def held_def set_routes_def set_delivery_def ball_update_where)
qed

section \<open>The stages of a wake\<close>

lemma runs_store_inv: "runs cap uuid5 d d' \<Longrightarrow> store_inv cap d \<Longrightarrow> store_inv cap d'"
  unfolding runs_def by (induction rule: rtranclp_induct) (auto simp: store_step_def intro: store_run_inv)

lemma frame_inv: "store_runs cap uuid5 s s' \<Longrightarrow> store_inv cap (fr_store s) \<Longrightarrow> store_inv cap (fr_store s')"
  unfolding store_runs_def by (rule runs_store_inv)

lemma on_store_iff: "on_store m s = (r, s') \<longleftrightarrow> (\<exists>d'. m (fr_store s) = (r, d') \<and> s' = s\<lparr>fr_store := d'\<rparr>)"
  by (auto simp: on_store_def zoom_def split: prod.splits)

lemma on_store_apply: "on_store m s = (case m (fr_store s) of (r, d) \<Rightarrow> (r, s\<lparr>fr_store := d\<rparr>))"
  by (simp add: on_store_def zoom_def)

lemma ignoring_store:
  "ignoring_state_error (on_store m) s = (Inr y, s') \<Longrightarrow> \<exists>r. m (fr_store s) = (r, fr_store s')"
  by (auto simp: ignoring_Inr on_store_iff)

lemma for_delivery_iff: "for_delivery (Some i) f = on_store (f i)"
  by (simp add: for_delivery_def)

lemma terminate_rows_frame:
  "deliveries (snd (terminate_rows probe clk n rows c d)) = deliveries d
   \<and> budget_reservations (snd (terminate_rows probe clk n rows c d)) = budget_reservations d"
proof (induction rows arbitrary: n c d)
  case (Cons row rows)
  then show ?case by (auto simp: finish_process_def Let_def split: sum.split option.split)
qed simp

lemma terminate_session_frame:
  assumes "terminate_session probe clk i d = (r, d')"
  shows "deliveries d' = deliveries d" "budget_reservations d' = budget_reservations d"
  using terminate_rows_frame [of probe clk 0 "active_processes (Some i) d" True d] assms by (simp_all add: terminate_session_def)

text \<open>The \<open>except\<close> clause after the process has started.\<close>

lemma stop_started_lets_go:
  assumes "stop_started inp (Some i) sn (Some rid) err s = (Inr u, s')" and inv: "store_inv cap (fr_store s)"
  shows "let_go i (fr_store s') \<and> unreserved rid (fr_store s')"
proof -
  from assms(1) obtain t s1 s2 s3 s4 where
    1: "on_store (terminate_session (wi_probe inp) (\<lambda>n. wi_clk inp (20 + n)) (sn_session_id sn)) s = (Inr t, s1)"
    and 2: "ignoring_state_error (on_store (mark_budget_uncertain rid)) s1 = (Inr (), s2)"
    and 3: "ignoring_state_error (on_store (force_delivery_uncertain i err)) s2 = (Inr (), s3)"
    and 4: "ignoring_state_error (on_store (finish_wake (wi_clk inp 13) (sn_wake_id sn) ''uncertain'' None (Some err))) s3 = (Inr (), s4)"
    and 5: "provided t (ignoring_state_error (on_store (force_terminate_session (wi_clk inp 14) (sn_session_id sn) False))) s4 = (Inr u, s')"
    unfolding stop_started_def by (auto simp: andthen_Inr for_delivery_iff)
  let ?d1 = "fr_store s1" and ?d2 = "fr_store s2" and ?d3 = "fr_store s3" and ?d4 = "fr_store s4"
  from 1 have t: "terminate_session (wi_probe inp) (\<lambda>n. wi_clk inp (20 + n)) (sn_session_id sn) (fr_store s) = (Inr t, ?d1)"
    by (auto simp: on_store_iff)
  from ignoring_store [OF 2] obtain r2 where m: "mark_budget_uncertain rid ?d1 = (r2, ?d2)" by blast
  from ignoring_store [OF 3] obtain r3 where f: "force_delivery_uncertain i err ?d2 = (r3, ?d3)" by blast
  from ignoring_store [OF 4] have w: "?d4 = snd (finish_wake (wi_clk inp 13) (sn_wake_id sn) ''uncertain'' None (Some err) ?d3)"
    by (metis snd_conv)
  have "runs cap id (fr_store s) ?d1" using store_calls.stepping_pairD [OF terminate_session_runs t] .
  moreover have "runs cap id ?d1 ?d2" using store_calls.stepping_pairD [OF calls_budget(3) m] .
  ultimately have "store_inv cap ?d2" using inv runs_store_inv runs_trans by blast
  then have v: "delivery_inv ?d2" by (simp add: store_inv_def)
  have "let_go i ?d3" using force_uncertain_lets_go(1) [OF v f] .
  moreover have "unreserved rid ?d3"
    using mark_uncertain_unreserves(1) [OF m] force_uncertain_lets_go(2) [OF v f] by (simp add: unreserved_def)
  ultimately have d4: "let_go i ?d4 \<and> unreserved rid ?d4" unfolding w let_go_def unreserved_def finish_wake_frame by blast
  show ?thesis
  proof (cases t)
    case True
    with 5 have "ignoring_state_error (on_store (force_terminate_session (wi_clk inp 14) (sn_session_id sn) False)) s4 = (Inr u, s')"
      by (simp add: provided_def)
    from ignoring_store [OF this] obtain x where "force_terminate_session (wi_clk inp 14) (sn_session_id sn) False ?d4 = (x, fr_store s')" by blast
    from force_terminate_keeps [OF this] d4 show ?thesis by (simp add: let_go_def)
  qed (use 5 d4 in \<open>simp add: provided_def\<close>)
qed

text \<open>Fresh identifiers: \<open>uuid4\<close> repeats none of the database.\<close>

definition fresh_wake :: "wake_inputs \<Rightarrow> db \<Rightarrow> bool" where
  "fresh_wake inp d \<longleftrightarrow> wi_session_uuid inp \<notin> wr_session_id ` set (wake_runtimes d)
     \<and> wi_wake_uuid inp \<notin> wr_wake_id ` set (wake_runtimes d)
     \<and> wi_reservation_uuid inp \<notin> bv_reservation_id ` set (budget_reservations d)"

lemma create_session_frame:
  assumes "create_session now u1 u2 org_id role dig al None ttl cap d = (r, d')"
  shows "wake_runtimes d' = wake_runtimes d" "budget_reservations d' = budget_reservations d" "deliveries d' = deliveries d"
    "r = Inr sn \<Longrightarrow> sn_session_id sn = u1 \<and> sn_wake_id sn = u2" "r = Inl e \<Longrightarrow> d' = d"
  using assms
  by (auto simp: create_session_def Let_def immediate_def insert_session_def new_session_def
      split: if_splits sum.splits prod.splits)

lemma reserve_budget_keeps:
  assumes "reserve_budget now u i epoch n buckets d = (r, d')"
  shows "wake_runtimes d' = wake_runtimes d"
    "r = Inr rid \<Longrightarrow> rid = u \<and> (\<exists>b. budget_reservations d' = budget_reservations d @ [b] \<and> bv_reservation_id b = u \<and> bv_session_id b = i)"
proof -
  have c: "wake_runtimes x' = wake_runtimes x \<and> budget_reservations x' = budget_reservations x"
    if "check_buckets epoch n bs x = Inr x'" for bs x x'
    using that
    by (induction epoch n bs x rule: check_buckets.induct)
      (auto simp: Let_def insert_bucket_or_ignore_def split: if_splits option.splits)
  have h: "wake_runtimes (hold_buckets epoch n bs x) = wake_runtimes x
      \<and> budget_reservations (hold_buckets epoch n bs x) = budget_reservations x" for bs x
    by (induction epoch n bs x rule: hold_buckets.induct) (auto simp: adjust_bucket_def)
  have ok: "wake_runtimes d' = wake_runtimes d \<and> rid = u \<and> (\<exists>b. budget_reservations d' = budget_reservations d @ [b]
      \<and> bv_reservation_id b = u \<and> bv_session_id b = i)" if "r = Inr rid" for rid
    using assms [unfolded that]
    by (rule reserve_budget_Inr) (use c h in \<open>auto simp: insert_reservation_def split: if_splits\<close>)
  show "wake_runtimes d' = wake_runtimes d" using ok assms by (cases r) (auto dest: reserve_budget_Inl)
  show "r = Inr rid \<Longrightarrow> rid = u \<and> (\<exists>b. budget_reservations d' = budget_reservations d @ [b] \<and> bv_reservation_id b = u \<and> bv_session_id b = i)"
    using ok by blast
qed

lemma revoke_session_frame:
  "wake_runtimes (snd (revoke_session i d)) = wake_runtimes d" "budget_reservations (snd (revoke_session i d)) = budget_reservations d"
  by (simp_all add: revoke_session_def snd_immediate close_session_def)

lemma finish_delivery_Inl: "finish_delivery now i own oc err el d = (Inl e, d') \<Longrightarrow> d' = d"
  by (auto simp: finish_delivery_def immediate_Inl split: option.splits)

lemma prepare_wake_cases:
  assumes "prepare_wake now sn del rid sock reason d = (r, d')"
  shows "r = Inl e \<Longrightarrow> d' = d" "budget_reservations d' = budget_reservations d"
    "r = Inr u \<Longrightarrow> \<exists>w. wake_runtimes d' = wake_runtimes d @ [w] \<and> wr_wake_id w = sn_wake_id sn
       \<and> wr_session_id w = sn_session_id sn \<and> wr_delivery_id w = del"
  using assms by (auto simp: prepare_wake_def insert_wake_runtime_def split: if_splits sum.splits)

text \<open>The wake has a session and perhaps a reservation, and no runtime row yet.\<close>

definition bound :: "wake_inputs \<Rightarrow> frame \<Rightarrow> bool" where
  "bound inp s \<longleftrightarrow> (\<exists>sn. fr_session s = Some sn \<and> sn_session_id sn = wi_session_uuid inp \<and> sn_wake_id sn = wi_wake_uuid inp)
     \<and> \<not> fr_started s
     \<and> (\<forall>b\<in>set (budget_reservations (fr_store s)). bv_reservation_id b = wi_reservation_uuid inp \<longrightarrow> bv_session_id b = wi_session_uuid inp)"

lemma reserve_step:
  assumes "reserve_budget now (wi_reservation_uuid inp) (wi_session_uuid inp) epoch n bs d = (r, d')"
    and "wi_reservation_uuid inp \<notin> bv_reservation_id ` set (budget_reservations d)"
  shows "\<forall>b\<in>set (budget_reservations d'). bv_reservation_id b = wi_reservation_uuid inp \<longrightarrow> bv_session_id b = wi_session_uuid inp"
    "isl r \<Longrightarrow> wi_reservation_uuid inp \<notin> bv_reservation_id ` set (budget_reservations d')"
proof -
  have nf: "\<forall>b\<in>set (budget_reservations d). bv_reservation_id b \<noteq> wi_reservation_uuid inp" using assms(2) by (metis imageI)
  have same: "d' = d" if "isl r" using assms(1) that reserve_budget_Inl by (cases r) auto
  have new: "\<exists>b. budget_reservations d' = budget_reservations d @ [b] \<and> bv_session_id b = wi_session_uuid inp" if "\<not> isl r"
    using reserve_budget_keeps(2) [OF assms(1)] that by (cases r) auto
  show "\<forall>b\<in>set (budget_reservations d'). bv_reservation_id b = wi_reservation_uuid inp \<longrightarrow> bv_session_id b = wi_session_uuid inp"
    using nf same new by (cases "isl r") auto
  show "isl r \<Longrightarrow> wi_reservation_uuid inp \<notin> bv_reservation_id ` set (budget_reservations d')"
    using assms(2) same by simp
qed

text \<open>The reservation and its handler.\<close>

definition reserve_stage ::
  "supervisor_settings \<Rightarrow> wake_inputs \<Rightarrow> string \<Rightarrow> string option \<Rightarrow> string \<Rightarrow> string op \<Rightarrow> (frame, wake_report + string) act" where
  "reserve_stage cfg inp role delivery sid m =
     recovering (andthen (on_store m) (\<lambda>rid. returning (Inr rid))) (budget_refused cfg inp role delivery sid)"

lemma reserve_stage_cases:
  assumes run: "reserve_stage cfg inp role (Some i) (wi_session_uuid inp)
      (reserve_budget now (wi_reservation_uuid inp) (wi_session_uuid inp) epoch n bs) s = (r, s')"
    and fresh: "wi_reservation_uuid inp \<notin> bv_reservation_id ` set (budget_reservations (fr_store s))" and b: "bound inp s"
  shows "bound inp s' \<and> wake_runtimes (fr_store s') = wake_runtimes (fr_store s)
    \<and> (\<forall>rid. r = Inr (Inr rid) \<longrightarrow> rid = wi_reservation_uuid inp)
    \<and> (\<forall>x. r = Inr (Inl x) \<longrightarrow> let_go i (fr_store s') \<and> unreserved (wi_reservation_uuid inp) (fr_store s') \<and> rw_status x \<noteq> ''succeeded'')"
proof -
  let ?m = "reserve_budget now (wi_reservation_uuid inp) (wi_session_uuid inp) epoch n bs"
  obtain q d1 where m: "?m (fr_store s) = (q, d1)" by (cases "?m (fr_store s)")
  note k = reserve_budget_keeps [OF m] and st = reserve_step [OF m fresh]
  have b1: "bound inp (s\<lparr>fr_store := d1\<rparr>)" using b st(1) by (simp add: bound_def)
  show ?thesis
  proof (cases q)
    case (Inr rid)
    with run m have "r = Inr (Inr rid) \<and> s' = s\<lparr>fr_store := d1\<rparr>"
      by (simp add: reserve_stage_def recovering_def andthen_def on_store_def zoom_def returning_def)
    with b1 k Inr show ?thesis by auto
  next
    case (Inl e)
    with run m have h: "budget_refused cfg inp role (Some i) (wi_session_uuid inp) e (s\<lparr>fr_store := d1\<rparr>) = (r, s')"
      by (simp add: reserve_stage_def recovering_def andthen_def on_store_def zoom_def)
    obtain v d2 where v: "revoke_session (wi_session_uuid inp) d1 = (v, d2)" by (cases "revoke_session (wi_session_uuid inp) d1")
    let ?fin = "finish_delivery (wi_clk inp 6) i (sp_owner cfg) ''budget_hold'' (Some (exc_text e))
        (Some (utc_date (wi_clk inp 5 + 86400 * second) @ ''T00:00:00Z''))"
    obtain z d3 where z: "?fin d2 = (z, d3)" by (cases "?fin d2")
    have f2: "wake_runtimes d2 = wake_runtimes d1" "budget_reservations d2 = budget_reservations d1"
      using revoke_session_frame [of "wi_session_uuid inp" d1] v by simp_all
    have f3: "wake_runtimes d3 = wake_runtimes d2" "budget_reservations d3 = budget_reservations d2"
      using z finish_delivery_Inr [of _ _ _ _ _ _ d2] finish_delivery_Inl by (cases z; metis)+
    have out: "s' \<in> {s\<lparr>fr_store := d1\<rparr>, s\<lparr>fr_store := d2\<rparr>, s\<lparr>fr_store := d3\<rparr>}
        \<and> (\<not> isl r \<longrightarrow> s' = s\<lparr>fr_store := d3\<rparr> \<and> \<not> isl z \<and> (\<exists>x. r = Inr (Inl x) \<and> rw_status x = ''budget_hold''))"
      using h v z
      by (cases v; cases z) (auto simp: budget_refused_def andthen_def on_store_def zoom_def returning_def raising_def report_def split: if_splits)
    have nores: "wi_reservation_uuid inp \<notin> bv_reservation_id ` set (budget_reservations (fr_store s'))"
      using out st(2) Inl f2 f3 by auto
    have "bound inp s'" using out b1 f2 f3 by (auto simp: bound_def)
    moreover have "wake_runtimes (fr_store s') = wake_runtimes (fr_store s)" using out k(1) f2 f3 by auto
    moreover have "unreserved (wi_reservation_uuid inp) (fr_store s')" using nores unfolding unreserved_def by (metis imageI)
    moreover have "let_go i (fr_store s')" if "r = Inr (Inl x)" for x
      using out that z finish_delivery_Inr(1) by (cases z) auto
    ultimately show ?thesis using out by (cases r) auto
  qed
qed

definition begun :: "wake_inputs \<Rightarrow> string \<Rightarrow> frame \<Rightarrow> (wake_report + session \<times> string) result \<Rightarrow> frame \<Rightarrow> bool" where
  "begun inp i s r s' = (case r of
       Inl e \<Rightarrow> fr_session s' = None \<and> \<not> fr_started s' \<and> fr_store s' = fr_store s
              \<or> bound inp s' \<and> wake_runtimes (fr_store s') = wake_runtimes (fr_store s)
     | Inr (Inl x) \<Rightarrow> let_go i (fr_store s') \<and> unreserved (wi_reservation_uuid inp) (fr_store s') \<and> rw_status x \<noteq> ''succeeded''
     | Inr (Inr p) \<Rightarrow> bound inp s' \<and> fr_session s' = Some (fst p) \<and> fr_reservation s' = Some (wi_reservation_uuid inp)
         \<and> snd p = wi_reservation_uuid inp
         \<and> (\<exists>w. wake_runtimes (fr_store s') = wake_runtimes (fr_store s) @ [w] \<and> wr_wake_id w = wi_wake_uuid inp
              \<and> wr_session_id w = wi_session_uuid inp \<and> wr_delivery_id w = Some i))"

lemma begun_early: "fr_session s' = None \<Longrightarrow> \<not> fr_started s' \<Longrightarrow> fr_store s' = fr_store s \<Longrightarrow> begun inp i s (Inl e) s'"
  by (simp add: begun_def)

lemma begun_late: "bound inp s' \<Longrightarrow> wake_runtimes (fr_store s') = wake_runtimes (fr_store s) \<Longrightarrow> begun inp i s (Inl e) s'"
  by (simp add: begun_def)

text \<open>From the session to the prepared wake.\<close>

definition bind_stage ::
  "supervisor_settings \<Rightarrow> organization_policy \<Rightarrow> wake_inputs \<Rightarrow> string \<Rightarrow> string option \<Rightarrow> string \<Rightarrow> role_policy \<Rightarrow> session
     \<Rightarrow> (frame, wake_report + session \<times> string) act" where
  "bind_stage cfg policy inp role delivery reason rp sn =
     andthen (checked (look_up (sp_role_token_reservations cfg) role)) (\<lambda>requested.
     andthen (reserve_stage cfg inp role delivery (sn_session_id sn) (reserve_budget (wi_clk inp 4) (wi_reservation_uuid inp)
                (sn_session_id sn) (utc_date (wi_clk inp 3)) requested (wake_buckets policy role rp))) (\<lambda>reserved.
       case reserved of
         Inl answer \<Rightarrow> returning (Inl answer)
       | Inr rid \<Rightarrow>
           andthen (assigning (\<lambda>s. s\<lparr>fr_reservation := Some rid\<rparr>)) (\<lambda>_.
           andthen (on_store (prepare_wake (wi_clk inp 7) sn delivery rid (socket_path_of cfg (sn_wake_id sn)) reason)) (\<lambda>_.
             returning (Inr (sn, rid))))))"

lemma bind_stage_begun:
  assumes run: "bind_stage cfg policy inp role (Some i) reason rp sn s = (r, s')"
    and b: "bound inp s" and sn: "fr_session s = Some sn"
    and fresh: "wi_reservation_uuid inp \<notin> bv_reservation_id ` set (budget_reservations (fr_store s))"
  shows "begun inp i s r s' \<and> bound inp s'"
proof (cases "look_up (sp_role_token_reservations cfg) role")
  case (Inl e)
  with run b show ?thesis by (auto simp: bind_stage_def andthen_def checked_def begun_def)
next
  case (Inr requested)
  from b sn have ids: "sn_session_id sn = wi_session_uuid inp" "sn_wake_id sn = wi_wake_uuid inp" by (auto simp: bound_def)
  let ?m = "reserve_budget (wi_clk inp 4) (wi_reservation_uuid inp) (wi_session_uuid inp) (utc_date (wi_clk inp 3)) requested
      (wake_buckets policy role rp)"
  obtain q s1 where q: "reserve_stage cfg inp role (Some i) (wi_session_uuid inp) ?m s = (q, s1)"
    by (cases "reserve_stage cfg inp role (Some i) (wi_session_uuid inp) ?m s")
  note c = reserve_stage_cases [OF q fresh b]
  have same: "fr_session s1 = fr_session s" using q
    by (auto simp: reserve_stage_def budget_refused_def recovering_def andthen_def on_store_def zoom_def returning_def raising_def
        split: sum.splits prod.splits if_splits)
  show ?thesis
  proof (cases "\<exists>rid. q = Inr (Inr rid)")
    case False
    with run Inr q ids have "s' = s1 \<and> ((\<exists>e. q = Inl e \<and> r = Inl e) \<or> (\<exists>x. q = Inr (Inl x) \<and> r = Inr (Inl x)))"
      by (auto simp: bind_stage_def andthen_def checked_def returning_def split: sum.splits)
    with c show ?thesis by (auto simp: begun_def)
  next
    case True
    with c have rid: "q = Inr (Inr (wi_reservation_uuid inp))" by auto
    let ?s2 = "s1\<lparr>fr_reservation := Some (wi_reservation_uuid inp)\<rparr>"
    let ?p = "prepare_wake (wi_clk inp 7) sn (Some i) (wi_reservation_uuid inp) (socket_path_of cfg (sn_wake_id sn)) reason"
    obtain z d3 where z: "?p (fr_store s1) = (z, d3)" by (cases "?p (fr_store s1)")
    note w = prepare_wake_cases [OF z]
    from run Inr q ids rid z have s': "s' = ?s2\<lparr>fr_store := d3\<rparr>" and r: "r = map_sum id (\<lambda>_. Inr (sn, wi_reservation_uuid inp)) z"
      by (cases z; simp add: bind_stage_def andthen_def checked_def assigning_def on_store_def zoom_def returning_def)+
    have "bound inp s'" using c w(2) by (auto simp: bound_def s')
    with c w same sn ids r s' show ?thesis by (cases z) (auto simp: begun_def)
  qed
qed

lemma wake_begin_begun:
  assumes run: "wake_begin cfg policy inp role (Some i) reason s = (r, s')"
    and start: "fr_session s = None" "\<not> fr_started s" and fresh: "fresh_wake inp (fr_store s)"
  shows "begun inp i s r s'"
proof (cases "truthy (supervisor_value ''paused'' (JBool False) (fr_store s))")
  case True
  let ?f = "finish_delivery (wi_clk inp 1) i (sp_owner cfg) ''retry'' (Some ''supervisor is paused'') (Some (retry_time (wi_clk inp 0)))"
  obtain z d1 where z: "?f (fr_store s) = (z, d1)" by (cases "?f (fr_store s)")
  from run True z have s': "s' = s\<lparr>fr_store := d1\<rparr>" and r: "r = map_sum id (\<lambda>_. Inl (report role ''paused'')) z"
    by (cases z; simp add: wake_begin_def andthen_def reading_def for_delivery_def on_store_def zoom_def returning_def)+
  show ?thesis
  proof (cases z)
    case (Inl e)
    with z have "d1 = fr_store s" using finish_delivery_Inl by blast
    with Inl start r s' show ?thesis by (simp add: begun_def)
  next
    case (Inr u)
    have "unreserved (wi_reservation_uuid inp) d1"
      using fresh finish_delivery_Inr(2) [of _ _ _ _ _ _ _ u] z Inr unfolding unreserved_def fresh_wake_def by (metis imageI)
    with Inr z r s' finish_delivery_Inr(1) show ?thesis by (auto simp: begun_def report_def)
  qed
next
  case False
  show ?thesis
  proof (cases "policy_role policy role")
    case (Inl e)
    with run False start show ?thesis by (auto simp: wake_begin_def andthen_def reading_def checked_def begun_def)
  next
    case (Inr rp)
    let ?c = "create_session (wi_clk inp 2) (wi_session_uuid inp) (wi_wake_uuid inp) (op_org_id policy) role
        (op_policy_digest policy) (rp_repositories rp) None (sp_session_ttl_seconds cfg) (op_global_max_agents policy)"
    obtain z d1 where z: "?c (fr_store s) = (z, d1)" by (cases "?c (fr_store s)")
    note c = create_session_frame [OF z]
    show ?thesis
    proof (cases z)
      case (Inl e)
      with run False \<open>policy_role policy role = Inr rp\<close> z start c(5) show ?thesis
        by (auto simp: wake_begin_def andthen_def reading_def checked_def on_store_def zoom_def begun_def)
    next
      case (Inr sn)
      let ?s1 = "s\<lparr>fr_store := d1, fr_session := Some sn\<rparr>"
      have "bind_stage cfg policy inp role (Some i) reason rp sn ?s1 = (r, s')"
        using run False \<open>policy_role policy role = Inr rp\<close> z Inr
        by (simp add: wake_begin_def bind_stage_def reserve_stage_def andthen_def reading_def checked_def on_store_apply assigning_def)
      moreover have "bound inp ?s1"
        using c(2,4) Inr start fresh unfolding bound_def fresh_wake_def by (auto simp: image_iff)
      moreover have "wi_reservation_uuid inp \<notin> bv_reservation_id ` set (budget_reservations (fr_store ?s1))"
        using c(2) fresh by (simp add: fresh_wake_def)
      ultimately have "begun inp i ?s1 r s' \<and> bound inp s'" using bind_stage_begun by simp
      then show ?thesis using c(1) by (auto simp: begun_def bound_def split: sum.splits)
    qed
  qed
qed

lemma not_spawned:
  "\<not> spawns cfg prepared role c \<Longrightarrow> \<exists>e. host_run_parent sha limits f cfg prepared clk sp st i role c d = (Inl e, d)"
  by (auto simp: spawns_def host_run_parent_def andthen_def checked_def run_child_def isl_def split: sum.splits option.splits)

lemma wake_launch_cases:
  assumes "wake_launch sha limits f cfg inp role events del reason sn s = (r, s')" and "\<not> fr_started s"
  shows "fr_session s' = fr_session s" "fr_reservation s' = fr_reservation s"
    "\<not> fr_started s' \<Longrightarrow> fr_store s' = fr_store s" "r = Inr x \<Longrightarrow> fr_started s'"
proof -
  let ?launch = "host_run_parent sha limits f cfg (wi_prepared inp) (\<lambda>n. wi_clk inp (9 + n)) (\<lambda>d. (Inr (), wi_early inp d))
       (andthen (on_started cfg inp sn del) (\<lambda>_. assigning (wi_meanwhile inp))) (sn_session_id sn) role (wi_child inp)"
  let ?s1 = "s\<lparr>fr_started := spawns cfg (wi_prepared inp) role (wi_child inp), fr_meter := wi_workers inp (fr_meter s)\<rparr>"
  have "(\<exists>e. r = Inl e \<and> s' = s) \<or> on_store ?launch ?s1 = (r, s')"
    using assms(1) by (auto simp: wake_launch_def andthen_def checked_def assigning_def split: sum.splits)
  then have "(\<exists>e. r = Inl e \<and> s' = s) \<or> (\<exists>d'. ?launch (fr_store s) = (r, d') \<and> s' = ?s1\<lparr>fr_store := d'\<rparr>)"
    by (simp add: on_store_iff)
  moreover have "\<exists>e. ?launch (fr_store s) = (Inl e, fr_store s)" if "\<not> spawns cfg (wi_prepared inp) role (wi_child inp)"
    using not_spawned [OF that] .
  ultimately have "fr_session s' = fr_session s \<and> fr_reservation s' = fr_reservation s
      \<and> (\<not> fr_started s' \<longrightarrow> fr_store s' = fr_store s) \<and> (r = Inr x \<longrightarrow> fr_started s')"
    using assms(2) by (cases "spawns cfg (wi_prepared inp) role (wi_child inp)") auto
  then show "fr_session s' = fr_session s" "fr_reservation s' = fr_reservation s"
    "\<not> fr_started s' \<Longrightarrow> fr_store s' = fr_store s" "r = Inr x \<Longrightarrow> fr_started s'" by blast+
qed

lemma stop_unstarted_lets_go:
  assumes run: "stop_unstarted inp (Some i) sn err d = (Inr u, d')" and inv: "store_inv cap d" and i: "i \<noteq> []"
    and res: "\<forall>b\<in>set (budget_reservations d). bv_reservation_id b = rid \<longrightarrow> bv_session_id b = sn_session_id sn"
    and old: "sn_session_id sn \<notin> wr_session_id ` set ws" "sn_wake_id sn \<notin> wr_wake_id ` set ws"
    and now: "wake_runtimes d = ws \<or> (\<exists>w. wake_runtimes d = ws @ [w] \<and> wr_session_id w = sn_session_id sn \<and> wr_delivery_id w = Some i)"
  shows "let_go i d' \<and> unreserved rid d'"
proof (cases "wake_runtimes d = ws")
  case True
  with old have "\<not> list_ex (\<lambda>r. wr_session_id r = sn_session_id sn) (wake_runtimes d)" unfolding list_ex_iff by force
  with run have "\<exists>el. recover_orphan_session (sn_session_id sn) (Some i) el err d = (Inr (), d')"
    by (auto simp: stop_unstarted_def andthen_def reading_def)
  then obtain el where o: "recover_orphan_session (sn_session_id sn) (Some i) el err d = (Inr (), d')" by blast
  obtain d2 where g: "give_back (sn_session_id sn) (Some i) (case el of Some t \<Rightarrow> t | None \<Rightarrow> []) err d = Inr d2"
    and d': "d' = close_session S_revoked (sn_session_id sn) d2"
    using o by (rule recover_orphan_Inr)
  have "budget_inv d" using inv by (simp add: store_inv_def)
  from give_back_lets_go(1) [OF this g, of rid] give_back_lets_go(2) [OF this g, of rid i] res have "let_go i d2 \<and> unreserved rid d2" by blast
  then show ?thesis by (simp add: d' let_go_def unreserved_def close_session_def)
next
  case False
  with now obtain w where w: "wake_runtimes d = ws @ [w]" "wr_session_id w = sn_session_id sn" "wr_delivery_id w = Some i" by blast
  with run have "\<exists>t1 t2. recover_prepared_wake t1 (sn_wake_id sn) t2 err d = (Inr (), d')"
    by (auto simp: stop_unstarted_def andthen_def reading_def)
  then obtain t1 t2 where p: "recover_prepared_wake t1 (sn_wake_id sn) t2 err d = (Inr (), d')" by blast
  obtain wake d2 where k: "wake \<in> set (wake_runtimes d)" "wr_wake_id wake = sn_wake_id sn"
    and g: "give_back (wr_session_id wake) (case wr_delivery_id wake of Some i \<Rightarrow> (if i = [] then None else Some i) | None \<Rightarrow> None) t2 err d = Inr d2"
    and d': "d' = close_session S_revoked (wr_session_id wake) (fail_wake (utcnow t1) (sn_wake_id sn) err d2)"
    using p by (rule recover_prepared_Inr)
  have "wake = w" using k w(1) old(2) by (auto simp: image_iff)
  with g w i have g': "give_back (sn_session_id sn) (Some i) t2 err d = Inr d2" by simp
  have "budget_inv d" using inv by (simp add: store_inv_def)
  from give_back_lets_go(1) [OF this g', of rid] give_back_lets_go(2) [OF this g', of rid i] res have "let_go i d2 \<and> unreserved rid d2" by blast
  then show ?thesis by (simp add: d' let_go_def unreserved_def close_session_def fail_wake_def)
qed

lemma wake_complete_Inr:
  assumes "wake_complete cfg inp role (Some i) sn rid result tokens s = (Inr x, s')"
  shows "let_go i (fr_store s') \<and> unreserved rid (fr_store s')
    \<and> (rw_status x = ''succeeded'' \<longrightarrow> ps_returncode result = 0 \<and> (\<exists>v\<in>set (deliveries (fr_store s')). dv_delivery_id v = i \<and> dv_state v = D_succeeded))"
proof -
  from assms obtain s2 s3 s4 where
    1: "on_store (settle_budget rid tokens) s = (Inr (), s2)"
    and 2: "on_store (if ps_returncode result = 0 then finish_wake (wi_clk inp 11) (sn_wake_id sn) ''succeeded'' (Some (ps_output_sha256 result)) None
                else finish_wake (wi_clk inp 11) (sn_wake_id sn) ''failed'' (Some (ps_output_sha256 result))
                  (Some (if ps_error result = [] then ''provider returned failure'' else ps_error result))) s2 = (Inr (), s3)"
    and 3: "on_store (if ps_returncode result = 0 then finish_delivery (wi_clk inp 12) i (sp_owner cfg) ''succeeded'' None None
        else finish_delivery (wi_clk inp 12) i (sp_owner cfg) ''uncertain'' (Some ''provider returned failure after start'') None) s3 = (Inr (), s4)"
    and 4: "on_store (finish_session (sn_session_id sn)) s4 = (Inr (), s')"
    and x: "rw_status x = (if ps_returncode result = 0 then ''succeeded'' else ''uncertain'')"
    unfolding wake_complete_def Let_def andthen_Inr for_delivery_iff returning_iff report_def by auto
  let ?d2 = "fr_store s2" and ?d3 = "fr_store s3" and ?d4 = "fr_store s4"
  from 1 have "unreserved rid ?d2" using settle_unreserves(1) by (auto simp: on_store_iff)
  moreover from 2 have "budget_reservations ?d3 = budget_reservations ?d2"
    by (auto simp: on_store_iff split: if_splits) (metis finish_wake_frame(2) snd_conv)+
  moreover from 3 obtain oc er where f: "finish_delivery (wi_clk inp 12) i (sp_owner cfg) oc er None ?d3 = (Inr (), ?d4)"
    and oc: "ps_returncode result = 0 \<longrightarrow> oc = ''succeeded''" by (auto simp: on_store_iff split: if_splits)
  moreover have "budget_reservations (fr_store s') = budget_reservations ?d4 \<and> deliveries (fr_store s') = deliveries ?d4"
    using 4 by (auto simp: on_store_iff) (metis finish_session_frame snd_conv)+
  ultimately show ?thesis using finish_delivery_Inr [OF f] x by (simp add: let_go_def unreserved_def)
qed

definition same_locals :: "frame \<Rightarrow> frame \<Rightarrow> bool" where
  "same_locals s s' \<longleftrightarrow> fr_session s' = fr_session s \<and> fr_reservation s' = fr_reservation s \<and> fr_started s' = fr_started s"

interpretation locals: steps same_locals
  by unfold_locales (auto simp: same_locals_def)

lemma wake_settle_locals: "stepping same_locals (wake_settle cfg inp role del sn rid result)"
proof -
  have s: "stepping same_locals (on_store m)" for m :: "'z op" by (simp add: stepping_def on_store_apply same_locals_def split: prod.split)
  have d: "stepping same_locals (for_delivery del f)" for f by (cases del) (auto simp: for_delivery_def s)
  have t: "stepping same_locals (take_usage i)" for i by (simp add: stepping_def take_usage_def same_locals_def split: prod.split)
  show ?thesis
    unfolding wake_settle_def wake_complete_def Let_def
    by (intro locals.stepping_andthen locals.stepping_checked locals.stepping_option locals.stepping_raising locals.stepping_returning s d t)
qed

lemma wake_settle_Inr:
  assumes "wake_settle cfg inp role (Some i) sn rid result s = (Inr x, s')"
  obtains tokens s1 where "wake_complete cfg inp role (Some i) sn rid result tokens s1 = (Inr x, s')"
proof -
  from assms obtain w s1 where "take_usage (sn_session_id sn) s = (Inr w, s1)"
    and t: "(case ps_tokens result of
       None \<Rightarrow> raising (SupervisorError ''provider returned no trustworthy token usage'')
     | Some a \<Rightarrow>
         (case w of
            None \<Rightarrow> raising (SupervisorError ''provider returned no trustworthy token usage'')
          | Some b \<Rightarrow> wake_complete cfg inp role (Some i) sn rid result (a + b))) s1 = (Inr x, s')"
    unfolding wake_settle_def andthen_Inr checked_iff by blast
  show thesis using t that by (cases "ps_tokens result"; cases w) auto
qed

section \<open>The whole wake\<close>

lemma finish_retry_ok:
  assumes "delivery_row i d = Some row" "dv_state row = D_leased" "dv_lease_owner row = Some own"
  shows "\<exists>d'. finish_delivery now i own ''retry'' err el d = (Inr (), d')"
  using assms by (simp add: finish_delivery_def delivery_targets_def allowed_outcomes_def immediate_def Let_def)

text \<open>The \<open>except\<close> clause when nothing was started.\<close>

lemma wake_failed_unstarted:
  assumes run: "wake_failed cfg inp role (Some i) e s1 = (Inr x, s')" and b: "bound inp s1" and inv: "store_inv cap (fr_store s1)"
    and i: "i \<noteq> []" and fresh: "fresh_wake inp d"
    and now: "wake_runtimes (fr_store s1) = wake_runtimes d
        \<or> (\<exists>w. wake_runtimes (fr_store s1) = wake_runtimes d @ [w] \<and> wr_session_id w = wi_session_uuid inp \<and> wr_delivery_id w = Some i)"
  shows "let_go i (fr_store s') \<and> unreserved (wi_reservation_uuid inp) (fr_store s') \<and> rw_status x \<noteq> ''succeeded''"
proof -
  from b obtain sn where sn: "fr_session s1 = Some sn" "sn_session_id sn = wi_session_uuid inp" "sn_wake_id sn = wi_wake_uuid inp"
    and un: "\<not> fr_started s1"
    and res: "\<forall>b\<in>set (budget_reservations (fr_store s1)). bv_reservation_id b = wi_reservation_uuid inp \<longrightarrow> bv_session_id b = sn_session_id sn"
    by (auto simp: bound_def)
  from run sn(1) un obtain s2 where "on_store (stop_unstarted inp (Some i) sn (exc_text e)) s1 = (Inr (), s2)"
    and x: "s' = s2" "rw_status x = ''retry''"
    by (auto simp: wake_failed_def andthen_Inr report_def)
  then have "stop_unstarted inp (Some i) sn (exc_text e) (fr_store s1) = (Inr (), fr_store s2)" by (auto simp: on_store_iff)
  moreover have "sn_session_id sn \<notin> wr_session_id ` set (wake_runtimes d)" "sn_wake_id sn \<notin> wr_wake_id ` set (wake_runtimes d)"
    using fresh sn by (simp_all add: fresh_wake_def)
  ultimately have "let_go i (fr_store s2) \<and> unreserved (wi_reservation_uuid inp) (fr_store s2)"
    using stop_unstarted_lets_go [OF _ inv i res] now sn by metis
  with x show ?thesis by simp
qed

lemma wake_failed_started:
  assumes run: "wake_failed cfg inp role (Some i) e s1 = (Inr x, s')" and inv: "store_inv cap (fr_store s1)"
    and s1: "fr_session s1 = Some sn" "fr_reservation s1 = Some rid" "fr_started s1"
  shows "let_go i (fr_store s') \<and> unreserved rid (fr_store s') \<and> rw_status x \<noteq> ''succeeded''"
proof -
  from run s1 obtain s2 where "stop_started inp (Some i) sn (Some rid) (exc_text e) s1 = (Inr (), s2)"
    and x: "s' = s2" "rw_status x = ''uncertain''"
    by (auto simp: wake_failed_def andthen_Inr report_def)
  from stop_started_lets_go [OF this(1) inv] x show ?thesis by simp
qed

lemma wake_failed_early:
  assumes run: "wake_failed cfg inp role (Some i) e s1 = (Inr x, s')" and s1: "fr_session s1 = None" "\<not> fr_started s1"
    and row: "delivery_row i (fr_store s1) = Some row" "dv_state row = D_leased" "dv_lease_owner row = Some (sp_owner cfg)"
    and fresh: "fresh_wake inp (fr_store s1)"
  shows "let_go i (fr_store s') \<and> unreserved (wi_reservation_uuid inp) (fr_store s') \<and> rw_status x \<noteq> ''succeeded''"
proof -
  from run s1 obtain now el where "ignoring_state_error (on_store (finish_delivery now i (sp_owner cfg) ''retry'' (Some (exc_text e)) el)) s1 = (Inr (), s')"
    and x: "rw_status x = ''retry''"
    by (auto simp: wake_failed_def andthen_Inr report_def for_delivery_iff)
  from ignoring_store [OF this(1)] finish_retry_ok [OF row, of now "Some (exc_text e)" el]
  have f: "finish_delivery now i (sp_owner cfg) ''retry'' (Some (exc_text e)) el (fr_store s1) = (Inr (), fr_store s')" by auto
  have "unreserved (wi_reservation_uuid inp) (fr_store s')"
    using fresh finish_delivery_Inr(2) [OF f] unfolding unreserved_def fresh_wake_def by (metis imageI)
  with finish_delivery_Inr(1) [OF f] x show ?thesis by simp
qed

text \<open>From the prepared wake on.\<close>

lemma launched_wake_lets_go:
  assumes run: "recovering (andthen (wake_launch sha limits f cfg inp role events (Some i) reason sn) (wake_settle cfg inp role (Some i) sn (wi_reservation_uuid inp)))
      (wake_failed cfg inp role (Some i)) s1 = (Inr x, s')"
    and inv: "store_inv cap (fr_store s1)" and quiet: "quiet_inputs cap uuid5 inp" and fresh: "fresh_wake inp d" and i: "i \<noteq> []"
    and bd: "bound inp s1" and s1: "fr_session s1 = Some sn" "fr_reservation s1 = Some (wi_reservation_uuid inp)"
    and w: "\<exists>w. wake_runtimes (fr_store s1) = wake_runtimes d @ [w] \<and> wr_session_id w = wi_session_uuid inp \<and> wr_delivery_id w = Some i"
  shows "let_go i (fr_store s') \<and> unreserved (wi_reservation_uuid inp) (fr_store s')
    \<and> (rw_status x = ''succeeded'' \<longrightarrow> (\<exists>v\<in>set (deliveries (fr_store s')). dv_delivery_id v = i \<and> dv_state v = D_succeeded))"
proof -
  let ?rid = "wi_reservation_uuid inp"
  obtain l s2 where l: "wake_launch sha limits f cfg inp role events (Some i) reason sn s1 = (l, s2)"
    by (cases "wake_launch sha limits f cfg inp role events (Some i) reason sn s1")
  have "\<not> fr_started s1" using bd by (simp add: bound_def)
  note lc = wake_launch_cases [OF l this]
  note inv2 = frame_inv [OF frame_calls.stepping_pairD [OF wake_launch_runs [OF quiet] l] inv]
  show ?thesis
  proof (cases l)
    case (Inl e)
    with run l have e: "wake_failed cfg inp role (Some i) e s2 = (Inr x, s')" by (simp add: recovering_def andthen_def)
    show ?thesis
    proof (cases "fr_started s2")
      case True
      with wake_failed_started [OF e inv2, of sn ?rid] lc s1 show ?thesis by simp
    next
      case False
      with lc have "fr_store s2 = fr_store s1" "bound inp s2" using bd by (auto simp: bound_def)
      with wake_failed_unstarted [OF e _ inv2 i fresh] w show ?thesis by simp
    qed
  next
    case (Inr result)
    obtain z s3 where z: "wake_settle cfg inp role (Some i) sn ?rid result s2 = (z, s3)"
      by (cases "wake_settle cfg inp role (Some i) sn ?rid result s2")
    have loc: "same_locals s2 s3" using locals.stepping_pairD [OF wake_settle_locals z] .
    note inv3 = frame_inv [OF frame_calls.stepping_pairD [OF wake_settle_runs z] inv2]
    show ?thesis
    proof (cases z)
      case (Inl e)
      with run l Inr z have e: "wake_failed cfg inp role (Some i) e s3 = (Inr x, s')" by (simp add: recovering_def andthen_def)
      show ?thesis using wake_failed_started [OF e inv3, of sn ?rid] loc lc s1 Inr by (simp add: same_locals_def)
    next
      case over: (Inr y)
      with run l Inr z have "y = x" "s3 = s'" by (simp_all add: recovering_def andthen_def)
      with z over obtain tokens s4 where "wake_complete cfg inp role (Some i) sn ?rid result tokens s4 = (Inr x, s')"
        using wake_settle_Inr by blast
      from wake_complete_Inr [OF this] show ?thesis by blast
    qed
  qed
qed

lemma run_wake_lets_go:
  assumes run: "run_wake sha limits f cfg policy inp role events (Some i) reason s = (Inr x, s')"
    and cap: "op_global_max_agents policy = cap" and inv: "store_inv cap (fr_store s)" and quiet: "quiet_inputs cap uuid5 inp"
    and fresh: "fresh_wake inp (fr_store s)" and i: "i \<noteq> []"
    and row: "delivery_row i (fr_store s) = Some row" "dv_state row = D_leased" "dv_lease_owner row = Some (sp_owner cfg)"
  shows "let_go i (fr_store s') \<and> unreserved (wi_reservation_uuid inp) (fr_store s')
    \<and> (rw_status x = ''succeeded'' \<longrightarrow> (\<exists>v\<in>set (deliveries (fr_store s')). dv_delivery_id v = i \<and> dv_state v = D_succeeded))"
proof -
  let ?s0 = "s\<lparr>fr_session := None, fr_reservation := None, fr_started := False\<rparr>"
  obtain b s1 where b: "wake_begin cfg policy inp role (Some i) reason ?s0 = (b, s1)"
    by (cases "wake_begin cfg policy inp role (Some i) reason ?s0")
  have g: "begun inp i ?s0 b s1" using wake_begin_begun [OF b] fresh by simp
  have inv1: "store_inv cap (fr_store s1)"
    using frame_inv [OF frame_calls.stepping_pairD [OF wake_begin_runs [OF cap] b]] inv by simp
  note run' = run [unfolded run_wake_def wake_body_def recovering_def andthen_def b]
  consider (early) e where "b = Inl e" "fr_session s1 = None" "\<not> fr_started s1" "fr_store s1 = fr_store s"
    | (late) e where "b = Inl e" "bound inp s1" "wake_runtimes (fr_store s1) = wake_runtimes (fr_store s)"
    | (reported) y where "b = Inr (Inl y)" | (prepared) p where "b = Inr (Inr p)"
    using g by (cases b) (auto simp: begun_def split: sum.splits)
  then show ?thesis
  proof cases
    case early
    with run' have "wake_failed cfg inp role (Some i) e s1 = (Inr x, s')" by simp
    from wake_failed_early [OF this early(2,3)] row fresh early(4) show ?thesis by simp
  next
    case late
    with run' have "wake_failed cfg inp role (Some i) e s1 = (Inr x, s')" by simp
    from wake_failed_unstarted [OF this late(2) inv1 i fresh] late(3) show ?thesis by simp
  next
    case reported
    with run' have "s' = s1" "x = y" by (simp_all add: returning_def)
    with g reported show ?thesis by (simp add: begun_def)
  next
    case prepared
    with g have bd: "bound inp s1" "fr_session s1 = Some (fst p)" "fr_reservation s1 = Some (wi_reservation_uuid inp)"
      "snd p = wi_reservation_uuid inp"
      "\<exists>w. wake_runtimes (fr_store s1) = wake_runtimes (fr_store s) @ [w] \<and> wr_session_id w = wi_session_uuid inp \<and> wr_delivery_id w = Some i"
      by (auto simp: begun_def)
    from run' prepared
    have "recovering (andthen (wake_launch sha limits f cfg inp role events (Some i) reason (fst p))
        (wake_settle cfg inp role (Some i) (fst p) (wi_reservation_uuid inp))) (wake_failed cfg inp role (Some i)) s1 = (Inr x, s')"
      unfolding recovering_def andthen_def bd(4) [symmetric] by simp
    from launched_wake_lets_go [OF this inv1 quiet fresh i bd(1,2,3,5)] show ?thesis .
  qed
qed

end
