(* ===== verification/Recovery.thy ===== *)
theory Recovery
  imports Calls
begin

text \<open>
  What \<open>Supervisor.recover\<close> and \<open>pause\<close> leave: every step of them only closes sessions and wakes, and each wake
  of their list is closed when they return.
\<close>

definition active_in :: "string \<Rightarrow> db \<Rightarrow> bool" where
  "active_in i d \<longleftrightarrow> (\<exists>s\<in>set (wake_sessions d). ws_session_id s = i \<and> active_session s)"

definition open_in :: "string \<Rightarrow> db \<Rightarrow> bool" where
  "open_in i d \<longleftrightarrow> (\<exists>w\<in>set (wake_runtimes d). wr_session_id w = i \<and> open_wake w)"

definition wake_keys :: "db \<Rightarrow> (string \<times> string) list" where
  "wake_keys d = map (\<lambda>w. (wr_wake_id w, wr_session_id w)) (wake_runtimes d)"

text \<open>The step relation of both operations.\<close>

definition winding_down :: "db \<Rightarrow> db \<Rightarrow> bool" where
  "winding_down d d' \<longleftrightarrow> map ws_session_id (wake_sessions d') = map ws_session_id (wake_sessions d) \<and> wake_keys d' = wake_keys d
     \<and> supervisor_values d' = supervisor_values d \<and> (\<forall>i. active_in i d' \<longrightarrow> active_in i d) \<and> (\<forall>i. open_in i d' \<longrightarrow> open_in i d)"

interpretation winding_down: steps winding_down
  by unfold_locales (auto simp: winding_down_def)

lemmas closing_moves = winding_down.stepping_andthen winding_down.stepping_recovering winding_down.stepping_ignoring winding_down.stepping_provided
  winding_down.stepping_if winding_down.stepping_option winding_down.stepping_sum winding_down.stepping_reading winding_down.stepping_each
  winding_down.stepping_returning winding_down.stepping_raising winding_down.stepping_checked

lemma closing_same:
  "wake_sessions d' = wake_sessions d \<Longrightarrow> wake_runtimes d' = wake_runtimes d \<Longrightarrow> supervisor_values d' = supervisor_values d \<Longrightarrow> winding_down d d'"
  by (simp add: winding_down_def wake_keys_def active_in_def open_in_def)

lemma closing_wakes:
  assumes "\<And>w. wr_wake_id (f w) = wr_wake_id w \<and> wr_session_id (f w) = wr_session_id w \<and> \<not> open_wake (f w)"
    and "wake_sessions d' = wake_sessions d" and "wake_runtimes d' = update_where P f (wake_runtimes d)"
    and "supervisor_values d' = supervisor_values d"
  shows "winding_down d d'"
proof -
  have "map (\<lambda>w. (wr_wake_id w, wr_session_id w)) (update_where P f ws) = map (\<lambda>w. (wr_wake_id w, wr_session_id w)) ws" for ws
    by (rule map_update_where) (simp add: assms(1))
  moreover have "open_in i d'\<Longrightarrow> open_in i d" for i
    using assms(1) by (auto simp: open_in_def assms(3) set_update_where split: if_splits)
  ultimately show ?thesis by (simp add: winding_down_def wake_keys_def assms(2-4) active_in_def)
qed

lemma closing_close:
  assumes "st \<noteq> S_active"
  shows "winding_down d (close_session st i d)"
proof -
  have "map ws_session_id (update_where P (\<lambda>r. r\<lparr>ws_state := st\<rparr>) ss) = map ws_session_id ss" for P ss
    by (rule map_update_where) simp
  then show ?thesis
    using assms by (auto simp: winding_down_def close_session_def wake_keys_def active_in_def open_in_def set_update_where active_session_def
        split: if_splits)
qed

lemma closing_terminate_wakes: "winding_down d (terminate_wakes t i d)"
  unfolding terminate_wakes_def by (rule closing_wakes) (auto simp: open_wake_def)

lemma closing_doubt: "winding_down d (doubt_wake t i d)"
  unfolding doubt_wake_def by (rule closing_wakes) (auto simp: open_wake_def)

lemma closing_fail: "winding_down d (fail_wake t w e d)"
  unfolding fail_wake_def by (rule closing_wakes) (auto simp: open_wake_def)

lemma give_back_closing:
  assumes "give_back i del t e d = Inr d'"
  shows "winding_down d d'"
proof -
  have rel: "wake_sessions x' = wake_sessions x \<and> wake_runtimes x' = wake_runtimes x \<and> supervisor_values x' = supervisor_values x" if "release_buckets m n ks x = Inr x'" for m n ks x x'
    using that by (induction m n ks x rule: release_buckets.induct) (auto split: if_splits)
  from assms obtain d1 where d1: "release_reservation_for i d = Inr d1"
    and d': "(case del of None \<Rightarrow> Inr d1 | Some j \<Rightarrow> retry_leased_delivery j t e d1) = Inr d'"
    by (auto simp: give_back_def bindE_eq_Inr)
  have "wake_sessions d1 = wake_sessions d \<and> wake_runtimes d1 = wake_runtimes d \<and> supervisor_values d1 = supervisor_values d"
    using d1 by (auto simp: release_reservation_for_def bindE_eq_Inr set_reservation_def split: option.splits if_splits dest!: rel)
  moreover have "supervisor_values y = supervisor_values d1" if "retry_leased_delivery j t e d1 = Inr y" for j y
    using that by (auto simp: retry_leased_delivery_def set_routes_def set_delivery_def split: option.splits if_splits)
  then have "wake_sessions d' = wake_sessions d1 \<and> wake_runtimes d' = wake_runtimes d1 \<and> supervisor_values d' = supervisor_values d1"
    using d' retry_leased_tables(1,5) by (cases del) auto
  ultimately show ?thesis by (simp add: closing_same)
qed

lemma recover_orphan_closing: "stepping winding_down (recover_orphan_session i del el err)"
  unfolding stepping_def
proof
  fix d
  show "winding_down d (snd (recover_orphan_session i del el err d))"
  proof (cases "recover_orphan_session i del el err d")
    case (Pair r d')
    show ?thesis
    proof (cases r)
      case (Inl e)
      with Pair have "d' = d" by (simp add: recover_orphan_session_def immediate_Inl)
      with Pair show ?thesis by (simp add: winding_down.refl)
    next
      case (Inr u)
      with Pair have "recover_orphan_session i del el err d = (Inr (), d')" by simp
      then obtain t d2 where g: "give_back i del t err d = Inr d2" and d': "d' = close_session S_revoked i d2" by (rule recover_orphan_Inr)
      have "winding_down d2 d'" unfolding d' by (rule closing_close) simp
      with give_back_closing [OF g] Pair show ?thesis using winding_down.trans by auto
    qed
  qed
qed

lemma recover_prepared_closing: "stepping winding_down (recover_prepared_wake now w el err)"
  unfolding stepping_def
proof
  fix d
  show "winding_down d (snd (recover_prepared_wake now w el err d))"
  proof (cases "recover_prepared_wake now w el err d")
    case (Pair r d')
    show ?thesis
    proof (cases r)
      case (Inl e)
      with Pair have "d' = d" by (simp add: recover_prepared_wake_def immediate_Inl)
      with Pair show ?thesis by (simp add: winding_down.refl)
    next
      case (Inr u)
      with Pair have "recover_prepared_wake now w el err d = (Inr (), d')" by simp
      then obtain i del d2 where g: "give_back i del el err d = Inr d2"
        and d': "d' = close_session S_revoked i (fail_wake (utcnow now) w err d2)" by (rule recover_prepared_Inr)
      have "winding_down d2 d'" unfolding d' by (rule winding_down.trans [OF closing_fail closing_close]) simp
      with give_back_closing [OF g] Pair show ?thesis using winding_down.trans by auto
    qed
  qed
qed

lemma force_terminate_closing: "stepping winding_down (force_terminate_session now i x)"
proof -
  have "winding_down d (terminate_wakes t i (close_session st i (doubt_reservations i (fail_live_attempts t i d))))" if "st \<noteq> S_active" for d t st
  proof -
    have "winding_down d (doubt_reservations i (fail_live_attempts t i d))"
      by (rule closing_same) (simp_all add: doubt_reservations_def fail_live_attempts_def)
    then show ?thesis using closing_close [OF that] closing_terminate_wakes winding_down.trans by blast
  qed
  then show ?thesis
    by (auto simp: stepping_def force_terminate_session_def snd_immediate winding_down.refl split: option.split)
qed

lemma force_uncertain_closing: "stepping winding_down (force_delivery_uncertain i e)"
  by (auto simp: stepping_def force_delivery_uncertain_def snd_immediate Let_def set_routes_def intro!: closing_same)

lemma terminate_session_closing: "stepping winding_down (terminate_session probe clk i)"
proof -
  have "winding_down d (snd (terminate_rows probe clk n rows c d))" for n rows c d
  proof (induction rows arbitrary: n c d)
    case (Cons row rows)
    have "winding_down d (snd (finish_process t k st x d))" for t k st x
      by (rule closing_same) (simp_all add: finish_process_def Let_def split: option.split)
    with Cons.IH winding_down.trans show ?case by (auto simp: winding_down.refl split: sum.split) blast+
  qed (simp add: winding_down.refl)
  then show ?thesis by (simp add: stepping_def terminate_session_def)
qed

lemma terminate_wake_closing: "stepping winding_down (terminate_wake probe clk reason i)"
  unfolding terminate_wake_def
  by (intro closing_moves terminate_session_closing force_uncertain_closing force_terminate_closing
      winding_down.stepping_assigning closing_doubt)

lemma recover_wake_closing: "stepping winding_down (recover_wake probe clk w)"
  unfolding recover_wake_def by (intro closing_moves recover_prepared_closing terminate_wake_closing)

section \<open>What each step closes\<close>

lemma sessions_of_keys: "snd ` set (wake_keys d) = wr_session_id ` set (wake_runtimes d)"
  by (simp add: wake_keys_def image_image)

lemma not_active_in: "\<not> active_in i d \<longleftrightarrow> (\<forall>s\<in>set (wake_sessions d). ws_session_id s = i \<longrightarrow> \<not> active_session s)"
  by (auto simp: active_in_def)

lemma not_open_in: "\<not> open_in i d \<longleftrightarrow> (\<forall>w\<in>set (wake_runtimes d). wr_session_id w = i \<longrightarrow> \<not> open_wake w)"
  by (auto simp: open_in_def)

lemma recover_orphan_ends:
  assumes "recover_orphan_session i del el err d = (Inr u, d')"
  shows "\<not> active_in i d'"
proof -
  have "recover_orphan_session i del el err d = (Inr (), d')" using assms by simp
  then obtain d2 where "d' = close_session S_revoked i d2" by (rule recover_orphan_Inr)
  then show ?thesis by (simp add: not_active_in close_session_def ball_update_where active_session_def)
qed

lemma terminated_wakes_closed: "\<not> open_in i (terminate_wakes t i d)"
  by (simp add: not_open_in terminate_wakes_def ball_update_where open_wake_def)

lemma doubted_wakes_closed: "\<not> open_in i (doubt_wake t i d)"
  by (simp add: not_open_in doubt_wake_def ball_update_where open_wake_def)

lemma terminate_wake_ends:
  assumes run: "terminate_wake probe clk reason i d = (Inr b, d')" and i: "i \<in> snd ` set (wake_keys d)"
  shows "\<not> open_in i d'"
proof -
  from run obtain t d1 where t: "terminate_session probe (\<lambda>n. clk (Suc n)) i d = (Inr t, d1)"
    by (auto simp: terminate_wake_def andthen_Inr)
  have "wake_keys d1 = wake_keys d"
    using winding_down.stepping_pairD [OF terminate_session_closing t] by (simp add: winding_down_def)
  with i have "i \<in> wr_session_id ` set (wake_runtimes d1)" by (simp add: sessions_of_keys [symmetric])
  then have "\<exists>v\<in>set (wake_runtimes d1). wr_session_id v = i" by blast
  then obtain w where w: "find (\<lambda>r. wr_session_id r = i) (wake_runtimes d1) = Some w" by (meson find_None_iff not_None_eq)
  show ?thesis
  proof (cases t)
    case True
    with run t w obtain d2 where "force_terminate_session (clk 0) i False d2 = (Inr (), d')"
      by (auto simp: terminate_wake_def andthen_Inr)
    then obtain d3 where "d' = terminate_wakes (utcnow (clk 0)) i d3"
      by (auto simp: force_terminate_session_def immediate_Inr split: option.splits if_splits)
    then show ?thesis by (simp add: terminated_wakes_closed)
  next
    case False
    with run t w have "d' = doubt_wake (clk 0) i d1"
      by (auto simp: terminate_wake_def andthen_Inr)
    then show ?thesis by (simp add: doubted_wakes_closed)
  qed
qed

lemma recover_prepared_ends:
  assumes run: "recover_prepared_wake now w el err d = (Inr u, d')" and k: "(w, i) \<in> set (wake_keys d)"
    and keys: "distinct (map snd (wake_keys d))"
  shows "\<not> open_in i d'"
proof -
  have "recover_prepared_wake now w el err d = (Inr (), d')" using run by simp
  then obtain j del d2 where g: "give_back j del el err d = Inr d2"
    and d': "d' = close_session S_revoked j (fail_wake (utcnow now) w err d2)" by (rule recover_prepared_Inr)
  have k2: "wake_keys d2 = wake_keys d" using give_back_closing [OF g] by (simp add: winding_down_def)
  have "wr_wake_id v = w" if "v \<in> set (wake_runtimes d2)" "wr_session_id v = i" for v
  proof -
    have "(wr_wake_id v, i) \<in> set (wake_keys d2)" using that by (auto simp: wake_keys_def)
    then have "(wr_wake_id v, i) \<in> set (wake_keys d)" by (simp add: k2)
    with k keys show ?thesis using key_unique [of snd "wake_keys d" "(wr_wake_id v, i)" "(w, i)"] by simp
  qed
  then have "\<forall>v\<in>set (wake_runtimes d2). wr_wake_id v \<noteq> w \<longrightarrow> wr_session_id v \<noteq> i" by blast
  then show ?thesis by (simp add: not_open_in d' close_session_def fail_wake_def ball_update_where open_wake_def)
qed

lemma recover_wake_ends:
  assumes run: "recover_wake probe clk w d = (Inr b, d')" and k: "(wr_wake_id w, wr_session_id w) \<in> set (wake_keys d)"
    and keys: "distinct (map snd (wake_keys d))"
  shows "\<not> open_in (wr_session_id w) d'"
proof (cases "wr_state w = K_prepared \<and> \<not> list_ex (\<lambda>r. pr_session_id r = wr_session_id w) (process_runtimes d)")
  case True
  with run show ?thesis by (auto simp: recover_wake_def andthen_Inr dest: recover_prepared_ends [OF _ k keys])
next
  case False
  with run have "terminate_wake probe clk ''supervisor restart recovery'' (wr_session_id w) d = (Inr b, d')"
    by (auto simp: recover_wake_def andthen_def reading_def)
  moreover have "wr_session_id w \<in> snd ` set (wake_keys d)" using k by force
  ultimately show ?thesis by (rule terminate_wake_ends)
qed

lemma each_ends:
  assumes step: "\<And>x. stepping winding_down (f x)"
    and ends: "\<And>x d1 y d2. x \<in> set xs \<Longrightarrow> winding_down d d1 \<Longrightarrow> f x d1 = (Inr y, d2) \<Longrightarrow> E x d2"
    and stays: "\<And>x d1 d2. E x d1 \<Longrightarrow> winding_down d1 d2 \<Longrightarrow> E x d2"
    and run: "each f xs d0 = (Inr ys, d')" and start: "winding_down d d0"
  shows "\<forall>x\<in>set xs. E x d'"
  using ends run start
proof (induction xs arbitrary: d0 ys)
  case (Cons x xs)
  from Cons.prems(2) obtain y d1 zs where one: "f x d0 = (Inr y, d1)" and rest: "each f xs d1 = (Inr zs, d')"
    by (auto simp: andthen_Inr)
  have c: "winding_down d0 d1" using winding_down.stepping_pairD [OF step one] .
  have "E x d1" using Cons.prems(1) [OF _ Cons.prems(3) one] by simp
  moreover have "winding_down d1 d'" using winding_down.stepping_pairD [OF winding_down.stepping_each [OF step] rest] .
  ultimately have "E x d'" by (rule stays)
  moreover have "\<forall>x\<in>set xs. E x d'"
    using Cons.IH [OF _ rest winding_down.trans [OF Cons.prems(3) c]] Cons.prems(1) by auto
  ultimately show ?case by simp
qed simp

text \<open>An open wake of a database after winding_down steps was in the list of open wakes before them.\<close>

lemma closed_wakes:
  assumes c: "winding_down d d'" and ended: "\<forall>w\<in>set (map fst (active_wakes d)). \<not> open_in (wr_session_id w) d'"
  shows "active_wakes d' = []"
proof (rule ccontr)
  assume "active_wakes d' \<noteq> []"
  then obtain p where "p \<in> set (active_wakes d')" by (cases "active_wakes d'") auto
  then obtain u a where u: "u \<in> set (wake_runtimes d')" "open_wake u" "a \<in> set (wake_sessions d')" "ws_session_id a = wr_session_id u"
    by (auto simp: active_wakes_def split: if_splits)
  have o: "open_in (wr_session_id u) d'" using u(1,2) by (auto simp: open_in_def)
  with c have "open_in (wr_session_id u) d" by (simp add: winding_down_def)
  then obtain v where v: "v \<in> set (wake_runtimes d)" "open_wake v" "wr_session_id v = wr_session_id u" unfolding open_in_def by blast
  have "ws_session_id ` set (wake_sessions d') = ws_session_id ` set (wake_sessions d)"
    using c unfolding winding_down_def by (metis list.set_map)
  then have "wr_session_id v \<in> ws_session_id ` set (wake_sessions d)"
    using imageI [OF u(3), of ws_session_id] by (simp add: u(4) v(3))
  then have "v \<in> set (map fst (active_wakes d))" using v(1,2) by (force simp: active_wakes_def)
  with ended have "\<not> open_in (wr_session_id v) d'" by blast
  with o v(3) show False by simp
qed

lemma recover_leaves_nothing_open:
  assumes run: "supervisor_recover probe clk d = (Inr r, d')"
    and keys: "distinct (map wr_session_id (wake_runtimes d))"
  shows "active_wakes d' = []" "orphan_sessions d' = []" "winding_down d d'"
proof -
  let ?orphans = "map ws_session_id (orphan_sessions d)" and ?wakes = "map fst (active_wakes d)"
  from run obtain us d1 bs where
    1: "each (\<lambda>i. recover_orphan_session i None None ''supervisor stopped before wake preparation'') ?orphans d = (Inr us, d1)"
    and 2: "each (\<lambda>w. recover_wake probe (clk (wr_session_id w)) w) ?wakes d1 = (Inr bs, d')"
    by (auto simp: supervisor_recover_def andthen_Inr)
  have c1: "winding_down d d1" using winding_down.stepping_pairD [OF winding_down.stepping_each 1] recover_orphan_closing by blast
  have c2: "winding_down d1 d'" using winding_down.stepping_pairD [OF winding_down.stepping_each 2] recover_wake_closing by blast
  show c: "winding_down d d'" using c1 c2 winding_down.trans by blast
  have "\<forall>i\<in>set ?orphans. \<not> active_in i d1"
    by (rule each_ends [OF recover_orphan_closing _ _ 1 winding_down.refl]) (auto dest: recover_orphan_ends simp: winding_down_def)
  then have o: "\<forall>i\<in>set ?orphans. \<not> active_in i d'" using c2 by (auto simp: winding_down_def)
  have k: "distinct (map snd (wake_keys d))" using keys by (simp add: wake_keys_def comp_def)
  have "\<forall>w\<in>set ?wakes. \<not> open_in (wr_session_id w) d'"
  proof (rule each_ends [OF recover_wake_closing _ _ 2 c1])
    fix w d2 b d3 assume "w \<in> set ?wakes" and d2: "winding_down d d2" and r: "recover_wake probe (clk (wr_session_id w)) w d2 = (Inr b, d3)"
    then have "(wr_wake_id w, wr_session_id w) \<in> set (wake_keys d)" by (auto simp: active_wakes_def wake_keys_def)
    then show "\<not> open_in (wr_session_id w) d3" using recover_wake_ends [OF r] d2 k by (simp add: winding_down_def)
  qed (auto simp: winding_down_def)
  with c show "active_wakes d' = []" by (rule closed_wakes)
  show "orphan_sessions d' = []"
  proof (rule ccontr)
    assume "orphan_sessions d' \<noteq> []"
    then obtain s where "s \<in> set (orphan_sessions d')" by (cases "orphan_sessions d'") auto
    then have s: "active_in (ws_session_id s) d'" "ws_session_id s \<notin> snd ` set (wake_keys d')"
      by (auto simp: orphan_sessions_def active_in_def wake_keys_def list_ex_iff)
    with c have "active_in (ws_session_id s) d" "ws_session_id s \<notin> snd ` set (wake_keys d)" by (simp_all add: winding_down_def)
    then obtain a where a: "a \<in> set (wake_sessions d)" "active_session a" "ws_session_id a = ws_session_id s"
      "ws_session_id s \<notin> wr_session_id ` set (wake_runtimes d)"
      unfolding active_in_def sessions_of_keys by blast
    then have "a \<in> set (orphan_sessions d)" by (auto simp: orphan_sessions_def list_ex_iff image_iff)
    then have "ws_session_id s \<in> set ?orphans" using a(3) by (metis image_eqI list.set_map)
    with o s(1) show False by blast
  qed
qed

section \<open>Pausing\<close>

lemma set_value_frame:
  assumes "set_supervisor_value now k v d = (Inr u, d')"
  shows "wake_runtimes d' = wake_runtimes d" "wake_sessions d' = wake_sessions d" "supervisor_value k w d' = v"
proof -
  show "wake_runtimes d' = wake_runtimes d" "wake_sessions d' = wake_sessions d"
    using assms by (auto simp: set_supervisor_value_def split: if_splits)
  have up: "map_option sv_value (find (\<lambda>r. sv_key r = k) (update_where (\<lambda>r. sv_key r = k) (\<lambda>r. r\<lparr>sv_value := v, sv_updated_at := t\<rparr>) rs))
      = Some v" if "list_ex (\<lambda>r. sv_key r = k) rs" for t rs
    using that by (induction rs) (auto simp: update_where_def)
  have new: "map_option sv_value (find (\<lambda>r. sv_key r = k) (rs @ [\<lparr>sv_key = k, sv_value = v, sv_updated_at = t\<rparr>])) = Some v"
    if "\<not> list_ex (\<lambda>r. sv_key r = k) rs" for t rs
    using that by (induction rs) auto
  have "map_option sv_value (find (\<lambda>r. sv_key r = k) (supervisor_values d')) = Some v"
    using assms up new by (auto simp: set_supervisor_value_def split: if_splits)
  then show "supervisor_value k w d' = v" by (auto simp: supervisor_value_def)
qed

lemma pause_leaves_nothing_open:
  assumes run: "pause probe now clk d = (Inr r, d')"
  shows "active_wakes d' = []" "supervisor_value ''paused'' v d' = JBool True"
proof -
  from run obtain d1 bs where s: "set_supervisor_value now ''paused'' (JBool True) d = (Inr (), d1)"
    and e: "each (\<lambda>i. terminate_wake probe (clk i) ''operator pause'' i) (map (wr_session_id \<circ> fst) (active_wakes d1)) d1 = (Inr bs, d')"
    by (auto simp: pause_def andthen_Inr)
  have c: "winding_down d1 d'" using winding_down.stepping_pairD [OF winding_down.stepping_each e] terminate_wake_closing by blast
  have "\<forall>i\<in>set (map (wr_session_id \<circ> fst) (active_wakes d1)). \<not> open_in i d'"
  proof (rule each_ends [OF terminate_wake_closing _ _ e winding_down.refl])
    fix i d2 b d3 assume "i \<in> set (map (wr_session_id \<circ> fst) (active_wakes d1))" and d2: "winding_down d1 d2"
      and t: "terminate_wake probe (clk i) ''operator pause'' i d2 = (Inr b, d3)"
    then have "i \<in> snd ` set (wake_keys d1)" unfolding sessions_of_keys by (auto simp: active_wakes_def split: if_splits)
    with d2 have "i \<in> snd ` set (wake_keys d2)" by (simp add: winding_down_def)
    with t show "\<not> open_in i d3" by (rule terminate_wake_ends)
  qed (auto simp: winding_down_def)
  then show "active_wakes d' = []" by (intro closed_wakes [OF c]) auto
  have "supervisor_value ''paused'' v d1 = JBool True" using set_value_frame(3) [OF s] .
  moreover have "supervisor_values d' = supervisor_values d1" using c by (simp add: winding_down_def)
  ultimately show "supervisor_value ''paused'' v d' = JBool True" by (simp add: supervisor_value_def)
qed

end
