(* ===== verification/Wake_Table.thy ===== *)
theory Wake_Table
  imports Wake_Rules Recovery
begin

text \<open>
  The table of wakes over the calls of the store: only \<open>prepare_wake\<close> adds a row, and the sessions of its rows stay distinct.
\<close>

lemma keys_rewritten:
  assumes "\<And>w. wr_wake_id (f w) = wr_wake_id w \<and> wr_session_id (f w) = wr_session_id w"
    and "wake_runtimes d' = update_where P f (wake_runtimes d)"
  shows "wake_keys d' = wake_keys d"
  unfolding wake_keys_def assms(2) by (rule map_update_where) (simp add: assms(1))

lemma keys_same: "wake_runtimes d' = wake_runtimes d \<Longrightarrow> wake_keys d' = wake_keys d"
  by (simp add: wake_keys_def)

lemma session_run_keys: "wake_keys (session_run cap e d) = wake_keys d"
proof (cases e)
  case (Create_session now u1 u2 org_id role dig al w ttl)
  then show ?thesis
    by (auto intro!: keys_same simp: create_session_def Let_def immediate_def insert_session_def new_session_def split: sum.split prod.split)
next
  case (Force_terminate now i x)
  then show ?thesis using force_terminate_closing [of now i x] by (simp add: stepping_def winding_down_def)
next
  case (Reap_expired now i)
  have "winding_down d' (terminate_wakes t i (close_session S_expired i d'))" for d' t
    using closing_close closing_terminate_wakes winding_down.trans by blast
  then show ?thesis
    by (auto simp: Reap_expired reap_expired_session_def snd_immediate winding_down_def wake_keys_def fail_live_attempts_def doubt_reservations_def
        split: option.split)
next
  case (Reserve_worker n1 n2 u i wt cum con)
  then show ?thesis
    by (auto intro!: keys_same simp: reserve_worker_def Let_def immediate_def insert_attempt_def split: option.split sum.split prod.split if_split)
qed (auto intro!: keys_same simp: revoke_session_def finish_session_def start_attempt_def succeed_attempt_def
    fail_attempt_def snd_immediate close_session_def)

lemma budget_run_keys: "wake_keys (budget_run e d) = wake_keys d"
proof (cases e)
  case (Reserve_budget now u i epoch n bs)
  then show ?thesis using reserve_budget_keeps(1) by (auto intro!: keys_same) (metis prod.collapse)
next
  case (Settle_budget rid n)
  have "wake_runtimes (fold (adjust_bucket a b) ks x) = wake_runtimes x" for a b ks x
    by (simp add: fold_frame adjust_bucket_def)
  then show ?thesis
    by (auto intro!: keys_same simp: Settle_budget settle_budget_def Let_def immediate_def set_reservation_def split: option.split prod.split)
next
  case (Release_budget rid)
  have "release_buckets m n ks x = Inr x' \<Longrightarrow> wake_runtimes x' = wake_runtimes x" for m n ks x x'
    by (induction m n ks x rule: release_buckets.induct) (auto split: if_splits)
  then show ?thesis
    by (auto intro!: keys_same simp: Release_budget release_budget_def Let_def immediate_def set_reservation_def
        split: option.split prod.split sum.split)
qed (auto intro!: keys_same simp: mark_budget_uncertain_def Let_def)

lemma journal_run_keys: "wake_keys (journal_run e d) = wake_keys d"
  by (rule keys_same, cases e; simp add: reserve_request_def mark_request_applying_def abandon_read_request_def
      finish_request_def audit_def reserve_reconcile_def mark_reconcile_applying_def finish_reconcile_def
      snd_immediate Let_def split: option.split if_split)

lemma source_run_keys: "wake_keys (source_run f e d) = wake_keys d"
  by (rule keys_same, cases e; simp add: checkpoint_def begin_snapshot_def stage_observation_def finish_snapshot_def
      set_supervisor_value_def close_snapshot_def snd_immediate Let_def split: option.split if_split)

lemma queue_run_keys: "wake_keys (queue_run e d) = wake_keys d"
proof -
  have r: "insert_route x r d = Inr d' \<Longrightarrow> wake_runtimes d' = wake_runtimes d" for x r d'
    by (auto simp: insert_route_def split: if_splits)
  have b: "bind_events i role es x = Inr y \<Longrightarrow> wake_runtimes y = wake_runtimes x" for i role es x y
    by (induction es arbitrary: x) (fastforce simp: Let_def split: if_splits)+
  have l: "wake_runtimes (snd (lease_delivery now own secs m d)) = wake_runtimes d" for now own secs m
  proof -
    have "wake_runtimes (exhaust_waiting m (expire_leases t (expire_running t d))) = wake_runtimes d" for t
      by (simp add: exhaust_waiting_def expire_leases_def expire_running_def fold_frame exhaust_def quarantine_def
          set_routes_def set_delivery_def)
    then show ?thesis by (simp add: lease_delivery_def snd_immediate Let_def take_lease_def set_routes_def split: list.split)
  qed
  have e: "wake_runtimes (snd (enqueue_delivery now u role es k el d)) = wake_runtimes d" for now u role es k el
  proof (cases "bind_events u role (sort (remdups es)) (d\<lparr>deliveries := deliveries d @ [new_delivery u k role (text_or el (utcnow now))]\<rparr>)")
    case (Inl x)
    then show ?thesis by (simp add: enqueue_delivery_def snd_immediate Let_def split: option.split)
  next
    case (Inr y)
    then show ?thesis using b [OF Inr] by (simp add: enqueue_delivery_def snd_immediate Let_def split: option.split)
  qed
  show ?thesis
    by (rule keys_same, cases e; use l e r in \<open>auto simp: finish_event_routing_def add_route_def start_delivery_def finish_delivery_def
        release_budget_hold_def force_delivery_uncertain_def set_routes_def set_delivery_def snd_immediate Let_def
        split: option.split sum.split\<close>)
qed

lemma runtime_run_keys:
  "wake_keys (runtime_run e d) = wake_keys d
   \<or> (\<exists>p. wake_keys (runtime_run e d) = wake_keys d @ [p] \<and> snd p \<notin> snd ` set (wake_keys d))"
proof (cases e)
  case (Prepare_wake now sn del rid sock reason)
  then show ?thesis
    by (auto simp: prepare_wake_def insert_wake_runtime_def wake_keys_def list_ex_iff image_iff split: sum.split)
next
  case (Recover_orphan i del el err)
  then show ?thesis using recover_orphan_closing [of i del el err] by (simp add: stepping_def winding_down_def)
next
  case (Recover_prepared now w el err)
  then show ?thesis using recover_prepared_closing [of now w el err] by (simp add: stepping_def winding_down_def)
next
  case (Doubt_wake now i)
  then show ?thesis using closing_doubt by (simp add: winding_down_def)
next
  case (Mark_wake_running w)
  have "wake_keys (snd (mark_wake_running w d)) = wake_keys d"
    by (rule keys_rewritten [where f = "\<lambda>r. r\<lparr>wr_state := K_running\<rparr>" and P = "\<lambda>r. wr_wake_id r = w \<and> wr_state r = K_prepared"])
      (simp_all add: mark_wake_running_def Let_def)
  with Mark_wake_running show ?thesis by simp
next
  case (Finish_wake now w st h err)
  have "wake_keys (snd (finish_wake now w st h err d)) = wake_keys d"
  proof (cases "terminal_wake_state st")
    case (Some x)
    show ?thesis
      by (rule keys_rewritten [where f = "\<lambda>r. r\<lparr>wr_state := x, wr_finished_at := Some (utcnow now), wr_output_sha256 := h, wr_error_detail := err\<rparr>"
            and P = "\<lambda>r. wr_wake_id r = w \<and> open_wake r"]) (simp_all add: finish_wake_def Let_def Some)
  qed (simp add: finish_wake_def)
  with Finish_wake show ?thesis by simp
qed (auto intro!: keys_same simp: record_process_def finish_process_def Let_def split: option.split)

lemma store_run_distinct_wakes:
  "distinct (map snd (wake_keys d)) \<Longrightarrow> distinct (map snd (wake_keys (store_run cap uuid5 e d)))"
proof (cases e)
  case (Runtime r)
  assume "distinct (map snd (wake_keys d))"
  with runtime_run_keys [of r d] show ?thesis by (auto simp: Runtime)
qed (simp_all add: session_run_keys budget_run_keys journal_run_keys source_run_keys queue_run_keys)

interpretation wakes: step_invariant cap uuid5 "\<lambda>d. distinct (map snd (wake_keys d))" for cap uuid5
proof
  show "distinct (map snd (wake_keys empty_db))" by (simp add: wake_keys_def empty_db_def)
qed (rule store_run_distinct_wakes)

lemma reachable_wakes_distinct: "reachable cap uuid5 d \<Longrightarrow> distinct (map wr_session_id (wake_runtimes d))"
  using wakes.always [of cap uuid5 d] by (simp add: wake_keys_def comp_def)

end
