(* ===== verification/Tick_Facts.thy ===== *)
theory Tick_Facts
  imports Calls
begin

text \<open>
  What a tick leases and what it reports: at most one delivery of a role, and a report of each.
\<close>

section \<open>What a tick leases\<close>

lemma checked_Inr: "checked r s = (Inr x, s') \<longleftrightarrow> r = Inr x \<and> s' = s"
  by auto

lemma lease_loop_bounds:
  assumes "lease_loop cfg clk limit n leased d = (Inr out, d')" and "distinct (map dv_role leased)"
    and "leased = [] \<or> int (length leased) < limit"
  shows "distinct (map dv_role out) \<and> int (length out) \<le> max 1 limit \<and> length out \<le> length leased + n"
  using assms
proof (induction n arbitrary: leased d)
  case 0
  then show ?case by auto
next
  case (Suc n)
  from Suc.prems(1) obtain found d1 where rest: "(case found of None \<Rightarrow> returning leased
     | Some dv \<Rightarrow>
         if dv_role dv \<in> dv_role ` set leased then
           andthen (finish_delivery (clk (3 * n + 2)) (dv_delivery_id dv) (sp_owner cfg) ''retry''
                      (Some ''role already selected for this tick'') (Some (retry_time (clk (3 * n + 1))))) (\<lambda>_.
             lease_loop cfg clk limit n leased)
         else if int (length (leased @ [dv])) \<ge> limit then returning (leased @ [dv])
         else lease_loop cfg clk limit n (leased @ [dv])) d1 = (Inr out, d')"
    by (auto simp: andthen_Inr)
  show ?case
  proof (cases found)
    case None
    with rest Suc.prems show ?thesis by auto
  next
    case (Some dv)
    show ?thesis
    proof (cases "dv_role dv \<in> dv_role ` set leased")
      case True
      with rest Some obtain d2 where "lease_loop cfg clk limit n leased d2 = (Inr out, d')" by (auto simp: andthen_Inr)
      from Suc.IH [OF this Suc.prems(2,3)] show ?thesis by simp
    next
      case False
      then have d: "distinct (map dv_role (leased @ [dv]))" using Suc.prems(2) by simp
      show ?thesis
      proof (cases "int (length (leased @ [dv])) \<ge> limit")
        case True
        with rest Some False have "out = leased @ [dv]" by simp
        with d Suc.prems(3) show ?thesis by auto
      next
        case go: False
        with rest Some False have "lease_loop cfg clk limit n (leased @ [dv]) d1 = (Inr out, d')" by simp
        from Suc.IH [OF this d] go show ?thesis by simp
      qed
    qed
  qed
qed

lemma report_role [simp]: "rw_role (report role st) = role"
  by (simp add: report_def)

text \<open>What an action returns, when it returns.\<close>

definition yields :: "('a \<Rightarrow> bool) \<Rightarrow> ('s, 'a) act \<Rightarrow> bool" where
  "yields P m \<longleftrightarrow> (\<forall>s x s'. m s = (Inr x, s') \<longrightarrow> P x)"

lemma yieldsD: "yields P m \<Longrightarrow> m s = (Inr x, s') \<Longrightarrow> P x"
  by (auto simp: yields_def)

lemma yields_returning: "P x \<Longrightarrow> yields P (returning x)"
  by (simp add: yields_def)

lemma yields_raising: "yields P (raising e)"
  by (simp add: yields_def)

lemma yields_andthen: "(\<And>x. yields P (f x)) \<Longrightarrow> yields P (andthen m f)"
  by (fastforce simp: yields_def andthen_Inr)

lemma yields_through: "yields Q m \<Longrightarrow> (\<And>x. Q x \<Longrightarrow> yields P (f x)) \<Longrightarrow> yields P (andthen m f)"
  by (fastforce simp: yields_def andthen_Inr)

lemma yields_recovering: "yields P m \<Longrightarrow> (\<And>e. yields P (h e)) \<Longrightarrow> yields P (recovering m h)"
  by (fastforce simp: yields_def recovering_Inr)

lemma yields_option: "(x = None \<Longrightarrow> yields P a) \<Longrightarrow> (\<And>y. x = Some y \<Longrightarrow> yields P (f y)) \<Longrightarrow> yields P (case x of None \<Rightarrow> a | Some y \<Rightarrow> f y)"
  by (cases x) auto

lemma yields_sum: "(\<And>y. x = Inl y \<Longrightarrow> yields P (f y)) \<Longrightarrow> (\<And>y. x = Inr y \<Longrightarrow> yields P (g y)) \<Longrightarrow> yields P (case x of Inl y \<Rightarrow> f y | Inr y \<Rightarrow> g y)"
  by (cases x) auto

lemma yields_if: "(b \<Longrightarrow> yields P m) \<Longrightarrow> (\<not> b \<Longrightarrow> yields P n) \<Longrightarrow> yields P (if b then m else n)"
  by simp

lemma yields_prod: "(\<And>a b. p = (a, b) \<Longrightarrow> yields P (f a b)) \<Longrightarrow> yields P (case p of (a, b) \<Rightarrow> f a b)"
  by (cases p) auto

lemmas yielding = yields_returning yields_raising yields_if yields_option yields_sum yields_prod yields_andthen

definition for_role :: "string \<Rightarrow> wake_report + 'a \<Rightarrow> bool" where
  "for_role role b = (case b of Inl y \<Rightarrow> rw_role y = role | Inr _ \<Rightarrow> True)"

lemma refused_role: "yields (for_role role) (budget_refused cfg inp role del i e)"
  unfolding budget_refused_def by (intro yielding) (simp add: for_role_def)

lemma begun_role: "yields (for_role role) (wake_begin cfg policy inp role del reason)"
proof -
  have last: "yields (for_role role) (case r of Inl answer \<Rightarrow> returning (Inl answer)
       | Inr rid \<Rightarrow> andthen (m rid) (\<lambda>_. andthen (n rid) (\<lambda>_. returning (Inr (k rid)))))"
    if "for_role role r" for r m n k
    using that by (intro yielding) (auto simp: for_role_def)
  have held: "yields (for_role role) (recovering (andthen m (\<lambda>rid. returning (Inr rid))) (budget_refused cfg inp role del i))" for m i
    by (intro yields_recovering yielding refused_role) (simp add: for_role_def)
  show ?thesis unfolding wake_begin_def
  proof (rule yields_andthen, rule yields_if)
    show "yields (for_role role) (andthen (for_delivery del i) (\<lambda>_. returning (Inl (report role r) :: wake_report + session \<times> string)))" for i r
      by (rule yields_andthen, rule yields_returning) (simp add: for_role_def)
  qed (rule yields_andthen, rule yields_andthen, rule yields_andthen, rule yields_andthen, rule yields_through [OF held last])
qed

lemma run_wake_role:
  assumes "run_wake sha limits f cfg policy inp role events del reason s = (Inr x, s')"
  shows "rw_role x = role"
proof -
  have settled: "yields (\<lambda>x. rw_role x = role) (wake_settle cfg inp role del sn rid result)" for sn rid result
    unfolding wake_settle_def wake_complete_def Let_def by (intro yielding) simp
  have failed: "yields (\<lambda>x. rw_role x = role) (wake_failed cfg inp role del e)" for e
    unfolding wake_failed_def by (intro yielding) simp
  have "yields (\<lambda>x. rw_role x = role) (wake_body sha limits f cfg policy inp role events del reason)"
    unfolding wake_body_def
  proof (rule yields_through [OF begun_role])
    fix b :: "wake_report + session \<times> string"
    assume "for_role role b"
    then show "yields (\<lambda>x. rw_role x = role) (case b of Inl answer \<Rightarrow> returning answer
       | Inr p \<Rightarrow> andthen (wake_launch sha limits f cfg inp role events del reason (fst p)) (\<lambda>result.
           wake_settle cfg inp role del (fst p) (snd p) result))"
      by (cases b) (simp_all add: for_role_def yields_returning yields_andthen settled)
  qed
  from yields_recovering [OF this failed] have "yields (\<lambda>x. rw_role x = role)
    (recovering (wake_body sha limits f cfg policy inp role events del reason) (wake_failed cfg inp role del))" .
  from yieldsD [OF this assms [unfolded run_wake_def]] show ?thesis .
qed

lemma run_all_length: "length (fst (run_all f xs s)) = length xs"
  by (induction xs arbitrary: s) (auto split: prod.split, metis fst_conv)

lemma mapE_id_eq: "mapE id rs = Inr ys \<Longrightarrow> rs = map Inr ys"
  by (induction rs arbitrary: ys) (auto simp: bindE_eq_Inr)

lemma run_all_each:
  assumes "run_all f xs s = (map Inr ys, s')" and "\<And>x s y s'. f x s = (Inr y, s') \<Longrightarrow> g y = h x"
  shows "map g ys = map h xs"
  using assms(1)
proof (induction xs arbitrary: s ys)
  case (Cons x xs)
  then show ?case by (cases ys) (auto split: prod.splits dest: assms(2))
qed simp

lemma tick_live_reports:
  assumes "tick_live sha limits f cfg policy ti n summary s = (Inr t, s')"
  shows "distinct (map rw_role (tk_wakes t)) \<and> int (length (tk_wakes t)) \<le> max 0 n
    \<and> int (length (tk_wakes t)) \<le> max 1 (min n (min (op_global_max_agents policy) (int (length (op_roles policy)))))"
proof -
  let ?limit = "min n (min (op_global_max_agents policy) (int (length (op_roles policy))))"
  let ?run = "\<lambda>dv. run_delivery sha limits f cfg policy (ti_wake ti dv) dv"
  from assms obtain leased s1 ys where lease: "on_store (lease_loop cfg (ti_lease_clk ti) ?limit (nat n) []) s = (Inr leased, s1)"
    and all: "(case run_all ?run leased s1 of (rs, s2) \<Rightarrow> (mapE id rs, s2)) = (Inr ys, s')" and t: "tk_wakes t = ys"
    by (auto simp: tick_live_def andthen_Inr)
  from lease obtain d where "lease_loop cfg (ti_lease_clk ti) ?limit (nat n) [] (fr_store s) = (Inr leased, d)"
    by (auto simp: on_store_def zoom_def split: prod.splits)
  from lease_loop_bounds [OF this] have l: "distinct (map dv_role leased)" "int (length leased) \<le> max 1 ?limit" "length leased \<le> nat n"
    by auto
  from all have "run_all ?run leased s1 = (map Inr ys, s')"
    by (cases "run_all ?run leased s1") (auto dest: mapE_id_eq)
  moreover have "rw_role y = dv_role dv" if "?run dv z = (Inr y, z')" for dv z y z'
    using run_wake_role that unfolding run_delivery_def by blast
  ultimately have "map rw_role ys = map dv_role leased" by (rule run_all_each)
  moreover from this have "length ys = length leased" by (metis length_map)
  ultimately show ?thesis using l by (simp add: t)
qed

lemma tick_reports:
  assumes "tick sha uuid5 fromiso limits f cfg policy rules ti preview n s = Some (Inr t, s')"
  shows "tk_wakes t = [] \<or> (\<exists>summary s1. tick_live sha limits f cfg policy ti n summary s1 = (Inr t, s'))"
proof -
  let ?shadow = "preview \<or> sp_mode cfg = ''shadow''"
  from assms obtain p d where p: "tick_plan sha uuid5 fromiso cfg policy rules ti ?shadow (fr_store s) = Some (p, d)"
    and busy: "\<not> ti_busy ti"
    by (cases "tick_plan sha uuid5 fromiso cfg policy rules ti ?shadow (fr_store s)") (auto simp: tick_def split: if_splits)
  have "tk_wakes u = []" if "p = Inr u" for u
  proof -
    have "tk_wakes u = []" if "route_and_queue sha policy rules ti sh polled x = (Inr u, y)" for sh polled x y
      using that by (auto simp: route_and_queue_def andthen_Inr)
    with p that show ?thesis by (auto simp: tick_plan_def split: if_splits option.splits sum.splits)
  qed
  with assms p busy show ?thesis
    by (cases p) (auto simp: tick_def Let_def split: if_splits)
qed

end
