(* ===== verification/Supervisor_Example.thy ===== *)
theory Supervisor_Example
  imports Wake_Rules Tick_Facts Store_Rules
begin

text \<open>
  Concrete runs of the supervisor: a wake whose session server does not start, and a tick that leases one delivery. Each step
  of them is evaluated on the model.
\<close>

section \<open>An example wake\<close>

definition supervised_policy :: organization_policy where
  "supervised_policy = \<lparr>op_org_id = ''acme'', op_principal_github = ''acme'', op_repositories = [],
     op_roles = [(''pm'', \<lparr>rp_role = ''pm'', rp_worker_types = {}, rp_max_workers_per_wake = 1, rp_max_workers_concurrent = 1,
       rp_repositories = {''org''}, rp_daily_token_budget = 15\<rparr>)],
     op_source_commit = ''c'', op_control_version = ''v'', op_source_tree_sha256 = ''t'', op_organization_daily_token_budget = 20,
     op_global_max_agents = 3, op_policy_digest = ''p'', op_protected_submission_paths = []\<rparr>"

definition example_settings :: supervisor_settings where
  "example_settings = \<lparr>sp_mode = ''live'', sp_owner = ''me'', sp_session_ttl_seconds = 60, sp_delivery_lease_seconds = 60,
     sp_role_token_reservations = [(''pm'', 10)], sp_workspaces = [(''pm'', [(''org'', ''/work'')])],
     sp_wake_socket_directory = ''/run/sjg'', sp_initial_watermark = ''t0'', sp_role_models = [(''pm'', ''model'')],
     sp_host = \<lparr>hs_provider = ''codex'', hs_worker_models = [], hs_euid = 1, hs_egid = 1, hs_agent_uid = 1, hs_agent_gid = 1\<rparr>\<rparr>"

text \<open>A host on which the process has ended.\<close>

definition gone_host :: host_probe where
  "gone_host = \<lparr>hp_stat = None, hp_boot = Inr [], hp_ps = Inr ([], 1)\<rparr>"

definition gone_group :: group_probe where
  "gone_group = \<lparr>gp_before = gone_host, gp_term = No_such_process, gp_polls = [], gp_after = gone_host, gp_kill = No_such_process\<rparr>"

text \<open>A wake whose session server does not start.\<close>

definition example_wake :: wake_inputs where
  "example_wake = \<lparr>wi_clk = (\<lambda>n. (3 + int n) * second), wi_session_uuid = ''s1'', wi_wake_uuid = ''w1'', wi_reservation_uuid = ''b1'',
     wi_start_failure = Some ''address in use'', wi_shared = Inr [], wi_mandate = Inr [], wi_prepared = Inr (),
     wi_child = \<lparr>ch_pid = None, ch_birth = gone_host, ch_pgid = Inr 0, ch_killed = 0, ch_ending = Completed [] [] 0\<rparr>,
     wi_early = id, wi_meanwhile = store_run 3 id (Session (Reserve_worker 1 1 ''a1'' ''s1'' ''code'' 2 1)), wi_workers = id,
     wi_run_failure = None, wi_probe = (\<lambda>_. gone_group)\<rparr>"

definition leased_calls :: "store_event list" where
  "leased_calls =
     [Source (Checkpoint ''gh'' ''t0''), Source (Begin_snapshot 0 ''n1'' ''gh''),
      Source (Stage_observation ''n1'' ''gh'' ''7'' ''v1'' ''t1'' JNull),
      Source (Finish_snapshot 1 ''n1'' True 1 None (Some ''t1'') None None None),
      Queue (Finish_routing ''gh:7:v1'' (Some ''pm'')),
      Queue (Enqueue 1 ''d1'' ''pm'' [''gh:7:v1''] ''key'' None), Queue (Lease (2 * second) ''me'' 60 3)]"

definition leased_db :: db where
  "leased_db = sample_db\<lparr>wake_sessions := [], worker_attempts := [], budget_buckets := [], budget_reservations := [],
     deliveries := [\<lparr>dv_delivery_id = ''d1'', dv_idempotency_key = ''key'', dv_role = ''pm'', dv_state = D_leased, dv_attempt = 1,
       dv_eligible_at = ''0001-01-01T00:00:00.000001Z'', dv_lease_owner = Some ''me'', dv_lease_until = Some ''0001-01-01T00:01:02Z'',
       dv_last_error = None\<rparr>],
     route_targets := [\<lparr>rt_event_id = ''gh:7:v1'', rt_role = ''pm'', rt_state = T_leased, rt_delivery_id = Some ''d1''\<rparr>]\<rparr>"

lemma leased_db_run: "fold (store_run 3 id) leased_calls empty_db = leased_db"
  by code_simp

lemma leased_reachable: "reachable 3 id leased_db"
  unfolding leased_db_run [symmetric]
  by (rule reachable_calls [OF _ reachable.start]) (simp add: leased_calls_def unconditional_def)

lemma example_quiet: "quiet_inputs 3 id example_wake"
  by (auto simp: quiet_inputs_def example_wake_def runs_refl runs_def store_step_def intro!: r_into_rtranclp)
    (rule exI [of _ "Session (Reserve_worker 1 1 ''a1'' ''s1'' ''code'' 2 1)"], simp add: admissible_def starts_live_def)

definition frame_of :: "db \<Rightarrow> frame" where
  "frame_of d = \<lparr>fr_session = None, fr_reservation = None, fr_started = False,
     fr_meter = \<lparr>mt_usage = [], mt_uncertain = {}\<rparr>, fr_store = d\<rparr>"

definition example_run :: "wake_report result \<times> frame" where
  "example_run = run_delivery id (\<lambda>_. None) (\<lambda>t. (t, None)) example_settings supervised_policy example_wake
     (hd (deliveries leased_db)) (frame_of leased_db)"

definition supervised_session :: session where
  "supervised_session = \<lparr>sn_session_id = ''s1'', sn_wake_id = ''w1'', sn_org_id = ''acme'', sn_role = ''pm'', sn_policy_digest = ''p'',
     sn_workspace_aliases = {''org''}, sn_expires_at = ''0001-01-01T00:01:05Z''\<rparr>"

definition session_db :: db where
  "session_db = snd (create_session (5 * second) ''s1'' ''w1'' ''acme'' ''pm'' ''p'' {''org''} None 60 3 leased_db)"

definition held_db :: db where
  "held_db = snd (reserve_budget (7 * second) ''b1'' ''s1'' ''0001-01-01'' 10 [(''org'', ''acme'', 20), (''role'', ''pm'', 15)] session_db)"

definition prepared_db :: db where
  "prepared_db = snd (prepare_wake (10 * second) supervised_session (Some ''d1'') ''b1'' ''/run/sjg/w-w1.sock'' ''routed GitHub events'' held_db)"

lemma example_steps:
  "truthy (supervisor_value ''paused'' (JBool False) leased_db) = False"
  "create_session (5 * second) ''s1'' ''w1'' ''acme'' ''pm'' ''p'' {''org''} None 60 3 leased_db = (Inr supervised_session, session_db)"
  "reserve_budget (7 * second) ''b1'' ''s1'' ''0001-01-01'' 10 [(''org'', ''acme'', 20), (''role'', ''pm'', 15)] session_db = (Inr ''b1'', held_db)"
  "prepare_wake (10 * second) supervised_session (Some ''d1'') ''b1'' ''/run/sjg/w-w1.sock'' ''routed GitHub events'' held_db = (Inr (), prepared_db)"
  "list_ex (\<lambda>r. wr_session_id r = ''s1'') (wake_runtimes prepared_db) = True"
  "fst (recover_prepared_wake (19 * second) ''w1'' (retry_time (18 * second)) ''wake socket failed to start: address in use'' prepared_db) = Inr ()"
proof -
  show "truthy (supervisor_value ''paused'' (JBool False) leased_db) = False" by code_simp
  have "fst (create_session (5 * second) ''s1'' ''w1'' ''acme'' ''pm'' ''p'' {''org''} None 60 3 leased_db) = Inr supervised_session" by code_simp
  then show "create_session (5 * second) ''s1'' ''w1'' ''acme'' ''pm'' ''p'' {''org''} None 60 3 leased_db = (Inr supervised_session, session_db)"
    by (simp add: session_db_def prod_eq_iff)
  have "fst (reserve_budget (7 * second) ''b1'' ''s1'' ''0001-01-01'' 10 [(''org'', ''acme'', 20), (''role'', ''pm'', 15)] session_db) = Inr ''b1''"
    by code_simp
  then show "reserve_budget (7 * second) ''b1'' ''s1'' ''0001-01-01'' 10 [(''org'', ''acme'', 20), (''role'', ''pm'', 15)] session_db = (Inr ''b1'', held_db)"
    by (simp add: held_db_def prod_eq_iff)
  have "fst (prepare_wake (10 * second) supervised_session (Some ''d1'') ''b1'' ''/run/sjg/w-w1.sock'' ''routed GitHub events'' held_db) = Inr ()"
    by code_simp
  then show "prepare_wake (10 * second) supervised_session (Some ''d1'') ''b1'' ''/run/sjg/w-w1.sock'' ''routed GitHub events'' held_db = (Inr (), prepared_db)"
    by (simp add: prepared_db_def prod_eq_iff)
qed code_simp+

lemma example_run_reports: "map_sum id rw_status (fst example_run) = Inr ''retry''"
proof -
  have inputs: "wi_clk example_wake n = (3 + int n) * second" "wi_session_uuid example_wake = ''s1''" "wi_wake_uuid example_wake = ''w1''"
    "wi_reservation_uuid example_wake = ''b1''" "wi_start_failure example_wake = Some ''address in use''" for n
    by (simp_all add: example_wake_def)
  have dv: "dv_role (hd (deliveries leased_db)) = ''pm''" "dv_delivery_id (hd (deliveries leased_db)) = ''d1''" by code_simp+
  have role: "policy_role supervised_policy ''pm'' = Inr (snd (hd (op_roles supervised_policy)))" by code_simp
  have date: "utc_date (wi_clk example_wake 3) = ''0001-01-01''" by code_simp
  have socket: "socket_path_of example_settings ''w1'' = ''/run/sjg/w-w1.sock''" by code_simp
  have buckets: "wake_buckets supervised_policy ''pm'' (snd (hd (op_roles supervised_policy))) = [(''org'', ''acme'', 20), (''role'', ''pm'', 15)]"
    by code_simp
  have fields: "op_org_id supervised_policy = ''acme''" "op_policy_digest supervised_policy = ''p''" "op_global_max_agents supervised_policy = 3"
    "rp_repositories (snd (hd (op_roles supervised_policy))) = {''org''}" "sp_session_ttl_seconds example_settings = 60"
    "look_up (sp_role_token_reservations example_settings) ''pm'' = Inr 10" "sn_session_id supervised_session = ''s1''"
    "sn_wake_id supervised_session = ''w1''"
    by (simp_all add: supervised_policy_def example_settings_def supervised_session_def look_up_def)
  have b: "wake_begin example_settings supervised_policy example_wake ''pm'' (Some ''d1'') ''routed GitHub events'' (frame_of leased_db)
    = (Inr (Inr (supervised_session, ''b1'')), (frame_of prepared_db)\<lparr>fr_session := Some supervised_session, fr_reservation := Some ''b1''\<rparr>)"
    using example_steps(1-4) date
    by (simp add: wake_begin_def andthen_def reading_def checked_def assigning_def returning_def recovering_def on_store_apply
        frame_of_def inputs role socket buckets fields)
  let ?f = "(frame_of prepared_db)\<lparr>fr_session := Some supervised_session, fr_reservation := Some ''b1''\<rparr>"
    and ?e = "''wake socket failed to start: address in use''"
  obtain d where r: "recover_prepared_wake (19 * second) ''w1'' (retry_time (18 * second)) ?e prepared_db = (Inr (), d)"
    using example_steps(6) by (metis prod.collapse)
  have l: "wake_launch id (\<lambda>_. None) (\<lambda>t. (t, None)) example_settings example_wake ''pm'' evs (Some ''d1'') ''routed GitHub events''
      supervised_session ?f = (Inl (SupervisorError ?e), ?f)" for evs
    by (simp add: wake_launch_def andthen_def checked_def inputs)
  have f: "map_sum id rw_status (fst (wake_failed example_settings example_wake ''pm'' (Some ''d1'') (SupervisorError ?e) ?f)) = Inr ''retry''"
    using r example_steps(5)
    by (simp add: wake_failed_def andthen_def reading_def on_store_apply stop_unstarted_def returning_def frame_of_def fields inputs
        report_def)
  have "frame_of leased_db = (frame_of leased_db)\<lparr>fr_session := None, fr_reservation := None, fr_started := False\<rparr>"
    by (simp add: frame_of_def)
  then show ?thesis
    using f by (simp add: example_run_def run_delivery_def run_wake_def recovering_def wake_body_def andthen_def dv b l)
qed

lemma prepared_reachable: "reachable 3 id prepared_db"
proof -
  have e: "prepared_db = fold (store_run 3 id)
     [Session (Create_session (5 * second) ''s1'' ''w1'' ''acme'' ''pm'' ''p'' {''org''} None 60),
      Budget (Reserve_budget (7 * second) ''b1'' ''s1'' ''0001-01-01'' 10 [(''org'', ''acme'', 20), (''role'', ''pm'', 15)]),
      Runtime (Prepare_wake (10 * second) supervised_session (Some ''d1'') ''b1'' ''/run/sjg/w-w1.sock'' ''routed GitHub events'')] leased_db"
    by (simp add: prepared_db_def held_db_def session_db_def)
  show ?thesis unfolding e by (rule reachable_calls [OF _ leased_reachable]) (simp add: unconditional_def)
qed

section \<open>An example tick\<close>

definition example_tick :: tick_inputs where
  "example_tick = \<lparr>ti_busy = False, ti_fuel = 3, ti_fetch = (\<lambda>_ _ _ _ _. Inl (SourceError ''offline'')), ti_clk = (\<lambda>_ n. (30 + int n) * second),
     ti_uuid = (\<lambda>src. src), ti_lease_clk = (\<lambda>n. (40 + int n) * second), ti_wake = (\<lambda>_. example_wake)\<rparr>"

definition example_polls :: "(poll_result list result \<times> db) option" where
  "example_polls = poll_all (\<lambda>src. poll_source id id (\<lambda>_. Aware 9000000000) (\<lambda>n. (30 + int n) * second) src 3 src (\<lambda>_ _ _ _. Inl (SourceError ''offline''))
     ''t0'') SOURCE_IDS sample_db"

definition polled_db :: db where
  "polled_db = sample_db\<lparr>
     source_checkpoints := source_checkpoints sample_db @ map (\<lambda>i. \<lparr>sc_source_id = i, sc_watermark = ''t0'',
         sc_overlap_seconds = 300, sc_query_fingerprint = None, sc_etag = None, sc_last_complete_snapshot_id = None\<rparr>) SOURCE_IDS,
     source_snapshots := source_snapshots sample_db @ map (\<lambda>i. \<lparr>ss_snapshot_id = i, ss_source_id = i,
         ss_state = N_incomplete, ss_started_at = ''0001-01-01T00:00:30Z'', ss_completed_at = Some ''0001-01-01T00:00:31Z'',
         ss_page_count = 0, ss_maximum_event_time = Some ''t0'', ss_error_detail = Some ''SourceError: offline''\<rparr>) SOURCE_IDS\<rparr>"

lemma example_polls_end: "map_option (map_prod (map_sum id length) id) example_polls = Some (Inr 5, polled_db)"
  by code_simp

definition taken_db :: db where
  "taken_db = snd (lease_delivery (40 * second) ''me'' 60 3 polled_db)"

lemma polled:
  "truthy (supervisor_value ''paused'' (JBool False) sample_db) = False"
  "unrouted_events 500 polled_db = Inr []"
  "pending_routes ''pm'' 50 polled_db = Inr []"
  "map_sum id (map_option (\<lambda>r. (dv_role r, dv_delivery_id r))) (fst (lease_delivery (40 * second) ''me'' 60 3 polled_db)) = Inr (Some (''pm'', ''d1''))"
  by code_simp+

lemma taken:
  "truthy (supervisor_value ''paused'' (JBool False) taken_db) = False"
  "isl (fst (create_session (5 * second) ''s1'' ''w1'' ''acme'' ''pm'' ''p'' {''org''} None 60 3 taken_db))"
  by code_simp+

lemma example_fields:
  "wi_clk example_wake n = (3 + int n) * second" "wi_session_uuid example_wake = ''s1''" "wi_wake_uuid example_wake = ''w1''"
  "wi_reservation_uuid example_wake = ''b1''" "wi_start_failure example_wake = Some ''address in use''"
  "op_org_id supervised_policy = ''acme''" "op_policy_digest supervised_policy = ''p''" "op_global_max_agents supervised_policy = 3"
  "rp_repositories (snd (hd (op_roles supervised_policy))) = {''org''}" "sp_session_ttl_seconds example_settings = 60"
  "sp_owner example_settings = ''me''" "sp_delivery_lease_seconds example_settings = 60" "sp_mode example_settings = ''live''"
  "sp_initial_watermark example_settings = ''t0''" "map fst (op_roles supervised_policy) = [''pm'']" "length (op_roles supervised_policy) = 1"
  by (simp_all add: example_wake_def supervised_policy_def example_settings_def)

lemma example_tick_run:
  obtains t s' where "tick id id (\<lambda>_. Aware 9000000000) (\<lambda>_. None) (\<lambda>t. (t, None)) example_settings supervised_policy [] example_tick
    False 1 (frame_of sample_db) = Some (Inr t, s')" "length (tk_wakes t) = 1"
proof -
  have tick_fields: "ti_busy example_tick = False" "ti_lease_clk example_tick 0 = 40 * second" "ti_wake example_tick = (\<lambda>_. example_wake)"
    "ti_clk example_tick = (\<lambda>_ n. (30 + int n) * second)" "ti_uuid example_tick = (\<lambda>src. src)" "ti_fuel example_tick = 3"
    "ti_fetch example_tick = (\<lambda>_ _ _ _ _. Inl (SourceError ''offline''))"
    by (simp_all add: example_tick_def)
  obtain r where e: "example_polls = Some (r, polled_db)" "map_sum id length r = Inr 5"
    using example_polls_end by (cases example_polls) auto
  then obtain rs where p: "example_polls = Some (Inr rs, polled_db)" by (cases r) auto
  from polled(4) obtain dv where l: "lease_delivery (40 * second) ''me'' 60 3 polled_db = (Inr (Some dv), taken_db)"
    and dv: "dv_role dv = ''pm''" "dv_delivery_id dv = ''d1''"
    unfolding taken_db_def
    by (cases "lease_delivery (40 * second) ''me'' 60 3 polled_db"; cases "fst (lease_delivery (40 * second) ''me'' 60 3 polled_db)") auto
  have plan: "tick_plan id id (\<lambda>_. Aware 9000000000) example_settings supervised_policy [] example_tick False sample_db
      = Some (Inr \<lparr>tk_preview = False, tk_paused = False, tk_sources = rs, tk_routed = 0, tk_ignored = 0, tk_planned = [], tk_wakes = []\<rparr>, polled_db)"
    using p polled(1-3) unfolding example_polls_def
    by (simp add: tick_plan_def tick_fields example_fields route_and_queue_def andthen_def returning_def pending_by_role_def
        MAX_EVENTS_PER_WAKE_def)
  let ?f = "\<lambda>d. frame_of d"
  obtain e d3 where c: "create_session (5 * second) ''s1'' ''w1'' ''acme'' ''pm'' ''p'' {''org''} None 60 3 taken_db = (Inl e, d3)"
    using taken(2) by (cases "create_session (5 * second) ''s1'' ''w1'' ''acme'' ''pm'' ''p'' {''org''} None 60 3 taken_db") (auto simp: isl_def)
  have role: "policy_role supervised_policy ''pm'' = Inr (snd (hd (op_roles supervised_policy)))" by code_simp
  have b: "wake_begin example_settings supervised_policy example_wake ''pm'' (Some ''d1'') ''routed GitHub events'' (frame_of taken_db)
    = (Inl e, frame_of d3)"
    using c taken(1)
    by (simp add: wake_begin_def andthen_def reading_def checked_def on_store_apply frame_of_def example_fields role)
  have "\<exists>x s'. wake_failed example_settings example_wake ''pm'' (Some ''d1'') e (frame_of d3) = (Inr x, s')"
  proof -
    obtain q d4 where q: "finish_delivery (21 * second) ''d1'' ''me'' ''retry'' (Some (exc_text e)) (Some (retry_time (20 * second))) d3 = (q, d4)"
      by (cases "finish_delivery (21 * second) ''d1'' ''me'' ''retry'' (Some (exc_text e)) (Some (retry_time (20 * second))) d3")
    have "is_state_error x" if "q = Inl x" for x
      using q that by (auto simp: finish_delivery_def immediate_def is_state_error_def Let_def split: option.splits prod.splits if_splits)
    with q show ?thesis
      by (cases q) (simp_all add: wake_failed_def andthen_def reading_def frame_of_def ignoring_state_error_def recovering_def for_delivery_def
        on_store_apply returning_def raising_def example_fields)
  qed
  then obtain x s' where f: "wake_failed example_settings example_wake ''pm'' (Some ''d1'') e (frame_of d3) = (Inr x, s')" by blast
  have fr: "(frame_of d)\<lparr>fr_session := None, fr_reservation := None, fr_started := False\<rparr> = frame_of d" for d by (simp add: frame_of_def)
  have st: "fr_store (frame_of d) = d" "(frame_of d)\<lparr>fr_store := d'\<rparr> = frame_of d'" for d d' by (simp_all add: frame_of_def)
  have r: "run_delivery id (\<lambda>_. None) (\<lambda>t. (t, None)) example_settings supervised_policy example_wake dv (frame_of taken_db) = (Inr x, s')"
    by (simp add: run_delivery_def run_wake_def fr recovering_def wake_body_def andthen_def dv b f)
  have loop: "lease_loop example_settings (ti_lease_clk example_tick) 1 (Suc 0) [] polled_db = (Inr [dv], taken_db)"
    using l by (simp add: andthen_def tick_fields example_fields returning_def)
  have live: "tick_live id (\<lambda>_. None) (\<lambda>t. (t, None)) example_settings supervised_policy example_tick 1 u (frame_of polled_db)
     = (Inr (u\<lparr>tk_planned := [], tk_wakes := [x]\<rparr>), s')" for u
    using loop by (simp add: tick_live_def andthen_def on_store_apply st example_fields tick_fields r returning_def)
  show thesis
    by (rule that [of "\<lparr>tk_preview = False, tk_paused = False, tk_sources = rs, tk_routed = 0, tk_ignored = 0, tk_planned = [], tk_wakes = [x]\<rparr>" s'])
      (simp_all add: tick_def tick_fields plan live st example_fields)
qed
end
