(* ===== verification/Supervisor_Rules.thy ===== *)
theory Supervisor_Rules
  imports Wake_Table Supervisor_Example
begin

text \<open>
  What holds of the supervisor: its operations are sequences of calls of the store and so keep what the store keeps, a wake that
  reports has let go of its delivery and its tokens, recovery and pausing leave no open wake, and a tick wakes each role once.
\<close>

section \<open>The supervisor over the store\<close>

text \<open>C1: Whatever the supervisor does, a wake, a tick, a pause, a recovery or serving the session of a wake, is a sequence of
  calls of the store: the database stays reachable, and with it every invariant of the store holds afterwards, on the error
  paths as well.\<close>

theorem supervisor_stays_reachable:
  assumes "reachable (op_global_max_agents policy) uuid5 (fr_store s)"
    and "\<forall>dv. quiet_inputs (op_global_max_agents policy) uuid5 (ti_wake ti dv)"
  shows "reachable (op_global_max_agents policy) uuid5
      (fr_store (snd (run_wake sha limits float_of cfg policy (ti_wake ti dv) role events delivery reason s)))
    \<and> pred_option (\<lambda>p. reachable (op_global_max_agents policy) uuid5 (fr_store (snd p)))
        (tick sha uuid5 fromiso limits float_of cfg policy rules ti preview n s)
    \<and> reachable (op_global_max_agents policy) uuid5 (snd (pause probe now clk (fr_store s)))
    \<and> reachable (op_global_max_agents policy) uuid5 (snd (supervisor_recover probe clk (fr_store s)))
    \<and> reachable (op_global_max_agents policy) uuid5
        (snd (snd (serve_wake sha limits float_of host prepare children meters leaves policy ghf ghe sites instants workspaces i peers (fr_store s))))"
proof -
  let ?cap = "op_global_max_agents policy"
  have q: "quiet_inputs ?cap uuid5 (ti_wake ti dv)" for dv using assms(2) by blast
  have r: "runs ?cap uuid5 (fr_store s) d \<Longrightarrow> reachable ?cap uuid5 d" for d using assms(1) runs_reachable by blast
  have "store_runs ?cap uuid5 s (snd (run_wake sha limits float_of cfg policy (ti_wake ti dv) role events delivery reason s))"
    using run_wake_runs [OF refl q] by (simp add: stepping_def)
  moreover have "pred_option (\<lambda>p. store_runs ?cap uuid5 s (snd p)) (tick sha uuid5 fromiso limits float_of cfg policy rules ti preview n s)"
    using tick_runs [OF refl q] by (cases "tick sha uuid5 fromiso limits float_of cfg policy rules ti preview n s") (force simp: pred_option_def)+
  moreover have "runs ?cap uuid5 (fr_store s) (snd (pause probe now clk (fr_store s)))"
    "runs ?cap uuid5 (fr_store s) (snd (supervisor_recover probe clk (fr_store s)))"
    using pause_runs recover_runs by (simp_all add: stepping_def)
  moreover note serve_wake_runs [OF refl, of policy uuid5 "fr_store s" sha limits float_of host prepare children meters leaves ghf ghe sites instants workspaces i peers]
  ultimately show ?thesis by (auto simp: store_runs_def pred_option_def intro!: r)
qed

theorem supervisor_stays_reachable_witness:
  "reachable 3 id (fr_store (snd example_run))
   \<and> reachable 3 id (snd (pause (\<lambda>_. gone_group) (20 * second) (\<lambda>_ n. (21 + int n) * second) prepared_db))
   \<and> reachable 3 id (snd (supervisor_recover (\<lambda>_. gone_group) (\<lambda>_ n. (21 + int n) * second) prepared_db))"
proof -
  have cap: "op_global_max_agents supervised_policy = 3" by (simp add: supervised_policy_def)
  have q: "\<forall>dv. quiet_inputs (op_global_max_agents supervised_policy) id (ti_wake example_tick dv)"
    using example_quiet by (simp add: cap example_tick_def)
  have l: "reachable (op_global_max_agents supervised_policy) id (fr_store (frame_of leased_db))"
    using leased_reachable by (simp add: cap frame_of_def)
  have p: "reachable (op_global_max_agents supervised_policy) id (fr_store (frame_of prepared_db))"
    using prepared_reachable by (simp add: cap frame_of_def)
  show ?thesis
    using supervisor_stays_reachable [OF l q] supervisor_stays_reachable [OF p q]
    by (simp add: example_run_def run_delivery_def cap example_tick_def frame_of_def)
qed

section \<open>The end of a wake\<close>

lemma example_fresh: "fresh_wake example_wake leased_db"
proof -
  have "wake_runtimes leased_db = [] \<and> budget_reservations leased_db = []" by code_simp
  then show ?thesis by (simp add: fresh_wake_def)
qed

text \<open>C2: However a wake for a delivery ends, once it reports, the delivery is neither leased nor running and the tokens reserved
  for it are no longer active; when it reports success, the delivery has succeeded.\<close>

theorem reported_wake_lets_go:
  assumes "run_wake sha limits float_of cfg policy inp role events (Some i) reason s = (Inr x, s')"
    and "reachable (op_global_max_agents policy) uuid5 (fr_store s)"
    and "quiet_inputs (op_global_max_agents policy) uuid5 inp" and "fresh_wake inp (fr_store s)" and "i \<noteq> []"
    and "delivery_row i (fr_store s) = Some row" and "dv_state row = D_leased" and "dv_lease_owner row = Some (sp_owner cfg)"
  shows "let_go i (fr_store s') \<and> unreserved (wi_reservation_uuid inp) (fr_store s')
    \<and> (rw_status x = ''succeeded'' \<longrightarrow> (\<exists>v\<in>set (deliveries (fr_store s')). dv_delivery_id v = i \<and> dv_state v = D_succeeded))"
  by (rule run_wake_lets_go [OF assms(1) refl reachable_store_inv [OF assms(2)] assms(3-8)])

theorem reported_wake_lets_go_witness:
  "let_go ''d1'' (fr_store (snd example_run)) \<and> unreserved ''b1'' (fr_store (snd example_run))
   \<and> map_sum id rw_status (fst example_run) = Inr ''retry''"
proof -
  let ?dv = "hd (deliveries leased_db)"
  obtain a s' where e: "example_run = (a, s')" by (cases example_run)
  have "map_sum id rw_status a = Inr ''retry''" using example_run_reports by (simp add: e)
  with e obtain x where run: "example_run = (Inr x, s')" by (cases a) auto
  have row: "dv_delivery_id ?dv = ''d1''" "delivery_row ''d1'' leased_db = Some ?dv" "dv_state ?dv = D_leased"
    "dv_lease_owner ?dv = Some (sp_owner example_settings)" by code_simp+
  have cap: "op_global_max_agents supervised_policy = 3" by (simp add: supervised_policy_def)
  have store: "fr_store (frame_of leased_db) = leased_db" by (simp add: frame_of_def)
  have b: "wi_reservation_uuid example_wake = ''b1''" by (simp add: example_wake_def)
  note wake = run [unfolded example_run_def run_delivery_def row(1) store]
  have "let_go ''d1'' (fr_store s') \<and> unreserved (wi_reservation_uuid example_wake) (fr_store s')"
    using reported_wake_lets_go [OF wake, of id ?dv] leased_reachable example_quiet example_fresh row(2-4)
    by (simp add: cap store)
  then show ?thesis using example_run_reports by (simp add: run b)
qed

section \<open>Recovery and pausing\<close>

text \<open>C3: When recovery returns, no wake is prepared or running and no active session is without a wake; recovery itself
  opens nothing.\<close>

theorem recovery_closes_everything:
  assumes "reachable cap uuid5 d" and "supervisor_recover probe clk d = (Inr r, d')"
  shows "active_wakes d' = [] \<and> orphan_sessions d' = [] \<and> (\<forall>i. active_in i d' \<longrightarrow> active_in i d)"
proof -
  have "winding_down d d'" by (rule recover_leaves_nothing_open(3) [OF assms(2) reachable_wakes_distinct [OF assms(1)]])
  with recover_leaves_nothing_open(1,2) [OF assms(2) reachable_wakes_distinct [OF assms(1)]]
  show ?thesis by (simp add: winding_down_def)
qed

theorem recovery_closes_everything_witness:
  "length (active_wakes prepared_db) = 1
   \<and> active_wakes (snd (supervisor_recover (\<lambda>_. gone_group) (\<lambda>_ n. (21 + int n) * second) prepared_db)) = []"
proof -
  let ?r = "supervisor_recover (\<lambda>_. gone_group) (\<lambda>_ n. (21 + int n) * second) prepared_db"
  have "length (active_wakes prepared_db) = 1" by code_simp
  moreover have f: "fst ?r = Inr \<lparr>rv_recovered = 1, rv_uncertain = 0\<rparr>" by code_simp
  have "?r = (Inr \<lparr>rv_recovered = 1, rv_uncertain = 0\<rparr>, snd ?r)" using f by (metis prod.collapse)
  from recovery_closes_everything [OF prepared_reachable this] have "active_wakes (snd ?r) = []" by blast
  ultimately show ?thesis ..
qed

text \<open>What a paused supervisor does with a delivery that it holds a lease of: the delivery waits for a retry without a lease, and its
  routes are queued again.\<close>

definition leased_by :: "string \<Rightarrow> string \<Rightarrow> db \<Rightarrow> bool" where
  "leased_by holder i d \<longleftrightarrow> (\<exists>row. delivery_row i d = Some row \<and> dv_state row = D_leased \<and> dv_lease_owner row = Some holder)"

definition back_for_retry :: "string \<Rightarrow> string \<Rightarrow> db \<Rightarrow> db" where
  "back_for_retry eligible i d = set_routes T_queued i (set_delivery (\<lambda>r. r\<lparr>dv_state := D_retry_wait, dv_eligible_at := eligible,
     dv_lease_owner := None, dv_lease_until := None, dv_last_error := Some ''supervisor is paused''\<rparr>) i d)"

lemma retry_time_text: "text_or (Some (retry_time t)) now = retry_time t"
  by (simp add: text_or_def retry_time_def utc_text_def Let_def)

lemma finish_for_retry:
  "finish_delivery now i holder ''retry'' (Some ''supervisor is paused'') (Some (retry_time t)) d
     = (Inr (), back_for_retry (retry_time t) i d)" if "leased_by holder i d"
  using that
  by (auto simp: leased_by_def finish_delivery_def immediate_def delivery_targets_def allowed_outcomes_def back_for_retry_def
      retry_time_text)

lemma refused_for_retry:
  assumes "\<not> leased_by holder i d"
  obtains e where "\<And>now m t. finish_delivery now i holder ''retry'' m t d = (Inl (StateError e), d)"
proof (cases "delivery_row i d")
  case None
  then show thesis by (intro that) (simp add: finish_delivery_def immediate_def delivery_targets_def)
next
  case (Some row)
  show thesis
  proof (cases "dv_state row \<in> {D_leased, D_running} \<and> dv_lease_owner row = Some holder")
    case True
    with assms Some show thesis
      by (intro that) (auto simp: leased_by_def finish_delivery_def immediate_def delivery_targets_def allowed_outcomes_def)
  next
    case False
    with Some show thesis by (intro that) (simp add: finish_delivery_def immediate_def delivery_targets_def)
  qed
qed

text \<open>C32: A supervisor that has paused is idle: no wake is prepared or running; a further tick, while none is going on, only reports
  that it is paused and changes nothing; a further wake ends at once, without a session and without a reservation. A wake without a
  delivery changes nothing in the database, a wake for a delivery that this supervisor leased only gives it back for a retry, and a
  wake for any other delivery reports the error and changes nothing.\<close>

theorem paused_supervisor_is_idle:
  assumes "pause probe now clk d = (Inr r, d')" and "\<not> ti_busy ti" and "fr_store s = d'"
  shows "active_wakes d' = []
    \<and> tick sha uuid5 fromiso limits float_of cfg policy rules ti preview n s
      = Some (Inr \<lparr>tk_preview = (preview \<or> sp_mode cfg = ''shadow''), tk_paused = True, tk_sources = [], tk_routed = 0, tk_ignored = 0,
          tk_planned = [], tk_wakes = []\<rparr>, s)
    \<and> run_wake sha limits float_of cfg policy inp role events None reason s
      = (Inr (report role ''paused''), s\<lparr>fr_session := None, fr_reservation := None, fr_started := False\<rparr>)
    \<and> (if leased_by (sp_owner cfg) i d'
       then run_wake sha limits float_of cfg policy inp role events (Some i) reason s
         = (Inr (report role ''paused''), s\<lparr>fr_session := None, fr_reservation := None, fr_started := False,
              fr_store := back_for_retry (retry_time (wi_clk inp 0)) i d'\<rparr>)
       else \<exists>e. run_wake sha limits float_of cfg policy inp role events (Some i) reason s
         = (Inr ((report role ''retry'')\<lparr>rw_error := Some e\<rparr>), s\<lparr>fr_session := None, fr_reservation := None, fr_started := False\<rparr>))"
proof -
  have p: "truthy (supervisor_value ''paused'' (JBool False) (fr_store s))"
    using pause_leaves_nothing_open(2) [OF assms(1)] by (simp add: assms(3))
  have "s\<lparr>fr_store := fr_store s\<rparr> = s" by simp
  with p have "tick sha uuid5 fromiso limits float_of cfg policy rules ti preview n s
      = Some (Inr \<lparr>tk_preview = (preview \<or> sp_mode cfg = ''shadow''), tk_paused = True, tk_sources = [], tk_routed = 0, tk_ignored = 0,
          tk_planned = [], tk_wakes = []\<rparr>, s)"
    using assms(2) by (simp add: tick_def tick_plan_def Let_def py_take_def)
  moreover from p have "run_wake sha limits float_of cfg policy inp role events None reason s
      = (Inr (report role ''paused''), s\<lparr>fr_session := None, fr_reservation := None, fr_started := False\<rparr>)"
    by (simp add: run_wake_def wake_body_def wake_begin_def recovering_def andthen_def reading_def for_delivery_def returning_def)
  moreover from p have "run_wake sha limits float_of cfg policy inp role events (Some i) reason s
       = (Inr (report role ''paused''), s\<lparr>fr_session := None, fr_reservation := None, fr_started := False,
              fr_store := back_for_retry (retry_time (wi_clk inp 0)) i d'\<rparr>)" if "leased_by (sp_owner cfg) i d'"
    using finish_for_retry [OF that]
    by (simp add: run_wake_def wake_body_def wake_begin_def recovering_def andthen_def reading_def for_delivery_def returning_def
        on_store_def zoom_def assms(3))
  moreover have "\<exists>e. run_wake sha limits float_of cfg policy inp role events (Some i) reason s
         = (Inr ((report role ''retry'')\<lparr>rw_error := Some e\<rparr>), s\<lparr>fr_session := None, fr_reservation := None, fr_started := False\<rparr>)"
    if "\<not> leased_by (sp_owner cfg) i d'"
  proof -
    from that obtain e where e: "\<And>now m t. finish_delivery now i (sp_owner cfg) ''retry'' m t d' = (Inl (StateError e), d')"
      by (rule refused_for_retry) blast
    have "s\<lparr>fr_session := None, fr_reservation := None, fr_started := False, fr_store := d'\<rparr>
      = s\<lparr>fr_session := None, fr_reservation := None, fr_started := False\<rparr>" using assms(3) by (cases s) simp
    with e p show ?thesis
      by (intro exI [of _ "exc_text (StateError e)"]) (simp add: run_wake_def wake_body_def wake_begin_def wake_failed_def recovering_def
        andthen_def reading_def for_delivery_def returning_def on_store_def zoom_def ignoring_state_error_def is_state_error_def assms(3))
  qed
  ultimately show ?thesis using pause_leaves_nothing_open(1) [OF assms(1)] by simp
qed

theorem paused_supervisor_is_idle_witness:
  "length (active_wakes prepared_db) = 1
   \<and> active_wakes (snd (pause (\<lambda>_. gone_group) (20 * second) (\<lambda>_ n. (21 + int n) * second) prepared_db)) = []"
proof -
  let ?r = "pause (\<lambda>_. gone_group) (20 * second) (\<lambda>_ n. (21 + int n) * second) prepared_db"
  have "length (active_wakes prepared_db) = 1" by code_simp
  moreover have f: "fst ?r = Inr \<lparr>pa_terminated_wakes = 1, pa_uncertain = 0\<rparr>" by code_simp
  have "?r = (Inr \<lparr>pa_terminated_wakes = 1, pa_uncertain = 0\<rparr>, snd ?r)" using f by (metis prod.collapse)
  from paused_supervisor_is_idle [OF this, of example_tick "frame_of (snd ?r)"] have "active_wakes (snd ?r) = []"
    by (simp add: example_tick_def frame_of_def)
  ultimately show ?thesis ..
qed

section \<open>Ticks\<close>

text \<open>C33: A live tick wakes each role at most once, runs no more wakes than it was asked for, and stays within the agent cap and
  the number of roles of the organization.\<close>

theorem tick_wakes_bounded:
  assumes "tick sha uuid5 fromiso limits float_of cfg policy rules ti preview n s = Some (Inr t, s')"
  shows "distinct (map rw_role (tk_wakes t)) \<and> int (length (tk_wakes t)) \<le> max 0 n
    \<and> int (length (tk_wakes t)) \<le> max 1 (min n (min (op_global_max_agents policy) (int (length (op_roles policy)))))"
  using tick_reports [OF assms] tick_live_reports by fastforce

theorem tick_wakes_bounded_witness:
  "\<exists>t s'. tick id id (\<lambda>_. Aware 9000000000) (\<lambda>_. None) (\<lambda>t. (t, None)) example_settings supervised_policy [] example_tick
      False 1 (frame_of sample_db) = Some (Inr t, s') \<and> distinct (map rw_role (tk_wakes t)) \<and> length (tk_wakes t) = 1"
proof -
  obtain t s' where "tick id id (\<lambda>_. Aware 9000000000) (\<lambda>_. None) (\<lambda>t. (t, None)) example_settings supervised_policy [] example_tick
    False 1 (frame_of sample_db) = Some (Inr t, s')" "length (tk_wakes t) = 1" by (rule example_tick_run)
  with tick_wakes_bounded [OF this(1)] show ?thesis by blast
qed

end
