(* ===== verification/Github.thy ===== *)
theory Github
  imports Host Effects
begin

text \<open>
  \<^verbatim>\<open>control/sjg_control/github_backend.py\<close>, the calls and the reads: one call of the \<^verbatim>\<open>gh\<close> command is the parameter
  \<open>gb_call\<close>, from the argument vector and the standard input to what the process gives; \<open>'g\<close> is the state of
  everything behind it. An operation of the backend is an \<open>io\<close>: it may raise, and it is \<open>None\<close> when a loop over the
  pages of a GraphQL connection did not end within \<open>gb_fuel\<close> pages.

  Values of decoded replies are used as Python uses them: \<open>member\<close> is the method \<open>get\<close> of a dictionary and raises
  \<open>AttributeError\<close> on anything else, \<open>subscript\<close> is the indexing by a key.
\<close>

section \<open>Operations that call\<close>

type_synonym ('g, 'a) io = "'g \<Rightarrow> ('a result \<times> 'g) option"

definition io_check :: "'a result \<Rightarrow> ('g, 'a) io" where
  "io_check r g = Some (r, g)"

abbreviation io_return :: "'a \<Rightarrow> ('g, 'a) io" where
  "io_return x \<equiv> io_check (Inr x)"

abbreviation io_raise :: "exc \<Rightarrow> ('g, 'a) io" where
  "io_raise e \<equiv> io_check (Inl e)"

definition io_then :: "('g, 'a) io \<Rightarrow> ('a \<Rightarrow> ('g, 'b) io) \<Rightarrow> ('g, 'b) io" where
  "io_then m f g =
     (case m g of
        None \<Rightarrow> None
      | Some (Inl e, g') \<Rightarrow> Some (Inl e, g')
      | Some (Inr x, g') \<Rightarrow> f x g')"

definition io_catch :: "('g, 'a) io \<Rightarrow> (exc \<Rightarrow> 'a result) \<Rightarrow> ('g, 'a) io" where
  "io_catch m h g = map_option (\<lambda>(r, g'). (case r of Inl e \<Rightarrow> h e | Inr x \<Rightarrow> Inr x, g')) (m g)"

fun io_each :: "('a \<Rightarrow> ('g, 'b) io) \<Rightarrow> 'a list \<Rightarrow> ('g, 'b list) io" where
  "io_each f [] = io_return []"
| "io_each f (x # xs) = io_then (f x) (\<lambda>y. io_then (io_each f xs) (\<lambda>ys. io_return (y # ys)))"

section \<open>Decoded values\<close>

fun type_name :: "json \<Rightarrow> string" where
  "type_name JNull = ''NoneType''"
| "type_name (JBool _) = ''bool''"
| "type_name (JInt _) = ''int''"
| "type_name (JFloat _ _) = ''float''"
| "type_name (JStr _) = ''str''"
| "type_name (JList _) = ''list''"
| "type_name (JObj _) = ''dict''"

definition apostrophe :: string where
  "apostrophe = [CHR 39]"

definition member :: "json \<Rightarrow> string \<Rightarrow> json result" where
  "member v k =
     (case v of
        JObj kvs \<Rightarrow> Inr (dget kvs k)
      | _ \<Rightarrow> Inl (AttributeError (apostrophe @ type_name v @ apostrophe @ '' object has no attribute '' @ apostrophe @ ''get'' @ apostrophe)))"

definition key_of :: "(string \<times> json) list \<Rightarrow> string \<Rightarrow> json result" where
  "key_of kvs k = (case map_of kvs k of None \<Rightarrow> Inl (KeyError (repr_text k)) | Some v \<Rightarrow> Inr v)"

definition subscript :: "json \<Rightarrow> string \<Rightarrow> json result" where
  "subscript v k =
     (case v of
        JObj kvs \<Rightarrow> key_of kvs k
      | JList _ \<Rightarrow> Inl (TypeError ''list indices must be integers or slices, not str'')
      | JStr _ \<Rightarrow> Inl (TypeError (''string indices must be integers, not '' @ apostrophe @ ''str'' @ apostrophe))
      | _ \<Rightarrow> Inl (TypeError (apostrophe @ type_name v @ apostrophe @ '' object is not subscriptable'')))"

text \<open>\<open>((v or {}).get(k1) or {}).get(k2)\<close> and so on.\<close>

fun dig :: "json \<Rightarrow> string list \<Rightarrow> json result" where
  "dig v [] = Inr v"
| "dig v (k # ks) = bindE (member (py_or v (JObj [])) k) (\<lambda>w. dig w ks)"

definition is_object :: "json \<Rightarrow> bool" where
  "is_object v = (case v of JObj _ \<Rightarrow> True | _ \<Rightarrow> False)"

definition entries_of :: "json \<Rightarrow> (string \<times> json) list" where
  "entries_of v = (case v of JObj kvs \<Rightarrow> kvs | _ \<Rightarrow> [])"

text \<open>A value of \<open>Facts\<close> that is only compared with \<open>None\<close>, with roles and with stages. A value that is
  neither \<open>None\<close> nor a text is equal to none of them; its text starts with a zero character, which no role
  and no stage does.\<close>

definition text_of :: "json \<Rightarrow> string option" where
  "text_of v = (case v of JNull \<Rightarrow> None | JStr s \<Rightarrow> Some s | _ \<Rightarrow> Some (CHR 0x00 # py_str v))"

text \<open>\<open>int(d.get(j) or d.get(k) or 0)\<close>\<close>

definition number_at :: "(string \<times> json) list \<Rightarrow> string \<Rightarrow> string \<Rightarrow> int result" where
  "number_at d j k = int_or_zero (py_or (dget d j) (dget d k))"

text \<open>\<open>json.dumps(v, sort_keys=True)\<close> with the default separators.\<close>

fun dumps_default :: "json \<Rightarrow> string" where
  "dumps_default (JList xs) = ''['' @ join '', '' (map dumps_default xs) @ '']''"
| "dumps_default (JObj kvs) = ''{'' @ join '', '' (map (\<lambda>kv. json_text (fst kv) @ '': '' @ snd kv)
       (sort_key fst (map (\<lambda>kv. (fst kv, dumps_default (snd kv))) kvs))) @ ''}''"
| "dumps_default v = dumps v"

section \<open>The command\<close>

record gh_reply =
  gr_code :: int
  gr_out :: string
  gr_err :: string

record 'g github =
  gb_policy :: organization_policy
  gb_project :: "(string \<times> int) option"
  gb_call :: "string list \<Rightarrow> string option \<Rightarrow> ('g, gh_reply) io"
  gb_sha :: "string \<Rightarrow> string"
  gb_limits :: "string \<Rightarrow> exc option"
  gb_float :: "string \<Rightarrow> string \<times> int option"
  gb_fuel :: nat

text \<open>The checks of \<open>GitHubBackend.__init__\<close> and the environment that it keeps. \<open>is_file\<close> is the answer of the
  file system for the executable.\<close>

definition github_environment :: "string \<Rightarrow> bool \<Rightarrow> (string \<times> string) list \<Rightarrow> (string \<times> string) list result" where
  "github_environment executable is_file supplied =
     (let value = (\<lambda>k. case map_of supplied k of None \<Rightarrow> [] | Some v \<Rightarrow> v);
          unknown = sort (remdups (filter (\<lambda>k. k \<notin> {''GH_TOKEN'', ''HOME'', ''LANG'', ''LC_ALL''}) (map fst supplied)));
          home = (if value ''HOME'' = [] then ''/var/empty'' else value ''HOME'') in
      if \<not> starts_with ''/'' executable \<or> \<not> is_file then Inl (GitHubError ''GitHub executable must be an existing absolute file'')
      else if unknown \<noteq> [] then Inl (GitHubError (''GitHub environment contains forbidden overrides: '' @ join '', '' unknown))
      else if value ''GH_TOKEN'' = [] then Inl (GitHubError ''controller GitHub token is absent'')
      else if \<not> starts_with ''/'' home then Inl (GitHubError ''controller GitHub home must be absolute'')
      else Inr (filter (\<lambda>kv. fst kv \<in> {''GH_TOKEN'', ''LANG'', ''LC_ALL''}) supplied
             @ [(''HOME'', posix_str home), (''PATH'', ''/usr/bin:/bin''), (''GH_PROMPT_DISABLED'', ''1''), (''GH_NO_UPDATE_NOTIFIER'', ''1'')]))"

definition gh_run :: "'g github \<Rightarrow> string list \<Rightarrow> string option \<Rightarrow> ('g, string) io" where
  "gh_run gb argv stdin =
     io_then (gb_call gb argv stdin) (\<lambda>r.
       if gr_code r \<noteq> 0
       then io_raise (GitHubError (if strip (gr_err r) = [] then ''GitHub command failed: '' @ hd argv else strip (gr_err r)))
       else io_return (gr_out r))"

definition read_reply :: "'g github \<Rightarrow> string \<Rightarrow> string \<Rightarrow> json result" where
  "read_reply gb message raw =
     (case gb_limits gb raw of
        Some e \<Rightarrow> Inl e
      | None \<Rightarrow> (case loads (gb_float gb) raw of None \<Rightarrow> Inl (GitHubError message) | Some v \<Rightarrow> Inr v))"

definition api :: "'g github \<Rightarrow> string \<Rightarrow> string \<Rightarrow> (string \<times> json) list option \<Rightarrow> ('g, json) io" where
  "api gb path request_method body =
     io_then (gh_run gb ([''api'', ''-X'', request_method, path] @ (case body of None \<Rightarrow> [] | Some _ \<Rightarrow> [''--input'', ''-'']))
                (map_option (dumps_default \<circ> JObj) body))
       (\<lambda>raw. io_check (if strip raw = [] then Inr JNull else read_reply gb ''GitHub returned malformed JSON'' raw))"

abbreviation get_api :: "'g github \<Rightarrow> string \<Rightarrow> ('g, json) io" where
  "get_api gb path \<equiv> api gb path ''GET'' None"

definition page_rows :: "json \<Rightarrow> (string \<times> json) list list result" where
  "page_rows p =
     (case p of
        JList vs \<Rightarrow> (if list_all is_object vs then Inr (map entries_of vs)
                    else Inl (GitHubError ''paginated GitHub page contained a non-object''))
      | _ \<Rightarrow> Inl (GitHubError ''paginated GitHub page was not a list''))"

definition pages :: "'g github \<Rightarrow> string \<Rightarrow> ('g, (string \<times> json) list list) io" where
  "pages gb path =
     io_then (gh_run gb [''api'', path, ''--paginate'', ''--slurp''] None) (\<lambda>raw.
       io_check (bindE (read_reply gb ''paginated GitHub read returned malformed JSON'' raw) (\<lambda>v.
         case v of
           JList ps \<Rightarrow> bindE (mapE page_rows ps) (\<lambda>rows. Inr (concat rows))
         | _ \<Rightarrow> Inl (GitHubError ''paginated GitHub read was not a page list''))))"

section \<open>Issues\<close>

definition repo_of :: "'g github \<Rightarrow> (string \<times> json) list \<Rightarrow> repository result" where
  "repo_of gb arguments = policy_repository (gb_policy gb) (py_str (py_or (dget arguments ''repository'') (JStr ''org'')))"

definition repo_path :: "repository \<Rightarrow> string \<Rightarrow> string" where
  "repo_path r rest = ''repos/'' @ repo_slug r @ ''/'' @ rest"

definition issue_of :: "'g github \<Rightarrow> (string \<times> json) list \<Rightarrow> ('g, (string \<times> json) list) io" where
  "issue_of gb arguments =
     io_then (io_check (number_at arguments ''id'' ''issue'')) (\<lambda>number.
       if number \<le> 0 then io_raise (GitHubError ''positive issue id is required'')
       else io_then (io_check (repo_of gb arguments)) (\<lambda>repo.
         io_then (get_api gb (repo_path repo (''issues/'' @ int_text number))) (\<lambda>issue.
           if \<not> is_object issue \<or> truthy (dget (entries_of issue) ''pull_request'')
           then io_raise (GitHubError ''target issue is absent or is a pull request'')
           else io_return (entries_of issue))))"

definition issue_label_names :: "(string \<times> json) list \<Rightarrow> string list result" where
  "issue_label_names issue =
     bindE (py_iter (py_or (dget issue ''labels'') (JList []))) (\<lambda>vs.
       Inr (map (\<lambda>v. str_or_empty (dget (entries_of v) ''name'')) (filter is_object vs)))"

definition kind_of :: "string list \<Rightarrow> string option result" where
  "kind_of labels =
     (case filter (\<lambda>k. k \<in> set labels) [''objective'', ''proposal'', ''epic'', ''feature'', ''story''] of
        [] \<Rightarrow> Inr None
      | [k] \<Rightarrow> Inr (Some k)
      | _ \<Rightarrow> Inl (GitHubError ''issue has conflicting work-item kind labels''))"

text \<open>The metadata line of an item: the whole line, from its first to its last brace.\<close>

definition item_prefix :: string where
  "item_prefix = ''<!-- sjg-item:''"

definition item_group :: "string \<Rightarrow> string option" where
  "item_group line =
     (if starts_with (item_prefix @ ''{'') line \<and> ends_with ''} -->'' line \<and> length item_prefix + 7 \<le> length line
      then Some (take (length line - length item_prefix - 4) (drop (length item_prefix) line))
      else None)"

definition metadata_of :: "'g github \<Rightarrow> (string \<times> json) list \<Rightarrow> (string \<times> json) list option result" where
  "metadata_of gb issue =
     (case List.map_filter item_group (split_on (CHR 10) (str_or_empty (dget issue ''body''))) of
        [] \<Rightarrow> Inr None
      | text # _ \<Rightarrow>
          (case gb_limits gb text of
             Some e \<Rightarrow> Inl e
           | None \<Rightarrow> Inr (case loads (gb_float gb) text of
                 Some (JObj kvs) \<Rightarrow> (if dget kvs ''schema'' = JStr ''sjg.item/v1'' then Some kvs else None)
               | _ \<Rightarrow> None)))"

text \<open>\<open>re.sub\<close> of the metadata lines: what is left of a line after the last \<^verbatim>\<open>} -->\<close> that can close it, and whether the
  line break goes with it.\<close>

fun after_last :: "string \<Rightarrow> string \<Rightarrow> string option" where
  "after_last pat [] = (if pat = [] then Some [] else None)"
| "after_last pat (c # s) =
     (case after_last pat s of
        Some r \<Rightarrow> Some r
      | None \<Rightarrow> if starts_with pat (c # s) then Some (drop (length pat) (c # s)) else None)"

definition cut_item :: "string \<Rightarrow> string option" where
  "cut_item line =
     (if starts_with (item_prefix @ ''{'') line then after_last ''} -->'' (drop (length item_prefix + 2) line) else None)"

fun without_items :: "string list \<Rightarrow> string" where
  "without_items [] = []"
| "without_items [l] = (case cut_item l of None \<Rightarrow> l | Some rest \<Rightarrow> rest)"
| "without_items (l # ls) =
     (case cut_item l of
        None \<Rightarrow> l @ nl @ without_items ls
      | Some rest \<Rightarrow> (if rest = [] then without_items ls else rest @ nl @ without_items ls))"

definition body_with_metadata :: "string \<Rightarrow> string \<Rightarrow> string \<Rightarrow> string" where
  "body_with_metadata body owner_role kind =
     (let stripped = lstrip (without_items (split_on (CHR 10) body));
          metadata = dumps (JObj [(''schema'', JStr ''sjg.item/v1''), (''owner_role'', JStr owner_role), (''kind'', JStr kind)]) in
      item_prefix @ metadata @ '' -->'' @ nl @ (if stripped = [] then em_dash else stripped))"

definition idempotency_marker :: "string \<Rightarrow> string" where
  "idempotency_marker key = ''<!-- sjg-idempotency:'' @ key @ '' -->''"

definition idempotent_body :: "string \<Rightarrow> string \<Rightarrow> string" where
  "idempotent_body body key = (if contains (idempotency_marker key) body then body else idempotency_marker key @ nl @ body)"

definition children_of :: "'g github \<Rightarrow> (string \<times> json) list \<Rightarrow> ('g, (string \<times> json) list list) io" where
  "children_of gb arguments =
     io_then (issue_of gb arguments) (\<lambda>issue.
     io_then (io_check (repo_of gb arguments)) (\<lambda>repo.
     io_then (io_check (bindE (key_of issue ''number'') py_int)) (\<lambda>number.
       pages gb (repo_path repo (''issues/'' @ int_text number @ ''/sub_issues?per_page=100'')))))"

end
