(* ===== verification/Github_Facts.thy ===== *)
theory Github_Facts
  imports Github Broker
begin

text \<open>
  \<^verbatim>\<open>control/sjg_control/github_backend.py\<close>, the Project board, the evidence of a closed item and \<open>facts\<close>, the
  authoritative facts that the broker authorizes with.
\<close>

section \<open>The Project board\<close>

definition graphql :: "'g github \<Rightarrow> string \<Rightarrow> (string \<times> json) list \<Rightarrow> ('g, json) io" where
  "graphql gb query variables = api gb ''graphql'' ''POST'' (Some [(''query'', JStr query), (''variables'', JObj variables)])"

text \<open>\<open>if (data or {}).get("errors"): raise\<close>\<close>

definition no_errors :: "string \<Rightarrow> json \<Rightarrow> unit result" where
  "no_errors message data = bindE (dig data [''errors'']) (\<lambda>e. if truthy e then Inl (GitHubError message) else Inr ())"

definition project_query :: string where
  "project_query = join nl
     [''query($login:String!,$number:Int!){'',
      ''          user(login:$login){projectV2(number:$number){id field(name:\"Status\"){'',
      ''            ... on ProjectV2SingleSelectField{id options{id name}}}}}'',
      ''          organization(login:$login){projectV2(number:$number){id field(name:\"Status\"){'',
      ''            ... on ProjectV2SingleSelectField{id options{id name}}}}}}'']"

text \<open>The identifiers of the project and of its field, and the options of the field by their name; of two options of one name the
  later counts.\<close>

definition project_option :: "json \<Rightarrow> (string \<times> string) result" where
  "project_option v = bindE (subscript v ''name'') (\<lambda>n. bindE (subscript v ''id'') (\<lambda>i. Inr (py_str n, py_str i)))"

definition project_fields :: "json \<Rightarrow> (json \<times> json \<times> (string \<times> string) list) result" where
  "project_fields data =
     bindE (no_errors ''Project coordinate GraphQL read failed'' data) (\<lambda>_.
     bindE (dig data [''data'']) (\<lambda>roots.
     bindE (dig roots [''user'', ''projectV2'']) (\<lambda>mine.
     bindE (if truthy mine then Inr mine else dig roots [''organization'', ''projectV2'']) (\<lambda>project.
     bindE (dig project [''field'']) (\<lambda>f.
     let field = py_or f (JObj []) in
     bindE (if truthy project then member field ''id'' else Inr JNull) (\<lambda>field_id.
       if \<not> truthy project \<or> \<not> truthy field_id then Inl (GitHubError ''configured Project or Status field was not found'')
       else bindE (subscript project ''id'') (\<lambda>project_id.
         bindE (member field ''options'') (\<lambda>os.
         bindE (py_iter (py_or os (JList []))) (\<lambda>vs.
         bindE (mapE project_option vs) (\<lambda>opts.
           Inr (project_id, field_id, rev opts)))))))))))"

definition project_metadata :: "'g github \<Rightarrow> ('g, json \<times> json \<times> (string \<times> string) list) io" where
  "project_metadata gb =
     (case gb_project gb of
        None \<Rightarrow> io_raise (GitHubError ''Project coordinates are not commissioned'')
      | Some (login, number) \<Rightarrow>
          io_then (graphql gb project_query [(''login'', JStr login), (''number'', JInt number)]) (\<lambda>data.
            io_check (project_fields data)))"

text \<open>\<open>slug.split("/", 1)\<close> into two names.\<close>

definition slug_parts :: "string \<Rightarrow> (string \<times> string) result" where
  "slug_parts slug =
     (let login = takeWhile (\<lambda>c. c \<noteq> CHR ''/'') slug in
      if CHR ''/'' \<in> set slug then Inr (login, drop (length login + 1) slug)
      else Inl (ValueError ''not enough values to unpack (expected 2, got 1)''))"

text \<open>The items of an issue's connection, page after page: \<open>pick\<close> looks at one item. The loop of the source ends when
  an item is picked or \<open>hasNextPage\<close> is false.\<close>

fun first_picked :: "(json \<Rightarrow> 'a option result) \<Rightarrow> json list \<Rightarrow> 'a option result" where
  "first_picked pick [] = Inr None"
| "first_picked pick (v # vs) = bindE (pick v) (\<lambda>r. case r of None \<Rightarrow> first_picked pick vs | Some x \<Rightarrow> Inr (Some x))"

definition connection_step :: "string \<Rightarrow> (json \<Rightarrow> 'a option result) \<Rightarrow> json \<Rightarrow> ('a option \<times> json option) result" where
  "connection_step message pick data =
     bindE (no_errors message data) (\<lambda>_.
     bindE (dig data [''data'', ''repository'', ''issue'', ''projectItems'']) (\<lambda>connection.
     bindE (dig connection [''nodes'']) (\<lambda>ns.
     bindE (py_iter (py_or ns (JList []))) (\<lambda>nodes.
     bindE (first_picked pick nodes) (\<lambda>found.
     case found of
       Some x \<Rightarrow> Inr (Some x, None)
     | None \<Rightarrow>
         bindE (dig connection [''pageInfo'']) (\<lambda>page.
         bindE (dig page [''hasNextPage'']) (\<lambda>more_pages.
           if \<not> truthy more_pages then Inr (None, None)
           else bindE (dig page [''endCursor'']) (\<lambda>cursor. Inr (None, Some cursor)))))))))"

fun scan_connection ::
  "'g github \<Rightarrow> string \<Rightarrow> string \<Rightarrow> (string \<times> json) list \<Rightarrow> (json \<Rightarrow> 'a option result) \<Rightarrow> nat \<Rightarrow> json \<Rightarrow> ('g, 'a option) io" where
  "scan_connection gb query message variables pick 0 cursor = (\<lambda>g. None)"
| "scan_connection gb query message variables pick (Suc fuel) cursor =
     io_then (graphql gb query (variables @ [(''cursor'', cursor)])) (\<lambda>data.
     io_then (io_check (connection_step message pick data)) (\<lambda>(found, next_cursor).
       case next_cursor of
         None \<Rightarrow> io_return found
       | Some c \<Rightarrow> scan_connection gb query message variables pick fuel c))"

definition item_variables :: "'g github \<Rightarrow> (string \<times> json) list \<Rightarrow> (string \<times> json) list result" where
  "item_variables gb arguments =
     bindE (repo_of gb arguments) (\<lambda>repo.
     bindE (number_at arguments ''id'' ''issue'') (\<lambda>number.
     bindE (slug_parts (repo_slug repo)) (\<lambda>(login, name).
       Inr [(''owner'', JStr login), (''name'', JStr name), (''number'', JInt number)])))"

text \<open>\<open>(node.get("project") or {}).get("id") == project_id\<close>\<close>

definition on_project :: "json \<Rightarrow> json \<Rightarrow> bool result" where
  "on_project project_id node =
     bindE (member node ''project'') (\<lambda>p. bindE (dig p [''id'']) (\<lambda>i. Inr (i = project_id)))"

definition stage_query :: string where
  "stage_query = join nl
     [''query($owner:String!,$name:String!,$number:Int!,$cursor:String){'',
      ''          repository(owner:$owner,name:$name){issue(number:$number){projectItems(first:100,after:$cursor){'',
      ''            pageInfo{hasNextPage endCursor} nodes{project{id} fieldValueByName(name:\"Status\"){'',
      ''              ... on ProjectV2ItemFieldSingleSelectValue{name}}}}}}}}'']"

definition stage_pick :: "json \<Rightarrow> json \<Rightarrow> json option result" where
  "stage_pick project_id node =
     bindE (on_project project_id node) (\<lambda>here.
       if here then bindE (dig node [''fieldValueByName'', ''name'']) (\<lambda>n. Inr (Some n)) else Inr None)"

definition stage_of :: "'g github \<Rightarrow> (string \<times> json) list \<Rightarrow> ('g, json) io" where
  "stage_of gb arguments =
     (if gb_project gb = None then io_return JNull
      else io_then (project_metadata gb) (\<lambda>(project_id, _, _).
        io_then (io_check (item_variables gb arguments)) (\<lambda>variables.
        io_then (scan_connection gb stage_query ''project status GraphQL read failed'' variables (stage_pick project_id) (gb_fuel gb) JNull)
          (\<lambda>found. io_return (case found of None \<Rightarrow> JNull | Some n \<Rightarrow> n)))))"

definition item_query :: string where
  "item_query = join nl
     [''query($owner:String!,$name:String!,$number:Int!,$cursor:String){'',
      ''          repository(owner:$owner,name:$name){issue(number:$number){projectItems(first:100,after:$cursor){'',
      ''            pageInfo{hasNextPage endCursor} nodes{id project{id}}}}}}'']"

definition item_pick :: "json \<Rightarrow> json \<Rightarrow> string option result" where
  "item_pick project_id node =
     bindE (on_project project_id node) (\<lambda>here.
       if here then bindE (subscript node ''id'') (\<lambda>i. Inr (Some (py_str i))) else Inr None)"

definition project_item_id :: "'g github \<Rightarrow> (string \<times> json) list \<Rightarrow> json \<Rightarrow> ('g, string option) io" where
  "project_item_id gb arguments project_id =
     io_then (io_check (item_variables gb arguments)) (\<lambda>variables.
       scan_connection gb item_query ''Project item GraphQL read failed'' variables (item_pick project_id) (gb_fuel gb) JNull)"

section \<open>Acceptance lines\<close>

definition heading_word :: re where
  "heading_word = Alt (seqs [ilit ''acceptance'', opt (ilit '' criteria''), opt (ilit '' (optional)'')])
     (seqs [ilit ''done'', opt (Alt (lit ''-'') (lit '' '')), ilit ''when''])"

definition inline_acceptance :: re where
  "inline_acceptance = seqs [Bos, Star Sp, opt (Seq (Alt (lit ''-'') (lit ''*'')) (Star Sp)), acceptance_word, Star Sp, lit '':'']"

definition hashes :: re where
  "hashes = Seq (lit ''#'') (rep_upto 5 (lit ''#''))"

definition acceptance_heading :: re where
  "acceptance_heading = seqs [Bos, Star Sp, hashes, Star Sp, heading_word, Star Sp, Eol]"

definition any_heading :: re where
  "any_heading = seqs [Bos, Star Sp, hashes, plus Sp]"

text \<open>\<open>" ".join(v.split()).casefold()\<close>\<close>

definition folded :: "string \<Rightarrow> string" where
  "folded v = lower (join '' '' (split_words [] v))"

text \<open>The text after the colon; the group of the source needs one character of it.\<close>

definition inline_value :: "string \<Rightarrow> string option" where
  "inline_value line =
     (case ends inline_acceptance (None, line) of
        [] \<Rightarrow> None
      | (_, rest) # _ \<Rightarrow> if rest = [] then None else Some (folded rest))"

definition listed_value :: "string \<Rightarrow> string" where
  "listed_value line =
     (let t = lstrip line in strip (if starts_with ''-'' t \<or> starts_with ''*'' t then tl t else line))"

fun acceptance_from :: "bool \<Rightarrow> string list \<Rightarrow> string list" where
  "acceptance_from collecting [] = []"
| "acceptance_from collecting (line # lines) =
     (case inline_value line of
        Some v \<Rightarrow> v # acceptance_from False lines
      | None \<Rightarrow>
          if match_prefix acceptance_heading line then acceptance_from True lines
          else (let on = (collecting \<and> \<not> match_prefix any_heading line); v = listed_value line in
                (if on \<and> v \<noteq> [] \<and> v \<noteq> ''_No response_'' then [folded v] else []) @ acceptance_from on lines))"

definition acceptance_lines :: "string \<Rightarrow> string list" where
  "acceptance_lines body = sort (remdups (acceptance_from False (split_lines [] body)))"

section \<open>Evidence\<close>

definition span :: "(char \<Rightarrow> bool) \<Rightarrow> string \<Rightarrow> string \<times> string" where
  "span P s = (takeWhile P s, dropWhile P s)"

definition after_prefix :: "string \<Rightarrow> string \<Rightarrow> string option" where
  "after_prefix p s = (if starts_with p s then Some (drop (length p) s) else None)"

definition all_digits :: "string \<Rightarrow> int option" where
  "all_digits s = (if s \<noteq> [] \<and> list_all is_digit s then Some (int (digits_value 0 s)) else None)"

text \<open>\<open>owner/name\<close> of characters in \<open>P\<close>, and what follows.\<close>

definition two_names :: "(char \<Rightarrow> bool) \<Rightarrow> string \<Rightarrow> (string \<times> string) option" where
  "two_names P s =
     (case span P s of (login, r) \<Rightarrow>
      (case r of
         [] \<Rightarrow> None
       | c # r1 \<Rightarrow>
           (case span P r1 of (name, r2) \<Rightarrow>
              if login = [] \<or> name = [] \<or> c \<noteq> CHR ''/'' then None else Some (login @ ''/'' @ name, r2))))"

text \<open>The reference of a pull request, as a link or as \<open>owner/name#number\<close>.\<close>

definition pull_ref :: "string \<Rightarrow> (string \<times> int) option" where
  "pull_ref s =
     (let t = (case after_prefix ''https://github.com/'' s of Some r \<Rightarrow> r | None \<Rightarrow> s) in
      case two_names (\<lambda>c. c \<noteq> CHR ''/'' \<and> c \<noteq> CHR ''#'') t of
        None \<Rightarrow> None
      | Some (slug, r) \<Rightarrow>
          (case (case after_prefix ''/pull/'' r of Some d \<Rightarrow> Some d | None \<Rightarrow> after_prefix ''#'' r) of
             None \<Rightarrow> None
           | Some d \<Rightarrow> map_option (Pair slug) (all_digits d)))"

text \<open>The link of a comment: repository, item and comment.\<close>

definition comment_ref :: "string \<Rightarrow> (string \<times> int \<times> int) option" where
  "comment_ref s =
     Option.bind (after_prefix ''https://github.com/'' s) (\<lambda>t.
     Option.bind (two_names (\<lambda>c. c \<noteq> CHR ''/'') t) (\<lambda>(slug, r).
     Option.bind (case after_prefix ''/issues/'' r of Some d \<Rightarrow> Some d | None \<Rightarrow> after_prefix ''/pull/'' r) (\<lambda>d.
     case span is_digit d of (n, r1) \<Rightarrow>
     Option.bind (all_digits n) (\<lambda>item.
     Option.bind (after_prefix ''#issuecomment-'' r1) (\<lambda>c.
     Option.bind (all_digits c) (\<lambda>comment. Some (slug, item, comment)))))))"

definition relation_re :: "string \<Rightarrow> int \<Rightarrow> re" where
  "relation_re slug number = seqs
     [Bol, Star Sp, ilit ''relates-to'', plus Sp,
      Alt (seqs [ilit (lower slug), lit ''#'', lit (int_text number)])
          (seqs [ilit ''https://github.com/'', ilit (lower slug), ilit ''/issues/'', lit (int_text number)]),
      Star Sp, Eol]"

definition attribution_re :: re where
  "attribution_re = seqs
     [Bos, lit ''<!-- sjg-idempotency:'', REQUEST_ID, lit '' -->'', lit nl, lit (''**Commercial Planner '' @ em_dash @ ''** '')]"

definition field_re :: "string \<Rightarrow> string \<Rightarrow> re" where
  "field_re name v = seqs [Bol, Star Sp, ilit name, Star Sp, lit '':'', Star Sp, ilit (lower v), Star Sp, Eol]"

definition demo_re :: re where
  "demo_re = seqs [Bol, Star Sp, lit ''[DEMO]'']"

definition acceptance_digest :: "'g github \<Rightarrow> (string \<times> json) list \<Rightarrow> string" where
  "acceptance_digest gb issue = gb_sha gb (join nl (acceptance_lines (str_or_empty (dget issue ''body''))))"

definition trusted_demo :: "'g github \<Rightarrow> (string \<times> json) list \<Rightarrow> string \<Rightarrow> int \<Rightarrow> string \<Rightarrow> bool" where
  "trusted_demo gb issue slug number body \<longleftrightarrow>
     match_prefix attribution_re body \<and> search demo_re body \<and> search (field_re ''accepted'' ''true'') body
     \<and> search (field_re ''item'' (slug @ ''#'' @ int_text number)) body
     \<and> search (field_re ''acceptance_digest'' (acceptance_digest gb issue)) body"

definition evidence_of :: "'g github \<Rightarrow> (string \<times> json) list \<Rightarrow> (string \<times> json) list \<Rightarrow> ('g, bool) io" where
  "evidence_of gb issue arguments =
     io_then (io_check (bindE (key_of issue ''number'') py_int)) (\<lambda>number.
     io_then (io_check (policy_repository (gb_policy gb) ''org'')) (\<lambda>org.
     let pr_ref = str_or_empty (dget arguments ''pr'') in
     if pr_ref \<noteq> [] then
       (case pull_ref pr_ref of
          None \<Rightarrow> io_return False
        | Some (slug, n) \<Rightarrow>
            io_then (io_check (policy_repository (gb_policy gb) ''product'')) (\<lambda>product.
            if slug \<noteq> repo_slug product then io_return False
            else io_then (get_api gb (''repos/'' @ slug @ ''/pulls/'' @ int_text n)) (\<lambda>pr.
              io_return (is_object pr \<and> dget (entries_of pr) ''merged'' = JBool True
                \<and> search (relation_re (repo_slug org) number) (str_or_empty (dget (entries_of pr) ''body''))))))
     else
       (case comment_ref (str_or_empty (dget arguments ''demo'')) of
          None \<Rightarrow> io_return False
        | Some (slug, item, comment) \<Rightarrow>
            if slug \<noteq> repo_slug org \<or> item \<noteq> number then io_return False
            else io_then (get_api gb (repo_path org (''issues/comments/'' @ int_text comment))) (\<lambda>v.
              io_then (io_check (dig v [''body''])) (\<lambda>b.
                io_return (trusted_demo gb issue (repo_slug org) number (str_or_empty b)))))))"

section \<open>Facts\<close>

definition agent_branch :: "string \<Rightarrow> string option" where
  "agent_branch head =
     Option.bind (after_prefix ''agent/'' head) (\<lambda>r.
       case span (\<lambda>c. c \<noteq> CHR ''/'') r of (role, rest) \<Rightarrow>
         if role \<noteq> [] \<and> tl rest \<noteq> [] \<and> CHR ''/'' \<notin> set (tl rest) then Some role else None)"

definition create_facts :: "'g github \<Rightarrow> (string \<times> json) list \<Rightarrow> ('g, facts) io" where
  "create_facts gb arguments =
     (if truthy (dget arguments ''parent'') then
        io_then (issue_of gb ((''id'', dget arguments ''parent'') # arguments)) (\<lambda>parent.
        io_then (io_check (bindE (issue_label_names parent) kind_of)) (\<lambda>k. io_return (default_facts\<lparr>f_complete := True, f_parent_kind := k\<rparr>)))
      else io_return (default_facts\<lparr>f_complete := True\<rparr>))"

definition issue_facts :: "'g github \<Rightarrow> string \<Rightarrow> (string \<times> json) list \<Rightarrow> ('g, facts) io" where
  "issue_facts gb operation arguments =
     io_then (issue_of gb arguments) (\<lambda>issue.
     io_then (io_check (issue_label_names issue)) (\<lambda>labels.
     io_then (io_check (metadata_of gb issue)) (\<lambda>metadata.
     io_then (io_check (kind_of labels)) (\<lambda>k.
     io_then (if operation \<in> {''pm.issue.done'', ''pm.issue.drop'', ''read.issue.children''} then children_of gb arguments else io_return [])
       (\<lambda>children.
     io_then (if operation = ''pm.issue.move'' then io_then (stage_of gb arguments) (\<lambda>v. io_return (text_of v)) else io_return None)
       (\<lambda>stage.
     io_then (if operation = ''pm.issue.done'' then io_then (evidence_of gb issue arguments) (\<lambda>b. io_return (Some b)) else io_return None)
       (\<lambda>evidence.
       io_return (default_facts\<lparr>f_complete := True, f_issue_kind := k,
         f_owner_role := (case metadata of None \<Rightarrow> None | Some kvs \<Rightarrow> text_of (dget kvs ''owner_role'')),
         f_current_stage := stage,
         f_has_open_children := Some (list_ex (\<lambda>c. py_str (dget c ''state'') \<noteq> ''closed'') children),
         f_evidence_valid := evidence\<rparr>))))))))"

definition pull_facts :: "'g github \<Rightarrow> (string \<times> json) list \<Rightarrow> ('g, facts) io" where
  "pull_facts gb arguments =
     io_then (io_check (number_at arguments ''id'' ''pr'')) (\<lambda>number.
     io_then (io_check (repo_of gb arguments)) (\<lambda>repo.
     io_then (get_api gb (repo_path repo (''pulls/'' @ int_text number))) (\<lambda>pr.
       if \<not> is_object pr then io_raise (GitHubError ''pull request is absent'')
       else io_then (io_check (dig pr [''head'', ''ref''])) (\<lambda>ref.
         io_return (default_facts\<lparr>f_complete := True, f_pr_head_role := agent_branch (str_or_empty ref),
           f_pr_open := Some (dget (entries_of pr) ''state'' = JStr ''open'')\<rparr>)))))"

definition github_facts :: "'g github \<Rightarrow> string \<Rightarrow> (string \<times> json) list \<Rightarrow> ('g, facts) io" where
  "github_facts gb operation arguments =
     (if operation \<in> {''repo.submit'', ''repo.status'', ''worker.run''} then io_return default_facts
      else if operation = ''pm.issue.create'' then create_facts gb arguments
      else if operation = ''read.issue.list'' then io_return default_facts
      else if starts_with ''pm.'' operation \<or> starts_with ''read.issue'' operation then issue_facts gb operation arguments
      else if operation \<in> {''pr.create'', ''read.pr.list'', ''read.workflow.runs''} then io_return default_facts
      else if starts_with ''pr.'' operation \<or> starts_with ''read.pr'' operation then pull_facts gb arguments
      else io_raise (GitHubError (''unsupported facts operation: '' @ operation)))"

end
