(* ===== verification/Github_Execute.thy ===== *)
theory Github_Execute
  imports Github_Facts
begin

text \<open>
  \<^verbatim>\<open>control/sjg_control/github_backend.py\<close>, the writes: moving an item on the Project board, the submission of a
  branch and \<open>execute\<close>, one definition for the operations of each group.
\<close>

section \<open>Moving an item\<close>

definition add_mutation :: string where
  "add_mutation = join nl
     [''mutation($project:ID!,$content:ID!){'',
      ''              addProjectV2ItemById(input:{projectId:$project,contentId:$content}){item{id}}}'']"

definition move_mutation :: string where
  "move_mutation = join nl
     [''mutation($project:ID!,$item:ID!,$field:ID!,$option:String!){'',
      ''          updateProjectV2ItemFieldValue(input:{projectId:$project,itemId:$item,fieldId:$field,'',
      ''            value:{singleSelectOptionId:$option}}){projectV2Item{id}}}'']"

text \<open>\<open>(...).get("item", {}).get("id")\<close>: the default stands for a missing key only.\<close>

definition added_item :: "json \<Rightarrow> json result" where
  "added_item data =
     bindE (dig data [''data'', ''addProjectV2ItemById'']) (\<lambda>a.
     case py_or a (JObj []) of
       JObj kvs \<Rightarrow> member (if has_key kvs ''item'' then dget kvs ''item'' else JObj []) ''id''
     | v \<Rightarrow> member v ''item'')"

definition project_item :: "'g github \<Rightarrow> (string \<times> json) list \<Rightarrow> json \<Rightarrow> ('g, json) io" where
  "project_item gb arguments project_id =
     io_then (project_item_id gb arguments project_id) (\<lambda>found.
     case found of
       Some (c # cs) \<Rightarrow> io_return (JStr (c # cs))
     | _ \<Rightarrow>
         io_then (issue_of gb arguments) (\<lambda>issue.
         io_then (io_check (key_of issue ''node_id'')) (\<lambda>node.
         io_then (graphql gb add_mutation [(''project'', project_id), (''content'', node)]) (\<lambda>data.
         io_check (bindE (no_errors ''adding issue to Project failed'' data) (\<lambda>_. added_item data))))))"

definition move_item :: "'g github \<Rightarrow> (string \<times> json) list \<Rightarrow> string \<Rightarrow> ('g, unit) io" where
  "move_item gb arguments stage =
     io_then (project_metadata gb) (\<lambda>(project_id, field_id, opts).
     case map_of opts stage of
       None \<Rightarrow> io_raise (GitHubError (''unknown configured Project stage: '' @ stage))
     | Some opt_id \<Rightarrow>
         io_then (project_item gb arguments project_id) (\<lambda>item.
         io_then (graphql gb move_mutation [(''project'', project_id), (''item'', item), (''field'', field_id), (''option'', JStr opt_id)])
           (\<lambda>data. io_check (no_errors ''Project move failed'' data))))"

definition move_if_project :: "'g github \<Rightarrow> (string \<times> json) list \<Rightarrow> string \<Rightarrow> ('g, unit) io" where
  "move_if_project gb arguments stage = (if gb_project gb = None then io_return () else move_item gb arguments stage)"

section \<open>Submissions\<close>

definition comment_on :: "'g github \<Rightarrow> repository \<Rightarrow> int \<Rightarrow> string \<Rightarrow> ('g, json) io" where
  "comment_on gb repo number body =
     api gb (repo_path repo (''issues/'' @ int_text number @ ''/comments'')) ''POST'' (Some [(''body'', JStr body)])"

text \<open>One change of a submission: its entry in the new tree.\<close>

definition tree_entry :: "'g github \<Rightarrow> repository \<Rightarrow> json \<Rightarrow> ('g, json) io" where
  "tree_entry gb repo change =
     io_then (io_check (subscript change ''operation'')) (\<lambda>operation.
     if operation = JStr ''delete'' then
       io_then (io_check (subscript change ''path'')) (\<lambda>path.
         io_return (JObj [(''path'', path), (''mode'', JStr ''100644''), (''type'', JStr ''blob''), (''sha'', JNull)]))
     else
       io_then (io_check (subscript change ''content_base64'')) (\<lambda>content.
       io_then (io_check (case content of
                  JStr encoded \<Rightarrow> (case b64decode encoded of None \<Rightarrow> Inl (ValueError ''Incorrect padding'') | Some bytes \<Rightarrow> Inr bytes)
                | _ \<Rightarrow> Inl (TypeError ''argument should be a bytes-like object or ASCII string''))) (\<lambda>bytes.
       io_then (io_check (subscript change ''sha256'')) (\<lambda>digest.
       if digest \<noteq> JStr (gb_sha gb bytes) then
         io_then (io_check (subscript change ''path'')) (\<lambda>path. io_raise (GitHubError (''content digest mismatch: '' @ py_str path)))
       else
         io_then (api gb (repo_path repo ''git/blobs'') ''POST'' (Some [(''content'', content), (''encoding'', JStr ''base64'')])) (\<lambda>blob.
         io_then (io_check (subscript change ''path'')) (\<lambda>path.
         io_then (io_check (subscript change ''mode'')) (\<lambda>mode.
         io_then (io_check (subscript blob ''sha'')) (\<lambda>blob_sha.
           io_return (JObj [(''path'', path), (''mode'', mode), (''type'', JStr ''blob''), (''sha'', blob_sha)])))))))))"

definition branch_of :: "string \<Rightarrow> string \<Rightarrow> string" where
  "branch_of role topic = ''agent/'' @ role @ ''/'' @ topic"

text \<open>The branch as it is: whether it exists, and the commit that it or the default branch points at.\<close>

definition branch_base :: "'g github \<Rightarrow> repository \<Rightarrow> string \<Rightarrow> ('g, bool \<times> string) io" where
  "branch_base gb repo branch =
     io_then (pages gb (repo_path repo (''git/matching-refs/heads/'' @ branch @ ''?per_page=100''))) (\<lambda>matches.
     case filter (\<lambda>v. dget v ''ref'' = JStr (''refs/heads/'' @ branch)) matches of
       [] \<Rightarrow>
         io_then (get_api gb (repo_path repo (''git/ref/heads/'' @ repo_default_branch repo))) (\<lambda>ref.
         io_then (io_check (dig ref [''object'', ''sha''])) (\<lambda>sha. io_return (False, str_or_empty sha)))
     | [existing] \<Rightarrow>
         io_then (io_check (dig (JObj existing) [''object'', ''sha''])) (\<lambda>sha. io_return (True, str_or_empty sha))
     | _ \<Rightarrow> io_raise (GitHubError ''GitHub returned duplicate exact branch references''))"

definition submit :: "'g github \<Rightarrow> (string \<times> json) list \<Rightarrow> string \<Rightarrow> string \<Rightarrow> ('g, json) io" where
  "submit gb arguments role key =
     io_then (io_check (repo_of gb arguments)) (\<lambda>repo.
     io_then (io_check (bindE (key_of arguments ''topic'') (Inr \<circ> py_str))) (\<lambda>topic.
     io_then (io_check (bindE (key_of arguments ''base_oid'') (Inr \<circ> py_str))) (\<lambda>base_oid.
     let branch = branch_of role topic in
     io_then (branch_base gb repo branch) (\<lambda>(existing, remote_base).
     if remote_base = [] \<or> remote_base \<noteq> base_oid
     then io_raise (GitHubError ''submission base is stale; rematerialize before retrying'')
     else
       io_then (get_api gb (repo_path repo (''git/commits/'' @ base_oid))) (\<lambda>commit.
       io_then (io_check (dig commit [''tree'', ''sha''])) (\<lambda>base_tree.
       io_then (io_check (bindE (key_of arguments ''changes'') py_iter)) (\<lambda>changes.
       io_then (io_each (tree_entry gb repo) changes) (\<lambda>entries.
       io_then (api gb (repo_path repo ''git/trees'') ''POST''
                  (Some [(''base_tree'', JStr (str_or_empty base_tree)), (''tree'', JList entries)])) (\<lambda>tree.
       io_then (io_check (subscript tree ''sha'')) (\<lambda>tree_sha.
       io_then (api gb (repo_path repo ''git/commits'') ''POST''
                  (Some [(''message'', JStr (py_str (py_or (dget arguments ''message'') (JStr (''Agent submission: '' @ topic)))
                             @ nl @ nl @ ''SJG-Idempotency: '' @ key)),
                         (''tree'', tree_sha), (''parents'', JList [JStr base_oid])])) (\<lambda>created.
       io_then (io_check (subscript created ''sha'')) (\<lambda>sha.
       io_then (if existing
                then api gb (repo_path repo (''git/refs/heads/'' @ branch)) ''PATCH'' (Some [(''sha'', sha), (''force'', JBool False)])
                else api gb (repo_path repo ''git/refs'') ''POST'' (Some [(''ref'', JStr (''refs/heads/'' @ branch)), (''sha'', sha)])) (\<lambda>_.
         io_return (JObj [(''repository'', JStr (repo_slug repo)), (''branch'', JStr branch), (''sha'', sha)]))))))))))))))"

section \<open>Reading operations\<close>

definition rows_json :: "(string \<times> json) list list \<Rightarrow> json" where
  "rows_json rows = JObj [(''items'', JList (map JObj rows)), (''complete'', JBool True)]"

definition read_pages :: "'g github \<Rightarrow> string \<Rightarrow> ('g, json) io" where
  "read_pages gb path = io_then (pages gb path) (\<lambda>rows. io_return (rows_json rows))"

definition read_operation :: "'g github \<Rightarrow> string \<Rightarrow> (string \<times> json) list \<Rightarrow> string \<Rightarrow> repository \<Rightarrow> ('g, json) io" where
  "read_operation gb operation arguments role repo =
     (if operation = ''read.issue.get'' then io_then (issue_of gb arguments) (\<lambda>issue. io_return (JObj issue))
      else if operation = ''read.issue.children'' then io_then (children_of gb arguments) (\<lambda>rows. io_return (rows_json rows))
      else if operation = ''read.issue.comments'' then
        io_then (issue_of gb arguments) (\<lambda>issue.
        io_then (io_check (bindE (key_of issue ''number'') py_int)) (\<lambda>number.
          read_pages gb (repo_path repo (''issues/'' @ int_text number @ ''/comments?per_page=100''))))
      else if operation = ''read.issue.list'' then
        read_pages gb (repo_path repo (''issues?state='' @ (if truthy (dget arguments ''all'') then ''all'' else ''open'')
          @ ''&labels=role:'' @ role @ ''&per_page=100''))
      else if operation = ''read.pr.list'' then read_pages gb (repo_path repo ''pulls?state=all&per_page=100'')
      else if operation = ''read.workflow.runs'' then read_pages gb (repo_path repo ''actions/runs?per_page=100'')
      else
        io_then (io_check (number_at arguments ''id'' ''pr'')) (\<lambda>number.
          if operation = ''read.pr.get'' then get_api gb (repo_path repo (''pulls/'' @ int_text number))
          else if operation = ''read.pr.files'' then read_pages gb (repo_path repo (''pulls/'' @ int_text number @ ''/files?per_page=100''))
          else
            io_then (get_api gb (repo_path repo (''pulls/'' @ int_text number))) (\<lambda>pr.
            io_then (io_check (bindE (subscript pr ''head'') (\<lambda>h. subscript h ''sha''))) (\<lambda>sha.
              get_api gb (repo_path repo (''commits/'' @ py_str sha @ ''/check-runs''))))))"

section \<open>Work items\<close>

text \<open>\<open>role.replace("-", " ").title()\<close>\<close>

fun title_from :: "bool \<Rightarrow> string \<Rightarrow> string" where
  "title_from inside [] = []"
| "title_from inside (c # s) =
     (let letter = is_lower c \<or> is_upper c in
      (if inside then lower_char c else upper_char c) # title_from letter s)"

definition title_case :: "string \<Rightarrow> string" where
  "title_case s = title_from False (map (\<lambda>c. if c = CHR ''-'' then CHR '' '' else c) s)"

definition attributed :: "string \<Rightarrow> json \<Rightarrow> string" where
  "attributed role body = ''**'' @ title_case role @ '' '' @ em_dash @ ''** '' @ py_str body"

fun hashable :: "json \<Rightarrow> bool" where
  "hashable (JList _) = False"
| "hashable (JObj _) = False"
| "hashable _ = True"

fun also_labels :: "organization_policy \<Rightarrow> string \<Rightarrow> json list \<Rightarrow> string list result" where
  "also_labels policy role [] = Inr []"
| "also_labels policy role (v # vs) =
     (if \<not> hashable v then Inl (TypeError (''unhashable type: '' @ apostrophe @ type_name v @ apostrophe))
      else bindE (also_labels policy role vs) (\<lambda>rest.
        Inr (case v of JStr t \<Rightarrow> if t \<in> role_names policy \<and> t \<noteq> role then (''role:'' @ t) # rest else rest | _ \<Rightarrow> rest)))"

definition create_issue :: "'g github \<Rightarrow> (string \<times> json) list \<Rightarrow> string \<Rightarrow> string \<Rightarrow> repository \<Rightarrow> ('g, json) io" where
  "create_issue gb arguments role key repo =
     io_then (io_check (bindE (key_of arguments ''kind'') (Inr \<circ> py_str))) (\<lambda>kind.
     let title = str_or_empty (dget arguments ''title'');
         prefix = ''['' @ upper kind @ ''] '';
         assignee = py_str (py_or (dget arguments ''target_role'') (JStr role)) in
     io_then (io_check (bindE (py_iter (py_or (dget arguments ''also_role'') (JList []))) (also_labels (gb_policy gb) role))) (\<lambda>also.
     io_then (api gb (repo_path repo ''issues'') ''POST''
                (Some [(''title'', JStr (if starts_with prefix title then title else prefix @ title)),
                       (''body'', JStr (idempotent_body (body_with_metadata (py_str (py_or (dget arguments ''body'') (JStr em_dash))) assignee kind) key)),
                       (''labels'', JList (map JStr ([kind, ''role:'' @ assignee] @ also)))])) (\<lambda>issue.
     io_then (if truthy (dget arguments ''parent'') then
                io_then (issue_of gb ((''id'', dget arguments ''parent'') # arguments)) (\<lambda>parent.
                io_then (io_check (bindE (key_of parent ''number'') py_int)) (\<lambda>number.
                io_then (io_check (subscript issue ''id'')) (\<lambda>child.
                  api gb (repo_path repo (''issues/'' @ int_text number @ ''/sub_issues'')) ''POST'' (Some [(''sub_issue_id'', child)]))))
              else io_return JNull) (\<lambda>_.
     io_then (if gb_project gb = None then io_return ()
              else io_then (io_check (subscript issue ''number'')) (\<lambda>number. move_item gb ((''id'', number) # arguments) ''Todo'')) (\<lambda>_.
     io_then (io_check (subscript issue ''number'')) (\<lambda>number.
     io_then (io_check (subscript issue ''html_url'')) (\<lambda>url.
       io_return (JObj [(''number'', number), (''url'', url), (''owner_role'', JStr assignee)]))))))))"

definition route_labels :: "string list \<Rightarrow> string \<Rightarrow> string list" where
  "route_labels labels target =
     sort (remdups ((''role:'' @ target) # filter (\<lambda>l. \<not> starts_with ''role:'' l) labels))"

definition route_issue :: "'g github \<Rightarrow> (string \<times> json) list \<Rightarrow> repository \<Rightarrow> ('g, json) io" where
  "route_issue gb arguments repo =
     io_then (issue_of gb arguments) (\<lambda>issue.
     io_then (io_check (bindE (key_of arguments ''target_role'') (Inr \<circ> py_str))) (\<lambda>target.
     io_then (io_check (issue_label_names issue)) (\<lambda>labels.
     io_then (io_check (metadata_of gb issue)) (\<lambda>metadata.
     let kind = py_str (py_or (dget (case metadata of None \<Rightarrow> [] | Some kvs \<Rightarrow> kvs) ''kind'') (JStr ''proposal'')) in
     io_then (io_check (bindE (key_of issue ''number'') py_int)) (\<lambda>number.
     io_then (api gb (repo_path repo (''issues/'' @ int_text number)) ''PATCH''
                (Some [(''labels'', JList (map JStr (route_labels labels target))),
                       (''body'', JStr (body_with_metadata (str_or_empty (dget issue ''body'')) target kind))])) (\<lambda>_.
       io_return (JObj [(''owner_role'', JStr target)])))))))"

text \<open>Closing: a marked comment first, then the board, then the state of the issue.\<close>

definition close_issue :: "'g github \<Rightarrow> (string \<times> json) list \<Rightarrow> repository \<Rightarrow> string \<Rightarrow> string \<Rightarrow> string \<Rightarrow> ('g, json) io" where
  "close_issue gb arguments repo text stage reason =
     io_then (issue_of gb arguments) (\<lambda>issue.
     io_then (io_check (bindE (key_of issue ''number'') py_int)) (\<lambda>number.
     io_then (comment_on gb repo number text) (\<lambda>_.
     io_then (move_if_project gb arguments stage) (\<lambda>_.
     io_then (api gb (repo_path repo (''issues/'' @ int_text number)) ''PATCH''
                (Some [(''state'', JStr ''closed''), (''state_reason'', JStr reason)])) (\<lambda>_.
     io_then (io_check (key_of issue ''number'')) (\<lambda>n.
       io_return (JObj ([(''number'', n), (''state'', JStr ''closed'')]
         @ (if reason = ''not_planned'' then [(''reason'', JStr reason)] else [])))))))))"

definition issue_operation :: "'g github \<Rightarrow> string \<Rightarrow> (string \<times> json) list \<Rightarrow> string \<Rightarrow> string \<Rightarrow> repository \<Rightarrow> ('g, json) io" where
  "issue_operation gb operation arguments role key repo =
     (if operation = ''pm.issue.create'' then create_issue gb arguments role key repo
      else if operation = ''pm.issue.comment'' then
        io_then (issue_of gb arguments) (\<lambda>issue.
        io_then (io_check (key_of arguments ''body'')) (\<lambda>body.
        io_then (io_check (bindE (key_of issue ''number'') py_int)) (\<lambda>number.
        io_then (comment_on gb repo number (idempotent_body (attributed role body) key)) (\<lambda>result.
        io_then (io_check (subscript result ''id'')) (\<lambda>i. io_return (JObj [(''comment_id'', i)]))))))
      else if operation = ''pm.issue.route'' then route_issue gb arguments repo
      else if operation = ''pm.issue.move'' then
        io_then (issue_of gb arguments) (\<lambda>issue.
        io_then (io_check (key_of arguments ''to'')) (\<lambda>stage.
        io_then (move_item gb arguments (py_str stage)) (\<lambda>_.
        io_then (io_check (key_of issue ''number'')) (\<lambda>n. io_return (JObj [(''number'', n), (''stage'', stage)])))))
      else if operation = ''pm.issue.done'' then
        close_issue gb arguments repo
          (idempotency_marker key @ nl @ ''[CLOSE]'' @ nl @ ''```json'' @ nl @ dumps_default (JObj arguments) @ nl @ ''```'') ''Done'' ''completed''
      else
        close_issue gb arguments repo
          (idempotency_marker key @ nl @ ''[DROP]'' @ nl @ ''reason: ''
             @ py_str (if has_key arguments ''reason'' then dget arguments ''reason'' else JStr [])) ''Dropped'' ''not_planned'')"

section \<open>Pull requests\<close>

definition create_pull :: "'g github \<Rightarrow> (string \<times> json) list \<Rightarrow> string \<Rightarrow> string \<Rightarrow> repository \<Rightarrow> ('g, json) io" where
  "create_pull gb arguments role key repo =
     io_then (io_check (bindE (key_of arguments ''topic'') (Inr \<circ> py_str))) (\<lambda>topic.
     let branch = branch_of role topic in
     io_then (api gb (repo_path repo ''pulls'') ''POST''
                (Some [(''title'', JStr (py_str (py_or (dget arguments ''title'') (JStr (title_case topic))))),
                       (''body'', JStr (idempotent_body (str_or_empty (dget arguments ''body'')) key)),
                       (''head'', JStr branch), (''base'', JStr (repo_default_branch repo)),
                       (''draft'', JBool (if has_key arguments ''draft'' then truthy (dget arguments ''draft'') else True))])) (\<lambda>created.
     io_then (io_check (subscript created ''number'')) (\<lambda>number.
     io_then (io_check (subscript created ''html_url'')) (\<lambda>url.
       io_return (JObj [(''number'', number), (''url'', url), (''head'', JStr branch)])))))"

definition pull_operation :: "'g github \<Rightarrow> string \<Rightarrow> (string \<times> json) list \<Rightarrow> string \<Rightarrow> string \<Rightarrow> repository \<Rightarrow> ('g, json) io" where
  "pull_operation gb operation arguments role key repo =
     (if operation = ''pr.create'' then create_pull gb arguments role key repo
      else
        io_then (io_check (number_at arguments ''id'' ''pr'')) (\<lambda>number.
          if operation = ''pr.update'' then
            io_then (api gb (repo_path repo (''pulls/'' @ int_text number)) ''PATCH''
                       (Some (filter (\<lambda>kv. has_key arguments (fst kv)) (map (\<lambda>k. (k, dget arguments k)) [''title'', ''body''])))) (\<lambda>updated.
            io_then (io_check (subscript updated ''number'')) (\<lambda>n.
            io_then (io_check (subscript updated ''html_url'')) (\<lambda>url. io_return (JObj [(''number'', n), (''url'', url)]))))
          else if operation = ''pr.comment'' then
            io_then (io_check (key_of arguments ''body'')) (\<lambda>body.
            io_then (comment_on gb repo number (idempotent_body (attributed role body) key)) (\<lambda>result.
            io_then (io_check (subscript result ''id'')) (\<lambda>i. io_return (JObj [(''comment_id'', i)]))))
          else
            io_then (api gb (repo_path repo (''pulls/'' @ int_text number @ ''/reviews'')) ''POST''
                       (Some [(''body'', JStr (idempotent_body (str_or_empty (dget arguments ''body'')) key)),
                              (''event'', JStr (py_str (py_or (dget arguments ''event'') (JStr ''COMMENT''))))])) (\<lambda>result.
            io_then (io_check (subscript result ''id'')) (\<lambda>i.
            io_then (io_check (member result ''state'')) (\<lambda>st. io_return (JObj [(''review_id'', i), (''state'', st)]))))))"

section \<open>The operations\<close>

definition github_execute :: "'g github \<Rightarrow> string \<Rightarrow> (string \<times> json) list \<Rightarrow> session \<Rightarrow> string \<Rightarrow> ('g, json) io" where
  "github_execute gb operation arguments sn key =
     io_then (io_check (repo_of gb arguments)) (\<lambda>repo.
       if operation \<in> {''read.issue.get'', ''read.issue.children'', ''read.issue.comments'', ''read.issue.list'', ''read.pr.list'',
            ''read.pr.get'', ''read.pr.files'', ''read.pr.checks'', ''read.workflow.runs''}
       then read_operation gb operation arguments (sn_role sn) repo
       else if operation \<in> {''pm.issue.create'', ''pm.issue.comment'', ''pm.issue.route'', ''pm.issue.move'', ''pm.issue.done'', ''pm.issue.drop''}
       then issue_operation gb operation arguments (sn_role sn) key repo
       else if operation \<in> {''pr.create'', ''pr.update'', ''pr.comment'', ''pr.review''}
       then pull_operation gb operation arguments (sn_role sn) key repo
       else if operation = ''repo.status'' then
         io_return (JObj [(''repository'', JStr (repo_slug repo)), (''default_branch'', JStr (repo_default_branch repo))])
       else if operation = ''repo.submit'' then submit gb arguments (sn_role sn) key
       else io_raise (GitHubError (''operation implementation is not commissioned: '' @ operation)))"

end
