(* ===== verification/Reconcile.thy ===== *)
theory Reconcile
  imports Requests
begin

text \<open>
  \<^verbatim>\<open>control/sjg_control/reconcile.py\<close>: the tri-state plan of a managed issue, report digests and source
  markers.
\<close>

section \<open>Plans\<close>

datatype truth = Truth_TRUE | Truth_FALSE | Truth_UNKNOWN

record observation =
  ob_truth :: truth
  ob_complete :: bool
  ob_value :: json

record managed_state =
  ms_source_key :: string
  ms_exists :: observation
  ms_qualifies :: observation
  ms_current_stage :: observation
  ms_desired_stage :: observation

record planned_operation =
  po_source_key :: string
  po_operation :: string
  po_precondition :: "(string \<times> json) list"

definition observations :: "managed_state \<Rightarrow> observation list" where
  "observations s = [ms_exists s, ms_qualifies s, ms_current_stage s, ms_desired_stage s]"

definition plan :: "managed_state \<Rightarrow> planned_operation list" where
  "plan s =
     (if list_ex (\<lambda>v. \<not> ob_complete v \<or> ob_truth v = Truth_UNKNOWN) (observations s) then []
      else if ob_truth (ms_exists s) = Truth_FALSE \<and> ob_truth (ms_qualifies s) = Truth_TRUE
      then [\<lparr>po_source_key = ms_source_key s, po_operation = ''create'',
             po_precondition = [(''proved_absent'', JBool True)]\<rparr>]
      else if ob_truth (ms_exists s) = Truth_TRUE \<and> ob_truth (ms_qualifies s) = Truth_FALSE
      then [\<lparr>po_source_key = ms_source_key s, po_operation = ''close'',
             po_precondition = [(''proved_present'', JBool True)]\<rparr>]
      else if ob_truth (ms_exists s) = Truth_TRUE \<and> ob_truth (ms_qualifies s) = Truth_TRUE
              \<and> ob_value (ms_current_stage s) \<noteq> ob_value (ms_desired_stage s)
      then [\<lparr>po_source_key = ms_source_key s, po_operation = ''move'',
             po_precondition = [(''from'', ob_value (ms_current_stage s)), (''to'', ob_value (ms_desired_stage s))]\<rparr>]
      else [])"

definition report_hash :: "(string \<Rightarrow> string) \<Rightarrow> (string \<times> json) list \<Rightarrow> string" where
  "report_hash sha model = sha (dumps_raw (JObj model))"

definition source_marker :: "string \<Rightarrow> string result" where
  "source_marker source_key =
     (if source_key = [] \<or> contains ''--'' source_key \<or> CHR 10 \<in> set source_key
      then Inl (ValueError ''invalid reconciliation source key'')
      else Inr (''<!-- governance-monitor-source:'' @ source_key @ '' -->''))"

section \<open>What a plan does\<close>

text \<open>Nothing is planned unless every observation is complete and known.\<close>

definition known :: "managed_state \<Rightarrow> bool" where
  "known s \<longleftrightarrow> list_all (\<lambda>v. ob_complete v \<and> ob_truth v \<noteq> Truth_UNKNOWN) (observations s)"

lemma plan_unknown: "\<not> known s \<Longrightarrow> plan s = []"
  by (auto simp: plan_def known_def list_all_iff list_ex_iff)

lemma plan_known:
  assumes "known s"
  shows "plan s =
    (if ob_truth (ms_exists s) = Truth_TRUE \<longleftrightarrow> ob_truth (ms_qualifies s) = Truth_TRUE
     then (if ob_truth (ms_exists s) = Truth_TRUE \<and> ob_value (ms_current_stage s) \<noteq> ob_value (ms_desired_stage s)
           then [\<lparr>po_source_key = ms_source_key s, po_operation = ''move'',
             po_precondition = [(''from'', ob_value (ms_current_stage s)), (''to'', ob_value (ms_desired_stage s))]\<rparr>] else [])
     else if ob_truth (ms_exists s) = Truth_TRUE
     then [\<lparr>po_source_key = ms_source_key s, po_operation = ''close'', po_precondition = [(''proved_present'', JBool True)]\<rparr>]
     else [\<lparr>po_source_key = ms_source_key s, po_operation = ''create'', po_precondition = [(''proved_absent'', JBool True)]\<rparr>])"
proof -
  have "ob_truth (ms_exists s) \<noteq> Truth_UNKNOWN" "ob_truth (ms_qualifies s) \<noteq> Truth_UNKNOWN"
    "\<not> list_ex (\<lambda>v. \<not> ob_complete v \<or> ob_truth v = Truth_UNKNOWN) (observations s)"
    using assms by (auto simp: known_def observations_def)
  then show ?thesis
    by (cases "ob_truth (ms_exists s)"; cases "ob_truth (ms_qualifies s)") (simp_all add: plan_def)
qed

end
