(* ===== verification/Verification.thy ===== *)
theory Verification
  imports Github_Execute Reconcile
begin

text \<open>
  \<^verbatim>\<open>control/sjg_control/verification.py\<close>: the proof of the effect of an operation whose outcome is not known, by complete
  reads of the remote state, and \<open>resolve_pending\<close>, which settles the rows of both journals that wait for it. Its state is
  the pair of the database and of what is behind the \<^verbatim>\<open>gh\<close> command.
\<close>

datatype proof_kind = Present | Absent | Conflict | Unknown

record verification =
  vf_proof :: proof_kind
  vf_result :: "json option"
  vf_detail :: "string option"

definition verified :: "proof_kind \<Rightarrow> verification" where
  "verified p = \<lparr>vf_proof = p, vf_result = None, vf_detail = None\<rparr>"

definition present_with :: "(string \<times> json) list \<Rightarrow> verification" where
  "present_with kvs = \<lparr>vf_proof = Present, vf_result = Some (JObj kvs), vf_detail = None\<rparr>"

definition present_if :: "bool \<Rightarrow> (string \<times> json) list \<Rightarrow> verification" where
  "present_if b kvs = (if b then present_with kvs else verified Absent)"

definition not_proved :: "proof_kind \<Rightarrow> string \<Rightarrow> verification" where
  "not_proved p detail = \<lparr>vf_proof = p, vf_result = None, vf_detail = Some detail\<rparr>"

definition unique_effect :: "(string \<times> json) list list \<Rightarrow> verification" where
  "unique_effect hits =
     (case hits of
        [] \<Rightarrow> verified Absent
      | [m] \<Rightarrow> present_with m
      | _ \<Rightarrow> not_proved Conflict ''multiple remote effects carry one idempotency marker'')"

text \<open>One match is present with what the operation reports of it.\<close>

definition unique_as :: "((string \<times> json) list \<Rightarrow> (string \<times> json) list) \<Rightarrow> (string \<times> json) list list \<Rightarrow> verification" where
  "unique_as report hits = (case hits of [m] \<Rightarrow> present_with (report m) | _ \<Rightarrow> unique_effect hits)"

definition body_has :: "string \<Rightarrow> (string \<times> json) list \<Rightarrow> bool" where
  "body_has marker item \<longleftrightarrow> contains marker (str_or_empty (dget item ''body''))"

definition number_and_url :: "(string \<times> json) list \<Rightarrow> (string \<times> json) list" where
  "number_and_url m = [(''number'', dget m ''number''), (''url'', dget m ''html_url'')]"

definition comments_of :: "'g github \<Rightarrow> repository \<Rightarrow> int \<Rightarrow> ('g, (string \<times> json) list list) io" where
  "comments_of gb repo number = pages gb (repo_path repo (''issues/'' @ int_text number @ ''/comments?per_page=100''))"

section \<open>Requests of the broker\<close>

text \<open>One definition for each branch of \<open>verify_broker\<close>.\<close>

definition verify_created :: "'g github \<Rightarrow> repository \<Rightarrow> string \<Rightarrow> ('g, verification) io" where
  "verify_created gb repo marker =
     io_then (pages gb (repo_path repo ''issues?state=all&per_page=100'')) (\<lambda>issues.
       io_return (unique_as number_and_url
         (filter (\<lambda>item. \<not> truthy (dget item ''pull_request'') \<and> body_has marker item) issues)))"

definition verify_comment :: "'g github \<Rightarrow> (string \<times> json) list \<Rightarrow> repository \<Rightarrow> string \<Rightarrow> ('g, verification) io" where
  "verify_comment gb arguments repo marker =
     io_then (io_check (int_or_zero (py_or (dget arguments ''id'') (py_or (dget arguments ''issue'') (dget arguments ''pr''))))) (\<lambda>number.
     io_then (comments_of gb repo number) (\<lambda>comments.
       io_return (unique_as (\<lambda>m. [(''comment_id'', dget m ''id'')]) (filter (body_has marker) comments))))"

definition verify_route :: "'g github \<Rightarrow> (string \<times> json) list \<Rightarrow> ('g, verification) io" where
  "verify_route gb arguments =
     io_then (issue_of gb arguments) (\<lambda>issue.
     let target = str_or_empty (dget arguments ''target_role'') in
     io_then (io_check (issue_label_names issue)) (\<lambda>labels.
     io_then (io_check (metadata_of gb issue)) (\<lambda>metadata.
       io_return (present_if (''role:'' @ target \<in> set labels
            \<and> dget (case metadata of None \<Rightarrow> [] | Some kvs \<Rightarrow> kvs) ''owner_role'' = JStr target)
          [(''owner_role'', JStr target)]))))"

definition verify_move :: "'g github \<Rightarrow> (string \<times> json) list \<Rightarrow> ('g, verification) io" where
  "verify_move gb arguments =
     io_then (stage_of gb arguments) (\<lambda>stage.
     let target = str_or_empty (dget arguments ''to'') in
       io_return (present_if (stage = JStr target) [(''stage'', JStr target)]))"

definition verify_closed :: "'g github \<Rightarrow> (string \<times> json) list \<Rightarrow> repository \<Rightarrow> string \<Rightarrow> ('g, verification) io" where
  "verify_closed gb arguments repo marker =
     io_then (issue_of gb arguments) (\<lambda>issue.
     io_then (io_check (bindE (key_of issue ''number'') py_int)) (\<lambda>number.
     io_then (comments_of gb repo number) (\<lambda>comments.
       io_return (present_if (dget issue ''state'' = JStr ''closed'' \<and> list_ex (body_has marker) comments)
         [(''number'', dget issue ''number''), (''state'', dget issue ''state'')]))))"

definition on_branch :: "(string \<times> json) list \<Rightarrow> (string \<times> json) list \<Rightarrow> bool result" where
  "on_branch arguments item =
     (if \<not> truthy (dget arguments ''_role'') then Inr True
      else bindE (dig (JObj item) [''head'', ''ref'']) (\<lambda>ref.
        Inr (str_or_empty ref = ''agent/'' @ py_str (dget arguments ''_role'') @ ''/''
          @ py_str (if has_key arguments ''topic'' then dget arguments ''topic'' else JStr []))))"

fun marked_pulls :: "string \<Rightarrow> (string \<times> json) list \<Rightarrow> (string \<times> json) list list \<Rightarrow> (string \<times> json) list list result" where
  "marked_pulls marker arguments [] = Inr []"
| "marked_pulls marker arguments (p # ps) =
     bindE (if body_has marker p then on_branch arguments p else Inr False) (\<lambda>b.
     bindE (marked_pulls marker arguments ps) (\<lambda>rest. Inr (if b then p # rest else rest)))"

definition verify_pull_created :: "'g github \<Rightarrow> (string \<times> json) list \<Rightarrow> repository \<Rightarrow> string \<Rightarrow> ('g, verification) io" where
  "verify_pull_created gb arguments repo marker =
     io_then (pages gb (repo_path repo ''pulls?state=all&per_page=100'')) (\<lambda>pulls.
     io_then (io_check (marked_pulls marker arguments pulls)) (\<lambda>hits. io_return (unique_as number_and_url hits)))"

definition verify_pull_updated :: "'g github \<Rightarrow> (string \<times> json) list \<Rightarrow> repository \<Rightarrow> ('g, verification) io" where
  "verify_pull_updated gb arguments repo =
     io_then (io_check (number_at arguments ''id'' ''pr'')) (\<lambda>number.
     io_then (get_api gb (repo_path repo (''pulls/'' @ int_text number))) (\<lambda>pull.
       if \<not> is_object pull then io_return (not_proved Unknown ''pull request read was incomplete'')
       else io_return (present_if
         (list_all (\<lambda>f. has_key arguments f \<longrightarrow> str_or_empty (dget (entries_of pull) f) = py_str (dget arguments f)) [''title'', ''body''])
         [(''number'', JInt number), (''url'', dget (entries_of pull) ''html_url'')])))"

definition verify_review :: "'g github \<Rightarrow> (string \<times> json) list \<Rightarrow> repository \<Rightarrow> string \<Rightarrow> ('g, verification) io" where
  "verify_review gb arguments repo marker =
     io_then (io_check (number_at arguments ''id'' ''pr'')) (\<lambda>number.
     io_then (pages gb (repo_path repo (''pulls/'' @ int_text number @ ''/reviews?per_page=100''))) (\<lambda>reviews.
       io_return (unique_as (\<lambda>m. [(''review_id'', dget m ''id''), (''state'', dget m ''state'')]) (filter (body_has marker) reviews))))"

definition verify_submission :: "'g github \<Rightarrow> (string \<times> json) list \<Rightarrow> repository \<Rightarrow> string \<Rightarrow> ('g, verification) io" where
  "verify_submission gb arguments repo key =
     (let role = str_or_empty (dget arguments ''_role''); topic = str_or_empty (dget arguments ''topic'') in
      if role = [] then io_return (not_proved Unknown ''persisted request lacks its bound role'')
      else
        io_then (get_api gb (repo_path repo (''git/ref/heads/agent/'' @ role @ ''/'' @ topic))) (\<lambda>ref.
        io_then (io_check (dig ref [''object'', ''sha''])) (\<lambda>v.
        let sha = str_or_empty v in
        if sha = [] then io_return (verified Absent)
        else
          io_then (get_api gb (repo_path repo (''commits/'' @ sha))) (\<lambda>commit.
          io_then (io_check (dig commit [''commit'', ''message''])) (\<lambda>message.
            io_return (present_if (contains (''SJG-Idempotency: '' @ key) (str_or_empty message))
              [(''repository'', JStr (repo_slug repo)), (''sha'', JStr sha)]))))))"

definition verify_operation :: "'g github \<Rightarrow> string \<Rightarrow> (string \<times> json) list \<Rightarrow> string \<Rightarrow> repository \<Rightarrow> ('g, verification) io" where
  "verify_operation gb operation arguments key repo =
     (let marker = idempotency_marker key in
      if operation = ''pm.issue.create'' then verify_created gb repo marker
      else if operation \<in> {''pm.issue.comment'', ''pr.comment''} then verify_comment gb arguments repo marker
      else if operation = ''pm.issue.route'' then verify_route gb arguments
      else if operation = ''pm.issue.move'' then verify_move gb arguments
      else if operation \<in> {''pm.issue.done'', ''pm.issue.drop''} then verify_closed gb arguments repo marker
      else if operation = ''pr.create'' then verify_pull_created gb arguments repo marker
      else if operation = ''pr.update'' then verify_pull_updated gb arguments repo
      else if operation = ''pr.review'' then verify_review gb arguments repo marker
      else if operation = ''repo.submit'' then verify_submission gb arguments repo key
      else io_return (not_proved Unknown (''no verifier for operation '' @ operation)))"

text \<open>The \<open>except\<close> clauses: what they catch leaves the effect unknown.\<close>

definition unknown_on :: "(exc \<Rightarrow> bool) \<Rightarrow> exc \<Rightarrow> verification result" where
  "unknown_on caught e = (if caught e then Inr (not_proved Unknown (exc_text e)) else Inl e)"

fun broker_read_failure :: "exc \<Rightarrow> bool" where
  "broker_read_failure (GitHubError _) = True"
| "broker_read_failure (KeyError _) = True"
| "broker_read_failure (TypeError _) = True"
| "broker_read_failure (ValueError _) = True"
| "broker_read_failure (PolicyError _) = True"
| "broker_read_failure _ = False"

definition verify_broker :: "'g github \<Rightarrow> string \<Rightarrow> (string \<times> json) list \<Rightarrow> string \<Rightarrow> ('g, verification) io" where
  "verify_broker gb operation arguments key =
     io_then (io_check (repo_of gb arguments)) (\<lambda>repo.
       io_catch (verify_operation gb operation arguments key repo) (unknown_on broker_read_failure))"

section \<open>Reconciliations\<close>

fun reconcile_read_failure :: "exc \<Rightarrow> bool" where
  "reconcile_read_failure (GitHubError _) = True"
| "reconcile_read_failure (TypeError _) = True"
| "reconcile_read_failure (ValueError _) = True"
| "reconcile_read_failure (PolicyError _) = True"
| "reconcile_read_failure _ = False"

definition verify_attached :: "'g github \<Rightarrow> repository \<Rightarrow> string \<Rightarrow> (string \<times> json) list \<Rightarrow> ('g, verification) io" where
  "verify_attached gb repo marker precondition =
     io_then (pages gb (repo_path repo ''issues?state=all&per_page=100'')) (\<lambda>issues.
     let hits = filter (body_has marker) issues; unique = unique_effect hits in
     io_then (io_check (int_or_zero (dget precondition ''queue_issue''))) (\<lambda>queue.
       if vf_proof unique \<noteq> Present \<or> queue \<le> 0 then io_return unique
       else
         io_then (pages gb (repo_path repo (''issues/'' @ int_text queue @ ''/sub_issues?per_page=100''))) (\<lambda>children.
         io_then (io_check (int_or_zero (dget (hd hits) ''number''))) (\<lambda>number.
         io_then (io_check (mapE (\<lambda>c. int_or_zero (dget c ''number'')) (takeWhile (\<lambda>c. int_or_zero (dget c ''number'') \<noteq> Inr number) children)))
           (\<lambda>others.
           io_return (present_if (length others < length children) [(''number'', JInt number), (''queue_issue'', JInt queue)]))))))"

definition verify_managed :: "'g github \<Rightarrow> string \<Rightarrow> string \<Rightarrow> repository \<Rightarrow> string \<Rightarrow> (string \<times> json) list \<Rightarrow> ('g, verification) io" where
  "verify_managed gb operation alias repo marker precondition =
     io_then (io_check (int_or_zero (dget precondition ''issue''))) (\<lambda>number.
     if number \<le> 0 then io_return (not_proved Conflict ''reconciliation issue is absent'')
     else
       io_then (get_api gb (repo_path repo (''issues/'' @ int_text number))) (\<lambda>issue.
       if \<not> is_object issue then io_return (not_proved Unknown ''reconciliation issue read is incomplete'')
       else if \<not> body_has marker (entries_of issue) then io_return (not_proved Conflict ''managed source marker is absent'')
       else if operation = ''close'' then
         io_return (present_if (dget (entries_of issue) ''state'' = JStr ''closed'')
           [(''number'', JInt number), (''state'', dget (entries_of issue) ''state'')])
       else if operation = ''move'' then
         io_then (stage_of gb [(''repository'', JStr alias), (''issue'', JInt number)]) (\<lambda>stage.
           io_return (present_if (stage = dget precondition ''to'') [(''number'', JInt number), (''stage'', stage)]))
       else io_return (not_proved Unknown ''unsupported reconciliation operation'')))"

definition verify_reconcile :: "'g github \<Rightarrow> string \<Rightarrow> string \<Rightarrow> (string \<times> json) list \<Rightarrow> ('g, verification) io" where
  "verify_reconcile gb operation source_key precondition =
     (let alias = str_or_empty (dget precondition ''repository'') in
      case map_of (op_repositories (gb_policy gb)) alias of
        None \<Rightarrow> io_return (not_proved Conflict ''reconciliation repository is absent'')
      | Some repo \<Rightarrow>
          io_then (io_check (source_marker source_key)) (\<lambda>marker.
            io_catch (if operation = ''create'' then verify_attached gb repo marker precondition
                      else verify_managed gb operation alias repo marker precondition)
              (unknown_on reconcile_read_failure)))"

section \<open>Settling what is pending\<close>

definition on_db :: "'a op \<Rightarrow> (db \<times> 'g, 'a) io" where
  "on_db m s = (case m (fst s) of (r, d) \<Rightarrow> Some (r, (d, snd s)))"

definition on_remote :: "('g, 'a) io \<Rightarrow> (db \<times> 'g, 'a) io" where
  "on_remote m s = map_option (\<lambda>(r, g). (r, (fst s, g))) (m (snd s))"

definition proof_text :: "proof_kind \<Rightarrow> string" where
  "proof_text p = (case p of Present \<Rightarrow> ''present'' | Absent \<Rightarrow> ''absent'' | Conflict \<Rightarrow> ''conflict'' | Unknown \<Rightarrow> ''unknown'')"

text \<open>\<open>result.result or {"verified": True}\<close>\<close>

definition result_or :: "verification \<Rightarrow> json" where
  "result_or v = (case vf_result v of Some r \<Rightarrow> py_or r (JObj [(''verified'', JBool True)]) | None \<Rightarrow> JObj [(''verified'', JBool True)])"

definition proved_absent :: "verification \<Rightarrow> json" where
  "proved_absent v =
     JStr (case vf_detail v of
        Some (c # cs) \<Rightarrow> c # cs
      | _ \<Rightarrow> ''remote effect proved '' @ proof_text (vf_proof v) @ ''; use a new request'')"

definition settle_request :: "instant \<Rightarrow> string \<Rightarrow> verification \<Rightarrow> unit op" where
  "settle_request now key v =
     (case vf_proof v of
        Present \<Rightarrow> finish_request now key ''succeeded'' (reply ''ok'' [(''result'', result_or v)])
      | Unknown \<Rightarrow> returning ()
      | _ \<Rightarrow> finish_request now key ''failed'' (reply ''denied'' [(''error'', proved_absent v)]))"

definition stored_json :: "'g github \<Rightarrow> string \<Rightarrow> json result" where
  "stored_json gb text =
     (case gb_limits gb text of
        Some e \<Rightarrow> Inl e
      | None \<Rightarrow> (case loads (gb_float gb) text of Some v \<Rightarrow> Inr v | None \<Rightarrow> Inl (ValueError ''Expecting value'')))"

text \<open>\<open>arguments["_role"] = role\<close>\<close>

definition with_role :: "json \<Rightarrow> json \<Rightarrow> (string \<times> json) list result" where
  "with_role arguments role =
     (case arguments of
        JObj kvs \<Rightarrow> Inr ((''_role'', role) # kvs)
      | JList _ \<Rightarrow> Inl (TypeError ''list indices must be integers or slices, not str'')
      | v \<Rightarrow> Inl (TypeError (apostrophe @ type_name v @ apostrophe @ '' object does not support item assignment'')))"

definition bound_role :: "string \<Rightarrow> db \<Rightarrow> json result" where
  "bound_role session_id d =
     (case find (\<lambda>r. ws_session_id r = session_id) (wake_sessions d) of
        None \<Rightarrow> Inl (TypeError (apostrophe @ ''NoneType'' @ apostrophe @ '' object is not subscriptable''))
      | Some r \<Rightarrow> Inr (JStr (ws_role r)))"

definition resolve_request :: "'g github \<Rightarrow> (string \<Rightarrow> instant) \<Rightarrow> broker_request \<Rightarrow> (db \<times> 'g, proof_kind) io" where
  "resolve_request gb clk row =
     io_then (io_check (stored_json gb (br_arguments_json row))) (\<lambda>stored.
     io_then (on_db (\<lambda>d. (bound_role (br_session_id row) d, d))) (\<lambda>role.
     io_then (io_check (with_role stored role)) (\<lambda>arguments.
     io_then (on_remote (verify_broker gb (br_operation row) arguments (br_idempotency_key row))) (\<lambda>v.
     io_then (on_db (settle_request (clk (br_idempotency_key row)) (br_idempotency_key row) v)) (\<lambda>_.
       io_return (vf_proof v))))))"

definition settle_reconcile :: "instant \<Rightarrow> string \<Rightarrow> verification \<Rightarrow> unit op" where
  "settle_reconcile now operation_id v =
     (case vf_proof v of
        Present \<Rightarrow> finish_reconcile now operation_id ''succeeded'' (Some (result_or v))
      | Unknown \<Rightarrow> returning ()
      | _ \<Rightarrow> finish_reconcile now operation_id ''dead_letter''
          (Some (JObj [(''proof'', JStr (proof_text (vf_proof v))),
             (''detail'', case vf_detail v of None \<Rightarrow> JNull | Some t \<Rightarrow> JStr t)])))"

text \<open>The precondition of a reconciliation is only used with \<open>get\<close>.\<close>

definition stored_entries :: "json \<Rightarrow> (string \<times> json) list result" where
  "stored_entries v = bindE (member v ''repository'') (\<lambda>_. Inr (entries_of v))"

definition resolve_reconcile :: "'g github \<Rightarrow> (string \<Rightarrow> instant) \<Rightarrow> reconcile_operation \<Rightarrow> (db \<times> 'g, proof_kind) io" where
  "resolve_reconcile gb clk row =
     io_then (io_check (bindE (stored_json gb (rc_precondition_json row)) stored_entries)) (\<lambda>precondition.
     io_then (on_remote (verify_reconcile gb (rc_operation row) (rc_source_key row) precondition)) (\<lambda>v.
     io_then (on_db (settle_reconcile (clk (rc_operation_id row)) (rc_operation_id row) v)) (\<lambda>_.
       io_return (vf_proof v))))"

definition resolve_pending :: "'g github \<Rightarrow> (string \<Rightarrow> instant) \<Rightarrow> (db \<times> 'g, proof_kind \<Rightarrow> nat) io" where
  "resolve_pending gb clk =
     io_then (on_db (\<lambda>d. (Inr (pending_broker_verifications d), d))) (\<lambda>requests.
     io_then (io_each (resolve_request gb clk) requests) (\<lambda>ps.
     io_then (on_db (\<lambda>d. (Inr (pending_reconciliations d), d))) (\<lambda>operations.
     io_then (io_each (resolve_reconcile gb clk) operations) (\<lambda>qs.
       io_return (\<lambda>p. length (filter (\<lambda>q. q = p) (ps @ qs)))))))"

end
