(* ===== verification/Github_Calls.thy ===== *)
theory Github_Calls
  imports Verification
begin

text \<open>
  The calls of the \<^verbatim>\<open>gh\<close> command that the backend and the verifier can make. \<open>reading_call\<close> and \<open>writing_call\<close> are closed
  lists of argument vectors and inputs; the locales \<open>gh_reads\<close> and \<open>gh_writes\<close> are the contract between the command and its
  client: a relation that every listed call respects, and their lemmas lift it to the operations. \<open>recording\<close> is the backend over a
  command that writes down its calls.
\<close>

section \<open>The closed lists of calls\<close>

definition policy_repositories :: "organization_policy \<Rightarrow> repository set" where
  "policy_repositories policy = snd ` set (op_repositories policy)"

inductive reading_call :: "organization_policy \<Rightarrow> string list \<Rightarrow> string option \<Rightarrow> bool" for policy where
  listing: "repo \<in> policy_repositories policy \<Longrightarrow>
    reading_call policy [''api'', repo_path repo rest, ''--paginate'', ''--slurp''] None"
| getting: "repo \<in> policy_repositories policy \<Longrightarrow>
    reading_call policy [''api'', ''-X'', ''GET'', repo_path repo rest] None"
| asking: "query \<in> {project_query, stage_query, item_query} \<Longrightarrow>
    reading_call policy [''api'', ''-X'', ''POST'', ''graphql'', ''--input'', ''-'']
      (Some (dumps_default (JObj [(''query'', JStr query), (''variables'', JObj variables)])))"

text \<open>A body under the key \<open>body\<close> that carries the marker of the request.\<close>

definition marked :: "string \<Rightarrow> (string \<times> json) list \<Rightarrow> bool" where
  "marked key kvs \<longleftrightarrow> contains (idempotency_marker key) (str_or_empty (dget kvs ''body''))"

text \<open>The calls that write for a request with this key of a session in this role. The new items, comments, reviews,
  pull requests and commits carry the key. The other writes do not: they attach a child, upload a blob, make a tree, make a branch of
  the role or move one forward without force, set the labels and the body of an item, close an item, or set the title and the body of a
  pull request.\<close>

inductive marked_write :: "string \<Rightarrow> string \<Rightarrow> string \<Rightarrow> (string \<times> json) list \<Rightarrow> bool" for role key where
  new_item: "marked key kvs \<Longrightarrow> marked_write role key ''issues'' kvs"
| new_comment: "marked key kvs \<Longrightarrow> marked_write role key (''issues/'' @ int_text n @ ''/comments'') kvs"
| new_review: "marked key kvs \<Longrightarrow> marked_write role key (''pulls/'' @ int_text n @ ''/reviews'') kvs"
| new_pull: "marked key kvs \<Longrightarrow> dget kvs ''head'' = JStr (branch_of role topic) \<Longrightarrow> marked_write role key ''pulls'' kvs"
| new_commit: "contains (''SJG-Idempotency: '' @ key) message \<Longrightarrow>
    marked_write role key ''git/commits'' [(''message'', JStr message), (''tree'', tree), (''parents'', JList [JStr parent])]"

inductive plain_write :: "string \<Rightarrow> string \<Rightarrow> string \<Rightarrow> (string \<times> json) list \<Rightarrow> bool" for role where
  new_child: "plain_write role ''POST'' (''issues/'' @ int_text n @ ''/sub_issues'') [(''sub_issue_id'', child)]"
| new_blob: "plain_write role ''POST'' ''git/blobs'' [(''content'', content), (''encoding'', JStr ''base64'')]"
| new_tree: "plain_write role ''POST'' ''git/trees'' [(''base_tree'', base), (''tree'', entries)]"
| new_branch: "plain_write role ''POST'' ''git/refs'' [(''ref'', JStr (''refs/heads/'' @ branch_of role topic)), (''sha'', sha)]"
| move_branch: "plain_write role ''PATCH'' (''git/refs/heads/'' @ branch_of role topic) [(''sha'', sha), (''force'', JBool False)]"
| route_item: "plain_write role ''PATCH'' (''issues/'' @ int_text n) [(''labels'', labels), (''body'', body)]"
| close_item: "plain_write role ''PATCH'' (''issues/'' @ int_text n) [(''state'', JStr ''closed''), (''state_reason'', reason)]"
| edit_pull: "fst ` set kvs \<subseteq> {''title'', ''body''} \<Longrightarrow> plain_write role ''PATCH'' (''pulls/'' @ int_text n) kvs"

inductive remote_write :: "string \<Rightarrow> string \<Rightarrow> string \<Rightarrow> string \<Rightarrow> (string \<times> json) list \<Rightarrow> bool" for role key where
  with_key: "marked_write role key rest kvs \<Longrightarrow> remote_write role key ''POST'' rest kvs"
| without_key: "plain_write role request_method rest kvs \<Longrightarrow> remote_write role key request_method rest kvs"

inductive writing_call :: "organization_policy \<Rightarrow> string \<Rightarrow> string \<Rightarrow> string list \<Rightarrow> string option \<Rightarrow> bool" for policy role key where
  writing: "repo \<in> policy_repositories policy \<Longrightarrow> remote_write role key request_method rest kvs \<Longrightarrow>
    writing_call policy role key [''api'', ''-X'', request_method, repo_path repo rest, ''--input'', ''-''] (Some (dumps_default (JObj kvs)))"
| moving: "query \<in> {add_mutation, move_mutation} \<Longrightarrow>
    writing_call policy role key [''api'', ''-X'', ''POST'', ''graphql'', ''--input'', ''-'']
      (Some (dumps_default (JObj [(''query'', JStr query), (''variables'', JObj variables)])))"

section \<open>Operations within a relation\<close>

text \<open>Wherever the operation gives a result, it moved the state along \<open>R\<close>; \<open>N\<close> tells whether it may give none.\<close>

definition io_within :: "bool \<Rightarrow> ('g \<Rightarrow> 'g \<Rightarrow> bool) \<Rightarrow> ('g, 'a) io \<Rightarrow> bool" where
  "io_within N R m \<longleftrightarrow> (\<forall>g. case m g of None \<Rightarrow> N | Some (r, g') \<Rightarrow> R g g')"

lemma io_withinI: "(\<And>g. m g = None \<Longrightarrow> N) \<Longrightarrow> (\<And>g r g'. m g = Some (r, g') \<Longrightarrow> R g g') \<Longrightarrow> io_within N R m"
  by (auto simp: io_within_def split: option.split)

lemma io_withinD: "io_within N R m \<Longrightarrow> m g = Some (r, g') \<Longrightarrow> R g g'" "io_within N R m \<Longrightarrow> m g = None \<Longrightarrow> N"
  by (auto simp: io_within_def dest!: spec [of _ g])

lemma io_within_if: "(b \<Longrightarrow> io_within N R m) \<Longrightarrow> (\<not> b \<Longrightarrow> io_within N R n) \<Longrightarrow> io_within N R (if b then m else n)"
  by simp

lemma io_within_option:
  "(x = None \<Longrightarrow> io_within N R m) \<Longrightarrow> (\<And>y. x = Some y \<Longrightarrow> io_within N R (f y)) \<Longrightarrow> io_within N R (case x of None \<Rightarrow> m | Some y \<Rightarrow> f y)"
  by (cases x) simp_all

lemma io_within_prod: "(\<And>a b. p = (a, b) \<Longrightarrow> io_within N R (f a b)) \<Longrightarrow> io_within N R (case p of (a, b) \<Rightarrow> f a b)"
  by (cases p) simp

lemma io_within_list:
  "(xs = [] \<Longrightarrow> io_within N R m) \<Longrightarrow> (\<And>y ys. xs = y # ys \<Longrightarrow> io_within N R (f y ys)) \<Longrightarrow> io_within N R (case xs of [] \<Rightarrow> m | y # ys \<Rightarrow> f y ys)"
  by (cases xs) simp_all

lemma io_within_catch: "io_within N R m \<Longrightarrow> io_within N R (io_catch m h)"
  by (rule io_withinI) (auto simp: io_catch_def dest: io_withinD)

text \<open>An operation that every relation of the kind is about: sequences and the state.\<close>

lemma io_within_seq:
  assumes "\<And>g h k. R g h \<Longrightarrow> R h k \<Longrightarrow> R g k" and "io_within N R m" and "\<And>x. io_within N R (f x)"
  shows "io_within N R (io_then m f)"
  by (rule io_withinI) (auto simp: io_then_def split: option.splits sum.splits
    dest: io_withinD(2) [OF assms(2)] io_withinD(2) [OF assms(3)] io_withinD(1) [OF assms(2)]
    intro: assms(1) [OF io_withinD(1) [OF assms(2)] io_withinD(1) [OF assms(3)]])

lemma io_check_then [simp]: "io_then (io_check (Inr x)) f = f x" "io_then (io_check (Inl e)) f = io_check (Inl e)"
  by (auto simp: io_then_def io_check_def)

lemma io_within_check: "(\<And>g. R g g) \<Longrightarrow> io_within N R (io_check r)"
  by (simp add: io_within_def io_check_def)

lemma io_within_checked:
  "(\<And>g. R g g) \<Longrightarrow> (\<And>x. r = Inr x \<Longrightarrow> io_within N R (f x)) \<Longrightarrow> io_within N R (io_then (io_check r) f)"
  by (cases r) (simp_all add: io_within_check)

section \<open>The contract for reading\<close>

locale gh_reads =
  fixes N :: bool and R :: "'g \<Rightarrow> 'g \<Rightarrow> bool" and gb :: "'g github"
  assumes stays: "R g g"
    and follows: "R g h \<Longrightarrow> R h k \<Longrightarrow> R g k"
    and reading: "reading_call (gb_policy gb) argv stdin \<Longrightarrow> io_within N R (gb_call gb argv stdin)"
    and scanning_stage: "io_within N R (scan_connection gb stage_query message variables (stage_pick p) (gb_fuel gb) JNull)"
    and scanning_item: "io_within N R (scan_connection gb item_query message variables (item_pick p) (gb_fuel gb) JNull)"
begin

lemma within_check: "io_within N R (io_check r)"
  by (rule io_within_check [OF stays])

lemma within_then: "io_within N R m \<Longrightarrow> (\<And>x. io_within N R (f x)) \<Longrightarrow> io_within N R (io_then m f)"
  by (rule io_within_seq [OF follows])

lemma within_checked: "(\<And>x. r = Inr x \<Longrightarrow> io_within N R (f x)) \<Longrightarrow> io_within N R (io_then (io_check r) f)"
  by (rule io_within_checked [OF stays])

lemmas within_intros = io_within_if io_within_option io_within_prod io_within_list io_within_catch within_checked within_then within_check

lemma within_each: "(\<And>x. io_within N R (f x)) \<Longrightarrow> io_within N R (io_each f xs)"
  by (induction xs) (auto intro!: within_intros)

lemma within_run: "io_within N R (gb_call gb argv stdin) \<Longrightarrow> io_within N R (gh_run gb argv stdin)"
  unfolding gh_run_def by (intro within_intros)

lemma within_pages: "repo \<in> policy_repositories (gb_policy gb) \<Longrightarrow> io_within N R (pages gb (repo_path repo rest))"
  unfolding pages_def by (intro within_intros within_run reading reading_call.intros)

lemma within_get: "repo \<in> policy_repositories (gb_policy gb) \<Longrightarrow> io_within N R (get_api gb (repo_path repo rest))"
  unfolding api_def by (intro within_intros) (simp add: within_run reading reading_call.intros)

lemma within_query: "query \<in> {project_query, stage_query, item_query} \<Longrightarrow> io_within N R (graphql gb query variables)"
  unfolding api_def graphql_def
  by (intro within_intros) (simp add: within_run reading reading_call.intros del: dumps_default.simps insert_iff)

lemma repo_of_mem: "repo_of gb arguments = Inr repo \<Longrightarrow> repo \<in> policy_repositories (gb_policy gb)"
  by (force simp: repo_of_def policy_repository_def policy_repositories_def split: option.splits dest: map_of_SomeD)

lemma policy_repository_mem: "policy_repository (gb_policy gb) alias = Inr repo \<Longrightarrow> repo \<in> policy_repositories (gb_policy gb)"
  by (force simp: policy_repository_def policy_repositories_def split: option.splits dest: map_of_SomeD)

lemmas within_reads = within_intros within_pages within_get

lemma within_issue: "io_within N R (issue_of gb arguments)"
  unfolding issue_of_def by (intro within_reads repo_of_mem)

lemma within_children: "io_within N R (children_of gb arguments)"
  unfolding children_of_def by (intro within_reads within_issue repo_of_mem)

lemma within_project: "io_within N R (project_metadata gb)"
  unfolding project_metadata_def by (intro within_reads within_query) simp_all

lemma within_stage: "io_within N R (stage_of gb arguments)"
  unfolding stage_of_def by (intro within_reads within_project scanning_stage)

lemma within_item_id: "io_within N R (project_item_id gb arguments p)"
  unfolding project_item_id_def by (intro within_reads scanning_item)

lemma within_evidence: "io_within N R (evidence_of gb issue arguments)"
proof -
  have "io_within N R (get_api gb (''repos/'' @ repo_slug repo @ ''/pulls/'' @ int_text n))"
    if "repo \<in> policy_repositories (gb_policy gb)" for repo n
    using within_get [OF that, of "''pulls/'' @ int_text n"] by (simp add: repo_path_def)
  then show ?thesis
    unfolding evidence_of_def Let_def by (intro within_reads) (auto intro!: within_reads dest: policy_repository_mem)
qed

lemma within_facts: "io_within N R (github_facts gb operation arguments)"
  unfolding github_facts_def create_facts_def issue_facts_def pull_facts_def
  by (intro within_reads within_issue within_children within_stage within_evidence repo_of_mem)

text \<open>The verifier and the reading operations.\<close>

lemmas within_verifying = within_reads within_issue within_children within_stage

lemma within_verify_operation:
  "repo \<in> policy_repositories (gb_policy gb) \<Longrightarrow> io_within N R (verify_operation gb operation arguments key repo)"
  unfolding verify_operation_def verify_created_def verify_comment_def verify_route_def verify_move_def verify_closed_def
    verify_pull_created_def verify_pull_updated_def verify_review_def verify_submission_def comments_of_def Let_def
  by (intro within_verifying)

lemma within_verify_broker: "io_within N R (verify_broker gb operation arguments key)"
  unfolding verify_broker_def by (intro within_reads within_verify_operation repo_of_mem)

lemma within_verify_attached:
  "repo \<in> policy_repositories (gb_policy gb) \<Longrightarrow> io_within N R (verify_attached gb repo marker precondition)"
  unfolding verify_attached_def Let_def by (intro within_verifying)

lemma within_verify_managed:
  "repo \<in> policy_repositories (gb_policy gb) \<Longrightarrow> io_within N R (verify_managed gb operation name repo marker precondition)"
  unfolding verify_managed_def by (intro within_verifying)

lemma alias_mem: "map_of (op_repositories (gb_policy gb)) name = Some repo \<Longrightarrow> repo \<in> policy_repositories (gb_policy gb)"
  by (force simp: policy_repositories_def dest: map_of_SomeD)

lemma within_verify_reconcile: "io_within N R (verify_reconcile gb operation source_key precondition)"
  unfolding verify_reconcile_def Let_def by (intro within_intros within_verify_attached within_verify_managed alias_mem)

lemma within_read_operation:
  "repo \<in> policy_repositories (gb_policy gb) \<Longrightarrow> io_within N R (read_operation gb operation arguments role repo)"
  unfolding read_operation_def read_pages_def by (intro within_verifying)

end

section \<open>The contract for writing\<close>

lemma contains_front: "contains p (p @ s)"
  unfolding contains_iff by (metis append_Nil)

lemma contains_idempotent_body: "contains (idempotency_marker key) (idempotent_body body key)"
  by (simp add: idempotent_body_def contains_front)

locale gh_writes = gh_reads +
  fixes role key :: string
  assumes writing: "writing_call (gb_policy gb) role key argv stdin \<Longrightarrow> io_within N R (gb_call gb argv stdin)"
begin

lemma within_write:
  assumes "repo \<in> policy_repositories (gb_policy gb)" and "remote_write role key request_method rest kvs"
  shows "io_within N R (api gb (repo_path repo rest) request_method (Some kvs))"
  unfolding api_def using within_run [OF writing [OF writing_call.writing [OF assms]]]
  by (intro within_intros) (simp del: dumps_default.simps)

lemma within_mutation: "query \<in> {add_mutation, move_mutation} \<Longrightarrow> io_within N R (graphql gb query variables)"
  unfolding api_def graphql_def using within_run [OF writing [OF writing_call.moving]]
  by (intro within_intros) (simp del: dumps_default.simps insert_iff)

lemma within_project_item: "io_within N R (project_item gb arguments p)"
  unfolding project_item_def by (intro within_verifying within_item_id within_mutation) simp_all

lemma within_move: "io_within N R (move_item gb arguments stage)"
  unfolding move_item_def by (intro within_verifying within_project within_project_item within_mutation) simp

lemma within_move_if: "io_within N R (move_if_project gb arguments stage)"
  unfolding move_if_project_def by (intro within_intros within_move)

lemma within_comment:
  "repo \<in> policy_repositories (gb_policy gb) \<Longrightarrow> contains (idempotency_marker key) body \<Longrightarrow> io_within N R (comment_on gb repo n body)"
  unfolding comment_on_def
  by (intro within_write marked_write.new_comment [THEN remote_write.with_key]) (simp_all add: marked_def dget_def)

lemmas within_writing = within_verifying within_write within_comment within_move within_move_if

lemma within_tree_entry: "repo \<in> policy_repositories (gb_policy gb) \<Longrightarrow> io_within N R (tree_entry gb repo change)"
  unfolding tree_entry_def by (intro within_writing plain_write.new_blob [THEN remote_write.without_key])

lemma within_branch_base: "repo \<in> policy_repositories (gb_policy gb) \<Longrightarrow> io_within N R (branch_base gb repo branch)"
  unfolding branch_base_def by (intro within_reads)

lemma contains_trailer: "contains (''SJG-Idempotency: '' @ key) (s @ nl @ nl @ ''SJG-Idempotency: '' @ key)"
  unfolding contains_iff by (metis append.assoc append_Nil2)

lemma within_submit: "io_within N R (submit gb arguments role key)"
  unfolding submit_def Let_def
  by (intro within_writing within_each within_tree_entry within_branch_base repo_of_mem contains_trailer
      plain_write.new_tree [THEN remote_write.without_key] marked_write.new_commit [THEN remote_write.with_key] plain_write.new_branch [THEN remote_write.without_key] plain_write.move_branch [THEN remote_write.without_key])

lemma marked_body [simp]: "dget kvs ''body'' = JStr (idempotent_body body key) \<Longrightarrow> marked key kvs"
  by (simp add: marked_def contains_idempotent_body)

lemma within_create_issue: "repo \<in> policy_repositories (gb_policy gb) \<Longrightarrow> io_within N R (create_issue gb arguments role key repo)"
  unfolding create_issue_def Let_def
  by (intro within_writing marked_write.new_item [THEN remote_write.with_key] plain_write.new_child [THEN remote_write.without_key] marked_body) (simp_all add: dget_def)

lemma within_route_issue: "repo \<in> policy_repositories (gb_policy gb) \<Longrightarrow> io_within N R (route_issue gb arguments repo)"
  unfolding route_issue_def Let_def by (intro within_writing plain_write.route_item [THEN remote_write.without_key])

lemma within_close_issue:
  "repo \<in> policy_repositories (gb_policy gb) \<Longrightarrow> contains (idempotency_marker key) comment
    \<Longrightarrow> io_within N R (close_issue gb arguments repo comment stage reason)"
  unfolding close_issue_def by (intro within_writing plain_write.close_item [THEN remote_write.without_key])

lemma within_issue_operation:
  "repo \<in> policy_repositories (gb_policy gb) \<Longrightarrow> io_within N R (issue_operation gb operation arguments role key repo)"
  unfolding issue_operation_def
  by (intro within_writing within_create_issue within_route_issue within_close_issue contains_idempotent_body)
    (simp_all add: contains_front)

lemma within_create_pull: "repo \<in> policy_repositories (gb_policy gb) \<Longrightarrow> io_within N R (create_pull gb arguments role key repo)"
  unfolding create_pull_def Let_def
  by (intro within_writing marked_write.new_pull [THEN remote_write.with_key] marked_body) (simp_all add: dget_def)

lemma within_pull_operation:
  "repo \<in> policy_repositories (gb_policy gb) \<Longrightarrow> io_within N R (pull_operation gb operation arguments role key repo)"
  unfolding pull_operation_def
  by (intro within_writing within_create_pull contains_idempotent_body plain_write.edit_pull [THEN remote_write.without_key] marked_write.new_review [THEN remote_write.with_key] marked_body)
    (auto simp: dget_def)

lemma within_execute:
  assumes "sn_role sn = role"
  shows "io_within N R (github_execute gb operation arguments sn key)"
  unfolding github_execute_def assms
  by (intro within_intros within_read_operation within_issue_operation within_pull_operation within_submit repo_of_mem)

end

section \<open>A recorded command\<close>

type_synonym call = "string list \<times> string option"

definition recording :: "'g github \<Rightarrow> ('g \<times> call list) github" where
  "recording gb = \<lparr>gb_policy = gb_policy gb, gb_project = gb_project gb,
     gb_call = (\<lambda>argv stdin (g, log). map_option (\<lambda>(r, g'). (r, (g', log @ [(argv, stdin)]))) (gb_call gb argv stdin g)),
     gb_sha = gb_sha gb, gb_limits = gb_limits gb, gb_float = gb_float gb, gb_fuel = gb_fuel gb\<rparr>"

definition calls_made :: "('g \<times> call list, 'a) io \<Rightarrow> 'g \<Rightarrow> call list" where
  "calls_made m g = (case m (g, []) of None \<Rightarrow> [] | Some (_, _, log) \<Rightarrow> log)"

definition records :: "(string list \<Rightarrow> string option \<Rightarrow> bool) \<Rightarrow> 'g \<times> call list \<Rightarrow> 'g \<times> call list \<Rightarrow> bool" where
  "records P s s' \<longleftrightarrow> (\<exists>new. snd s' = snd s @ new \<and> list_all (\<lambda>(argv, stdin). P argv stdin) new)"

lemma records_refl: "records P s s"
  by (auto simp: records_def)

lemma records_trans: "records P s t \<Longrightarrow> records P t u \<Longrightarrow> records P s u"
  by (auto simp: records_def)

lemma records_call: "P argv stdin \<Longrightarrow> io_within True (records P) (gb_call (recording gb) argv stdin)"
  by (rule io_withinI) (auto simp: recording_def records_def)

lemma gb_policy_recorded [simp]: "gb_policy (recording gb) = gb_policy gb"
  by (simp add: recording_def)

lemma calls_made_within: "io_within True (records P) m \<Longrightarrow> list_all (\<lambda>(argv, stdin). P argv stdin) (calls_made m g)"
  by (auto simp: calls_made_def records_def dest: io_withinD split: option.split)

text \<open>Any relation of calls that contains the query is kept by the loop over the pages.\<close>

lemma within_scan:
  assumes "\<And>g. R g g"
  assumes "\<And>g h k. R g h \<Longrightarrow> R h k \<Longrightarrow> R g k" and "\<And>kvs. io_within True R (graphql gb query kvs)"
  shows "io_within True R (scan_connection gb query message variables pick fuel cursor)"
proof (induction fuel arbitrary: cursor)
  case (Suc fuel)
  then show ?case
    unfolding scan_connection.simps
    by (intro io_within_seq [OF assms(2)] assms(3) io_within_checked io_within_check assms(1) io_within_prod io_within_option)
qed (simp add: io_within_def)

lemma records_query:
  assumes "\<And>argv stdin. reading_call (gb_policy gb) argv stdin \<Longrightarrow> P argv stdin" and "query \<in> {project_query, stage_query, item_query}"
  shows "io_within True (records P) (graphql (recording gb) query kvs)"
proof -
  have "io_within True (records P) (gb_call (recording gb) [''api'', ''-X'', ''POST'', ''graphql'', ''--input'', ''-'']
      (Some (dumps_default (JObj [(''query'', JStr query), (''variables'', JObj kvs)]))))"
    using assms by (intro records_call) (blast intro: reading_call.asking)
  then show ?thesis
    unfolding graphql_def api_def gh_run_def
    by (intro io_within_seq [OF records_trans] io_within_if io_within_check records_refl) (simp_all del: dumps_default.simps)
qed

interpretation recorded_reads: gh_reads True "records (reading_call (gb_policy gb))" "recording gb" for gb
  by unfold_locales (auto intro: records_refl records_trans records_call within_scan records_query)

interpretation recorded_writes: gh_writes True "records (\<lambda>argv stdin. reading_call (gb_policy gb) argv stdin
    \<or> writing_call (gb_policy gb) role key argv stdin)" "recording gb" role key for gb role key
  by unfold_locales (auto intro: records_refl records_trans records_call within_scan records_query)

end
