(* ===== verification/Github_Rules.thy ===== *)
theory Github_Rules
  imports Github_Calls
begin

text \<open>
  What holds of the GitHub backend: which calls it makes, that its operations return, and that the owner it writes on an item is the
  owner that it reads.
\<close>

section \<open>Calls\<close>

text \<open>C27: Whatever an operation is asked to do with whatever arguments, every call of the command is a read of a repository of the
  policy or of the Project board, a listed mutation of the Project board, or one of the closed list of writes in a repository of the
  policy. Of these, every call that makes an item, a comment, a review, a pull request or a commit carries the idempotency key of the
  request; a branch that is made, moved or proposed is one of the session's own role, and moves without force; the remaining writes
  (a child, a blob, a tree, a branch, the edits of an item and of a pull request) carry no key and set the listed fields only.\<close>

theorem writes_are_sealed:
  "list_all (\<lambda>(argv, stdin). reading_call (gb_policy gb) argv stdin \<or> writing_call (gb_policy gb) (sn_role sn) key argv stdin)
     (calls_made (github_execute (recording gb) operation arguments sn key) g)"
  by (rule calls_made_within, rule recorded_writes.within_execute) simp

definition reading_operations :: "string list" where
  "reading_operations = [''read.issue.get'', ''read.issue.children'', ''read.issue.comments'', ''read.issue.list'', ''read.pr.list'',
     ''read.pr.get'', ''read.pr.files'', ''read.pr.checks'', ''read.workflow.runs'', ''repo.status'']"

lemma reading_operations_read:
  assumes "operation \<in> set reading_operations"
  shows "io_within True (records (reading_call (gb_policy gb))) (github_execute (recording gb) operation arguments sn key)"
proof (cases "operation = ''repo.status''")
  case True
  then show ?thesis
    unfolding github_execute_def by (simp add: recorded_reads.within_checked recorded_reads.within_check)
next
  case False
  with assms have "operation \<in> {''read.issue.get'', ''read.issue.children'', ''read.issue.comments'', ''read.issue.list'', ''read.pr.list'',
      ''read.pr.get'', ''read.pr.files'', ''read.pr.checks'', ''read.workflow.runs''}"
    by (simp add: reading_operations_def)
  then have "github_execute (recording gb) operation arguments sn key
      = io_then (io_check (repo_of (recording gb) arguments)) (read_operation (recording gb) operation arguments (sn_role sn))"
    unfolding github_execute_def by (simp only: if_True)
  then show ?thesis
    by (simp only:) (intro recorded_reads.within_checked recorded_reads.within_read_operation recorded_reads.repo_of_mem)
qed

text \<open>C28: The facts of an operation, the verification of a request, the verification of a reconciliation and the reading operations
  make no call that writes: each call is a read of a repository of the policy or of the Project board.\<close>

theorem reads_never_write:
  "list_all (\<lambda>(argv, stdin). reading_call (gb_policy gb) argv stdin) (calls_made (github_facts (recording gb) operation arguments) g)
   \<and> list_all (\<lambda>(argv, stdin). reading_call (gb_policy gb) argv stdin) (calls_made (verify_broker (recording gb) operation arguments key) g)
   \<and> list_all (\<lambda>(argv, stdin). reading_call (gb_policy gb) argv stdin)
       (calls_made (verify_reconcile (recording gb) action source_key precondition) g)
   \<and> list_all (\<lambda>reading. list_all (\<lambda>(argv, stdin). reading_call (gb_policy gb) argv stdin)
         (calls_made (github_execute (recording gb) reading arguments sn key) g)) reading_operations"
proof -
  have "list_all (\<lambda>(argv, stdin). reading_call (gb_policy gb) argv stdin) (calls_made (github_execute (recording gb) reading arguments sn key) g)"
    if "reading \<in> set reading_operations" for reading
    by (rule calls_made_within [OF reading_operations_read [OF that]])
  then show ?thesis
    by (simp add: list_all_iff [of _ reading_operations] calls_made_within recorded_reads.within_facts recorded_reads.within_verify_broker
        recorded_reads.within_verify_reconcile)
qed

section \<open>Termination\<close>

text \<open>The cursor of the next page that a reply to a query of the board names.\<close>

definition next_cursor :: "json \<Rightarrow> json option" where
  "next_cursor data =
     (case dig data [''data'', ''repository'', ''issue'', ''projectItems'', ''pageInfo''] of
        Inl e \<Rightarrow> None
      | Inr page \<Rightarrow>
          (case (dig page [''hasNextPage''], dig page [''endCursor'']) of
             (Inr goes_on, Inr c) \<Rightarrow> if truthy goes_on then Some c else None
           | _ \<Rightarrow> None))"

lemma dig_append: "dig v (ks @ ls) = bindE (dig v ks) (\<lambda>w. dig w ls)"
  by (induction ks arbitrary: v) (simp_all add: bindE_def split: sum.splits)

lemma connection_next: "connection_step message pick data = Inr (x, Some c) \<Longrightarrow> next_cursor data = Some c"
proof -
  assume "connection_step message pick data = Inr (x, Some c)"
  then obtain connection page more where "dig data [''data'', ''repository'', ''issue'', ''projectItems''] = Inr connection"
    and "dig connection [''pageInfo''] = Inr page" and "dig page [''hasNextPage''] = Inr more" and "truthy more"
    and "dig page [''endCursor''] = Inr c"
    by (auto simp: connection_step_def bindE_eq_Inr split: option.splits if_splits)
  then show ?thesis
    using dig_append [of data "[''data'', ''repository'', ''issue'', ''projectItems'']" "[''pageInfo'']"]
    by (simp add: next_cursor_def del: dig.simps)
qed

text \<open>The loop over the pages ends when every next cursor that the board names is nearer to the end of its connection than the
  cursor it was asked with.\<close>

lemma scan_returns:
  fixes rank :: "json \<Rightarrow> nat"
  assumes "\<And>kvs g. graphql gb query kvs g \<noteq> None"
    and "\<And>c g data g' c'. graphql gb query (variables @ [(''cursor'', c)]) g = Some (Inr data, g') \<Longrightarrow> next_cursor data = Some c'
      \<Longrightarrow> rank c' < rank c"
  shows "rank cursor < fuel \<Longrightarrow> scan_connection gb query message variables pick fuel cursor g \<noteq> None"
proof (induction fuel arbitrary: cursor g)
  case (Suc fuel)
  obtain r g' where call: "graphql gb query (variables @ [(''cursor'', cursor)]) g = Some (r, g')"
    using assms(1) [of "variables @ [(''cursor'', cursor)]" g] by auto
  show ?case
  proof (cases "\<exists>data x c. r = Inr data \<and> connection_step message pick data = Inr (x, Some c)")
    case True
    then obtain data x c where r: "r = Inr data" and step: "connection_step message pick data = Inr (x, Some c)" by blast
    from assms(2) [OF call [unfolded r] connection_next [OF step]] Suc.prems have "rank c < fuel" by simp
    then have "scan_connection gb query message variables pick fuel c g' \<noteq> None" by (rule Suc.IH)
    then show ?thesis by (simp add: io_then_def io_check_def call r step)
  next
    case False
    then show ?thesis
      by (cases r) (auto simp: io_then_def io_check_def call split: sum.splits option.splits prod.splits)
  qed
qed simp

lemma graphql_returns: "(\<And>argv stdin g. gb_call gb argv stdin g \<noteq> None) \<Longrightarrow> graphql gb query variables g \<noteq> None"
  by (auto simp: graphql_def api_def gh_run_def io_then_def io_check_def split: option.splits sum.splits)

lemma returns_iff: "io_within False (\<lambda>_ _. True) m \<longleftrightarrow> (\<forall>g. m g \<noteq> None)"
  by (auto simp: io_within_def split: option.splits)

lemma returns_gh_writes:
  fixes rank :: "string \<Rightarrow> (string \<times> json) list \<Rightarrow> json \<Rightarrow> nat"
  assumes "\<And>argv stdin g. gb_call gb argv stdin g \<noteq> None" and "\<And>query variables. rank query variables JNull < gb_fuel gb"
    and "\<And>query variables c g data g' c'. graphql gb query (variables @ [(''cursor'', c)]) g = Some (Inr data, g')
      \<Longrightarrow> next_cursor data = Some c' \<Longrightarrow> rank query variables c' < rank query variables c"
  shows "gh_writes False (\<lambda>_ _. True) gb role key"
proof -
  have scan: "scan_connection gb query message variables pick (gb_fuel gb) JNull g \<noteq> None"
    for query message variables g and pick :: "json \<Rightarrow> 'b option result"
    by (rule scan_returns [where rank = "rank query variables"]) (rule graphql_returns [OF assms(1)], rule assms(3), assumption+, rule assms(2))
  show ?thesis
    by unfold_locales (simp_all add: returns_iff assms(1) scan del: scan_connection.simps not_None_eq)
qed

lemma returns_on_db: "io_within False (\<lambda>_ _. True) (on_db m)"
  by (auto simp: io_within_def on_db_def split: prod.split)

lemma returns_on_remote: "io_within False (\<lambda>_ _. True) m \<Longrightarrow> io_within False (\<lambda>_ _. True) (on_remote m)"
  by (auto simp: io_within_def on_remote_def split: option.splits)

lemma returns_each: "(\<And>x. io_within False (\<lambda>_ _. True) (f x)) \<Longrightarrow> io_within False (\<lambda>_ _. True) (io_each f xs)"
  by (induction xs) (auto intro!: io_within_seq io_within_check)

lemma returns_resolve:
  assumes "gh_writes False (\<lambda>_ _. True) gb role key"
  shows "io_within False (\<lambda>_ _. True) (resolve_pending gb clk)"
proof -
  from assms have reads: "gh_reads False (\<lambda>_ _. True) gb" by (rule gh_writes.axioms)
  show ?thesis
    unfolding resolve_pending_def resolve_request_def resolve_reconcile_def
    by (intro io_within_seq io_within_check returns_each returns_on_db returns_on_remote gh_reads.within_verify_broker [OF reads]
        gh_reads.within_verify_reconcile [OF reads] TrueI)
qed

text \<open>C31: The facts of an operation, its execution and the settling of both journals return when every call of the command returns
  and, in every connection of the board, each next cursor that a reply names is nearer to the end than the cursor that was asked with:
  by any rank on the cursors of the connection, with a fuel above the rank of its start, which bounds its pages.\<close>

theorem operations_return:
  fixes rank :: "string \<Rightarrow> (string \<times> json) list \<Rightarrow> json \<Rightarrow> nat"
  assumes "\<And>argv stdin g. gb_call gb argv stdin g \<noteq> None" and "\<And>query variables. rank query variables JNull < gb_fuel gb"
    and "\<And>query variables c g data g' c'. graphql gb query (variables @ [(''cursor'', c)]) g = Some (Inr data, g')
      \<Longrightarrow> next_cursor data = Some c' \<Longrightarrow> rank query variables c' < rank query variables c"
  shows "github_facts gb operation arguments g \<noteq> None \<and> github_execute gb operation arguments sn key g \<noteq> None
    \<and> resolve_pending gb clk (d, g) \<noteq> None"
proof -
  have writes: "gh_writes False (\<lambda>_ _. True) gb (sn_role sn) key" by (rule returns_gh_writes [where rank = rank]) (rule assms, assumption?)+
  then have reads: "gh_reads False (\<lambda>_ _. True) gb" by (rule gh_writes.axioms)
  show ?thesis
    using io_withinD(2) [OF gh_reads.within_facts [OF reads]] io_withinD(2) [OF gh_writes.within_execute [OF writes refl]]
      io_withinD(2) [OF returns_resolve [OF writes]] by fast
qed

text \<open>A board without state whose connections have two pages: the second is asked for with the cursor that the first names.\<close>

definition first_page :: json where
  "first_page = JObj [(''data'', JObj [(''repository'', JObj [(''issue'', JObj [(''projectItems'',
     JObj [(''nodes'', JList []), (''pageInfo'', JObj [(''endCursor'', JStr ''second-page''), (''hasNextPage'', JBool True)])])])])])]"

definition board_policy :: organization_policy where
  "board_policy = \<lparr>op_org_id = ''acme'', op_principal_github = ''p'', op_repositories = [(''org'', \<lparr>repo_alias = ''org'', repo_slug = ''acme/org'',
       repo_default_branch = ''main''\<rparr>)], op_roles = [], op_source_commit = [], op_control_version = [], op_source_tree_sha256 = [],
     op_organization_daily_token_budget = 20, op_global_max_agents = 5, op_policy_digest = ''digest'',
     op_protected_submission_paths = []\<rparr>"

definition board_session :: session where
  "board_session = new_session 0 ''s1'' ''w1'' ''acme'' ''developer'' ''digest'' {} None 60"

definition two_pages :: "unit github" where
  "two_pages = \<lparr>gb_policy = board_policy, gb_project = Some (''acme'', 1),
     gb_call = (\<lambda>argv stdin g. Some (Inr \<lparr>gr_code = 0,
       gr_out = (if (case stdin of None \<Rightarrow> True | Some asked \<Rightarrow> contains ''second-page'' asked) then ''{}'' else dumps first_page), gr_err = []\<rparr>, g)),
     gb_sha = id, gb_limits = (\<lambda>_. None), gb_float = (\<lambda>t. (t, None)), gb_fuel = 2\<rparr>"

lemma loads_empty: "loads f ''{}'' = Some (JObj [])"
  using loads_dumps [of "JObj []" f] by simp

lemma ascii_well_encoded: "list_all (\<lambda>c. (of_char c :: nat) < 128) s \<Longrightarrow> well_encoded s"
  by (induction s) (auto simp: well_encoded_def Let_def scalar_def utf8_bytes_def)

lemma loads_first_page: "loads f (dumps first_page) = Some (canonical first_page)"
proof (rule loads_dumps)
  have "well_encoded ''data''" "well_encoded ''repository''" "well_encoded ''issue''" "well_encoded ''projectItems''"
    "well_encoded ''nodes''" "well_encoded ''pageInfo''" "well_encoded ''endCursor''" "well_encoded ''second-page''"
    "well_encoded ''hasNextPage''" by (rule ascii_well_encoded, simp)+
  then show "plain_json first_page" by (simp add: first_page_def)
qed

lemma page_texts: "strip ''{}'' \<noteq> []" "strip (dumps first_page) \<noteq> []"
proof -
  have "strip (dumps (JObj kvs)) = dumps (JObj kvs)" for kvs
    by (rule strip_dark) (simp_all add: dark_def ascii_space_def)
  then show "strip (dumps first_page) \<noteq> []" unfolding first_page_def by (simp only:) simp
  show "strip ''{}'' \<noteq> []" by (simp add: strip_dark dark_def ascii_space_def)
qed

lemma next_cursors: "next_cursor (JObj []) = None" "next_cursor (canonical first_page) = Some (JStr ''second-page'')"
  by code_simp+

text \<open>The cursor is in the text of the question.\<close>

lemma contains_join: "x \<in> set xs \<Longrightarrow> contains p x \<Longrightarrow> contains p (join sep xs)"
proof (induction sep xs rule: join.induct)
  case (3 sep x y ys)
  then show ?case unfolding contains_iff by (auto, (metis append.assoc)+)
qed simp_all

lemma contains_member:
  assumes "(k, v) \<in> set kvs" and "contains p (dumps_default v)"
  shows "contains p (dumps_default (JObj kvs))"
proof -
  let ?texts = "map (\<lambda>kv. json_text (fst kv) @ '': '' @ snd kv) (sort_key fst (map (\<lambda>kv. (fst kv, dumps_default (snd kv))) kvs))"
  from assms(1) have "json_text k @ '': '' @ dumps_default v \<in> set ?texts" by force
  moreover from assms(2) have "contains p (json_text k @ '': '' @ dumps_default v)" unfolding contains_iff by (metis append.assoc)
  ultimately have "contains p (join '', '' ?texts)" by (rule contains_join)
  then show ?thesis unfolding contains_iff dumps_default.simps by (metis append.assoc)
qed

lemma second_page_asked:
  "contains ''second-page'' (dumps_default (JObj [(''query'', JStr query), (''variables'', JObj (variables @ [(''cursor'', JStr ''second-page'')]))]))"
proof -
  have "contains ''second-page'' (dumps_default (JStr ''second-page''))" by code_simp
  from contains_member [OF _ this, of "''cursor''" "variables @ [(''cursor'', JStr ''second-page'')]"]
  have "contains ''second-page'' (dumps_default (JObj (variables @ [(''cursor'', JStr ''second-page'')])))" by simp
  from contains_member [OF _ this, of "''variables''"] show ?thesis by (simp del: dumps_default.simps)
qed

lemma two_pages_reply:
  assumes "graphql two_pages query kvs g = Some (Inr data, g')"
  shows "data = (if contains ''second-page'' (dumps_default (JObj [(''query'', JStr query), (''variables'', JObj kvs)]))
    then JObj [] else canonical first_page)"
  using assms
  by (simp add: graphql_def api_def gh_run_def two_pages_def io_then_def io_check_def read_reply_def loads_empty loads_first_page page_texts
      del: dumps_default.simps dumps_with.simps contains.simps canonical.simps split: if_split_asm)

theorem operations_return_witness:
  "github_facts two_pages ''pm.issue.move'' [(''id'', JInt 7), (''to'', JStr ''Ready'')] () \<noteq> None
   \<and> github_execute two_pages ''pm.issue.move'' [(''id'', JInt 7), (''to'', JStr ''Ready'')] board_session ''k'' () \<noteq> None
   \<and> resolve_pending two_pages (\<lambda>_. 0) (empty_db, ()) \<noteq> None"
proof (rule operations_return [where rank = "\<lambda>_ _ c. if c = JStr ''second-page'' then 0 else 1"])
  fix query variables c g data g' c'
  assume reply: "graphql two_pages query (variables @ [(''cursor'', c)]) g = Some (Inr data, g')" and more: "next_cursor data = Some c'"
  from more two_pages_reply [OF reply] next_cursors
  have "c' = JStr ''second-page''"
    and "\<not> contains ''second-page'' (dumps_default (JObj [(''query'', JStr query), (''variables'', JObj (variables @ [(''cursor'', c)]))]))"
    by (auto simp del: dumps_default.simps contains.simps split: if_split_asm)
  with second_page_asked [of query variables] have "c' = JStr ''second-page''" "c \<noteq> JStr ''second-page''" by blast+
  then show "(if c' = JStr ''second-page'' then 0 else 1 :: nat) < (if c = JStr ''second-page'' then 0 else 1)" by simp
qed (simp_all add: two_pages_def)

section \<open>The owner of an item\<close>

lemma newline_char: "CHR 10 = char_of (n :: nat) \<longleftrightarrow> n mod 256 = 10"
  by (subst eq_commute) (simp add: char_of_eq_iff take_bit_eq_mod)

lemma no_newline_hex: "x < 16 \<Longrightarrow> CHR 10 \<noteq> hex_digit x"
  by (auto simp: hex_digit_def newline_char)

lemma no_newline_point: "CHR 10 \<notin> set (json_point n)"
  by (auto simp: json_point_def hex4_def no_newline_hex newline_char)

lemma no_newline_text: "CHR 10 \<notin> set (json_text s)"
  by (auto simp: json_text_def no_newline_point)

lemma split_on_line: "c \<notin> set l \<Longrightarrow> split_on c (l @ c # s) = l # split_on c s"
  by (induction l) auto

lemma sorted_metadata:
  fixes u v w :: 'a
  shows "sort_key fst [(''schema'', u), (''owner_role'', v), (''kind'', w)] = [(''kind'', w), (''owner_role'', v), (''schema'', u)]"
proof -
  have "''owner_role'' \<le> ''schema''" "''kind'' \<le> ''owner_role''" by code_simp+
  then show ?thesis by (simp add: sort_key_def)
qed

abbreviation item_metadata :: "string \<Rightarrow> string \<Rightarrow> json" where
  "item_metadata owner_role kind \<equiv> JObj [(''schema'', JStr ''sjg.item/v1''), (''owner_role'', JStr owner_role), (''kind'', JStr kind)]"

lemma item_metadata_text:
  "dumps (item_metadata r k) = ''{'' @ (json_text ''kind'' @ '':'' @ json_text k @ '','' @ json_text ''owner_role'' @ '':'' @ json_text r
     @ '','' @ json_text ''schema'' @ '':'' @ json_text ''sjg.item/v1'') @ ''}''"
  by (simp add: sorted_metadata)

lemma item_group_line:
  assumes "s \<noteq> []"
  shows "item_group (item_prefix @ (''{'' @ s @ ''}'') @ '' -->'') = Some (''{'' @ s @ ''}'')"
proof -
  have "ends_with ''} -->'' (item_prefix @ (''{'' @ s @ ''}'') @ '' -->'')"
    unfolding ends_with_iff by (rule exI [of _ "item_prefix @ ''{'' @ s"]) simp
  moreover have "starts_with (item_prefix @ ''{'') (item_prefix @ (''{'' @ s @ ''}'') @ '' -->'')"
    unfolding starts_with_iff by simp
  moreover have "Suc 0 \<le> length s" using assms by (cases s) simp_all
  ultimately show ?thesis by (simp add: item_group_def del: append_Cons)
qed

lemma item_metadata_loads:
  assumes "well_encoded r" and "well_encoded k"
  shows "loads f (dumps (item_metadata r k)) = Some (JObj [(''kind'', JStr k), (''owner_role'', JStr r), (''schema'', JStr ''sjg.item/v1'')])"
proof -
  have "well_encoded ''schema'' \<and> well_encoded ''owner_role'' \<and> well_encoded ''kind'' \<and> well_encoded ''sjg.item/v1''"
    by (intro conjI ascii_well_encoded) simp_all
  with assms have "plain_json (item_metadata r k)" by simp
  from loads_dumps [OF this] show ?thesis by (simp add: sorted_metadata del: dumps_with.simps)
qed

lemma item_line_read:
  assumes "well_encoded r" and "well_encoded k" and "gb_limits gb (dumps (item_metadata r k)) = None"
    and "list_all (\<lambda>l. item_group l = None) before"
    and "split_on (CHR 10) text = before @ (item_prefix @ dumps (item_metadata r k) @ '' -->'') # after"
  shows "metadata_of gb ((''body'', JStr text) # issue) = Inr (Some [(''kind'', JStr k), (''owner_role'', JStr r), (''schema'', JStr ''sjg.item/v1'')])"
proof -
  have "item_group (item_prefix @ dumps (item_metadata r k) @ '' -->'') = Some (dumps (item_metadata r k))"
    unfolding item_metadata_text by (rule item_group_line) simp
  moreover have "List.map_filter item_group before = []"
    using assms(4) by (induction before) (simp_all add: map_filter_simps)
  ultimately have "List.map_filter item_group (split_on (CHR 10) text) = dumps (item_metadata r k) # List.map_filter item_group after"
    using assms(5) by (simp add: List.map_filter_def del: dumps_with.simps)
  then show ?thesis
    using assms(3) by (simp add: metadata_of_def dget_def item_metadata_loads [OF assms(1,2)] del: dumps_with.simps)
qed

lemma body_lines:
  "split_on (CHR 10) (body_with_metadata body r k) = (item_prefix @ dumps (item_metadata r k) @ '' -->'')
     # split_on (CHR 10) (let s = lstrip (without_items (split_on (CHR 10) body)) in if s = [] then em_dash else s)"
proof -
  have "CHR 10 \<notin> set (item_prefix @ dumps (item_metadata r k) @ '' -->'')"
    unfolding item_metadata_text by (simp add: no_newline_text item_prefix_def)
  from split_on_line [OF this] show ?thesis by (simp add: body_with_metadata_def Let_def del: dumps_with.simps)
qed

lemma marker_no_item: "item_group (idempotency_marker key) = None" "cut_item (idempotency_marker key) = None"
  by (simp_all add: item_group_def cut_item_def idempotency_marker_def item_prefix_def starts_with_def)

lemma marker_line: "CHR 10 \<notin> set key \<Longrightarrow> split_on (CHR 10) (idempotency_marker key @ nl @ s) = idempotency_marker key # split_on (CHR 10) s"
  using split_on_line [of "CHR 10" "idempotency_marker key" s] by (simp add: idempotency_marker_def)

text \<open>C30: The owner and the kind that are written on an item are those that are read from it, with or without the marker of the
  request before them; and writing a new owner keeps the marker that an item starts with.\<close>

theorem written_owner_is_read:
  assumes "well_encoded role" and "well_encoded kind" and "gb_limits gb (dumps (item_metadata role kind)) = None" and "CHR 10 \<notin> set key"
  shows "metadata_of gb ((''body'', JStr (body_with_metadata body role kind)) # issue)
      = Inr (Some [(''kind'', JStr kind), (''owner_role'', JStr role), (''schema'', JStr ''sjg.item/v1'')])
    \<and> metadata_of gb ((''body'', JStr (idempotent_body (body_with_metadata body role kind) key)) # issue)
      = Inr (Some [(''kind'', JStr kind), (''owner_role'', JStr role), (''schema'', JStr ''sjg.item/v1'')])
    \<and> contains (idempotency_marker key) (body_with_metadata (idempotency_marker key @ nl @ body) role kind)"
proof (intro conjI)
  show plain: "metadata_of gb ((''body'', JStr (body_with_metadata body role kind)) # issue)
      = Inr (Some [(''kind'', JStr kind), (''owner_role'', JStr role), (''schema'', JStr ''sjg.item/v1'')])"
    by (rule item_line_read [OF assms(1-3), where before = "[]"]) (simp, unfold append_Nil, rule body_lines)
  show "metadata_of gb ((''body'', JStr (idempotent_body (body_with_metadata body role kind) key)) # issue)
      = Inr (Some [(''kind'', JStr kind), (''owner_role'', JStr role), (''schema'', JStr ''sjg.item/v1'')])"
  proof (cases "contains (idempotency_marker key) (body_with_metadata body role kind)")
    case False
    then have "idempotent_body (body_with_metadata body role kind) key = idempotency_marker key @ nl @ body_with_metadata body role kind"
      by (simp add: idempotent_body_def)
    with marker_line [OF assms(4), of "body_with_metadata body role kind"]
    have "split_on (CHR 10) (idempotent_body (body_with_metadata body role kind) key)
        = [idempotency_marker key] @ split_on (CHR 10) (body_with_metadata body role kind)"
      by simp
    from item_line_read [OF assms(1-3) _ this [unfolded body_lines]] show ?thesis by (simp add: marker_no_item)
  qed (use plain in \<open>simp add: idempotent_body_def\<close>)
  have "without_items (split_on (CHR 10) (idempotency_marker key @ nl @ body)) = idempotency_marker key @ nl @ without_items (split_on (CHR 10) body)"
    unfolding marker_line [OF assms(4)] by (cases "split_on (CHR 10) body") (simp_all add: marker_no_item)
  moreover have "lstrip (idempotency_marker key @ s) = idempotency_marker key @ s" for s
    by (simp add: idempotency_marker_def lstrip_def strip_by.simps space_len_def ascii_space_def)
  moreover have "idempotency_marker key \<noteq> []" by (simp add: idempotency_marker_def)
  ultimately have "body_with_metadata (idempotency_marker key @ nl @ body) role kind
      = (item_prefix @ dumps (item_metadata role kind) @ '' -->'' @ nl) @ idempotency_marker key @ nl @ without_items (split_on (CHR 10) body)"
    by (simp add: body_with_metadata_def del: dumps_with.simps)
  then show "contains (idempotency_marker key) (body_with_metadata (idempotency_marker key @ nl @ body) role kind)"
    unfolding contains_iff by blast
qed

theorem written_owner_is_read_witness:
  "metadata_of two_pages [(''body'', JStr (body_with_metadata ''text'' ''qa'' ''story''))]
      = Inr (Some [(''kind'', JStr ''story''), (''owner_role'', JStr ''qa''), (''schema'', JStr ''sjg.item/v1'')])
    \<and> contains (idempotency_marker ''k1'') (body_with_metadata (idempotency_marker ''k1'' @ nl @ ''text'') ''qa'' ''story'')"
proof -
  have "well_encoded ''qa''" "well_encoded ''story''" by (rule ascii_well_encoded, simp)+
  moreover have "gb_limits two_pages (dumps (item_metadata ''qa'' ''story'')) = None" by (simp add: two_pages_def)
  moreover have "CHR 10 \<notin> set ''k1''" by simp
  ultimately show ?thesis using written_owner_is_read [of "''qa''" "''story''" two_pages "''k1''" "''text''" "[]"] by blast
qed

end
