(* ===== verification/Verification_Rules.thy ===== *)
theory Verification_Rules
  imports Github_Rules
begin

text \<open>
  What holds of \<^verbatim>\<open>verification.py\<close>: settling the journals changes exactly the rows whose effect was proved, in the way the proof says.
\<close>

section \<open>What settling does to a row\<close>

definition settled_request :: "instant \<Rightarrow> verification \<Rightarrow> broker_request \<Rightarrow> broker_request" where
  "settled_request now v r =
     (case vf_proof v of
        Unknown \<Rightarrow> r
      | Present \<Rightarrow> r\<lparr>br_state := R_succeeded, br_response_json := Some (reply ''ok'' [(''result'', result_or v)]), br_updated_at := utcnow now\<rparr>
      | _ \<Rightarrow> r\<lparr>br_state := R_failed, br_response_json := Some (reply ''denied'' [(''error'', proved_absent v)]), br_updated_at := utcnow now\<rparr>)"

definition settled_operation :: "instant \<Rightarrow> verification \<Rightarrow> reconcile_operation \<Rightarrow> reconcile_operation" where
  "settled_operation now v r =
     (case vf_proof v of
        Unknown \<Rightarrow> r
      | Present \<Rightarrow> r\<lparr>rc_state := C_succeeded, rc_external_result := Some (result_or v), rc_updated_at := utcnow now\<rparr>
      | _ \<Rightarrow> r\<lparr>rc_state := C_dead_letter, rc_external_result := Some (JObj [(''proof'', JStr (proof_text (vf_proof v))),
             (''detail'', case vf_detail v of None \<Rightarrow> JNull | Some t \<Rightarrow> JStr t)]), rc_updated_at := utcnow now\<rparr>)"

lemma settled_request_key [simp]: "br_idempotency_key (settled_request now v r) = br_idempotency_key r"
  by (simp add: settled_request_def split: proof_kind.split)

lemma settled_operation_id [simp]: "rc_operation_id (settled_operation now v r) = rc_operation_id r"
  by (simp add: settled_operation_def split: proof_kind.split)

lemma unknown_settles_nothing:
  assumes "vf_proof v = Unknown"
  shows "map (\<lambda>r. if br_idempotency_key r = k then settled_request now v r else r) rs = rs"
    and "map (\<lambda>q. if rc_operation_id q = k then settled_operation now v q else q) qs = qs"
  using assms by (auto simp: settled_request_def settled_operation_def intro!: map_idI)

lemma settle_request_effect:
  "settle_request now key v d = (Inr (), d\<lparr>broker_requests :=
     map (\<lambda>r. if br_idempotency_key r = key then settled_request now v r else r) (broker_requests d)\<rparr>)"
proof (cases "vf_proof v = Unknown")
  case True
  then show ?thesis by (cases d) (simp add: settle_request_def returning_def unknown_settles_nothing)
next
  case False
  then show ?thesis
    by (auto simp: settle_request_def settled_request_def finish_request_def terminal_request_state_def update_where_def split: proof_kind.split)
qed

lemma settle_reconcile_effect:
  assumes "settle_reconcile now i v d = (Inr (), d')" and "distinct (map rc_operation_id (reconcile_operations d))"
  shows "d' = d\<lparr>reconcile_operations :=
     map (\<lambda>r. if rc_operation_id r = i then settled_operation now v r else r) (reconcile_operations d)\<rparr>"
proof (cases "vf_proof v = Unknown")
  case True
  then show ?thesis using assms(1) by (cases d) (simp add: settle_reconcile_def returning_def unknown_settles_nothing)
next
  case False
  have same: "(rc_operation_id r = i \<and> rc_state r = rc_state row) = (rc_operation_id r = i)"
    if "find (\<lambda>r. rc_operation_id r = i) (reconcile_operations d) = Some row" "r \<in> set (reconcile_operations d)" for r row
    using that assms(2) find_SomeD [OF that(1)] by (auto simp: distinct_map dest: inj_onD)
  from False assms(1) show ?thesis
    by (auto simp: settle_reconcile_def settled_operation_def finish_reconcile_def final_reconcile_state_def immediate_def update_where_def same
        split: proof_kind.splits option.splits if_splits intro!: map_cong)
qed

section \<open>The loops over the pending rows\<close>

text \<open>The answer of the verification of a row, at some state of the remote side.\<close>

definition asked_request :: "'g github \<Rightarrow> db \<Rightarrow> broker_request \<Rightarrow> verification \<Rightarrow> bool" where
  "asked_request gb d row v \<longleftrightarrow>
     (\<exists>stored role arguments g g'. stored_json gb (br_arguments_json row) = Inr stored \<and> bound_role (br_session_id row) d = Inr role
       \<and> with_role stored role = Inr arguments
       \<and> verify_broker gb (br_operation row) arguments (br_idempotency_key row) g = Some (Inr v, g'))"

definition asked_operation :: "'g github \<Rightarrow> reconcile_operation \<Rightarrow> verification \<Rightarrow> bool" where
  "asked_operation gb row v \<longleftrightarrow>
     (\<exists>precondition g g'. bindE (stored_json gb (rc_precondition_json row)) stored_entries = Inr precondition
       \<and> verify_reconcile gb (rc_operation row) (rc_source_key row) precondition g = Some (Inr v, g'))"

definition settled_requests :: "(string \<Rightarrow> instant) \<Rightarrow> (string \<Rightarrow> verification) \<Rightarrow> string set \<Rightarrow> broker_request list \<Rightarrow> broker_request list" where
  "settled_requests clk verdict ks = map (\<lambda>r. let k = br_idempotency_key r in if k \<in> ks then settled_request (clk k) (verdict k) r else r)"

definition settled_operations :: "(string \<Rightarrow> instant) \<Rightarrow> (string \<Rightarrow> verification) \<Rightarrow> string set \<Rightarrow> reconcile_operation list \<Rightarrow> reconcile_operation list" where
  "settled_operations clk verdict ks = map (\<lambda>r. let k = rc_operation_id r in if k \<in> ks then settled_operation (clk k) (verdict k) r else r)"

lemma settled_one:
  "settled_requests clk (\<lambda>_. v) {k} rs = map (\<lambda>r. if br_idempotency_key r = k then settled_request (clk k) v r else r) rs"
  "settled_operations clk (\<lambda>_. v) {k} qs = map (\<lambda>q. if rc_operation_id q = k then settled_operation (clk k) v q else q) qs"
  by (auto simp: settled_requests_def settled_operations_def Let_def)

lemma io_then_Inr: "io_then m f s = Some (Inr y, s') \<longleftrightarrow> (\<exists>x t. m s = Some (Inr x, t) \<and> f x t = Some (Inr y, s'))"
  by (auto simp: io_then_def split: option.splits sum.splits)

lemma io_check_Some [simp]: "io_check r s = Some (q, t) \<longleftrightarrow> r = q \<and> t = s"
  by (auto simp: io_check_def)

lemma on_db_Inr: "on_db m s = Some (Inr x, s') \<longleftrightarrow> (\<exists>d'. m (fst s) = (Inr x, d') \<and> s' = (d', snd s))"
  by (auto simp: on_db_def split: prod.splits)

lemma on_remote_Inr: "on_remote m s = Some (Inr x, s') \<longleftrightarrow> (\<exists>g'. m (snd s) = Some (Inr x, g') \<and> s' = (fst s, g'))"
  by (auto simp: on_remote_def)

lemmas resolve_simps = io_then_Inr on_db_Inr on_remote_Inr

lemma resolve_request_effect:
  assumes "resolve_request gb clk row (d, g) = Some (Inr p, (d', g'))"
  obtains v where "p = vf_proof v" and "asked_request gb d row v"
    and "d' = d\<lparr>broker_requests := settled_requests clk (\<lambda>_. v) {br_idempotency_key row} (broker_requests d)\<rparr>"
proof -
  from assms obtain stored role arguments v where "stored_json gb (br_arguments_json row) = Inr stored"
    and "bound_role (br_session_id row) d = Inr role" and "with_role stored role = Inr arguments"
    and "verify_broker gb (br_operation row) arguments (br_idempotency_key row) g = Some (Inr v, g')"
    and "p = vf_proof v"
    and "d' = d\<lparr>broker_requests := settled_requests clk (\<lambda>_. v) {br_idempotency_key row} (broker_requests d)\<rparr>"
    by (auto simp: resolve_request_def resolve_simps settle_request_effect settled_one)
  then show thesis by (intro that [of v]) (auto simp: asked_request_def)
qed

lemma asked_request_frame [simp]: "asked_request gb (d\<lparr>broker_requests := rs\<rparr>) row v \<longleftrightarrow> asked_request gb d row v"
  by (simp add: asked_request_def bound_role_def)

lemma each_request:
  assumes "io_each (resolve_request gb clk) rows (d, g) = Some (Inr ps, (d', g'))" and "distinct (map br_idempotency_key rows)"
  shows "\<exists>verdict. ps = map (\<lambda>r. vf_proof (verdict (br_idempotency_key r))) rows
    \<and> list_all (\<lambda>r. asked_request gb d r (verdict (br_idempotency_key r))) rows
    \<and> d' = d\<lparr>broker_requests := settled_requests clk verdict (br_idempotency_key ` set rows) (broker_requests d)\<rparr>"
  using assms
proof (induction rows arbitrary: d g ps)
  case Nil
  then show ?case by (cases d) (auto simp: settled_requests_def Let_def)
next
  case (Cons row rows)
  from Cons.prems(1) obtain p d1 g1 qs where first: "resolve_request gb clk row (d, g) = Some (Inr p, (d1, g1))"
    and rest: "io_each (resolve_request gb clk) rows (d1, g1) = Some (Inr qs, (d', g'))" and ps: "ps = p # qs"
    by (auto simp: io_then_Inr)
  from first obtain v where v: "p = vf_proof v" "asked_request gb d row v"
    and d1: "d1 = d\<lparr>broker_requests := settled_requests clk (\<lambda>_. v) {br_idempotency_key row} (broker_requests d)\<rparr>"
    by (rule resolve_request_effect)
  from Cons.IH [OF rest] Cons.prems(2) obtain verdict where qs: "qs = map (\<lambda>r. vf_proof (verdict (br_idempotency_key r))) rows"
    and asked: "list_all (\<lambda>r. asked_request gb d r (verdict (br_idempotency_key r))) rows"
    and d': "d' = d1\<lparr>broker_requests := settled_requests clk verdict (br_idempotency_key ` set rows) (broker_requests d1)\<rparr>"
    by (auto simp: d1)
  define w where "w = verdict(br_idempotency_key row := v)"
  have fresh: "w (br_idempotency_key r) = verdict (br_idempotency_key r)" if "r \<in> set rows" for r
    using that Cons.prems(2) by (auto simp: w_def image_iff)
  have "settled_requests clk verdict (br_idempotency_key ` set rows) (settled_requests clk (\<lambda>_. v) {br_idempotency_key row} rs)
      = settled_requests clk w (br_idempotency_key ` set (row # rows)) rs" for rs
    using Cons.prems(2) fresh by (auto simp: settled_requests_def Let_def w_def)
  moreover have "ps = map (\<lambda>r. vf_proof (w (br_idempotency_key r))) (row # rows)"
    using fresh by (simp add: ps v qs w_def)
  moreover have "list_all (\<lambda>r. asked_request gb d r (w (br_idempotency_key r))) (row # rows)"
    using asked v(2) fresh by (auto simp: list_all_iff w_def)
  ultimately show ?case by (intro exI [of _ w]) (simp add: d' d1)
qed

lemma resolve_reconcile_effect:
  assumes "resolve_reconcile gb clk row (d, g) = Some (Inr p, (d', g'))" and "distinct (map rc_operation_id (reconcile_operations d))"
  obtains v where "p = vf_proof v" and "asked_operation gb row v"
    and "d' = d\<lparr>reconcile_operations := settled_operations clk (\<lambda>_. v) {rc_operation_id row} (reconcile_operations d)\<rparr>"
proof -
  from assms(1) obtain precondition v where "bindE (stored_json gb (rc_precondition_json row)) stored_entries = Inr precondition"
    and "verify_reconcile gb (rc_operation row) (rc_source_key row) precondition g = Some (Inr v, g')"
    and "p = vf_proof v" and "settle_reconcile (clk (rc_operation_id row)) (rc_operation_id row) v d = (Inr (), d')"
    by (auto simp: resolve_reconcile_def resolve_simps)
  with settle_reconcile_effect [OF this(4) assms(2)] show thesis
    by (intro that [of v]) (auto simp: asked_operation_def settled_one)
qed

lemma settled_operations_ids [simp]: "map rc_operation_id (settled_operations clk verdict ks rs) = map rc_operation_id rs"
  by (simp add: settled_operations_def Let_def)

lemma each_operation:
  assumes "io_each (resolve_reconcile gb clk) rows (d, g) = Some (Inr ps, (d', g'))" and "distinct (map rc_operation_id rows)"
    and "distinct (map rc_operation_id (reconcile_operations d))"
  shows "\<exists>verdict. ps = map (\<lambda>r. vf_proof (verdict (rc_operation_id r))) rows
    \<and> list_all (\<lambda>r. asked_operation gb r (verdict (rc_operation_id r))) rows
    \<and> d' = d\<lparr>reconcile_operations := settled_operations clk verdict (rc_operation_id ` set rows) (reconcile_operations d)\<rparr>"
  using assms
proof (induction rows arbitrary: d g ps)
  case Nil
  then show ?case by (cases d) (auto simp: settled_operations_def Let_def)
next
  case (Cons row rows)
  from Cons.prems(1) obtain p d1 g1 qs where first: "resolve_reconcile gb clk row (d, g) = Some (Inr p, (d1, g1))"
    and rest: "io_each (resolve_reconcile gb clk) rows (d1, g1) = Some (Inr qs, (d', g'))" and ps: "ps = p # qs"
    by (auto simp: io_then_Inr)
  from first Cons.prems(3) obtain v where v: "p = vf_proof v" "asked_operation gb row v"
    and d1: "d1 = d\<lparr>reconcile_operations := settled_operations clk (\<lambda>_. v) {rc_operation_id row} (reconcile_operations d)\<rparr>"
    by (rule resolve_reconcile_effect)
  from Cons.IH [OF rest] Cons.prems(2,3) obtain verdict where qs: "qs = map (\<lambda>r. vf_proof (verdict (rc_operation_id r))) rows"
    and asked: "list_all (\<lambda>r. asked_operation gb r (verdict (rc_operation_id r))) rows"
    and d': "d' = d1\<lparr>reconcile_operations := settled_operations clk verdict (rc_operation_id ` set rows) (reconcile_operations d1)\<rparr>"
    by (auto simp: d1)
  define w where "w = verdict(rc_operation_id row := v)"
  have fresh: "w (rc_operation_id r) = verdict (rc_operation_id r)" if "r \<in> set rows" for r
    using that Cons.prems(2) by (auto simp: w_def image_iff)
  have "settled_operations clk verdict (rc_operation_id ` set rows) (settled_operations clk (\<lambda>_. v) {rc_operation_id row} rs)
      = settled_operations clk w (rc_operation_id ` set (row # rows)) rs" for rs
    using Cons.prems(2) fresh by (auto simp: settled_operations_def Let_def w_def)
  moreover have "ps = map (\<lambda>r. vf_proof (w (rc_operation_id r))) (row # rows)"
    using fresh by (simp add: ps v qs w_def)
  moreover have "list_all (\<lambda>r. asked_operation gb r (w (rc_operation_id r))) (row # rows)"
    using asked v(2) fresh by (auto simp: list_all_iff w_def)
  ultimately show ?case by (intro exI [of _ w]) (simp add: d' d1)
qed

section \<open>Settling both journals\<close>

lemma settled_pending_requests:
  assumes "distinct (map br_idempotency_key (broker_requests d))"
  shows "settled_requests clk verdict (br_idempotency_key ` set (pending_broker_verifications d)) (broker_requests d)
    = map (\<lambda>r. if br_state r = R_verify_pending then settled_request (clk (br_idempotency_key r)) (verdict (br_idempotency_key r)) r else r)
        (broker_requests d)"
proof -
  have "br_idempotency_key r \<in> br_idempotency_key ` set (pending_broker_verifications d) \<longleftrightarrow> br_state r = R_verify_pending"
    if "r \<in> set (broker_requests d)" for r
    using assms that by (auto simp: pending_broker_verifications_def distinct_map dest: inj_onD)
  then show ?thesis by (simp add: settled_requests_def Let_def)
qed

lemma settled_pending_operations:
  assumes "distinct (map rc_operation_id (reconcile_operations d))"
  shows "settled_operations clk verdict (rc_operation_id ` set (pending_reconciliations d)) (reconcile_operations d)
    = map (\<lambda>r. if rc_state r = C_verify_pending then settled_operation (clk (rc_operation_id r)) (verdict (rc_operation_id r)) r else r)
        (reconcile_operations d)"
proof -
  have "rc_operation_id r \<in> rc_operation_id ` set (pending_reconciliations d) \<longleftrightarrow> rc_state r = C_verify_pending"
    if "r \<in> set (reconcile_operations d)" for r
    using assms that by (auto simp: pending_reconciliations_def distinct_map dest: inj_onD)
  then show ?thesis by (simp add: settled_operations_def Let_def)
qed

lemma distinct_pending:
  "distinct (map br_idempotency_key (broker_requests d)) \<Longrightarrow> distinct (map br_idempotency_key (pending_broker_verifications d))"
  "distinct (map rc_operation_id (reconcile_operations d)) \<Longrightarrow> distinct (map rc_operation_id (pending_reconciliations d))"
  by (auto simp: pending_broker_verifications_def pending_reconciliations_def distinct_map intro: inj_on_subset)

lemma count_pending:
  "length (filter (\<lambda>q. q = p) (map (\<lambda>r. f r) (sort_key k (filter P rows)))) = count_where (\<lambda>r. P r \<and> f r = p) rows"
  by (simp add: filter_map comp_def filter_sort count_where_def conj_commute)

text \<open>C29: When settling returns, there is for every pending row an answer of its verification such that a row proved present is
  recorded as succeeded with the proved result, one proved absent or in conflict as failed or dead-lettered, and one that stays unknown is
  left as it is; every other row and table is unchanged, and the counts are those of the answers.\<close>

theorem pending_settled_by_proof:
  assumes "resolve_pending gb clk (d, g) = Some (Inr counts, (d', g'))"
    and "distinct (map br_idempotency_key (broker_requests d))" and "distinct (map rc_operation_id (reconcile_operations d))"
  shows "\<exists>verdict outcome.
    list_all (\<lambda>r. asked_request gb d r (verdict (br_idempotency_key r))) (pending_broker_verifications d)
    \<and> list_all (\<lambda>r. asked_operation gb r (outcome (rc_operation_id r))) (pending_reconciliations d)
    \<and> d' = d\<lparr>
        broker_requests := map (\<lambda>r. if br_state r = R_verify_pending
            then settled_request (clk (br_idempotency_key r)) (verdict (br_idempotency_key r)) r else r) (broker_requests d),
        reconcile_operations := map (\<lambda>r. if rc_state r = C_verify_pending
            then settled_operation (clk (rc_operation_id r)) (outcome (rc_operation_id r)) r else r) (reconcile_operations d)\<rparr>
    \<and> counts = (\<lambda>p. count_where (\<lambda>r. br_state r = R_verify_pending \<and> vf_proof (verdict (br_idempotency_key r)) = p) (broker_requests d)
        + count_where (\<lambda>r. rc_state r = C_verify_pending \<and> vf_proof (outcome (rc_operation_id r)) = p) (reconcile_operations d))"
proof -
  from assms(1) obtain ps d1 g1 qs
    where first: "io_each (resolve_request gb clk) (pending_broker_verifications d) (d, g) = Some (Inr ps, (d1, g1))"
      and second: "io_each (resolve_reconcile gb clk) (pending_reconciliations d1) (d1, g1) = Some (Inr qs, (d', g'))"
      and counts: "counts = (\<lambda>p. length (filter (\<lambda>q. q = p) (ps @ qs)))"
    by (auto simp: resolve_pending_def resolve_simps)
  from each_request [OF first distinct_pending(1) [OF assms(2)]] obtain verdict
    where ps: "ps = map (\<lambda>r. vf_proof (verdict (br_idempotency_key r))) (pending_broker_verifications d)"
      and asked: "list_all (\<lambda>r. asked_request gb d r (verdict (br_idempotency_key r))) (pending_broker_verifications d)"
      and d1: "d1 = d\<lparr>broker_requests := settled_requests clk verdict
        (br_idempotency_key ` set (pending_broker_verifications d)) (broker_requests d)\<rparr>" by blast
  have same: "reconcile_operations d1 = reconcile_operations d" by (simp add: d1)
  then have rows: "pending_reconciliations d1 = pending_reconciliations d" by (simp add: pending_reconciliations_def)
  from each_operation [OF second] distinct_pending(2) [OF assms(3)] assms(3) obtain outcome
    where qs: "qs = map (\<lambda>r. vf_proof (outcome (rc_operation_id r))) (pending_reconciliations d)"
      and told: "list_all (\<lambda>r. asked_operation gb r (outcome (rc_operation_id r))) (pending_reconciliations d)"
      and d': "d' = d1\<lparr>reconcile_operations := settled_operations clk outcome
        (rc_operation_id ` set (pending_reconciliations d)) (reconcile_operations d)\<rparr>"
    by (auto simp: rows same)
  have "counts = (\<lambda>p. count_where (\<lambda>r. br_state r = R_verify_pending \<and> vf_proof (verdict (br_idempotency_key r)) = p) (broker_requests d)
        + count_where (\<lambda>r. rc_state r = C_verify_pending \<and> vf_proof (outcome (rc_operation_id r)) = p) (reconcile_operations d))"
    by (simp only: counts ps qs filter_append length_append pending_broker_verifications_def pending_reconciliations_def count_pending)
  with asked told show ?thesis
    by (intro exI [of _ verdict] exI [of _ outcome])
      (simp only: d' d1 settled_pending_requests [OF assms(2)] settled_pending_operations [OF assms(3)])
qed

text \<open>A backend to which every listing is empty, and two requests that wait: a review, and a worker run for which there is no verifier.\<close>

definition no_effects :: "unit github" where
  "no_effects = \<lparr>gb_policy = board_policy, gb_project = None,
     gb_call = (\<lambda>argv stdin g. Some (Inr \<lparr>gr_code = 0, gr_out = ''[[]]'', gr_err = []\<rparr>, g)),
     gb_sha = id, gb_limits = (\<lambda>_. None), gb_float = (\<lambda>t. (t, None)), gb_fuel = 1\<rparr>"

definition waiting_db :: db where
  "waiting_db = empty_db\<lparr>wake_sessions := [session_values (utc_text 0) board_session],
     broker_requests := [(new_request ''t'' ''s1'' ''k1'' ''pr.review'' ''h'' ''{\"id\":7}'')\<lparr>br_state := R_verify_pending\<rparr>,
       (new_request ''t'' ''s1'' ''k2'' ''worker.run'' ''h'' ''{}'')\<lparr>br_state := R_verify_pending\<rparr>]\<rparr>"

lemma waiting_settled:
  "map_option (\<lambda>(r, d, g). (case r of Inr c \<Rightarrow> Some (c Absent, c Unknown) | Inl e \<Rightarrow> None, map br_state (broker_requests d)))
     (resolve_pending no_effects (\<lambda>_. 0) (waiting_db, ())) = Some (Some (1, 1), [R_failed, R_verify_pending])"
  by code_simp

theorem pending_settled_by_proof_witness:
  "\<exists>counts d'. resolve_pending no_effects (\<lambda>_. 0) (waiting_db, ()) = Some (Inr counts, (d', ()))
    \<and> map br_state (broker_requests d') = [R_failed, R_verify_pending] \<and> wake_sessions d' = wake_sessions waiting_db
    \<and> counts Absent = 1 \<and> counts Unknown = 1 \<and> counts Present = 0 \<and> counts Conflict = 0"
proof -
  from waiting_settled obtain r d' where settled: "resolve_pending no_effects (\<lambda>_. 0) (waiting_db, ()) = Some (r, (d', ()))"
    and answer: "(case r of Inr c \<Rightarrow> Some (c Absent, c Unknown) | Inl e \<Rightarrow> None) = Some (1, 1)"
    and states: "map br_state (broker_requests d') = [R_failed, R_verify_pending]" by auto
  from answer obtain counts where r: "r = Inr counts" and one: "counts Absent = 1" "counts Unknown = 1" by (cases r) auto
  note run = settled [unfolded r]
  have keys: "distinct (map br_idempotency_key (broker_requests waiting_db))" "distinct (map rc_operation_id (reconcile_operations waiting_db))"
    by (simp_all add: waiting_db_def new_request_def empty_db_def)
  from pending_settled_by_proof [OF run keys]
  have "wake_sessions d' = wake_sessions waiting_db \<and> counts Present + counts Conflict + counts Absent + counts Unknown = 2"
  proof (elim exE conjE, goal_cases)
    case (1 verdict outcome)
    have "counts Present + counts Conflict + counts Absent + counts Unknown = 2"
      by (cases "vf_proof (verdict ''k1'')"; cases "vf_proof (verdict ''k2'')")
        (simp_all add: 1(4) waiting_db_def new_request_def empty_db_def count_where_def)
    then show ?case by (simp add: 1(3))
  qed
  with run states one show ?thesis by auto
qed

section \<open>What is never settled\<close>

text \<open>There is no verifier for a worker run: once its outcome is unknown, its request stays as it is however often the journals are settled.\<close>

lemma worker_run_stays_unknown:
  assumes "verify_broker gb ''worker.run'' arguments key g = Some (Inr v, g')"
  shows "vf_proof v = Unknown"
  using assms by (auto simp: verify_broker_def io_then_Inr io_catch_def verify_operation_def Let_def io_check_def not_proved_def)

text \<open>A submission whose branch does not exist is unknown and not absent: the command answers the read of a missing reference with an
  error.\<close>

lemma missing_branch_is_unknown:
  assumes "gb_call gb [''api'', ''-X'', ''GET'', repo_path repo (''git/ref/heads/agent/'' @ role @ ''/'' @ topic)] None g = Some (Inr r, g')"
    and "gr_code r \<noteq> 0" and "role \<noteq> []"
  shows "\<exists>m. io_catch (verify_submission gb [(''_role'', JStr role), (''topic'', JStr topic)] repo key) (unknown_on broker_read_failure) g
    = Some (Inr (not_proved Unknown m), g')"
  using assms
  by (auto simp: verify_submission_def dget_def api_def gh_run_def io_then_def io_catch_def io_check_def unknown_on_def)

text \<open>A repository that the policy no longer names ends the settling: the lookup is outside of the clauses that make a failure unknown.\<close>

lemma unknown_alias_raises:
  assumes "map_of (op_repositories (gb_policy gb)) ''gone'' = None"
  shows "verify_broker gb operation [(''repository'', JStr ''gone'')] key g = Some (Inl (PolicyError ''unknown repository alias: gone''), g)"
  using assms by (simp add: verify_broker_def repo_of_def policy_repository_def dget_def py_or_def io_check_def)

end
