(* ===== verification/Spec2Isabelle.thy ===== *)
theory Spec2Isabelle
  imports Authz_Rules Policy_Rules Journal_Rules Control_Rules Comm_Rules Host_Rules Supervisor_Rules Verification_Rules
begin

text \<open>
  Verification of the Scrum Jail governance control plane, the Python package
  \<^verbatim>\<open>src/control/sjg_control\<close>.

  \<^bold>\<open>The program.\<close> A supervisor on one host polls GitHub sources, routes what it observes to roles, and wakes
  an untrusted provider process for a role. During its wake the process may only send typed requests over a socket.
  A broker checks each request against a closed authorization matrix and an organization policy,
  journals it under an idempotency key, and hands it to a backend. All durable state is one SQLite database.

  \<^bold>\<open>Theories and the code they model.\<close>
  \<^item> \<open>Prelude\<close>, \<open>Values\<close>, \<open>Pyregex\<close>, \<open>Json\<close>: Python's exceptions as values of \<open>exc\<close> and results \<open>exc + 'a\<close>, text and
    JSON values, \<open>json.dumps\<close> and \<open>json.loads\<close>, UTC timestamps as text, and the regular expressions
    of the source with an executable matcher proved equal to its inductive meaning.
  \<^item> \<open>Policy\<close> (\<^verbatim>\<open>policy.py\<close>), \<open>Authz\<close> (\<^verbatim>\<open>authz.py\<close>): policy compilation and the authorization matrix;
    the rules they guarantee are in \<open>Policy_Rules\<close> and \<open>Authz_Rules\<close>.
  \<^item> \<open>Tables\<close>, \<open>Sessions\<close>, \<open>Budget\<close>, \<open>Requests\<close>, \<open>Events\<close>, \<open>Deliveries\<close>, \<open>Runtime\<close>, \<open>Store\<close> (\<^verbatim>\<open>store.py\<close>):
    the database is the record \<open>db\<close> with one list of rows for each table; every method of \<open>Store\<close> is one definition of type
    \<open>'a op = db \<Rightarrow> 'a result \<times> db\<close>; \<open>immediate\<close> is the transaction that rolls back when its body raises. \<open>Store\<close> collects the
    calls as one step relation. \<open>Store_Invariants\<close>, \<open>Store_Rules\<close> and \<open>Journal_Rules\<close> prove the
    invariants of every reachable database and the contract of each group; \<open>Queue_Spec\<close> is the abstract state
    machine of a delivery that the store refines.
  \<^item> \<open>Broker\<close> (\<^verbatim>\<open>broker.py\<close>): \<open>Broker.handle\<close> over a backend given by the locale \<open>broker_backend\<close>.
  \<^item> \<open>Workers\<close>, \<open>Worker_Rules\<close> (\<^verbatim>\<open>workers.py\<close>): scoped copies of a workspace, the run of a worker and the import of its output;
    a workspace is a tree of entries.
  \<^item> \<open>Host\<close>, \<open>Host_Rules\<close> (\<^verbatim>\<open>host_process.py\<close>): process identities, termination of groups, the recorded lifetime of a child
    and the accounting of usage.
  \<^item> \<open>Control\<close>, \<open>Control_Rules\<close> (\<^verbatim>\<open>control_backend.py\<close>): the composed backend, interpreted as the backend of the
    broker with the host launcher as its launcher of workers.
  \<^item> \<open>Github\<close>, \<open>Github_Facts\<close>, \<open>Github_Execute\<close> (\<^verbatim>\<open>github_backend.py\<close>): the calls of the \<^verbatim>\<open>gh\<close> command and the reads, \<open>facts\<close>, and
    \<open>execute\<close> with one definition for each group of operations. \<open>Verification\<close> (\<^verbatim>\<open>verification.py\<close>): the proof of an effect whose outcome
    is not known and \<open>resolve_pending\<close>, which settles both journals of the store by it. Their state is whatever is behind the command, of
    an arbitrary type. \<open>Github_Calls\<close> lists the calls that exist, those that carry the key of a request (\<open>marked_write\<close>) apart from those that do not
    (\<open>plain_write\<close>), and has the locales \<open>gh_reads\<close> and \<open>gh_writes\<close>, which lift what the
    listed calls respect to the operations; \<open>Github_Rules\<close> and \<open>Verification_Rules\<close> hold the rules. \<open>Control\<close> takes the two methods of the
    backend as the parameters \<open>gh_facts\<close> and \<open>gh_execute\<close>: their outcome at the remote state of the moment.
  \<^item> \<open>Protocol\<close> (\<^verbatim>\<open>protocol.py\<close>, \<^verbatim>\<open>server.py\<close>), \<open>Reconcile\<close> (\<^verbatim>\<open>reconcile.py\<close>), \<open>Polling\<close> (\<^verbatim>\<open>delivery.py\<close>), \<open>Routing\<close>
    (\<^verbatim>\<open>routing.py\<close>): framing and the session server, the reconciliation plan, polling and routing; \<open>Comm_Rules\<close> has the rules of
    messages, polling and routing.
  \<^item> \<open>Supervisor\<close>, \<open>Ticks\<close> (\<^verbatim>\<open>supervisor.py\<close>): \<open>_run_wake\<close> from its first check to its \<open>except\<close> clause as an action over \<open>frame\<close>, its
    local variables with the database; leasing and running a tick, pausing, resuming, recovery and status. \<open>Effects\<close> sequences
    such actions and has the closure \<open>runs\<close> of the store's calls; \<open>Calls\<close> shows that the supervisor, the launcher, the workers and
    the session server move the database along it. \<open>Wake_Rules\<close> follows a wake to its end on every path, \<open>Recovery\<close> and
    \<open>Wake_Table\<close> what recovery and pausing close, \<open>Tick_Facts\<close> what a tick leases; \<open>Supervisor_Rules\<close> collects the rules and
    \<open>Supervisor_Example\<close> evaluates concrete runs.

  \<^bold>\<open>Concurrency.\<close> The threads of the supervisor share only the database, and each of its calls is one transaction or statement. The wakes
  of a tick run one after the other in the model; what the session server does while the provider process of a wake runs is
  the pair of functions \<open>wi_early\<close> and \<open>wi_meanwhile\<close> of the wake, of which the rules only assume that they call the store
  (\<open>quiet_inputs\<close>); \<open>serve_wake_runs\<close> shows it of the server itself.

  \<^bold>\<open>Parameters.\<close> SHA-256, \<open>uuid4\<close> and \<open>uuid5\<close>, the clock (a function from the index of a reading to an instant),
  \<open>datetime.fromisoformat\<close>, YAML loading, the \<^verbatim>\<open>gh\<close> command, and the answers of the operating system are arguments of the
  definitions that use them.

  \<^bold>\<open>Fuel.\<close> The page loop of a poll and the loops over a connection of the Project board end only when the source or the board hands out a
  last page, so they take fuel, one unit for each page; \<open>gb_fuel\<close> is that of the board. \<open>poll_returns\<close> and \<open>operations_return\<close> show that
  they return when each next cursor is nearer to the end than the cursor that was asked with, as measured by a rank on cursors: fuel above
  the rank of the start, which bounds the number of pages, is enough. Every other loop is structural or has a measure.

  \<^bold>\<open>Not modelled.\<close> Sockets, file modes and ownership, directories of the host, the provider's sandbox (\<^verbatim>\<open>provider.py\<close>),
  command lines (\<^verbatim>\<open>client.py\<close>, \<^verbatim>\<open>admin.py\<close>, \<^verbatim>\<open>service.py\<close>), the readers of the sources (\<^verbatim>\<open>sources.py\<close>), the configuration of the
  host (\<^verbatim>\<open>host_config.py\<close>), the governance pipeline, which runs gates as subprocesses and carries out
  planned reconciliations (\<^verbatim>\<open>governance.py\<close>), and the \<^verbatim>\<open>gh\<close> program itself.
\<close>

end
